(* ===== verification/Wcx_Prelude.thy ===== *)
theory Wcx_Prelude
  imports Main "HOL-Library.Code_Target_Nat"
begin

text \<open>
  Shared vocabulary of the development: Rust results, saturating machine integers, and the part of
  Rust's \<^verbatim>\<open>str\<close> and \<^verbatim>\<open>Vec\<close> API that the modelled code uses.

  A Rust \<^verbatim>\<open>str\<close> is its sequence of UTF-8 bytes, so it is a HOL \<^typ>\<open>string\<close> (a list of 8-bit
  characters): lengths and offsets are byte counts, as in the source. Operations that Rust defines
  on Unicode scalar values (trimming, counting characters, mapping characters) first group the
  bytes with \<open>chars\<close>.

  The theory also declares the rule collections that the component theories fill and use.
\<close>

named_theorems rust_ok
  "inversion rules for successful results"
named_theorems lifecycle_simps
  "executable characterisations of the job lifecycle predicates"

section \<open>Results\<close>

text \<open>
  \<^verbatim>\<open>Result<T, E>\<close> is the sum type with the error on the left; \<open>and_then\<close> is the \<^verbatim>\<open>?\<close> operator.
\<close>

type_synonym ('a, 'e) result = "'e + 'a"

abbreviation Ok :: "'a \<Rightarrow> ('a, 'e) result" where
  "Ok \<equiv> Inr"

abbreviation Err :: "'e \<Rightarrow> ('a, 'e) result" where
  "Err \<equiv> Inl"

definition and_then :: "('a, 'e) result \<Rightarrow> ('a \<Rightarrow> ('b, 'e) result) \<Rightarrow> ('b, 'e) result" where
  "and_then m f = (case m of Inl e \<Rightarrow> Inl e | Inr a \<Rightarrow> f a)"

definition guard_err :: "bool \<Rightarrow> 'e \<Rightarrow> (unit, 'e) result" where
  "guard_err b e = (if b then Err e else Ok ())"

definition map_err :: "('e \<Rightarrow> 'f) \<Rightarrow> ('a, 'e) result \<Rightarrow> ('a, 'f) result" where
  "map_err f r = (case r of Inl e \<Rightarrow> Inl (f e) | Inr a \<Rightarrow> Inr a)"

fun is_ok :: "('a, 'e) result \<Rightarrow> bool" where
  "is_ok (Inl _) = False"
| "is_ok (Inr _) = True"

lemma and_then_simps [simp]:
  "and_then (Inl e) f = Inl e"
  "and_then (Inr a) f = f a"
  by (simp_all add: and_then_def)

lemma and_then_Ok_iff [rust_ok]: "and_then m f = Inr b \<longleftrightarrow> (\<exists>a. m = Inr a \<and> f a = Inr b)"
  by (cases m) auto

lemma and_then_Err_iff: "and_then m f = Inl e \<longleftrightarrow> m = Inl e \<or> (\<exists>a. m = Inr a \<and> f a = Inl e)"
  by (cases m) auto

lemma guard_err_simps [simp]:
  "guard_err True e = Inl e"
  "guard_err False e = Inr ()"
  by (simp_all add: guard_err_def)

lemma guard_err_Ok_iff [rust_ok]: "guard_err b e = Inr u \<longleftrightarrow> \<not> b"
  by (cases b) auto

lemma guard_err_Err_iff: "guard_err b e = Inl e' \<longleftrightarrow> b \<and> e' = e"
  by (cases b) auto

lemma is_ok_iff: "is_ok r \<longleftrightarrow> (\<exists>a. r = Inr a)"
  by (cases r) auto

text \<open>\<^verbatim>\<open>Option::or\<close>.\<close>

definition or_else :: "'a option \<Rightarrow> 'a option \<Rightarrow> 'a option" where
  "or_else x y = (case x of None \<Rightarrow> y | Some a \<Rightarrow> Some a)"

section \<open>Machine integers\<close>

text \<open>
  \<^verbatim>\<open>usize\<close> and \<^verbatim>\<open>u64\<close> are natural numbers up to \<open>2 ^ 64 - 1\<close>; \<^verbatim>\<open>i64\<close> is an integer between its
  bounds. Only the saturating operations the source calls are written out.
\<close>

definition u64_max :: nat where
  "u64_max = 2 ^ 64 - 1"

definition sat_add :: "nat \<Rightarrow> nat \<Rightarrow> nat" where
  "sat_add a b = min u64_max (a + b)"

definition i64_min :: int where
  "i64_min = - (2 ^ 63)"

definition i64_max :: int where
  "i64_max = 2 ^ 63 - 1"

definition sat_sub_i64 :: "int \<Rightarrow> int \<Rightarrow> int" where
  "sat_sub_i64 a b = max i64_min (min i64_max (a - b))"

definition sat_add_i64 :: "int \<Rightarrow> int \<Rightarrow> int" where
  "sat_add_i64 a b = max i64_min (min i64_max (a + b))"

lemma sat_add_le [simp]: "sat_add a b \<le> u64_max"
  by (simp add: sat_add_def)

lemma sat_add_eq: "a + b \<le> u64_max \<Longrightarrow> sat_add a b = a + b"
  by (simp add: sat_add_def)

lemma sat_add_mono: "a \<le> a' \<Longrightarrow> b \<le> b' \<Longrightarrow> sat_add a b \<le> sat_add a' b'"
  by (auto simp: sat_add_def)

lemma sat_add_ge_left: "a \<le> u64_max \<Longrightarrow> a \<le> sat_add a b"
  by (simp add: sat_add_def)

section \<open>Bytes and characters\<close>

abbreviation LF :: char where
  "LF \<equiv> CHR 0x0A"

abbreviation CR :: char where
  "CR \<equiv> CHR 0x0D"

text \<open>A UTF-8 continuation byte is \<open>10xxxxxx\<close>; a byte index is a character boundary when it is the
  end of the string or does not point at a continuation byte.\<close>

definition is_cont :: "char \<Rightarrow> bool" where
  "is_cont c \<longleftrightarrow> (let n = of_char c :: nat in 128 \<le> n \<and> n < 192)"

definition is_char_boundary :: "string \<Rightarrow> nat \<Rightarrow> bool" where
  "is_char_boundary s i \<longleftrightarrow> i = length s \<or> (i < length s \<and> \<not> is_cont (s ! i))"

text \<open>\<open>chars s\<close> is \<^verbatim>\<open>s.chars()\<close>: each element is the byte group of one Unicode scalar value.\<close>

fun chars :: "string \<Rightarrow> string list" where
  "chars [] = []"
| "chars (c # cs) =
     (case chars cs of
        [] \<Rightarrow> [[c]]
      | g # gs \<Rightarrow> (case g of
            [] \<Rightarrow> [c] # g # gs
          | b # _ \<Rightarrow> if is_cont b then (c # g) # gs else [c] # g # gs))"

lemma concat_chars [simp]: "concat (chars s) = s"
  by (induction s) (auto split: list.splits)

lemma chars_nonempty_groups: "g \<in> set (chars s) \<Longrightarrow> g \<noteq> []"
  by (induction s arbitrary: g) (auto split: list.splits if_splits)

lemma chars_eq_Nil_iff [simp]: "chars s = [] \<longleftrightarrow> s = []"
  by (cases s) (auto split: list.splits)

lemma length_chars_le: "length (chars s) \<le> length s"
  by (induction s) (auto split: list.splits if_splits)

definition is_ascii_digit :: "char \<Rightarrow> bool" where
  "is_ascii_digit c \<longleftrightarrow> (let n = of_char c :: nat in 48 \<le> n \<and> n \<le> 57)"

definition is_ascii_lowercase :: "char \<Rightarrow> bool" where
  "is_ascii_lowercase c \<longleftrightarrow> (let n = of_char c :: nat in 97 \<le> n \<and> n \<le> 122)"

definition is_ascii_uppercase :: "char \<Rightarrow> bool" where
  "is_ascii_uppercase c \<longleftrightarrow> (let n = of_char c :: nat in 65 \<le> n \<and> n \<le> 90)"

definition is_ascii_hexdigit :: "char \<Rightarrow> bool" where
  "is_ascii_hexdigit c \<longleftrightarrow> is_ascii_digit c
     \<or> (let n = of_char c :: nat in (97 \<le> n \<and> n \<le> 102) \<or> (65 \<le> n \<and> n \<le> 70))"

definition is_lower_hexdigit :: "char \<Rightarrow> bool" where
  "is_lower_hexdigit c \<longleftrightarrow> is_ascii_digit c \<or> (let n = of_char c :: nat in 97 \<le> n \<and> n \<le> 102)"

definition ascii_lower :: "char \<Rightarrow> char" where
  "ascii_lower c = (if is_ascii_uppercase c then char_of (of_char c + 32 :: nat) else c)"

text \<open>The byte groups of the Unicode \<open>White_Space\<close> characters, which \<^verbatim>\<open>str::trim\<close> removes.\<close>

definition whitespace_chars :: "string list" where
  "whitespace_chars =
     [[CHR 0x09], [CHR 0x0A], [CHR 0x0B], [CHR 0x0C], [CHR 0x0D], [CHR 0x20],
      [CHR 0xC2, CHR 0x85], [CHR 0xC2, CHR 0xA0],
      [CHR 0xE1, CHR 0x9A, CHR 0x80],
      [CHR 0xE2, CHR 0x80, CHR 0x80], [CHR 0xE2, CHR 0x80, CHR 0x81],
      [CHR 0xE2, CHR 0x80, CHR 0x82], [CHR 0xE2, CHR 0x80, CHR 0x83],
      [CHR 0xE2, CHR 0x80, CHR 0x84], [CHR 0xE2, CHR 0x80, CHR 0x85],
      [CHR 0xE2, CHR 0x80, CHR 0x86], [CHR 0xE2, CHR 0x80, CHR 0x87],
      [CHR 0xE2, CHR 0x80, CHR 0x88], [CHR 0xE2, CHR 0x80, CHR 0x89],
      [CHR 0xE2, CHR 0x80, CHR 0x8A],
      [CHR 0xE2, CHR 0x80, CHR 0xA8], [CHR 0xE2, CHR 0x80, CHR 0xA9],
      [CHR 0xE2, CHR 0x80, CHR 0xAF], [CHR 0xE2, CHR 0x81, CHR 0x9F],
      [CHR 0xE3, CHR 0x80, CHR 0x80]]"

definition is_whitespace :: "string \<Rightarrow> bool" where
  "is_whitespace g \<longleftrightarrow> List.member whitespace_chars g"

definition trim_start :: "string \<Rightarrow> string" where
  "trim_start s = concat (dropWhile is_whitespace (chars s))"

definition trim_end :: "string \<Rightarrow> string" where
  "trim_end s = concat (rev (dropWhile is_whitespace (rev (chars s))))"

definition trim :: "string \<Rightarrow> string" where
  "trim s = concat (dropWhile is_whitespace (rev (dropWhile is_whitespace (rev (chars s)))))"

definition is_blank :: "string \<Rightarrow> bool" where
  "is_blank s \<longleftrightarrow> trim s = []"

section \<open>Character groups and trimming\<close>

text \<open>\<open>wf_groups\<close> characterises the images of \<open>chars\<close>, so that trimming can be reasoned about on groups.\<close>

definition wf_groups :: "string list \<Rightarrow> bool" where
  "wf_groups gs \<longleftrightarrow> (\<forall>g \<in> set gs. g \<noteq> [] \<and> list_all is_cont (tl g)) \<and> (\<forall>g \<in> set (tl gs). \<not> is_cont (hd g))"

lemma wf_groups_Nil [simp]: "wf_groups []"
  by (simp add: wf_groups_def)

lemma wf_groups_Cons:
  "wf_groups (g # gs) \<longleftrightarrow>
     g \<noteq> [] \<and> list_all is_cont (tl g) \<and> wf_groups gs \<and> (gs \<noteq> [] \<longrightarrow> \<not> is_cont (hd (hd gs)))"
  by (cases gs) (auto simp: wf_groups_def)

lemma wf_groups_chars: "wf_groups (chars s)"
  by (induction s) (auto simp: wf_groups_Cons split: list.splits)

lemma chars_group_append:
  "list_all is_cont cs \<Longrightarrow> chars rest = gs \<Longrightarrow> wf_groups gs \<Longrightarrow>
     (gs \<noteq> [] \<longrightarrow> \<not> is_cont (hd (hd gs))) \<Longrightarrow> chars (c # cs @ rest) = (c # cs) # gs"
proof (induction cs arbitrary: c)
  case Nil
  then show ?case by (auto split: list.splits)
next
  case (Cons d cs)
  then show ?case by simp
qed

lemma chars_concat_groups: "wf_groups gs \<Longrightarrow> chars (concat gs) = gs"
proof (induction gs)
  case (Cons g gs)
  then obtain c cs where g: "g = c # cs"
    by (cases g) (auto simp: wf_groups_Cons)
  have "chars (c # cs @ concat gs) = (c # cs) # gs"
    using Cons by (intro chars_group_append) (auto simp: g wf_groups_Cons)
  then show ?case by (simp only: g concat.simps append_Cons)
qed simp

lemma wf_groups_append:
  "wf_groups (gs @ hs) \<longleftrightarrow> wf_groups gs \<and> wf_groups hs \<and>
     (gs \<noteq> [] \<longrightarrow> hs \<noteq> [] \<longrightarrow> \<not> is_cont (hd (hd hs)))"
  by (induction gs) (auto simp: wf_groups_Cons hd_append)

lemma hd_hd_chars: "s \<noteq> [] \<Longrightarrow> hd (hd (chars s)) = hd s"
  by (metis concat_chars chars_eq_Nil_iff chars_nonempty_groups concat.simps(2) hd_append2 hd_Cons_tl list.set_sel(1))

lemma chars_append:
  assumes "x = [] \<or> \<not> is_cont (hd x)"
  shows "chars (p @ x) = chars p @ chars x"
proof -
  have "wf_groups (chars p @ chars x)"
    using assms by (auto simp: wf_groups_append wf_groups_chars hd_hd_chars)
  from chars_concat_groups [OF this] show ?thesis by simp
qed

lemma wf_groups_trim: "wf_groups (dropWhile is_whitespace (rev (dropWhile is_whitespace (rev (chars s)))))"
proof -
  obtain ys where 1: "rev (chars s) = ys @ dropWhile is_whitespace (rev (chars s))"
    by (metis takeWhile_dropWhile_id)
  let ?r = "rev (dropWhile is_whitespace (rev (chars s)))"
  obtain zs where 2: "?r = zs @ dropWhile is_whitespace ?r"
    by (metis takeWhile_dropWhile_id)
  have "chars s = ?r @ rev ys"
    using 1 by (metis rev_append rev_rev_ident)
  then have "wf_groups ?r"
    by (metis wf_groups_append wf_groups_chars)
  then show ?thesis
    using 2 by (metis wf_groups_append)
qed

lemma chars_trim: "chars (trim s) = dropWhile is_whitespace (rev (dropWhile is_whitespace (rev (chars s))))"
  by (simp add: trim_def chars_concat_groups wf_groups_trim)

lemma dropWhile_id: "xs = [] \<or> \<not> P (hd xs) \<Longrightarrow> dropWhile P xs = xs"
  by (cases xs) auto

lemma hd_chars_trim: "trim s \<noteq> [] \<Longrightarrow> \<not> is_whitespace (hd (chars (trim s)))"
  by (metis chars_trim chars_eq_Nil_iff hd_dropWhile)

lemma last_chars_trim: "trim s \<noteq> [] \<Longrightarrow> \<not> is_whitespace (last (chars (trim s)))"
proof -
  let ?r = "rev (dropWhile is_whitespace (rev (chars s)))"
  assume "trim s \<noteq> []"
  then have ne: "dropWhile is_whitespace ?r \<noteq> []"
    by (metis chars_trim chars_eq_Nil_iff)
  then have r: "?r \<noteq> []" by (metis dropWhile.simps(1))
  have "last (dropWhile is_whitespace ?r) = last ?r"
    using ne by (metis takeWhile_dropWhile_id last_appendR)
  moreover have "\<not> is_whitespace (last ?r)"
    using r by (metis hd_dropWhile last_rev rev_is_Nil_conv)
  ultimately show ?thesis by (simp add: chars_trim)
qed

lemma trim_id_iff:
  "trim s = s \<longleftrightarrow> s = [] \<or> \<not> is_whitespace (hd (chars s)) \<and> \<not> is_whitespace (last (chars s))"
proof
  assume "trim s = s"
  then show "s = [] \<or> \<not> is_whitespace (hd (chars s)) \<and> \<not> is_whitespace (last (chars s))"
    by (metis hd_chars_trim last_chars_trim)
next
  assume "s = [] \<or> \<not> is_whitespace (hd (chars s)) \<and> \<not> is_whitespace (last (chars s))"
  then show "trim s = s"
    by (auto simp: trim_def dropWhile_id hd_rev)
qed

lemma trim_trim [simp]: "trim (trim s) = trim s"
  using trim_id_iff [of "trim s"] hd_chars_trim [of s] last_chars_trim [of s] by blast

lemma trim_end_id: "s = [] \<or> \<not> is_whitespace (last (chars s)) \<Longrightarrow> trim_end s = s"
  by (auto simp: trim_end_def dropWhile_id hd_rev)

lemma trim_end_prefix: "\<exists>t. s = trim_end s @ t"
proof -
  obtain ys where "rev (chars s) = ys @ dropWhile is_whitespace (rev (chars s))"
    by (metis takeWhile_dropWhile_id)
  then have "chars s = rev (dropWhile is_whitespace (rev (chars s))) @ rev ys"
    by (metis rev_append rev_rev_ident)
  then show ?thesis
    by (metis trim_end_def concat_append concat_chars)
qed

lemma set_trim_end: "set (trim_end s) \<subseteq> set s"
  using trim_end_prefix [of s] by (metis set_append sup_ge1)

lemma set_trim: "set (trim s) \<subseteq> set s"
proof -
  have "set (trim s) \<subseteq> \<Union> (set ` set (chars s))"
    by (auto simp: trim_def dest!: set_dropWhileD) (metis set_dropWhileD set_rev)
  also have "\<dots> = set s"
    by (metis concat_chars set_concat)
  finally show ?thesis .
qed

lemma whitespace_group_hd:
  "is_whitespace g \<Longrightarrow> hd g \<in> set (map hd whitespace_chars)"
  by (auto simp: is_whitespace_def)

lemma whitespace_hds: "set (map hd whitespace_chars) = {CHR 0x09, CHR 0x0A, CHR 0x0B, CHR 0x0C, CHR 0x0D, CHR 0x20, CHR 0xC2, CHR 0xE1, CHR 0xE2, CHR 0xE3}"
  by (auto simp: whitespace_chars_def)

lemma trim_groups_Nil:
  assumes "dropWhile P (rev (dropWhile P (rev gs))) = []"
  shows "\<forall>g \<in> set gs. P g"
proof -
  have "\<forall>g \<in> set (dropWhile P (rev gs)). P g"
    using assms by simp
  moreover have "set gs = set (takeWhile P (rev gs)) \<union> set (dropWhile P (rev gs))"
    by (metis set_append set_rev takeWhile_dropWhile_id)
  ultimately show ?thesis
    by (auto dest: set_takeWhileD)
qed

lemma not_blank_hd:
  assumes "c \<notin> set (map hd whitespace_chars)"
  shows "\<not> is_blank (c # s)"
proof
  assume "is_blank (c # s)"
  then have "dropWhile is_whitespace (rev (dropWhile is_whitespace (rev (chars (c # s))))) = []"
    by (metis is_blank_def chars_trim chars_eq_Nil_iff)
  then have "\<forall>g \<in> set (chars (c # s)). is_whitespace g"
    by (rule trim_groups_Nil)
  then have "is_whitespace (hd (chars (c # s)))"
    by (metis chars_eq_Nil_iff list.distinct(1) list.set_sel(1))
  then have "hd (hd (chars (c # s))) \<in> set (map hd whitespace_chars)"
    by (rule whitespace_group_hd)
  then show False
    using assms hd_hd_chars [of "c # s"] by simp
qed

section \<open>Splitting and joining\<close>

fun split_on :: "char \<Rightarrow> string \<Rightarrow> string list" where
  "split_on d [] = [[]]"
| "split_on d (c # cs) =
     (if c = d then [] # split_on d cs
      else (case split_on d cs of [] \<Rightarrow> [[c]] | l # ls \<Rightarrow> (c # l) # ls))"

fun join :: "string \<Rightarrow> string list \<Rightarrow> string" where
  "join sep [] = []"
| "join sep [x] = x"
| "join sep (x # y # ys) = x @ sep @ join sep (y # ys)"

text \<open>\<^verbatim>\<open>split_inclusive('\n')\<close>: every piece keeps its newline and no empty last piece is produced.\<close>

fun split_inclusive :: "string \<Rightarrow> string list" where
  "split_inclusive [] = []"
| "split_inclusive (c # cs) =
     (if c = LF then [c] # split_inclusive cs
      else (case split_inclusive cs of [] \<Rightarrow> [[c]] | l # ls \<Rightarrow> (c # l) # ls))"

definition strip_line_end :: "string \<Rightarrow> string" where
  "strip_line_end l =
     (if l \<noteq> [] \<and> last l = LF then
        (let l' = butlast l in if l' \<noteq> [] \<and> last l' = CR then butlast l' else l')
      else l)"

definition str_lines :: "string \<Rightarrow> string list" where
  "str_lines s = map strip_line_end (split_inclusive s)"

fun strip_prefix :: "'a list \<Rightarrow> 'a list \<Rightarrow> 'a list option" where
  "strip_prefix [] s = Some s"
| "strip_prefix (p # ps) [] = None"
| "strip_prefix (p # ps) (c # cs) = (if p = c then strip_prefix ps cs else None)"

definition starts_with :: "'a list \<Rightarrow> 'a list \<Rightarrow> bool" where
  "starts_with s p \<longleftrightarrow> strip_prefix p s \<noteq> None"

definition ends_with :: "'a list \<Rightarrow> 'a list \<Rightarrow> bool" where
  "ends_with s p \<longleftrightarrow> strip_prefix (rev p) (rev s) \<noteq> None"

text \<open>\<^verbatim>\<open>str::replace\<close> for the two literal patterns the source uses.\<close>

fun replace_crlf_lf :: "string \<Rightarrow> string" where
  "replace_crlf_lf [] = []"
| "replace_crlf_lf [c] = [c]"
| "replace_crlf_lf (c # d # cs) =
     (if c = CR \<and> d = LF then LF # replace_crlf_lf cs else c # replace_crlf_lf (d # cs))"

definition replace_lf_crlf :: "string \<Rightarrow> string" where
  "replace_lf_crlf s = concat (map (\<lambda>c. if c = LF then [CR, LF] else [c]) s)"

definition count_lf :: "string \<Rightarrow> nat" where
  "count_lf s = length (filter (\<lambda>c. c = LF) s)"

lemma split_on_nonempty [simp]: "split_on d s \<noteq> []"
  by (induction s) (auto split: list.splits)

lemma join_split_on [simp]: "join [d] (split_on d s) = s"
proof (induction s)
  case (Cons c cs)
  obtain l ls where eq: "split_on d cs = l # ls"
    by (cases "split_on d cs") auto
  with Cons show ?case by (cases ls) auto
qed simp

lemma split_on_no_sep: "l \<in> set (split_on d s) \<Longrightarrow> d \<notin> set l"
  by (induction s arbitrary: l) (auto split: list.splits if_splits)

lemma split_on_single: "d \<notin> set l \<Longrightarrow> split_on d l = [l]"
  by (induction l) auto

lemma split_on_append_sep: "d \<notin> set l \<Longrightarrow> split_on d (l @ d # s) = l # split_on d s"
  by (induction l) auto

lemma split_on_join:
  "ls \<noteq> [] \<Longrightarrow> (\<forall>l \<in> set ls. d \<notin> set l) \<Longrightarrow> split_on d (join [d] ls) = ls"
proof (induction ls)
  case (Cons l ls)
  then show ?case by (cases ls) (auto simp: split_on_append_sep split_on_single)
qed simp

lemma concat_split_inclusive [simp]: "concat (split_inclusive s) = s"
  by (induction s) (auto split: list.splits)

lemma split_inclusive_nonempty_pieces: "l \<in> set (split_inclusive s) \<Longrightarrow> l \<noteq> []"
  by (induction s arbitrary: l) (auto split: list.splits if_splits)

lemma split_inclusive_eq_Nil_iff [simp]: "split_inclusive s = [] \<longleftrightarrow> s = []"
  by (cases s) (auto split: list.splits)

lemma length_str_lines [simp]: "length (str_lines s) = length (split_inclusive s)"
  by (simp add: str_lines_def)

lemma strip_prefix_Some_iff: "strip_prefix p s = Some t \<longleftrightarrow> s = p @ t"
  by (induction p s rule: strip_prefix.induct) auto

lemma strip_prefix_append [simp]: "strip_prefix p (p @ t) = Some t"
  by (simp add: strip_prefix_Some_iff)

lemma starts_with_iff: "starts_with s p \<longleftrightarrow> (\<exists>t. s = p @ t)"
  using strip_prefix_Some_iff by (auto simp: starts_with_def)

lemma starts_with_append [simp]: "starts_with (p @ t) p"
  by (auto simp: starts_with_iff)

lemma ends_with_iff: "ends_with s p \<longleftrightarrow> (\<exists>t. s = t @ p)"
proof
  assume "ends_with s p"
  then obtain t where "rev s = rev p @ t"
    by (auto simp: ends_with_def strip_prefix_Some_iff)
  then have "s = rev t @ p"
    by (metis rev_append rev_rev_ident)
  then show "\<exists>t. s = t @ p" ..
qed (auto simp: ends_with_def)

lemma count_lf_append [simp]: "count_lf (s @ t) = count_lf s + count_lf t"
  by (simp add: count_lf_def)

lemma count_lf_simps [simp]:
  "count_lf [] = 0"
  "count_lf (c # s) = (if c = LF then Suc (count_lf s) else count_lf s)"
  by (simp_all add: count_lf_def)

lemma count_lf_le_length: "count_lf s \<le> length s"
  by (simp add: count_lf_def)

section \<open>Vectors\<close>

text \<open>\<^verbatim>\<open>v.splice(start..start + n, r)\<close> for a range that lies inside the vector.\<close>

definition splice :: "'a list \<Rightarrow> nat \<Rightarrow> nat \<Rightarrow> 'a list \<Rightarrow> 'a list" where
  "splice xs start n r = take start xs @ r @ drop (start + n) xs"

definition slice :: "'a list \<Rightarrow> nat \<Rightarrow> nat \<Rightarrow> 'a list" where
  "slice xs i j = take (j - i) (drop i xs)"

text \<open>\<^verbatim>\<open>pop_front\<close> until at most \<open>n\<close> elements are left.\<close>

definition pop_front_to :: "nat \<Rightarrow> 'a list \<Rightarrow> 'a list" where
  "pop_front_to n xs = drop (length xs - n) xs"

text \<open>Pushing onto a vector only while it is shorter than a cap.\<close>

definition push_capped :: "nat \<Rightarrow> 'a list \<Rightarrow> 'a \<Rightarrow> 'a list" where
  "push_capped n xs x = (if length xs < n then xs @ [x] else xs)"

lemma push_capped_take: "push_capped n (take n xs) x = take n (xs @ [x])"
  by (auto simp: push_capped_def)

lemma length_slice: "j \<le> length xs \<Longrightarrow> length (slice xs i j) = j - i"
  by (simp add: slice_def)

lemma slice_append_slice:
  assumes "i \<le> j" "j \<le> k"
  shows "slice xs i j @ slice xs j k = slice xs i k"
proof -
  obtain a b where "j = i + a" "k = i + a + b"
    using assms by (metis le_Suc_ex)
  then show ?thesis
    by (simp add: slice_def take_add add.commute)
qed

section \<open>Decimal numbers\<close>

text \<open>\<^verbatim>\<open>Display\<close> of an unsigned integer, as used by \<^verbatim>\<open>format!\<close>.\<close>

fun show_nat :: "nat \<Rightarrow> string" where
  "show_nat n = (if n < 10 then [char_of (48 + n)] else show_nat (n div 10) @ [char_of (48 + n mod 10)])"

declare show_nat.simps [simp del]

lemma is_digit_char: "d < 10 \<Longrightarrow> is_ascii_digit (char_of (48 + d :: nat))"
  by (simp add: is_ascii_digit_def Let_def)

lemma show_nat_digits: "show_nat n \<noteq> [] \<and> list_all is_ascii_digit (show_nat n)"
proof (induction n rule: show_nat.induct)
  case (1 n)
  then show ?case by (subst (1 2) show_nat.simps) (auto simp: is_digit_char)
qed

lemma length_show_nat: "n < 10 ^ Suc k \<Longrightarrow> length (show_nat n) \<le> Suc k"
proof (induction k arbitrary: n)
  case 0
  then show ?case by (simp add: show_nat.simps)
next
  case (Suc k)
  show ?case
  proof (cases "n < 10")
    case False
    have "n div 10 < 10 ^ Suc k" using Suc.prems by simp
    from Suc.IH [OF this] show ?thesis using False by (subst show_nat.simps) simp
  qed (simp add: show_nat.simps)
qed

end
