(* ===== verification/Text_Edits.thy ===== *)
theory Text_Edits
  imports Wcx_Prelude
begin

text \<open>
  The exact text-edit language shared by Server and Runner,
  \<^verbatim>\<open>webcodex-core/src/apply_edits_shared.rs\<close>: line-ending detection, canonicalisation and
  restoration, resolution of complete line ranges, and resolution of exact occurrences (one, or all
  of an expected count) under an optional line fence. Texts are UTF-8 byte strings and every range is
  a pair of byte offsets, as in the source. The one \<^verbatim>\<open>expect\<close> of each resolver is a \<open>EditPanic\<close>
  value, so that its unreachability is a theorem.
\<close>

section \<open>Line endings\<close>

datatype apply_text_line_ending = LeNone | LeLf | LeCrlf

fun detect_scan :: "bool \<Rightarrow> bool \<Rightarrow> string \<Rightarrow> (bool \<times> bool, string) result" where
  "detect_scan saw_lf saw_crlf [] = Ok (saw_lf, saw_crlf)"
| "detect_scan saw_lf saw_crlf (c # cs) =
     (if c = CR then
        (case cs of
           [] \<Rightarrow> Err ''file contains unsupported bare CR line endings''
         | d # ds \<Rightarrow>
             if d = LF then detect_scan saw_lf True ds
             else Err ''file contains unsupported bare CR line endings'')
      else if c = LF then detect_scan True saw_crlf cs
      else detect_scan saw_lf saw_crlf cs)"

definition detect_apply_text_line_ending :: "string \<Rightarrow> (apply_text_line_ending, string) result" where
  "detect_apply_text_line_ending text =
     and_then (detect_scan False False text) (\<lambda>(saw_lf, saw_crlf).
       if saw_lf \<and> saw_crlf then Err ''file contains mixed LF and CRLF line endings''
       else if saw_lf then Ok LeLf
       else if saw_crlf then Ok LeCrlf
       else Ok LeNone)"

fun has_bare_cr :: "string \<Rightarrow> bool" where
  "has_bare_cr [] = False"
| "has_bare_cr [c] = (c = CR)"
| "has_bare_cr (c # d # cs) = ((c = CR \<and> d \<noteq> LF) \<or> has_bare_cr (d # cs))"

definition canonicalize_apply_text_line_endings ::
    "string \<Rightarrow> apply_text_line_ending \<Rightarrow> (string, string) result" where
  "canonicalize_apply_text_line_endings text line_ending =
     (if \<not> List.member text CR then Ok text
      else if has_bare_cr text then Err ''edit text contains unsupported bare CR line endings''
      else if line_ending = LeNone then Ok text
      else Ok (replace_crlf_lf text))"

fun restore_apply_text_line_endings :: "string \<Rightarrow> apply_text_line_ending \<Rightarrow> string" where
  "restore_apply_text_line_endings text LeCrlf = replace_lf_crlf text"
| "restore_apply_text_line_endings text LeNone = text"
| "restore_apply_text_line_endings text LeLf = text"

section \<open>Edit requests\<close>

datatype apply_text_edit_kind =
  ReplaceExact | ReplaceRange | InsertAfter | InsertBefore | DeleteExact

fun edit_kind_as_str :: "apply_text_edit_kind \<Rightarrow> string" where
  "edit_kind_as_str ReplaceExact = ''replace_exact''"
| "edit_kind_as_str ReplaceRange = ''replace_range''"
| "edit_kind_as_str InsertAfter = ''insert_after''"
| "edit_kind_as_str InsertBefore = ''insert_before''"
| "edit_kind_as_str DeleteExact = ''delete_exact''"

record apply_text_line_scope =
  start_line :: nat
  end_line :: nat

definition validate_scope :: "apply_text_line_scope \<Rightarrow> (unit, string) result" where
  "validate_scope scope =
     (if start_line scope = 0 then Err ''line_scope.start_line must be at least 1''
      else if end_line scope = 0 then Err ''line_scope.end_line must be at least 1''
      else if end_line scope < start_line scope
        then Err ''line_scope.end_line must be greater than or equal to start_line''
      else Ok ())"

datatype edit_err = EditErr string | EditPanic string

fun line_range_loop ::
    "apply_text_line_scope \<Rightarrow> string list \<Rightarrow> nat \<Rightarrow> nat \<Rightarrow> nat option
     \<Rightarrow> (nat \<times> nat, edit_err) result" where
  "line_range_loop rng [] index offset start =
     Err (EditErr ''replace_range exceeds the original file's line count'')"
| "line_range_loop rng (line # lines) index offset start =
     (let start = (if index + 1 = start_line rng then Some offset else start);
          offset = offset + length line
      in if index + 1 = end_line rng then
           (case start of
              None \<Rightarrow> Err (EditPanic ''validated line order'')
            | Some s \<Rightarrow> Ok (s, offset))
         else line_range_loop rng lines (index + 1) offset start)"

definition resolve_apply_text_line_range ::
    "string \<Rightarrow> apply_text_line_scope \<Rightarrow> (nat \<times> nat, edit_err) result" where
  "resolve_apply_text_line_range source rng =
     (case validate_scope rng of
        Inl e \<Rightarrow> Err (EditErr e)
      | Inr _ \<Rightarrow> line_range_loop rng (split_inclusive source) 0 0 None)"

section \<open>Exact occurrences\<close>

record apply_text_match_candidate =
  occurrence :: nat
  cand_start_line :: nat
  cand_end_line :: nat

definition scope_contains :: "apply_text_line_scope \<Rightarrow> apply_text_match_candidate \<Rightarrow> bool" where
  "scope_contains scope candidate \<longleftrightarrow>
     start_line scope \<le> cand_start_line candidate \<and> cand_end_line candidate \<le> end_line scope"

definition in_scope :: "apply_text_line_scope option \<Rightarrow> apply_text_match_candidate \<Rightarrow> bool" where
  "in_scope line_scope candidate \<longleftrightarrow>
     (case line_scope of None \<Rightarrow> True | Some scope \<Rightarrow> scope_contains scope candidate)"

definition MAX_APPLY_TEXT_CONFLICT_CANDIDATES :: nat where
  "MAX_APPLY_TEXT_CONFLICT_CANDIDATES = 5"

definition MAX_APPLY_TEXT_EXPECTED_MATCH_COUNT :: nat where
  "MAX_APPLY_TEXT_EXPECTED_MATCH_COUNT = 1024"

definition MAX_APPLY_TEXT_MATCH_RANGES_PER_EDIT :: nat where
  "MAX_APPLY_TEXT_MATCH_RANGES_PER_EDIT = 8"

text \<open>
  \<^verbatim>\<open>str::match_indices\<close>: the start offsets of the non-overlapping occurrences, from left to right.
  An empty needle matches at every character boundary.
\<close>

function match_from :: "nat \<Rightarrow> string \<Rightarrow> string \<Rightarrow> nat list" where
  "match_from i hay needle =
     (if needle = [] \<or> length hay < length needle then []
      else if starts_with hay needle
        then i # match_from (i + length needle) (drop (length needle) hay) needle
      else match_from (i + 1) (tl hay) needle)"
  by pat_completeness auto
termination
  by (relation "measure (\<lambda>(i, hay, needle). length hay)") (auto intro: diff_less)

declare match_from.simps [simp del]

definition match_indices :: "string \<Rightarrow> string \<Rightarrow> nat list" where
  "match_indices original needle =
     (if needle = [] then filter (is_char_boundary original) [0 ..< length original + 1]
      else match_from 0 original needle)"

subsection \<open>All occurrences of an expected count\<close>

record apply_text_bulk_matches =
  ranges :: "(nat \<times> nat) list"
  match_count :: nat
  candidate_ranges :: "apply_text_match_candidate list"
  evidence_ranges :: "apply_text_match_candidate list"
  candidates_truncated :: bool

record bulk_state =
  bs_ranges :: "(nat \<times> nat) list"
  bs_candidates :: "apply_text_match_candidate list"
  bs_evidence :: "apply_text_match_candidate list"
  bs_global_occurrence :: nat
  bs_match_count :: nat
  bs_line_cursor :: nat
  bs_current_line :: nat

definition bulk_step ::
    "string \<Rightarrow> string \<Rightarrow> apply_text_line_scope option \<Rightarrow> nat \<Rightarrow> bulk_state \<Rightarrow> bulk_state" where
  "bulk_step original needle line_scope start st =
     (let newlines = count_lf needle;
          ends_with_newline = (if ends_with needle [LF] then 1 else 0);
          current_line = bs_current_line st + count_lf (slice original (bs_line_cursor st) start);
          global_occurrence = bs_global_occurrence st + 1;
          candidate = \<lparr>occurrence = global_occurrence, cand_start_line = current_line,
                       cand_end_line = current_line + (newlines - ends_with_newline)\<rparr>;
          st = st\<lparr>bs_current_line := current_line, bs_line_cursor := start,
                  bs_global_occurrence := global_occurrence\<rparr>
      in if in_scope line_scope candidate then
           st\<lparr>bs_match_count := bs_match_count st + 1,
              bs_ranges := push_capped MAX_APPLY_TEXT_EXPECTED_MATCH_COUNT (bs_ranges st)
                             (start, start + length needle),
              bs_candidates := push_capped MAX_APPLY_TEXT_CONFLICT_CANDIDATES
                                 (bs_candidates st) candidate,
              bs_evidence := push_capped MAX_APPLY_TEXT_MATCH_RANGES_PER_EDIT
                               (bs_evidence st) candidate\<rparr>
         else st)"

definition bulk_init :: bulk_state where
  "bulk_init = \<lparr>bs_ranges = [], bs_candidates = [], bs_evidence = [], bs_global_occurrence = 0,
     bs_match_count = 0, bs_line_cursor = 0, bs_current_line = 1\<rparr>"

definition resolve_apply_text_bulk_matches ::
    "string \<Rightarrow> string \<Rightarrow> apply_text_line_scope option \<Rightarrow> apply_text_bulk_matches" where
  "resolve_apply_text_bulk_matches original needle line_scope =
     (let st = fold (bulk_step original needle line_scope) (match_indices original needle)
                 bulk_init
      in \<lparr>ranges = bs_ranges st, match_count = bs_match_count st,
          candidate_ranges = bs_candidates st, evidence_ranges = bs_evidence st,
          candidates_truncated = (MAX_APPLY_TEXT_CONFLICT_CANDIDATES < bs_match_count st)\<rparr>)"

subsection \<open>One occurrence\<close>

datatype apply_text_match_conflict_kind =
  MatchNotFound | MultipleMatches | OccurrenceOutOfRange | OccurrenceOutsideLineScope

fun conflict_kind_as_str :: "apply_text_match_conflict_kind \<Rightarrow> string" where
  "conflict_kind_as_str MatchNotFound = ''match_not_found''"
| "conflict_kind_as_str MultipleMatches = ''multiple_matches''"
| "conflict_kind_as_str OccurrenceOutOfRange = ''occurrence_out_of_range''"
| "conflict_kind_as_str OccurrenceOutsideLineScope = ''occurrence_outside_line_scope''"

record apply_text_match_conflict =
  conflict_kind :: apply_text_match_conflict_kind
  conflict_match_count :: nat
  requested_occurrence :: "nat option"
  conflict_line_scope :: "apply_text_line_scope option"
  line_scope_match_count :: "nat option"
  conflict_candidates :: "apply_text_match_candidate list"
  conflict_truncated :: bool

datatype match_err = Conflict apply_text_match_conflict | MatchPanic string

record match_state =
  ms_candidates :: "apply_text_match_candidate list"
  ms_match_count :: nat
  ms_scope_count :: nat
  ms_selected_occurrence :: "(nat \<times> nat \<times> apply_text_match_candidate) option"
  ms_selected_eligible :: "(nat \<times> nat) option"
  ms_line_cursor :: nat
  ms_current_line :: nat

definition match_step ::
    "string \<Rightarrow> string \<Rightarrow> nat option \<Rightarrow> apply_text_line_scope option \<Rightarrow> nat \<Rightarrow> match_state
     \<Rightarrow> match_state" where
  "match_step original needle occ line_scope start st =
     (let needle_newlines = count_lf needle;
          needle_ends_with_newline = (needle \<noteq> [] \<and> last needle = LF);
          current_line = sat_add (ms_current_line st)
                           (count_lf (slice original (ms_line_cursor st) start));
          count = sat_add (ms_match_count st) 1;
          endl = (if needle_ends_with_newline then sat_add current_line (needle_newlines - 1)
                  else sat_add current_line needle_newlines);
          candidate = \<lparr>occurrence = count, cand_start_line = current_line,
                       cand_end_line = max endl current_line\<rparr>;
          st = st\<lparr>ms_current_line := current_line, ms_line_cursor := start, ms_match_count := count\<rparr>;
          st = (if in_scope line_scope candidate then
                  st\<lparr>ms_scope_count := sat_add (ms_scope_count st) 1,
                     ms_selected_eligible := Some (start, start + length needle),
                     ms_candidates := push_capped MAX_APPLY_TEXT_CONFLICT_CANDIDATES
                                        (ms_candidates st) candidate\<rparr>
                else st)
      in if occ = Some count then
           st\<lparr>ms_selected_occurrence := Some (start, start + length needle, candidate)\<rparr>
         else st)"

definition match_init :: match_state where
  "match_init = \<lparr>ms_candidates = [], ms_match_count = 0, ms_scope_count = 0,
     ms_selected_occurrence = None, ms_selected_eligible = None, ms_line_cursor = 0,
     ms_current_line = 1\<rparr>"

definition match_scan ::
    "string \<Rightarrow> string \<Rightarrow> nat option \<Rightarrow> apply_text_line_scope option \<Rightarrow> match_state" where
  "match_scan original needle occ line_scope =
     fold (match_step original needle occ line_scope) (match_indices original needle)
       match_init"

definition resolve_apply_text_match ::
    "string \<Rightarrow> string \<Rightarrow> nat option \<Rightarrow> apply_text_line_scope option
     \<Rightarrow> (nat \<times> nat, match_err) result" where
  "resolve_apply_text_match original needle occ line_scope =
     (let st = match_scan original needle occ line_scope;
          count = ms_match_count st;
          scoped = map_option (\<lambda>_. ms_scope_count st) line_scope;
          eligible_count = (case scoped of None \<Rightarrow> count | Some n \<Rightarrow> n);
          truncated = (MAX_APPLY_TEXT_CONFLICT_CANDIDATES < eligible_count);
          conflict = (\<lambda>kind req. Conflict
            \<lparr>conflict_kind = kind, conflict_match_count = count, requested_occurrence = req,
             conflict_line_scope = line_scope, line_scope_match_count = scoped,
             conflict_candidates = ms_candidates st, conflict_truncated = truncated\<rparr>)
      in if count = 0 then Err (conflict MatchNotFound occ)
         else
           case occ of
             Some requested \<Rightarrow>
               if requested = 0 \<or> count < requested
                 then Err (conflict OccurrenceOutOfRange (Some requested))
               else (case ms_selected_occurrence st of
                   None \<Rightarrow> Err (MatchPanic ''requested exact occurrence counted above'')
                 | Some (start, e, candidate) \<Rightarrow>
                     if \<not> in_scope line_scope candidate
                       then Err (conflict OccurrenceOutsideLineScope (Some requested))
                     else Ok (start, e))
           | None \<Rightarrow>
               if eligible_count = 0 then Err (conflict MatchNotFound None)
               else if 1 < eligible_count then Err (conflict MultipleMatches None)
               else (case ms_selected_eligible st of
                   None \<Rightarrow> Err (MatchPanic ''unique eligible exact match counted above'')
                 | Some r \<Rightarrow> Ok r))"

section \<open>File changes\<close>

datatype apply_file_change_kind = ChEdit | ChWrite | ChCreate | ChDelete | ChRename

fun change_kind_as_str :: "apply_file_change_kind \<Rightarrow> string" where
  "change_kind_as_str ChEdit = ''edit''"
| "change_kind_as_str ChWrite = ''write''"
| "change_kind_as_str ChCreate = ''create''"
| "change_kind_as_str ChDelete = ''delete''"
| "change_kind_as_str ChRename = ''rename''"

definition is_lowercase_hex_sha256 :: "string \<Rightarrow> bool" where
  "is_lowercase_hex_sha256 value \<longleftrightarrow> length value = 64 \<and> list_all is_lower_hexdigit value"

section \<open>Line endings: the round trip\<close>

lemma detect_scan_mono: "detect_scan a b t = Ok (l, c) \<Longrightarrow> (a \<longrightarrow> l) \<and> (b \<longrightarrow> c)"
  by (induction a b t rule: detect_scan.induct) (auto split: if_splits list.splits)

lemma replace_crlf_lf_Cons [simp]: "c \<noteq> CR \<Longrightarrow> replace_crlf_lf (c # cs) = c # replace_crlf_lf cs"
  by (cases cs) auto

lemma replace_lf_crlf_simps [simp]:
  "replace_lf_crlf [] = []"
  "replace_lf_crlf (c # cs) = (if c = LF then CR # LF # replace_lf_crlf cs else c # replace_lf_crlf cs)"
  by (simp_all add: replace_lf_crlf_def)

lemma has_bare_cr_Cons: "c \<noteq> CR \<Longrightarrow> has_bare_cr (c # cs) = has_bare_cr cs"
  by (cases cs) auto

lemma detect_scan_no_bare_cr: "detect_scan a b t = Ok r \<Longrightarrow> \<not> has_bare_cr t"
  by (induction a b t rule: detect_scan.induct)
    (auto simp: has_bare_cr_Cons split: if_splits list.splits)

lemma detect_scan_crlf_roundtrip:
  "detect_scan a b t = Ok (False, c) \<Longrightarrow> replace_lf_crlf (replace_crlf_lf t) = t"
  by (induction a b t rule: detect_scan.induct)
    (auto split: if_splits list.splits dest: detect_scan_mono)

lemma detect_scan_no_cr: "detect_scan a b t = Ok (l, False) \<Longrightarrow> CR \<notin> set t"
  by (induction a b t rule: detect_scan.induct)
    (auto split: if_splits list.splits dest: detect_scan_mono)

lemma detect_scan_cr_seen: "detect_scan a False t = Ok (l, True) \<Longrightarrow> CR \<in> set t"
proof -
  have "detect_scan a b t = Ok (l, c) \<Longrightarrow> c \<Longrightarrow> \<not> b \<Longrightarrow> CR \<in> set t" for b c
    by (induction a b t rule: detect_scan.induct) (auto split: if_splits list.splits)
  then show "detect_scan a False t = Ok (l, True) \<Longrightarrow> ?thesis" by blast
qed

lemma replace_crlf_lf_no_cr: "\<not> has_bare_cr t \<Longrightarrow> CR \<notin> set (replace_crlf_lf t)"
  by (induction t rule: replace_crlf_lf.induct) (auto simp: has_bare_cr_Cons split: if_splits)

lemma detect_Ok_cases:
  assumes "detect_apply_text_line_ending text = Ok le"
  obtains l c where "detect_scan False False text = Ok (l, c)"
    and "le = (if l then LeLf else if c then LeCrlf else LeNone)" and "\<not> (l \<and> c)"
  using assms by (auto simp: detect_apply_text_line_ending_def rust_ok split: if_splits)

section \<open>Line ranges\<close>

lemma line_range_loop_spec:
  assumes "1 \<le> start_line rng" "start_line rng \<le> end_line rng" "i < end_line rng"
    and "st = (if start_line rng \<le> i then Some s0 else None)"
  shows "line_range_loop rng ls i off st =
    (if end_line rng - i \<le> length ls
     then Ok (if start_line rng \<le> i then s0
              else off + length (concat (take (start_line rng - 1 - i) ls)),
              off + length (concat (take (end_line rng - i) ls)))
     else Err (EditErr ''replace_range exceeds the original file's line count''))"
  using assms(3,4)
proof (induction ls arbitrary: i off st s0)
  case Nil
  with assms show ?case by simp
next
  case (Cons l ls)
  define st' where "st' = (if i + 1 = start_line rng then Some off else st)"
  have st': "st' = (if start_line rng \<le> Suc i
      then Some (if start_line rng \<le> i then s0 else off) else None)"
    using Cons.prems by (auto simp: st'_def)
  have unf: "line_range_loop rng (l # ls) i off st =
      (if i + 1 = end_line rng then
         (case st' of None \<Rightarrow> Err (EditPanic ''validated line order'')
          | Some s \<Rightarrow> Ok (s, off + length l))
       else line_range_loop rng ls (i + 1) (off + length l) st')"
    by (simp add: st'_def Let_def)
  show ?case
  proof (cases "i + 1 = end_line rng")
    case True
    then have "end_line rng - i = 1" by simp
    with True assms(2) show ?thesis
      unfolding unf st' by auto
  next
    case False
    with Cons.prems have less: "Suc i < end_line rng" by simp
    then have e: "end_line rng - i = Suc (end_line rng - Suc i)" by simp
    have s: "start_line rng \<noteq> Suc i \<Longrightarrow> \<not> start_line rng \<le> i \<Longrightarrow>
        start_line rng - Suc i = Suc (start_line rng - Suc (Suc i))"
      by simp
    show ?thesis
      using False Cons.IH [OF less st', of "off + length l"]
      unfolding unf by (auto simp: e s le_Suc_eq)
  qed
qed

lemma length_concat_take_append:
  "length (concat (take n ls)) \<le> length (concat ls)"
  by (metis append_take_drop_id concat_append le_add1 length_append)

lemma slice_concat_take:
  assumes "i \<le> j"
  shows "slice (concat ls) (length (concat (take i ls))) (length (concat (take j ls)))
       = concat (take (j - i) (drop i ls))"
proof -
  have j: "take j ls = take i ls @ take (j - i) (drop i ls)"
    using assms by (metis le_add_diff_inverse take_add)
  have "concat ls = concat (take i ls) @ concat (take (j - i) (drop i ls)) @ concat (drop j ls)"
    by (metis append.assoc append_take_drop_id concat_append j)
  then show ?thesis
    by (simp add: slice_def j)
qed

lemma validate_scope_Ok_iff [rust_ok]:
  "validate_scope rng = Ok u \<longleftrightarrow> 1 \<le> start_line rng \<and> start_line rng \<le> end_line rng"
  by (auto simp: validate_scope_def)

lemma resolve_line_range_spec:
  "resolve_apply_text_line_range source rng =
     (case validate_scope rng of
        Inl e \<Rightarrow> Err (EditErr e)
      | Inr _ \<Rightarrow>
          let ls = split_inclusive source in
          if end_line rng \<le> length ls
          then Ok (length (concat (take (start_line rng - 1) ls)),
                   length (concat (take (end_line rng) ls)))
          else Err (EditErr ''replace_range exceeds the original file's line count''))"
proof (cases "validate_scope rng")
  case (Inr u)
  then have "1 \<le> start_line rng" "start_line rng \<le> end_line rng"
    by (simp_all add: rust_ok)
  with Inr show ?thesis
    by (simp add: resolve_apply_text_line_range_def Let_def line_range_loop_spec)
qed (simp add: resolve_apply_text_line_range_def)

section \<open>Occurrences: what the left-to-right scan finds\<close>

definition occurs_at :: "string \<Rightarrow> string \<Rightarrow> nat \<Rightarrow> bool" where
  "occurs_at original needle p \<longleftrightarrow> slice original p (p + length needle) = needle
     \<and> p + length needle \<le> length original"

lemma occurs_at_iff: "occurs_at hay needle p \<longleftrightarrow> p \<le> length hay \<and> starts_with (drop p hay) needle"
proof
  assume "occurs_at hay needle p"
  then have "take (length needle) (drop p hay) = needle" "p \<le> length hay"
    by (auto simp: occurs_at_def slice_def)
  then show "p \<le> length hay \<and> starts_with (drop p hay) needle"
    by (metis append_take_drop_id starts_with_append)
next
  assume R: "p \<le> length hay \<and> starts_with (drop p hay) needle"
  then obtain t where t: "drop p hay = needle @ t"
    by (auto simp: starts_with_iff)
  then have "length hay - p = length needle + length t"
    by (metis length_append length_drop)
  with R t show "occurs_at hay needle p"
    by (auto simp: occurs_at_def slice_def)
qed

lemma occurs_at_tl: "occurs_at (c # hay) needle (Suc p) = occurs_at hay needle p"
  by (simp add: occurs_at_iff)

lemma occurs_at_drop: "n \<le> length hay \<Longrightarrow> occurs_at (drop n hay) needle p = occurs_at hay needle (n + p)"
  by (auto simp: occurs_at_iff add.commute)

lemma match_from_sound:
  "m \<in> set (match_from i hay needle) \<Longrightarrow> i \<le> m \<and> occurs_at hay needle (m - i)"
proof (induction i hay needle rule: match_from.induct)
  case (1 i hay needle)
  show ?case
  proof (cases "needle = [] \<or> length hay < length needle")
    case True
    with "1.prems" show ?thesis by (simp add: match_from.simps [of i])
  next
    case small: False
    show ?thesis
    proof (cases "starts_with hay needle")
      case True
      then have first: "occurs_at hay needle 0"
        by (simp add: occurs_at_iff)
      consider "m = i"
        | "m \<in> set (match_from (i + length needle) (drop (length needle) hay) needle)"
        using "1.prems" small True by (auto simp: match_from.simps [of i])
      then show ?thesis
      proof cases
        case 2
        have "i + length needle \<le> m"
          and "occurs_at (drop (length needle) hay) needle (m - (i + length needle))"
          using "1.IH"(1) [OF small True] 2 by auto
        then show ?thesis
          using small by (simp add: occurs_at_drop)
      qed (use first in simp)
    next
      case False
      with "1.prems" small have "m \<in> set (match_from (i + 1) (tl hay) needle)"
        by (simp add: match_from.simps [of i])
      from "1.IH"(2) [OF small False this]
      have m: "i + 1 \<le> m" "occurs_at (tl hay) needle (m - (i + 1))" by auto
      obtain c r where "hay = c # r"
        using small by (cases hay) auto
      with m show ?thesis
        using occurs_at_tl [of c r needle "m - (i + 1)"] by (auto simp: Suc_diff_Suc)
    qed
  qed
qed

lemma match_from_spaced:
  "sorted_wrt (\<lambda>a b. a + length needle \<le> b) (match_from i hay needle)"
proof (induction i hay needle rule: match_from.induct)
  case (1 i hay needle)
  then show ?case
    by (subst match_from.simps) (auto dest: match_from_sound)
qed

lemma match_from_complete:
  assumes "needle \<noteq> []" "occurs_at hay needle p"
  shows "\<exists>m \<in> set (match_from i hay needle). m \<le> i + p \<and> i + p < m + length needle"
  using assms
proof (induction i hay needle arbitrary: p rule: match_from.induct)
  case (1 i hay needle)
  have small: "\<not> (needle = [] \<or> length hay < length needle)"
    using "1.prems" by (auto simp: occurs_at_def)
  show ?case
  proof (cases "starts_with hay needle")
    case True
    show ?thesis
    proof (cases "p < length needle")
      case True
      with small \<open>starts_with hay needle\<close> show ?thesis
        by (subst match_from.simps) auto
    next
      case False
      then have "occurs_at (drop (length needle) hay) needle (p - length needle)"
        using "1.prems" small by (simp add: occurs_at_drop)
      from "1.IH"(1) [OF small True "1.prems"(1) this] False show ?thesis
        using small True by (subst match_from.simps) auto
    qed
  next
    case False
    then have "p \<noteq> 0"
      using "1.prems" by (metis drop0 occurs_at_iff)
    then obtain q where q: "p = Suc q" by (cases p) auto
    obtain c r where hay: "hay = c # r"
      using small by (cases hay) auto
    have "occurs_at (tl hay) needle q"
      using "1.prems" by (simp add: q hay occurs_at_tl)
    from "1.IH"(2) [OF small False "1.prems"(1) this] show ?thesis
      using small False q by (subst match_from.simps) auto
  qed
qed

lemma match_indices_occurs: "needle \<noteq> [] \<Longrightarrow> m \<in> set (match_indices hay needle) \<Longrightarrow> occurs_at hay needle m"
  using match_from_sound [of m 0 hay needle] by (simp add: match_indices_def)

lemma match_indices_spaced:
  "needle \<noteq> [] \<Longrightarrow> sorted_wrt (\<lambda>a b. a + length needle \<le> b) (match_indices hay needle)"
  by (simp add: match_indices_def match_from_spaced)

lemma match_indices_complete:
  "needle \<noteq> [] \<Longrightarrow> occurs_at hay needle p \<Longrightarrow>
     \<exists>m \<in> set (match_indices hay needle). m \<le> p \<and> p < m + length needle"
  using match_from_complete [of needle hay p 0] by (simp add: match_indices_def)

lemma match_indices_le:
  "needle \<noteq> [] \<Longrightarrow> m \<in> set (match_indices hay needle) \<Longrightarrow> m \<le> length hay"
  by (drule (1) match_indices_occurs) (simp add: occurs_at_def)

lemma match_indices_sorted: "needle \<noteq> [] \<Longrightarrow> sorted (match_indices hay needle)"
  by (rule sorted_wrt_mono_rel [OF _ match_indices_spaced]) auto

lemma length_match_indices_le: "needle \<noteq> [] \<Longrightarrow> length (match_indices hay needle) \<le> length hay"
proof -
  have "length (match_from i h n) \<le> length h" for i h n
  proof (induction i h n rule: match_from.induct)
    case (1 i hay needle)
    then show ?case
      by (subst match_from.simps) (cases needle; auto simp: Suc_le_eq)
  qed
  then show "needle \<noteq> [] \<Longrightarrow> ?thesis" by (simp add: match_indices_def)
qed

subsection \<open>The declarative occurrence table\<close>

text \<open>
  The reference the two single-pass resolvers are compared with: the table of all occurrences, each
  with its global 1-based number and the complete lines it touches.
\<close>

definition last_line_of :: "string \<Rightarrow> nat" where
  "last_line_of needle = count_lf needle - (if ends_with needle [LF] then 1 else 0)"

definition candidate_at :: "string \<Rightarrow> string \<Rightarrow> nat \<Rightarrow> nat \<Rightarrow> apply_text_match_candidate" where
  "candidate_at original needle k start =
     (let l = 1 + count_lf (take start original)
      in \<lparr>occurrence = k, cand_start_line = l, cand_end_line = l + last_line_of needle\<rparr>)"

definition occurrence_table ::
    "string \<Rightarrow> string \<Rightarrow> nat list \<Rightarrow> (nat \<times> apply_text_match_candidate) list" where
  "occurrence_table original needle ms =
     map (\<lambda>(k, start). (start, candidate_at original needle k start)) (enumerate 1 ms)"

definition eligible_table ::
    "string \<Rightarrow> string \<Rightarrow> apply_text_line_scope option \<Rightarrow> nat list
     \<Rightarrow> (nat \<times> apply_text_match_candidate) list" where
  "eligible_table original needle line_scope ms =
     filter (\<lambda>(_, candidate). in_scope line_scope candidate) (occurrence_table original needle ms)"

lemma enumerate_append_single: "enumerate n (xs @ [x]) = enumerate n xs @ [(n + length xs, x)]"
  by (induction xs arbitrary: n) auto

lemma occurrence_table_snoc:
  "occurrence_table original needle (ms @ [m]) =
     occurrence_table original needle ms @ [(m, candidate_at original needle (Suc (length ms)) m)]"
  by (simp add: occurrence_table_def enumerate_append_single)

lemma eligible_table_snoc:
  "eligible_table original needle sc (ms @ [m]) =
     eligible_table original needle sc ms
     @ (if in_scope sc (candidate_at original needle (Suc (length ms)) m)
        then [(m, candidate_at original needle (Suc (length ms)) m)] else [])"
  by (simp add: eligible_table_def occurrence_table_snoc)

lemma count_lf_take_slice:
  assumes "i \<le> j" "j \<le> length s"
  shows "count_lf (take i s) + count_lf (slice s i j) = count_lf (take j s)"
  by (metis assms(1) count_lf_append le_add_diff_inverse slice_def take_add)

lemma sorted_snoc_last_le: "sorted (ms @ [m]) \<Longrightarrow> ms \<noteq> [] \<Longrightarrow> last ms \<le> (m :: nat)"
  by (simp add: sorted_append)

definition cursor_of :: "nat list \<Rightarrow> nat" where
  "cursor_of ms = (if ms = [] then 0 else last ms)"

lemma cursor_of_simps [simp]: "cursor_of [] = 0" "cursor_of (ms @ [m]) = m"
  by (simp_all add: cursor_of_def)

lemma cursor_of_le: "sorted (ms @ [m]) \<Longrightarrow> cursor_of ms \<le> (m :: nat)"
  by (auto simp: cursor_of_def dest: sorted_snoc_last_le)

lemma ends_with_LF: "ends_with needle [LF] \<longleftrightarrow> needle \<noteq> [] \<and> last needle = LF"
  by (auto simp: ends_with_iff) (metis append_butlast_last_id)

subsection \<open>The single-pass resolvers compute the table\<close>

lemma bulk_step_at:
  assumes "i \<le> start" "start \<le> length original"
    and "bs_line_cursor st = i" "bs_current_line st = 1 + count_lf (take i original)"
    and "bs_global_occurrence st = k"
  shows "bulk_step original needle sc start st =
    (let candidate = candidate_at original needle (Suc k) start;
         st = st\<lparr>bs_current_line := 1 + count_lf (take start original), bs_line_cursor := start,
                 bs_global_occurrence := Suc k\<rparr>
     in if in_scope sc candidate then
          st\<lparr>bs_match_count := Suc (bs_match_count st),
             bs_ranges := push_capped MAX_APPLY_TEXT_EXPECTED_MATCH_COUNT (bs_ranges st)
                            (start, start + length needle),
             bs_candidates := push_capped MAX_APPLY_TEXT_CONFLICT_CANDIDATES
                                (bs_candidates st) candidate,
             bs_evidence := push_capped MAX_APPLY_TEXT_MATCH_RANGES_PER_EDIT
                              (bs_evidence st) candidate\<rparr>
        else st)"
proof -
  have "1 + count_lf (take i original) + count_lf (slice original i start)
      = 1 + count_lf (take start original)"
    using count_lf_take_slice [OF assms(1,2)] by simp
  then show ?thesis
    using assms(3-5) by (simp add: bulk_step_def candidate_at_def last_line_of_def Let_def)
qed

lemma bulk_fold:
  assumes "sorted ms" "\<forall>m \<in> set ms. m \<le> length original"
  shows "fold (bulk_step original needle sc) ms bulk_init =
    \<lparr>bs_ranges = take MAX_APPLY_TEXT_EXPECTED_MATCH_COUNT
        (map (\<lambda>(start, _). (start, start + length needle)) (eligible_table original needle sc ms)),
     bs_candidates = take MAX_APPLY_TEXT_CONFLICT_CANDIDATES
        (map snd (eligible_table original needle sc ms)),
     bs_evidence = take MAX_APPLY_TEXT_MATCH_RANGES_PER_EDIT
        (map snd (eligible_table original needle sc ms)),
     bs_global_occurrence = length ms,
     bs_match_count = length (eligible_table original needle sc ms),
     bs_line_cursor = cursor_of ms,
     bs_current_line = 1 + count_lf (take (cursor_of ms) original)\<rparr>"
  using assms
proof (induction ms rule: rev_induct)
  case Nil
  then show ?case
    by (simp add: bulk_init_def eligible_table_def occurrence_table_def)
next
  case (snoc m ms)
  have prev: "sorted ms" "\<forall>m \<in> set ms. m \<le> length original"
    using snoc.prems by (auto simp: sorted_append)
  note step = bulk_step_at [OF cursor_of_le [OF snoc.prems(1)] _ _ _ refl, of original]
  show ?case
    using snoc.prems(2)
    by (simp add: snoc.IH [OF prev] step eligible_table_snoc push_capped_take Let_def)
qed

lemma sat_add_small: "a < 2 ^ 63 + 1 \<Longrightarrow> b < 2 ^ 63 \<Longrightarrow> sat_add a b = a + b"
  by (simp add: sat_add_def u64_max_def)

lemma match_step_at:
  assumes "i \<le> start" "start \<le> length original"
    and bounds: "length original < 2 ^ 63" "length needle \<le> length original" "k < 2 ^ 63"
      "ms_scope_count st \<le> k"
    and st: "ms_line_cursor st = i" "ms_current_line st = 1 + count_lf (take i original)"
      "ms_match_count st = k"
  shows "match_step original needle occ sc start st =
    (let candidate = candidate_at original needle (Suc k) start;
         st = st\<lparr>ms_current_line := 1 + count_lf (take start original), ms_line_cursor := start,
                 ms_match_count := Suc k\<rparr>;
         st = (if in_scope sc candidate then
                 st\<lparr>ms_scope_count := Suc (ms_scope_count st),
                    ms_selected_eligible := Some (start, start + length needle),
                    ms_candidates := push_capped MAX_APPLY_TEXT_CONFLICT_CANDIDATES
                                       (ms_candidates st) candidate\<rparr>
               else st)
     in if occ = Some (Suc k) then
          st\<lparr>ms_selected_occurrence := Some (start, start + length needle, candidate)\<rparr>
        else st)"
proof -
  have line: "1 + count_lf (take i original) + count_lf (slice original i start)
      = 1 + count_lf (take start original)"
    using count_lf_take_slice [OF assms(1,2)] by simp
  have l1: "1 + count_lf (take i original) < 2 ^ 63 + 1"
    using count_lf_le_length [of "take i original"] bounds by simp
  have l2: "count_lf (slice original i start) < 2 ^ 63"
    using line count_lf_le_length [of "take start original"] assms(2) bounds by simp
  have cl: "sat_add (1 + count_lf (take i original)) (count_lf (slice original i start))
      = 1 + count_lf (take start original)"
    using sat_add_small [OF l1 l2] line by simp
  have l3: "1 + count_lf (take start original) < 2 ^ 63 + 1"
    using count_lf_le_length [of "take start original"] bounds by simp
  have l4: "count_lf needle < 2 ^ 63"
    using count_lf_le_length [of needle] bounds by simp
  have el: "sat_add (1 + count_lf (take start original)) (count_lf needle - d)
      = 1 + count_lf (take start original) + (count_lf needle - d)" for d
    by (rule sat_add_small [OF l3]) (use l4 in linarith)
  have k: "sat_add k 1 = Suc k" "sat_add (ms_scope_count st) 1 = Suc (ms_scope_count st)"
    using bounds sat_add_small [of k 1] sat_add_small [of "ms_scope_count st" 1] by simp_all
  show ?thesis
    unfolding match_step_def st cl k
    using el [of 1] el [of 0]
    by (simp add: candidate_at_def last_line_of_def ends_with_LF k Let_def del: One_nat_def)
qed

lemma length_eligible_le: "length (eligible_table original needle sc ms) \<le> length ms"
  unfolding eligible_table_def occurrence_table_def
  by (rule le_trans [OF length_filter_le]) simp

lemma match_fold:
  assumes "sorted ms" "\<forall>m \<in> set ms. m \<le> length original" "length original < 2 ^ 63"
    and "length needle \<le> length original" "length ms \<le> 2 ^ 63"
  shows "fold (match_step original needle occ sc) ms match_init =
    (let E = eligible_table original needle sc ms in
    \<lparr>ms_candidates = take MAX_APPLY_TEXT_CONFLICT_CANDIDATES (map snd E),
     ms_match_count = length ms,
     ms_scope_count = length E,
     ms_selected_occurrence =
       (case occ of None \<Rightarrow> None | Some k \<Rightarrow>
          if 1 \<le> k \<and> k \<le> length ms
          then Some (ms ! (k - 1), ms ! (k - 1) + length needle,
                     candidate_at original needle k (ms ! (k - 1)))
          else None),
     ms_selected_eligible =
       (if E = [] then None else Some (fst (last E), fst (last E) + length needle)),
     ms_line_cursor = cursor_of ms,
     ms_current_line = 1 + count_lf (take (cursor_of ms) original)\<rparr>)"
  using assms(1,2,5)
proof (induction ms rule: rev_induct)
  case Nil
  then show ?case
    by (simp add: match_init_def eligible_table_def occurrence_table_def split: option.splits)
next
  case (snoc m ms)
  have prev: "sorted ms" "\<forall>m \<in> set ms. m \<le> length original" "length ms \<le> 2 ^ 63"
    using snoc.prems by (auto simp: sorted_append)
  have len: "length ms < 2 ^ 63"
    using snoc.prems(3) by simp
  note step = match_step_at [OF cursor_of_le [OF snoc.prems(1)] _ assms(3,4) len]
  show ?case
    using snoc.prems(2) length_eligible_le [of original needle sc ms]
    by (auto simp: snoc.IH [OF prev] step eligible_table_snoc push_capped_take Let_def nth_append
        le_Suc_eq Suc_le_eq split: option.splits)
qed

lemma match_scan_eq:
  assumes "needle \<noteq> []" "length original < 2 ^ 63"
  shows "match_scan original needle occ sc =
    (let ms = match_indices original needle; E = eligible_table original needle sc ms in
    \<lparr>ms_candidates = take MAX_APPLY_TEXT_CONFLICT_CANDIDATES (map snd E),
     ms_match_count = length ms,
     ms_scope_count = length E,
     ms_selected_occurrence =
       (case occ of None \<Rightarrow> None | Some k \<Rightarrow>
          if 1 \<le> k \<and> k \<le> length ms
          then Some (ms ! (k - 1), ms ! (k - 1) + length needle,
                     candidate_at original needle k (ms ! (k - 1)))
          else None),
     ms_selected_eligible =
       (if E = [] then None else Some (fst (last E), fst (last E) + length needle)),
     ms_line_cursor = cursor_of ms,
     ms_current_line = 1 + count_lf (take (cursor_of ms) original)\<rparr>)"
proof (cases "match_indices original needle = []")
  case True
  then show ?thesis
    by (simp add: match_scan_def match_init_def eligible_table_def occurrence_table_def
        split: option.splits)
next
  case False
  then obtain m where "m \<in> set (match_indices original needle)"
    by (cases "match_indices original needle") auto
  with assms(1) have "length needle \<le> length original"
    by (auto dest: match_indices_occurs simp: occurs_at_def)
  moreover have "length (match_indices original needle) \<le> 2 ^ 63"
    using length_match_indices_le [OF assms(1), of original] assms(2) by simp
  ultimately show ?thesis
    unfolding match_scan_def Let_def
    using assms match_fold [OF match_indices_sorted [OF assms(1)]] match_indices_le
    by (simp add: Let_def)
qed

lemma eligible_table_None: "eligible_table original needle None ms = occurrence_table original needle ms"
  by (simp add: eligible_table_def in_scope_def)

lemma length_occurrence_table [simp]: "length (occurrence_table original needle ms) = length ms"
  by (simp add: occurrence_table_def)

lemma occurrence_table_eq_Nil [simp]: "occurrence_table original needle ms = [] \<longleftrightarrow> ms = []"
  by (metis length_0_conv length_occurrence_table)

lemma set_eligible_table:
  "(start, c) \<in> set (eligible_table original needle sc ms) \<Longrightarrow> start \<in> set ms \<and> in_scope sc c"
  by (auto simp: eligible_table_def occurrence_table_def enumerate_eq_zip elim: in_set_zipE)

text \<open>The closed form of the resolver over the occurrence table.\<close>

lemma resolve_match_closed_form:
  fixes sc :: "apply_text_line_scope option"
  assumes "needle \<noteq> []" "length original < 2 ^ 63"
  defines "ms \<equiv> match_indices original needle"
  defines "E \<equiv> eligible_table original needle sc ms"
  shows "resolve_apply_text_match original needle occ sc =
    (let conflict = (\<lambda>kind req. Conflict
           \<lparr>conflict_kind = kind, conflict_match_count = length ms, requested_occurrence = req,
            conflict_line_scope = sc, line_scope_match_count = map_option (\<lambda>_. length E) sc,
            conflict_candidates = take MAX_APPLY_TEXT_CONFLICT_CANDIDATES (map snd E),
            conflict_truncated = (MAX_APPLY_TEXT_CONFLICT_CANDIDATES < length E)\<rparr>)
     in if ms = [] then Err (conflict MatchNotFound occ)
        else case occ of
          Some k \<Rightarrow>
            if k = 0 \<or> length ms < k then Err (conflict OccurrenceOutOfRange (Some k))
            else if \<not> in_scope sc (candidate_at original needle k (ms ! (k - 1)))
              then Err (conflict OccurrenceOutsideLineScope (Some k))
            else Ok (ms ! (k - 1), ms ! (k - 1) + length needle)
        | None \<Rightarrow>
            if E = [] then Err (conflict MatchNotFound None)
            else if 1 < length E then Err (conflict MultipleMatches None)
            else Ok (fst (last E), fst (last E) + length needle))"
proof -
  have len: "length E = length ms" if "sc = None"
    using that by (simp add: E_def eligible_table_None)
  then have nil: "E = [] \<longleftrightarrow> ms = []" if "sc = None"
    using that by (metis length_0_conv)
  show ?thesis
    unfolding resolve_apply_text_match_def match_scan_eq [OF assms(1,2)] Let_def
      ms_def [symmetric] E_def [symmetric]
    by (cases sc; cases occ) (simp_all add: len nil Suc_le_eq)
qed

lemma resolve_bulk_closed_form:
  fixes sc :: "apply_text_line_scope option" and original :: string
  assumes "needle \<noteq> []"
  defines "E \<equiv> eligible_table original needle sc (match_indices original needle)"
  shows "resolve_apply_text_bulk_matches original needle sc =
    \<lparr>ranges = take MAX_APPLY_TEXT_EXPECTED_MATCH_COUNT
        (map (\<lambda>(start, _). (start, start + length needle)) E),
     match_count = length E,
     candidate_ranges = take MAX_APPLY_TEXT_CONFLICT_CANDIDATES (map snd E),
     evidence_ranges = take MAX_APPLY_TEXT_MATCH_RANGES_PER_EDIT (map snd E),
     candidates_truncated = (MAX_APPLY_TEXT_CONFLICT_CANDIDATES < length E)\<rparr>"
  using bulk_fold [OF match_indices_sorted [OF assms(1)]] match_indices_le [OF assms(1)]
  by (simp add: resolve_apply_text_bulk_matches_def E_def Let_def)

section \<open>Properties\<close>

text \<open>C29. Line endings survive an edit. Whenever a file's convention is recognised, canonicalising
  the file succeeds, the canonical text has no carriage return, and restoring it to the recognised
  convention gives back exactly the original bytes.\<close>

theorem line_ending_roundtrip:
  assumes "detect_apply_text_line_ending text = Ok le"
  shows "\<exists>canonical. canonicalize_apply_text_line_endings text le = Ok canonical
    \<and> CR \<notin> set canonical
    \<and> restore_apply_text_line_endings canonical le = text"
proof -
  obtain l c where scan: "detect_scan False False text = Ok (l, c)"
    and le: "le = (if l then LeLf else if c then LeCrlf else LeNone)" and nb: "\<not> (l \<and> c)"
    using detect_Ok_cases [OF assms] by blast
  show ?thesis
  proof (cases c)
    case True
    with nb le have "l = False" "le = LeCrlf" by auto
    have "\<not> has_bare_cr text"
      using scan by (rule detect_scan_no_bare_cr)
    moreover from scan \<open>l = False\<close> have "replace_lf_crlf (replace_crlf_lf text) = text"
      using detect_scan_crlf_roundtrip by blast
    moreover have "CR \<in> set text"
      using scan True detect_scan_cr_seen [of False "text" l] by simp
    ultimately show ?thesis
      using \<open>le = LeCrlf\<close> replace_crlf_lf_no_cr
      by (simp add: canonicalize_apply_text_line_endings_def)
  next
    case False
    with scan have "CR \<notin> set text"
      using detect_scan_no_cr [of False False "text" l] by simp
    with le False show ?thesis
      by (auto simp: canonicalize_apply_text_line_endings_def)
  qed
qed

theorem line_ending_roundtrip_witness:
  "detect_apply_text_line_ending [CHR ''a'', CR, LF] = Ok LeCrlf
   \<and> (\<exists>canonical. canonicalize_apply_text_line_endings [CHR ''a'', CR, LF] LeCrlf = Ok canonical
        \<and> restore_apply_text_line_endings canonical LeCrlf = [CHR ''a'', CR, LF])"
proof -
  have d: "detect_apply_text_line_ending [CHR ''a'', CR, LF] = Ok LeCrlf"
    by (simp add: detect_apply_text_line_ending_def)
  then show ?thesis
    using line_ending_roundtrip [OF d] by blast
qed

text \<open>A line-range edit addresses exactly the requested complete lines. Resolution succeeds
  exactly for a well-formed range inside the file, and the byte range it returns is the
  concatenation of those lines, newlines included; in no case does it reach its \<^verbatim>\<open>expect\<close>.\<close>

theorem line_range_selects_lines:
  assumes "resolve_apply_text_line_range source rng = r"
  shows "(is_ok r \<longleftrightarrow> 1 \<le> start_line rng \<and> start_line rng \<le> end_line rng
            \<and> end_line rng \<le> length (split_inclusive source))
    \<and> (\<forall>s e. r = Ok (s, e) \<longrightarrow> s \<le> e \<and> e \<le> length source
         \<and> slice source s e = concat (take (Suc (end_line rng - start_line rng))
              (drop (start_line rng - 1) (split_inclusive source))))
    \<and> (\<forall>m. r \<noteq> Err (EditPanic m))"
proof (cases "validate_scope rng")
  case (Inl e)
  then have "\<not> (1 \<le> start_line rng \<and> start_line rng \<le> end_line rng)"
    by (auto simp: validate_scope_def split: if_splits)
  with Inl assms show ?thesis
    by (auto simp: resolve_line_range_spec)
next
  case (Inr u)
  then have v: "1 \<le> start_line rng" "start_line rng \<le> end_line rng"
    by (simp_all add: rust_ok)
  let ?ls = "split_inclusive source"
  have le: "length (concat (take (start_line rng - 1) ?ls)) \<le> length (concat (take (end_line rng) ?ls))"
    using v length_concat_take_append [of "start_line rng - 1" "take (end_line rng) ?ls"]
    by (simp add: min_def split: if_splits)
  have d: "end_line rng - (start_line rng - 1) = Suc (end_line rng - start_line rng)"
    using v by simp
  have "slice source (length (concat (take (start_line rng - 1) ?ls)))
      (length (concat (take (end_line rng) ?ls)))
      = concat (take (Suc (end_line rng - start_line rng)) (drop (start_line rng - 1) ?ls))"
    using slice_concat_take [of "start_line rng - 1" "end_line rng" ?ls] v
    unfolding d concat_split_inclusive by simp
  moreover have "length (concat (take (end_line rng) ?ls)) \<le> length source"
    using length_concat_take_append [of "end_line rng" ?ls] by simp
  moreover have "r = (if end_line rng \<le> length ?ls
      then Ok (length (concat (take (start_line rng - 1) ?ls)),
               length (concat (take (end_line rng) ?ls)))
      else Err (EditErr ''replace_range exceeds the original file's line count''))"
    using assms Inr by (simp add: resolve_line_range_spec Let_def)
  ultimately show ?thesis
    using v le by (cases "end_line rng \<le> length ?ls") simp_all
qed

theorem line_range_selects_lines_witness:
  "resolve_apply_text_line_range [CHR ''a'', LF, CHR ''b''] \<lparr>start_line = 2, end_line = 2\<rparr> = Ok (2, 3)
   \<and> slice [CHR ''a'', LF, CHR ''b''] 2 3 = [CHR ''b'']"
proof -
  have r: "resolve_apply_text_line_range [CHR ''a'', LF, CHR ''b''] \<lparr>start_line = 2, end_line = 2\<rparr>
      = Ok (2, 3)"
    by (simp add: resolve_apply_text_line_range_def validate_scope_def)
  then show ?thesis
    using line_range_selects_lines [OF r] by simp
qed

text \<open>An exact edit without an occurrence number resolves only when it is unambiguous, and then
  to the one eligible occurrence: success is equivalent to the table of occurrences inside the line
  fence having exactly one entry, and the returned byte range spells the needle.\<close>

theorem exact_match_unique:
  assumes "needle \<noteq> []" and "length original < 2 ^ 63"
  shows "resolve_apply_text_match original needle None sc = Ok (s, e) \<longleftrightarrow>
      (\<exists>c. eligible_table original needle sc (match_indices original needle) = [(s, c)])
      \<and> e = s + length needle \<and> slice original s e = needle"
proof -
  let ?E = "eligible_table original needle sc (match_indices original needle)"
  have occ: "slice original s (s + length needle) = needle" if "?E = [(s, c)]" for c s
    using that match_indices_occurs [OF assms(1)] set_eligible_table [of s c original needle sc]
    by (auto simp: occurs_at_def)
  have ne: "match_indices original needle \<noteq> []" if "?E = [(s, c)]" for c s
    using that by (auto simp: eligible_table_def occurrence_table_def)
  show ?thesis
  proof (cases "length ?E = 1")
    case True
    then obtain s' c where E: "?E = [(s', c)]"
      by (metis length_0_conv length_Suc_conv One_nat_def prod.exhaust)
    with ne [OF E] occ [OF E] show ?thesis
      by (auto simp: resolve_match_closed_form [OF assms] Let_def)
  next
    case False
    then have "?E \<noteq> [(s, c)]" for c by auto
    moreover from False have "?E = [] \<or> 1 < length ?E"
      by (cases ?E) auto
    ultimately show ?thesis
      by (auto simp: resolve_match_closed_form [OF assms] Let_def split: if_splits)
  qed
qed

theorem exact_match_unique_witness:
  "resolve_apply_text_match ''xaby'' ''ab'' None None = Ok (1, 3)
   \<and> (\<exists>c. eligible_table ''xaby'' ''ab'' None (match_indices ''xaby'' ''ab'') = [(1, c)])
   \<and> slice ''xaby'' 1 3 = ''ab''"
proof -
  have "resolve_apply_text_match ''xaby'' ''ab'' None None = Ok (1, 3)"
    by code_simp
  then show ?thesis
    using exact_match_unique [of "''ab''" "''xaby''" None 1 3] by simp
qed

text \<open>A requested occurrence is the global source-order one. With occurrence \<open>k\<close> the resolver
  succeeds exactly when the file has a \<open>k\<close>-th occurrence and its lines lie inside the fence, and it
  returns precisely that occurrence; a line fence never renumbers.\<close>

theorem exact_match_occurrence:
  assumes "needle \<noteq> []" and "length original < 2 ^ 63"
  shows "resolve_apply_text_match original needle (Some k) sc = Ok (s, e) \<longleftrightarrow>
      1 \<le> k \<and> k \<le> length (match_indices original needle)
      \<and> s = match_indices original needle ! (k - 1) \<and> e = s + length needle
      \<and> in_scope sc (candidate_at original needle k s)"
proof (cases "match_indices original needle = []")
  case True
  then show ?thesis
    by (auto simp: resolve_match_closed_form [OF assms] Let_def)
next
  case False
  then show ?thesis
    by (auto simp: resolve_match_closed_form [OF assms] Let_def)
qed

theorem exact_match_occurrence_witness:
  "resolve_apply_text_match ''ababab'' ''ab'' (Some 3) None = Ok (4, 6)
   \<and> 4 = match_indices ''ababab'' ''ab'' ! (3 - 1)"
proof -
  have "resolve_apply_text_match ''ababab'' ''ab'' (Some 3) None = Ok (4, 6)"
    by code_simp
  then show ?thesis
    using exact_match_occurrence [of "''ab''" "''ababab''" 3 None 4 6] by simp
qed

text \<open>Every refusal of an exact edit is a truthful conflict and never a panic: the reported
  total is the number of non-overlapping occurrences in the whole file, the scoped count is the
  number inside the fence, at most five candidates are listed (in source order, from the table),
  and \<open>MatchNotFound\<close> on an unfenced request means the needle occurs nowhere.\<close>

theorem exact_match_conflict_truthful:
  assumes "needle \<noteq> []" and "length original < 2 ^ 63"
    and "resolve_apply_text_match original needle occ sc = Err err"
  shows "\<exists>c. err = Conflict c
    \<and> conflict_match_count c = length (match_indices original needle)
    \<and> line_scope_match_count c =
        map_option (\<lambda>_. length (eligible_table original needle sc (match_indices original needle))) sc
    \<and> conflict_candidates c =
        take 5 (map snd (eligible_table original needle sc (match_indices original needle)))
    \<and> (conflict_kind c = MatchNotFound \<and> sc = None \<longrightarrow> (\<forall>p. \<not> occurs_at original needle p))
    \<and> (conflict_kind c = MultipleMatches \<longrightarrow>
         2 \<le> length (eligible_table original needle sc (match_indices original needle)))"
proof -
  have none: "match_indices original needle = [] \<Longrightarrow> \<not> occurs_at original needle p" for p
    using match_indices_complete [OF assms(1), of original p] by auto
  show ?thesis
    using assms(3)
    by (auto simp: resolve_match_closed_form [OF assms(1,2)] Let_def eligible_table_None none
        MAX_APPLY_TEXT_CONFLICT_CANDIDATES_def split: if_splits option.splits)
qed

theorem exact_match_conflict_truthful_witness:
  "\<exists>c. resolve_apply_text_match ''ab ab'' ''ab'' None None = Err (Conflict c)
     \<and> conflict_match_count c = length (match_indices ''ab ab'' ''ab'')"
proof -
  have "\<not> is_ok (resolve_apply_text_match ''ab ab'' ''ab'' None None)"
    by code_simp
  then obtain err where e: "resolve_apply_text_match ''ab ab'' ''ab'' None None = Err err"
    by (cases "resolve_apply_text_match ''ab ab'' ''ab'' None None") auto
  from exact_match_conflict_truthful [OF _ _ e] show ?thesis
    using e by auto
qed

text \<open>A bulk edit touches exactly the eligible occurrences: the reported count is the number of
  occurrences inside the fence, the byte ranges are disjoint and in source order, each spells the
  needle, and all of them are present whenever the count is within the request cap of 1024.\<close>

theorem bulk_matches_correct:
  assumes "needle \<noteq> []" and "resolve_apply_text_bulk_matches original needle sc = b"
  shows "match_count b = length (eligible_table original needle sc (match_indices original needle))
    \<and> length (ranges b) = min 1024 (match_count b)
    \<and> sorted_wrt (\<lambda>(_, e) (s, _). e \<le> s) (ranges b)
    \<and> (\<forall>(s, e) \<in> set (ranges b). slice original s e = needle)
    \<and> length (candidate_ranges b) \<le> 5 \<and> length (evidence_ranges b) \<le> 8"
proof -
  let ?ms = "match_indices original needle"
  let ?rng = "\<lambda>(start :: nat, c :: apply_text_match_candidate). (start, start + length needle)"
  have fst_tab: "map fst (occurrence_table original needle ?ms) = ?ms"
    by (simp add: occurrence_table_def comp_def case_prod_unfold)
  have "sorted_wrt (\<lambda>a b. a + length needle \<le> b) (map fst (occurrence_table original needle ?ms))"
    using match_indices_spaced [OF assms(1)] by (simp only: fst_tab)
  then have "sorted_wrt (\<lambda>x y. fst x + length needle \<le> fst y) (eligible_table original needle sc ?ms)"
    by (simp add: sorted_wrt_map eligible_table_def sorted_wrt_filter)
  then have spaced: "sorted_wrt (\<lambda>(_, e) (s, _). e \<le> s)
      (map ?rng (eligible_table original needle sc ?ms))"
    by (simp add: sorted_wrt_map case_prod_unfold)
  have spell: "slice original s e = needle"
    if "(s, e) \<in> set (map ?rng (eligible_table original needle sc ?ms))" for s e
    using that match_indices_occurs [OF assms(1)]
    by (auto dest!: set_eligible_table simp: occurs_at_def)
  have b: "ranges b = take 1024 (map ?rng (eligible_table original needle sc ?ms))"
    "match_count b = length (eligible_table original needle sc ?ms)"
    "length (candidate_ranges b) \<le> 5 \<and> length (evidence_ranges b) \<le> 8"
    using assms(2) resolve_bulk_closed_form [OF assms(1), of original sc]
    by (auto simp: MAX_APPLY_TEXT_EXPECTED_MATCH_COUNT_def MAX_APPLY_TEXT_CONFLICT_CANDIDATES_def
        MAX_APPLY_TEXT_MATCH_RANGES_PER_EDIT_def)
  show ?thesis
    using b spell spaced by (auto simp: min.commute sorted_wrt_take dest: in_set_takeD)
qed

theorem bulk_matches_correct_witness:
  "match_count (resolve_apply_text_bulk_matches ''ab ab'' ''ab'' None)
     = length (eligible_table ''ab ab'' ''ab'' None (match_indices ''ab ab'' ''ab''))
   \<and> ranges (resolve_apply_text_bulk_matches ''ab ab'' ''ab'' None) = [(0, 2), (3, 5)]
   \<and> slice ''ab ab'' 3 5 = ''ab''"
proof -
  have r: "ranges (resolve_apply_text_bulk_matches ''ab ab'' ''ab'' None) = [(0, 2), (3, 5)]"
    by code_simp
  have "(''ab'' :: string) \<noteq> []" by simp
  note b = bulk_matches_correct [OF this refl, of "''ab ab''" None]
  have "slice ''ab ab'' 3 5 = ''ab''"
    using b unfolding r by simp
  then show ?thesis
    using b r by blast
qed

end
