(* ===== verification/Patch_Parse.thy ===== *)
theory Patch_Parse
  imports Wcx_Prelude
begin

text \<open>
  The patch language of the model-facing \<^verbatim>\<open>apply_patch\<close> tool,
  \<^verbatim>\<open>webcodex-core/src/apply_patch_shared.rs\<close>: its data types and the parser
  \<^verbatim>\<open>parse_codex_patch\<close>. The parser's cursor into the vector of lines is the pair of the line index
  (used in error positions) and the lines from that index on; the inner loops are structural on those
  lines and the outer loop terminates because every file section consumes its header.
\<close>

section \<open>Patches, matches and errors\<close>

record codex_patch_chunk =
  change_context :: "string option"
  old_lines :: "string list"
  new_lines :: "string list"
  is_end_of_file :: bool

definition default_chunk :: codex_patch_chunk where
  "default_chunk = \<lparr>change_context = None, old_lines = [], new_lines = [], is_end_of_file = False\<rparr>"

datatype codex_patch_hunk =
    AddFile string string
  | DeleteFile string
  | UpdateFile string "string option" "codex_patch_chunk list"

fun hunk_path :: "codex_patch_hunk \<Rightarrow> string" where
  "hunk_path (AddFile path _) = path"
| "hunk_path (DeleteFile path) = path"
| "hunk_path (UpdateFile path _ _) = path"

fun hunk_move_path :: "codex_patch_hunk \<Rightarrow> string option" where
  "hunk_move_path (UpdateFile _ move_path _) = move_path"
| "hunk_move_path (AddFile _ _) = None"
| "hunk_move_path (DeleteFile _) = None"

fun hunk_kind :: "codex_patch_hunk \<Rightarrow> string" where
  "hunk_kind (AddFile _ _) = ''add''"
| "hunk_kind (DeleteFile _) = ''delete''"
| "hunk_kind (UpdateFile _ _ _) = ''update''"

datatype codex_patch_match_source = OldLines | ChangeContext | Append

fun match_source_as_str :: "codex_patch_match_source \<Rightarrow> string" where
  "match_source_as_str OldLines = ''old_lines''"
| "match_source_as_str ChangeContext = ''change_context''"
| "match_source_as_str Append = ''append''"

record codex_patch_match_diagnostic =
  diag_chunk_index :: nat
  diag_match_source :: codex_patch_match_source
  diag_search_start_line :: nat
  expected_line_count :: nat
  available_line_count :: nat
  closest_start_line :: "nat option"
  closest_exact_line_matches :: nat
  closest_trim_end_line_matches :: nat
  closest_trim_line_matches :: nat
  first_exact_mismatch_offset :: "nat option"

record codex_patch_error =
  pe_kind :: string
  pe_line :: "nat option"
  pe_message :: string
  match_diagnostic :: "codex_patch_match_diagnostic option"

definition patch_error :: "string \<Rightarrow> nat option \<Rightarrow> string \<Rightarrow> codex_patch_error" where
  "patch_error kind line message =
     \<lparr>pe_kind = kind, pe_line = line, pe_message = message, match_diagnostic = None\<rparr>"

definition with_match_diagnostic ::
    "codex_patch_error \<Rightarrow> codex_patch_match_diagnostic \<Rightarrow> codex_patch_error" where
  "with_match_diagnostic err diagnostic = err\<lparr>match_diagnostic := Some diagnostic\<rparr>"

section \<open>The parser\<close>

definition MAX_CODEX_PATCH_BYTES :: nat where
  "MAX_CODEX_PATCH_BYTES = 262144"

definition MAX_CODEX_PATCH_FILE_CHANGES :: nat where
  "MAX_CODEX_PATCH_FILE_CHANGES = 64"

definition MAX_CODEX_PATCH_CHUNKS_PER_FILE :: nat where
  "MAX_CODEX_PATCH_CHUNKS_PER_FILE = 256"

definition BEGIN_PATCH_MARKER :: string where
  "BEGIN_PATCH_MARKER = ''*** Begin Patch''"

definition END_PATCH_MARKER :: string where
  "END_PATCH_MARKER = ''*** End Patch''"

definition ADD_FILE_MARKER :: string where
  "ADD_FILE_MARKER = ''*** Add File:''"

definition DELETE_FILE_MARKER :: string where
  "DELETE_FILE_MARKER = ''*** Delete File:''"

definition UPDATE_FILE_MARKER :: string where
  "UPDATE_FILE_MARKER = ''*** Update File:''"

definition MOVE_TO_MARKER :: string where
  "MOVE_TO_MARKER = ''*** Move to:''"

definition END_OF_FILE_MARKER :: string where
  "END_OF_FILE_MARKER = ''*** End of File''"

definition nonempty_trimmed :: "string \<Rightarrow> string option" where
  "nonempty_trimmed s = (let t = trim s in if t = [] then None else Some t)"

definition marker_path :: "string \<Rightarrow> string \<Rightarrow> string option" where
  "marker_path line marker = Option.bind (strip_prefix marker (trim_end line)) nonempty_trimmed"

definition is_file_header :: "string \<Rightarrow> bool" where
  "is_file_header line \<longleftrightarrow>
     marker_path line ADD_FILE_MARKER \<noteq> None
     \<or> marker_path line DELETE_FILE_MARKER \<noteq> None
     \<or> marker_path line UPDATE_FILE_MARKER \<noteq> None"

definition ends_section :: "string \<Rightarrow> bool" where
  "ends_section line \<longleftrightarrow> trim_end line = END_PATCH_MARKER \<or> is_file_header line"

text \<open>A blank line directly before the next section is a separator.\<close>

definition is_separator :: "string \<Rightarrow> string list \<Rightarrow> bool" where
  "is_separator line rest \<longleftrightarrow>
     is_blank line \<and> (case rest of [] \<Rightarrow> False | nxt # _ \<Rightarrow> ends_section nxt)"

definition normalized_patch_lines :: "string \<Rightarrow> (string list, codex_patch_error) result" where
  "normalized_patch_lines patch =
     (if patch = [] then Err (patch_error ''invalid_patch'' None ''patch cannot be empty'')
      else if MAX_CODEX_PATCH_BYTES < length patch
        then Err (patch_error ''patch_too_large'' None ''patch exceeds 262144 UTF-8 bytes'')
      else let normalized = replace_crlf_lf patch in
        if List.member normalized CR
          then Err (patch_error ''invalid_patch'' None
                      ''patch contains unsupported bare CR line endings'')
        else Ok (split_on LF normalized))"

definition push_chunk ::
    "codex_patch_chunk list \<Rightarrow> codex_patch_chunk \<Rightarrow> nat
     \<Rightarrow> (codex_patch_chunk list, codex_patch_error) result" where
  "push_chunk chunks chunk line =
     (if change_context chunk \<noteq> None \<and> old_lines chunk = [] \<and> new_lines chunk = []
        then Err (patch_error ''invalid_hunk'' (Some line)
                    ''change context must be followed by at least one patch line'')
      else if change_context chunk = None \<and> old_lines chunk = [] \<and> new_lines chunk = []
          \<and> \<not> is_end_of_file chunk
        then Ok chunks
      else if MAX_CODEX_PATCH_CHUNKS_PER_FILE \<le> length chunks
        then Err (patch_error ''patch_too_large'' (Some line)
                    ''one update may contain at most 256 chunks'')
      else Ok (chunks @ [chunk]))"

definition push_pending ::
    "codex_patch_chunk list \<Rightarrow> codex_patch_chunk option \<Rightarrow> nat
     \<Rightarrow> (codex_patch_chunk list, codex_patch_error) result" where
  "push_pending chunks current_chunk line =
     (case current_chunk of None \<Rightarrow> Ok chunks | Some chunk \<Rightarrow> push_chunk chunks chunk line)"

fun skip_blank :: "nat \<Rightarrow> string list \<Rightarrow> nat \<times> string list" where
  "skip_blank index [] = (index, [])"
| "skip_blank index (line # rest) =
     (if is_blank line then skip_blank (index + 1) rest else (index, line # rest))"

fun add_file_lines ::
    "nat \<Rightarrow> string list \<Rightarrow> string list \<Rightarrow> (string list \<times> nat \<times> string list, codex_patch_error) result"
where
  "add_file_lines index [] added = Ok (added, index, [])"
| "add_file_lines index (current # rest) added =
     (if ends_section current then Ok (added, index, current # rest)
      else if is_separator current rest then Ok (added, index + 1, rest)
      else (case strip_prefix ''+'' current of
          None \<Rightarrow> Err (patch_error ''invalid_hunk'' (Some (index + 1))
                         (''every Add File content line must start with '' @ [CHR 0x27, CHR ''+'', CHR 0x27]))
        | Some content \<Rightarrow> add_file_lines (index + 1) rest (added @ [content])))"

definition update_prefix_error :: "nat \<Rightarrow> codex_patch_error" where
  "update_prefix_error index = patch_error ''invalid_hunk'' (Some (index + 1))
     (''update lines must start with '' @ [CHR 0x27, CHR ''+'', CHR 0x27] @ '', ''
      @ [CHR 0x27, CHR ''-'', CHR 0x27] @ '', or one context space'')"

text \<open>One content line of an update chunk: the first character selects the side.\<close>

definition push_update_line ::
    "nat \<Rightarrow> codex_patch_chunk \<Rightarrow> string \<Rightarrow> (codex_patch_chunk, codex_patch_error) result" where
  "push_update_line index chunk current =
     (case current of
        [] \<Rightarrow> Err (update_prefix_error index)
      | prefix # content \<Rightarrow>
          if prefix = CHR ''+'' then Ok (chunk\<lparr>new_lines := new_lines chunk @ [content]\<rparr>)
          else if prefix = CHR ''-'' then Ok (chunk\<lparr>old_lines := old_lines chunk @ [content]\<rparr>)
          else if prefix = CHR '' '' then
            Ok (chunk\<lparr>old_lines := old_lines chunk @ [content],
                      new_lines := new_lines chunk @ [content]\<rparr>)
          else Err (update_prefix_error index))"

fun update_file_lines ::
    "nat \<Rightarrow> string list \<Rightarrow> codex_patch_chunk list \<Rightarrow> codex_patch_chunk option \<Rightarrow> bool
     \<Rightarrow> (codex_patch_chunk list \<times> codex_patch_chunk option \<times> nat \<times> string list, codex_patch_error) result"
where
  "update_file_lines index [] chunks current_chunk saw_eof = Ok (chunks, current_chunk, index, [])"
| "update_file_lines index (current # rest) chunks current_chunk saw_eof =
     (if ends_section current then Ok (chunks, current_chunk, index, current # rest)
      else if is_separator current rest then Ok (chunks, current_chunk, index + 1, rest)
      else if saw_eof then
        Err (patch_error ''invalid_hunk'' (Some (index + 1))
               (''no update lines may follow '' @ [CHR 0x27] @ END_OF_FILE_MARKER @ [CHR 0x27]))
      else let trimmed = trim_end current in
        if trimmed = ''@@'' \<or> starts_with trimmed ''@@ '' then
          (case push_pending chunks current_chunk (index + 1) of
             Inl e \<Rightarrow> Err e
           | Inr chunks \<Rightarrow>
               update_file_lines (index + 1) rest chunks
                 (Some (default_chunk\<lparr>change_context :=
                    Option.bind (strip_prefix ''@@ '' trimmed) nonempty_trimmed\<rparr>)) saw_eof)
        else if trimmed = END_OF_FILE_MARKER then
          (case current_chunk of
             None \<Rightarrow> Err (patch_error ''invalid_hunk'' (Some (index + 1))
               ([CHR 0x27] @ END_OF_FILE_MARKER @ [CHR 0x27] @ '' requires a preceding update chunk''))
           | Some chunk \<Rightarrow>
               update_file_lines (index + 1) rest chunks (Some (chunk\<lparr>is_end_of_file := True\<rparr>)) True)
        else
          (case push_update_line index
                  (case current_chunk of None \<Rightarrow> default_chunk | Some chunk \<Rightarrow> chunk) current of
             Inl e \<Rightarrow> Err e
           | Inr chunk \<Rightarrow> update_file_lines (index + 1) rest chunks (Some chunk) saw_eof))"

definition parse_add_file ::
    "nat \<Rightarrow> string \<Rightarrow> string list \<Rightarrow> (codex_patch_hunk \<times> nat \<times> string list, codex_patch_error) result" where
  "parse_add_file index path rest =
     (case add_file_lines (index + 1) rest [] of
        Inl e \<Rightarrow> Err e
      | Inr (added, index', rest') \<Rightarrow>
          if added = [] then
            Err (patch_error ''invalid_hunk'' (Some (index + 1))
                   (''Add File requires at least one '' @ [CHR 0x27, CHR ''+'', CHR 0x27] @ '' content line''))
          else Ok (AddFile path (join [LF] added @ [LF]), index', rest'))"

text \<open>The optional \<^verbatim>\<open>Move to\<close> line directly after an update header.\<close>

definition move_destination :: "nat \<Rightarrow> string list \<Rightarrow> string option \<times> nat \<times> string list" where
  "move_destination index rest =
     (case rest of
        [] \<Rightarrow> (None, index + 1, rest)
      | current # rest' \<Rightarrow>
          (case marker_path current MOVE_TO_MARKER of
             None \<Rightarrow> (None, index + 1, rest)
           | Some destination \<Rightarrow> (Some destination, index + 2, rest')))"

definition parse_update_file ::
    "nat \<Rightarrow> string \<Rightarrow> string list \<Rightarrow> (codex_patch_hunk \<times> nat \<times> string list, codex_patch_error) result" where
  "parse_update_file index path rest =
     (let (move_path, start, body) = move_destination index rest
      in case update_file_lines start body [] None False of
           Inl e \<Rightarrow> Err e
         | Inr (chunks, current_chunk, index', rest') \<Rightarrow>
             (case push_pending chunks current_chunk (index' + 1) of
                Inl e \<Rightarrow> Err e
              | Inr chunks \<Rightarrow>
                  if move_path = None \<and> chunks = [] then
                    Err (patch_error ''invalid_hunk'' (Some (index + 1))
                      ''Update File requires a Move to destination or at least one change chunk'')
                  else Ok (UpdateFile path move_path chunks, index', rest')))"

text \<open>One file section, whose header is at \<open>index\<close>.\<close>

definition parse_section ::
    "nat \<Rightarrow> string \<Rightarrow> string list \<Rightarrow> (codex_patch_hunk \<times> nat \<times> string list, codex_patch_error) result" where
  "parse_section index line rest =
     (case marker_path line ADD_FILE_MARKER of
        Some path \<Rightarrow> parse_add_file index path rest
      | None \<Rightarrow>
          (case marker_path line DELETE_FILE_MARKER of
             Some path \<Rightarrow> Ok (DeleteFile path, index + 1, rest)
           | None \<Rightarrow>
               (case marker_path line UPDATE_FILE_MARKER of
                  Some path \<Rightarrow> parse_update_file index path rest
                | None \<Rightarrow> Err (patch_error ''invalid_patch'' (Some (index + 1))
                    ''expected Add File, Delete File, Update File, or End Patch marker''))))"

lemma skip_blank_length: "skip_blank index ls = (index', ls') \<Longrightarrow> length ls' \<le> length ls"
  by (induction index ls rule: skip_blank.induct) (auto split: if_splits)

lemma add_file_lines_length:
  "add_file_lines index ls added = Ok (added', index', ls') \<Longrightarrow> length ls' \<le> length ls"
  by (induction index ls added rule: add_file_lines.induct)
    (auto split: if_splits option.splits)

lemma update_file_lines_length:
  "update_file_lines index ls chunks cur eof = Ok (chunks', cur', index', ls') \<Longrightarrow>
     length ls' \<le> length ls"
proof (induction ls arbitrary: index chunks cur eof)
  case (Cons current rest)
  show ?case
    using Cons.prems
    by (auto simp: Let_def le_SucI split: if_splits option.splits sum.splits dest!: Cons.IH)
qed simp

declare add_file_lines.simps [simp del] update_file_lines.simps [simp del]

lemma parse_add_file_length:
  "parse_add_file index path ls = Ok (hunk, index', ls') \<Longrightarrow> length ls' \<le> length ls"
  by (auto simp: parse_add_file_def dest!: add_file_lines_length
      split: if_splits sum.splits prod.splits)

lemma parse_update_file_length:
  "parse_update_file index path ls = Ok (hunk, index', ls') \<Longrightarrow> length ls' \<le> length ls"
  by (auto simp: parse_update_file_def move_destination_def dest!: update_file_lines_length
      split: if_splits option.splits sum.splits prod.splits list.splits)

lemma parse_section_length:
  "parse_section index line ls = Ok (hunk, index', ls') \<Longrightarrow> length ls' \<le> length ls"
  by (auto simp: parse_section_def dest: parse_add_file_length parse_update_file_length
      split: option.splits)

function hunk_loop ::
    "nat \<Rightarrow> string list \<Rightarrow> codex_patch_hunk list
     \<Rightarrow> (codex_patch_hunk list \<times> bool \<times> nat \<times> string list, codex_patch_error) result" where
  "hunk_loop index ls hunks =
     (case skip_blank index ls of
        (index, []) \<Rightarrow> Ok (hunks, False, index, [])
      | (index, line # rest) \<Rightarrow>
          if trim_end line = END_PATCH_MARKER then Ok (hunks, True, index + 1, rest)
          else if MAX_CODEX_PATCH_FILE_CHANGES \<le> length hunks
            then Err (patch_error ''patch_too_large'' (Some (index + 1))
                        ''patch may touch at most 64 files'')
          else
            (case parse_section index line rest of
               Inl e \<Rightarrow> Err e
             | Inr (hunk, index', rest') \<Rightarrow> hunk_loop index' rest' (hunks @ [hunk])))"
  by pat_completeness auto
termination
  by (relation "measure (\<lambda>(index, ls, hunks). length ls)")
    (auto dest!: skip_blank_length [OF sym] parse_section_length)

declare hunk_loop.simps [simp del]

definition parse_codex_patch :: "string \<Rightarrow> (codex_patch_hunk list, codex_patch_error) result" where
  "parse_codex_patch patch =
     (case normalized_patch_lines patch of
        Inl e \<Rightarrow> Err e
      | Inr ls \<Rightarrow>
          (case skip_blank 0 ls of (index, rest) \<Rightarrow>
             if rest = [] \<or> trim (hd rest) \<noteq> BEGIN_PATCH_MARKER
               then Err (patch_error ''invalid_patch'' (Some (index + 1))
                      (''first marker must be '' @ [CHR 0x27] @ BEGIN_PATCH_MARKER @ [CHR 0x27]))
             else
               (case hunk_loop (index + 1) (tl rest) [] of
                  Inl e \<Rightarrow> Err e
                | Inr (hunks, saw_end, index', rest') \<Rightarrow>
                    if \<not> saw_end
                      then Err (patch_error ''invalid_patch'' None
                             (''patch must end with '' @ [CHR 0x27] @ END_PATCH_MARKER @ [CHR 0x27]))
                    else if hunks = []
                      then Err (patch_error ''invalid_patch'' None
                             ''patch must contain at least one file operation'')
                    else if list_ex (\<lambda>line. \<not> is_blank line) rest'
                      then Err (patch_error ''invalid_patch'' (Some (index' + 1))
                             ''non-whitespace content follows End Patch'')
                    else Ok hunks)))"

section \<open>Well-formed patches\<close>

text \<open>What a consumer of a parsed patch may rely on.\<close>

definition clean_line :: "string \<Rightarrow> bool" where
  "clean_line l \<longleftrightarrow> LF \<notin> set l \<and> CR \<notin> set l"

definition clean_name :: "string \<Rightarrow> bool" where
  "clean_name x \<longleftrightarrow> x \<noteq> [] \<and> trim x = x \<and> clean_line x"

definition chunk_lines_clean :: "codex_patch_chunk \<Rightarrow> bool" where
  "chunk_lines_clean c \<longleftrightarrow>
     (case change_context c of None \<Rightarrow> True | Some x \<Rightarrow> clean_name x)
     \<and> list_all clean_line (old_lines c) \<and> list_all clean_line (new_lines c)"

definition wf_chunk :: "codex_patch_chunk \<Rightarrow> bool" where
  "wf_chunk c \<longleftrightarrow> chunk_lines_clean c
     \<and> (old_lines c \<noteq> [] \<or> new_lines c \<noteq> [] \<or> change_context c = None \<and> is_end_of_file c)"

definition wf_chunks :: "codex_patch_chunk list \<Rightarrow> bool" where
  "wf_chunks cs \<longleftrightarrow> list_all wf_chunk cs \<and> length cs \<le> MAX_CODEX_PATCH_CHUNKS_PER_FILE
     \<and> list_all (\<lambda>c. \<not> is_end_of_file c) (butlast cs)"

fun wf_hunk :: "codex_patch_hunk \<Rightarrow> bool" where
  "wf_hunk (AddFile path contents) \<longleftrightarrow>
     clean_name path \<and> CR \<notin> set contents \<and> ends_with contents [LF]"
| "wf_hunk (DeleteFile path) \<longleftrightarrow> clean_name path"
| "wf_hunk (UpdateFile path move_path chunks) \<longleftrightarrow>
     clean_name path \<and> (case move_path of None \<Rightarrow> chunks \<noteq> [] | Some d \<Rightarrow> clean_name d)
     \<and> wf_chunks chunks"

definition wf_patch :: "codex_patch_hunk list \<Rightarrow> bool" where
  "wf_patch hunks \<longleftrightarrow> hunks \<noteq> [] \<and> length hunks \<le> MAX_CODEX_PATCH_FILE_CHANGES
     \<and> list_all wf_hunk hunks"

lemma replace_crlf_lf_id: "CR \<notin> set s \<Longrightarrow> replace_crlf_lf s = s"
  by (induction s rule: replace_crlf_lf.induct) auto

lemma split_on_subset: "l \<in> set (split_on d s) \<Longrightarrow> set l \<subseteq> set s"
  by (induction s arbitrary: l) (fastforce split: list.splits if_splits)+

lemma normalized_patch_lines_clean:
  assumes "normalized_patch_lines patch = Ok ls"
  shows "list_all clean_line ls"
proof -
  have ls: "ls = split_on LF (replace_crlf_lf patch)" and cr: "CR \<notin> set (replace_crlf_lf patch)"
    using assms by (auto simp: normalized_patch_lines_def Let_def split: if_splits)
  show ?thesis
    using cr split_on_no_sep split_on_subset by (fastforce simp: ls list_all_iff clean_line_def)
qed

lemma clean_line_trim: "clean_line l \<Longrightarrow> clean_line (trim l)"
  using set_trim [of l] by (auto simp: clean_line_def)

lemma clean_line_trim_end: "clean_line l \<Longrightarrow> clean_line (trim_end l)"
  using set_trim_end [of l] by (auto simp: clean_line_def)

lemma clean_line_append [simp]: "clean_line (a @ b) \<longleftrightarrow> clean_line a \<and> clean_line b"
  by (auto simp: clean_line_def)

lemma clean_line_Cons [simp]: "clean_line (c # b) \<longleftrightarrow> c \<noteq> LF \<and> c \<noteq> CR \<and> clean_line b"
  by (auto simp: clean_line_def)

lemma nonempty_trimmed_clean:
  "nonempty_trimmed s = Some t \<Longrightarrow> clean_line s \<Longrightarrow> clean_name t"
  by (auto simp: nonempty_trimmed_def clean_name_def Let_def clean_line_trim split: if_splits)

lemma strip_prefix_clean: "strip_prefix p s = Some t \<Longrightarrow> clean_line s \<Longrightarrow> clean_line t"
  by (auto simp: strip_prefix_Some_iff)

lemma marker_path_clean:
  assumes "marker_path l m = Some t" "clean_line l"
  shows "clean_name t"
proof -
  obtain u where "strip_prefix m (trim_end l) = Some u" "nonempty_trimmed u = Some t"
    using assms(1) by (auto simp: marker_path_def Option.bind_eq_Some_conv)
  then show ?thesis
    using assms(2) by (metis clean_line_trim_end strip_prefix_clean nonempty_trimmed_clean)
qed

lemma skip_blank_clean:
  "skip_blank index ls = (index', ls') \<Longrightarrow> list_all clean_line ls \<Longrightarrow> list_all clean_line ls'"
  by (induction index ls rule: skip_blank.induct) (auto split: if_splits)

lemma add_file_lines_clean:
  "add_file_lines index ls added = Ok (added', index', ls') \<Longrightarrow> list_all clean_line ls \<Longrightarrow>
     list_all clean_line added \<Longrightarrow> list_all clean_line added' \<and> list_all clean_line ls'"
proof (induction ls arbitrary: index added)
  case (Cons l ls)
  then show ?case
    by (auto simp: add_file_lines.simps split: if_splits option.splits
        dest: Cons.IH strip_prefix_clean)
qed (simp add: add_file_lines.simps)

lemma push_update_line_clean:
  "push_update_line index c l = Ok c' \<Longrightarrow> clean_line l \<Longrightarrow> chunk_lines_clean c \<Longrightarrow>
     chunk_lines_clean c' \<and> (old_lines c' \<noteq> [] \<or> new_lines c' \<noteq> [])
     \<and> is_end_of_file c' = is_end_of_file c"
  by (auto simp: push_update_line_def chunk_lines_clean_def split: list.splits if_splits)

lemma push_pending_Ok:
  assumes "push_pending chunks cur line = Ok chunks'"
  shows "chunks' = chunks \<or>
    (\<exists>c. cur = Some c \<and> chunks' = chunks @ [c] \<and> length chunks < MAX_CODEX_PATCH_CHUNKS_PER_FILE
       \<and> (old_lines c \<noteq> [] \<or> new_lines c \<noteq> [] \<or> change_context c = None \<and> is_end_of_file c))"
  using assms by (auto simp: push_pending_def push_chunk_def split: option.splits if_splits)

text \<open>Between two update lines, only the pending chunk may already be marked as ending the file.\<close>

definition chunks_open :: "codex_patch_chunk list \<Rightarrow> codex_patch_chunk option \<Rightarrow> bool \<Rightarrow> bool" where
  "chunks_open chunks cur eof \<longleftrightarrow>
     list_all wf_chunk chunks \<and> list_all (\<lambda>c. \<not> is_end_of_file c) chunks
     \<and> length chunks \<le> MAX_CODEX_PATCH_CHUNKS_PER_FILE
     \<and> (case cur of None \<Rightarrow> True | Some c \<Rightarrow> chunk_lines_clean c \<and> (is_end_of_file c \<longrightarrow> eof))"

lemma chunks_open_push:
  assumes "push_pending chunks cur line = Ok chunks'" "chunks_open chunks cur False"
    "chunk_lines_clean c" "\<not> is_end_of_file c"
  shows "chunks_open chunks' (Some c) False"
  using push_pending_Ok [OF assms(1)] assms(2-)
  by (auto simp: chunks_open_def wf_chunk_def)

lemma wf_chunks_push:
  assumes "push_pending chunks cur line = Ok chunks'" "chunks_open chunks cur eof"
  shows "wf_chunks chunks'"
  using push_pending_Ok [OF assms(1)] assms(2)
  by (auto simp: chunks_open_def wf_chunks_def wf_chunk_def list_all_iff dest: in_set_butlastD)

lemma context_chunk_clean:
  assumes "clean_line l"
  shows "chunk_lines_clean
    (default_chunk\<lparr>change_context := Option.bind (strip_prefix ''@@ '' (trim_end l)) nonempty_trimmed\<rparr>)"
  using nonempty_trimmed_clean strip_prefix_clean [OF _ clean_line_trim_end [OF assms]]
  by (auto simp: chunk_lines_clean_def default_chunk_def split: option.splits bind_splits)

lemma update_file_lines_open:
  assumes "update_file_lines index ls chunks cur eof = Ok (chunks', cur', index', ls')"
    "list_all clean_line ls" "chunks_open chunks cur eof"
  shows "(\<exists>eof'. chunks_open chunks' cur' eof') \<and> list_all clean_line ls'"
  using assms
proof (induction ls arbitrary: index chunks cur eof)
  case (Cons l ls)
  show ?case
  proof (cases "ends_section l \<or> is_separator l ls")
    case True
    with Cons.prems show ?thesis by (auto simp: update_file_lines.simps split: if_splits)
  next
    case False
    with Cons.prems have eof: "\<not> eof" by (auto simp: update_file_lines.simps)
    note step = Cons.prems(1) [unfolded update_file_lines.simps Let_def]
    have clean: "clean_line l" "list_all clean_line ls" using Cons.prems by auto
    consider (ctx) "trim_end l = ''@@'' \<or> starts_with (trim_end l) ''@@ ''"
      | (eof) "trim_end l = END_OF_FILE_MARKER" "\<not> (trim_end l = ''@@'' \<or> starts_with (trim_end l) ''@@ '')"
      | (content) "trim_end l \<noteq> END_OF_FILE_MARKER" "\<not> (trim_end l = ''@@'' \<or> starts_with (trim_end l) ''@@ '')"
      by blast
    then show ?thesis
    proof cases
      case ctx
      let ?c = "default_chunk\<lparr>change_context :=
        Option.bind (strip_prefix ''@@ '' (trim_end l)) nonempty_trimmed\<rparr>"
      obtain cs where cs: "push_pending chunks cur (index + 1) = Ok cs"
        and upd: "update_file_lines (index + 1) ls cs (Some ?c) eof = Ok (chunks', cur', index', ls')"
        using step False eof ctx by (auto split: sum.splits)
      have "chunks_open cs (Some ?c) eof"
        using chunks_open_push [OF cs] Cons.prems(3) context_chunk_clean [OF clean(1)] eof
        by (simp add: default_chunk_def)
      then show ?thesis using Cons.IH [OF upd clean(2)] by blast
    next
      case eof
      then obtain c where c: "cur = Some c"
        and upd: "update_file_lines (index + 1) ls chunks (Some (c\<lparr>is_end_of_file := True\<rparr>)) True
          = Ok (chunks', cur', index', ls')"
        using step False \<open>\<not> eof\<close> by (auto split: option.splits)
      have "chunks_open chunks (Some (c\<lparr>is_end_of_file := True\<rparr>)) True"
        using Cons.prems(3) by (simp add: chunks_open_def c chunk_lines_clean_def)
      then show ?thesis using Cons.IH [OF upd clean(2)] by blast
    next
      case content
      let ?cur = "case cur of None \<Rightarrow> default_chunk | Some chunk \<Rightarrow> chunk"
      obtain c where c: "push_update_line index ?cur l = Ok c"
        and upd: "update_file_lines (index + 1) ls chunks (Some c) eof = Ok (chunks', cur', index', ls')"
        using step False eof content by (auto split: sum.splits)
      have "chunk_lines_clean ?cur" "\<not> is_end_of_file ?cur"
        using Cons.prems(3) eof
        by (auto simp: chunks_open_def chunk_lines_clean_def default_chunk_def split: option.splits)
      then have "chunks_open chunks (Some c) eof"
        using push_update_line_clean [OF c clean(1)] Cons.prems(3) by (auto simp: chunks_open_def)
      then show ?thesis using Cons.IH [OF upd clean(2)] by blast
    qed
  qed
qed (auto simp: update_file_lines.simps)

lemma join_clean: "list_all clean_line xs \<Longrightarrow> CR \<notin> set (join [LF] xs)"
  by (induction "[LF]" xs rule: join.induct) (auto simp: clean_line_def)

lemma parse_add_file_wf:
  assumes "parse_add_file index path ls = Ok (hunk, index', ls')"
    "list_all clean_line ls" "clean_name path"
  shows "wf_hunk hunk \<and> list_all clean_line ls'"
  using assms join_clean
  by (auto simp: parse_add_file_def ends_with_iff dest!: add_file_lines_clean
      split: sum.splits prod.splits if_splits)

lemma parse_update_file_wf:
  assumes "parse_update_file index path ls = Ok (hunk, index', ls')"
    "list_all clean_line ls" "clean_name path"
  shows "wf_hunk hunk \<and> list_all clean_line ls'"
proof -
  obtain move_path start body chunks cur chunks' where
    dest: "move_destination index ls = (move_path, start, body)"
    and upd: "update_file_lines start body [] None False = Ok (chunks, cur, index', ls')"
    and push: "push_pending chunks cur (index' + 1) = Ok chunks'"
    and hunk: "hunk = UpdateFile path move_path chunks'" "\<not> (move_path = None \<and> chunks' = [])"
    using assms(1) by (auto simp: parse_update_file_def split: sum.splits prod.splits if_splits)
  have body: "list_all clean_line body" "case move_path of None \<Rightarrow> True | Some d \<Rightarrow> clean_name d"
    using dest assms(2) marker_path_clean
    by (auto simp: move_destination_def split: list.splits option.splits)
  have "\<exists>eof. chunks_open chunks cur eof" and ls': "list_all clean_line ls'"
    using update_file_lines_open [OF upd body(1)] by (auto simp: chunks_open_def)
  then have "wf_chunks chunks'"
    using wf_chunks_push [OF push] by blast
  then show ?thesis
    using hunk body(2) assms(3) ls' by (auto split: option.splits)
qed

lemma parse_section_wf:
  "parse_section index line ls = Ok (hunk, index', ls') \<Longrightarrow> clean_line line \<Longrightarrow>
     list_all clean_line ls \<Longrightarrow> wf_hunk hunk \<and> list_all clean_line ls'"
  unfolding parse_section_def
  by (auto split: option.splits dest: parse_add_file_wf parse_update_file_wf marker_path_clean)

lemma hunk_loop_wf:
  "hunk_loop index ls hunks = Ok (hunks', saw_end, index', ls') \<Longrightarrow> list_all clean_line ls \<Longrightarrow>
     list_all wf_hunk hunks \<Longrightarrow> length hunks \<le> MAX_CODEX_PATCH_FILE_CHANGES \<Longrightarrow>
     list_all wf_hunk hunks' \<and> length hunks' \<le> MAX_CODEX_PATCH_FILE_CHANGES"
proof (induction index ls hunks rule: hunk_loop.induct)
  case (1 index ls hunks)
  obtain i l where skip: "skip_blank index ls = (i, l)" by fastforce
  with 1 have l: "list_all clean_line l" by (metis skip_blank_clean)
  show ?case
  proof (cases l)
    case Nil
    with 1 skip show ?thesis by (simp add: hunk_loop.simps)
  next
    case (Cons line rest)
    show ?thesis
    proof (cases "trim_end line = END_PATCH_MARKER")
      case True
      with 1 skip Cons show ?thesis by (simp add: hunk_loop.simps)
    next
      case False
      with 1 skip Cons obtain hunk j rest' where
        sec: "parse_section i line rest = Ok (hunk, j, rest')"
        and small: "\<not> MAX_CODEX_PATCH_FILE_CHANGES \<le> length hunks"
        and rec: "hunk_loop j rest' (hunks @ [hunk]) = Ok (hunks', saw_end, index', ls')"
        by (auto simp: hunk_loop.simps [of index] split: sum.splits if_splits)
      have "wf_hunk hunk \<and> list_all clean_line rest'"
        using parse_section_wf [OF sec] l Cons by simp
      then show ?thesis
        using 1 skip Cons False small sec rec by simp
    qed
  qed
qed

text \<open>
  C28. Whatever \<^verbatim>\<open>parse_codex_patch\<close> accepts is a well-formed patch: between 1 and 64 file operations,
  every path, destination and change context is non-empty, trimmed and free of line breaks, an added
  file ends in a newline, an update has a destination or a chunk, an update has at most 256 chunks,
  each chunk is non-trivial, and only the last chunk of an update may be anchored at the end of the
  file.
\<close>

theorem parse_codex_patch_wf:
  assumes "parse_codex_patch patch = Ok hunks"
  shows "wf_patch hunks"
proof -
  obtain ls index rest hs saw_end index' rest' where
    norm: "normalized_patch_lines patch = Ok ls" and skip: "skip_blank 0 ls = (index, rest)"
    and loop: "hunk_loop (index + 1) (tl rest) [] = Ok (hunks, saw_end, index', rest')"
    and ne: "hunks \<noteq> []"
    using assms by (auto simp: parse_codex_patch_def split: sum.splits prod.splits if_splits)
  have "list_all clean_line (tl rest)"
    using skip_blank_clean [OF skip normalized_patch_lines_clean [OF norm]]
    by (cases rest) auto
  then show ?thesis
    using hunk_loop_wf [OF loop] ne by (simp add: wf_patch_def)
qed

definition example_patch :: string where
  "example_patch = join [LF]
     [''*** Begin Patch'', ''*** Update File: a.txt'', ''@@ fn'', ''-x'', ''+y'', ''*** End Patch'']"

theorem parse_codex_patch_wf_witness:
  "parse_codex_patch example_patch
     = Ok [UpdateFile ''a.txt'' None
         [\<lparr>change_context = Some ''fn'', old_lines = [''x''], new_lines = [''y''], is_end_of_file = False\<rparr>]]
   \<and> wf_patch [UpdateFile ''a.txt'' None
         [\<lparr>change_context = Some ''fn'', old_lines = [''x''], new_lines = [''y''], is_end_of_file = False\<rparr>]]"
proof -
  have p: "parse_codex_patch example_patch
     = Ok [UpdateFile ''a.txt'' None
         [\<lparr>change_context = Some ''fn'', old_lines = [''x''], new_lines = [''y''], is_end_of_file = False\<rparr>]]"
    by code_simp
  with parse_codex_patch_wf [OF p] show ?thesis by simp
qed

section \<open>Printing patches\<close>

text \<open>
  The inverse of the parser on well-formed patches, and the specification of its concrete syntax: every
  chunk is introduced by its \<^verbatim>\<open>@@\<close> line, then the removed and the added lines.
\<close>

definition render_chunk :: "codex_patch_chunk \<Rightarrow> string list" where
  "render_chunk c =
     (case change_context c of None \<Rightarrow> ''@@'' | Some x \<Rightarrow> ''@@ '' @ x)
     # map ((#) CHR ''-'') (old_lines c) @ map ((#) CHR ''+'') (new_lines c)
     @ (if is_end_of_file c then [END_OF_FILE_MARKER] else [])"

fun render_hunk :: "codex_patch_hunk \<Rightarrow> string list" where
  "render_hunk (AddFile path contents) =
     (ADD_FILE_MARKER @ '' '' @ path) # map ((#) CHR ''+'') (split_on LF (butlast contents))"
| "render_hunk (DeleteFile path) = [DELETE_FILE_MARKER @ '' '' @ path]"
| "render_hunk (UpdateFile path move_path chunks) =
     (UPDATE_FILE_MARKER @ '' '' @ path)
     # (case move_path of None \<Rightarrow> [] | Some d \<Rightarrow> [MOVE_TO_MARKER @ '' '' @ d])
     @ concat (map render_chunk chunks)"

definition render_patch :: "codex_patch_hunk list \<Rightarrow> string" where
  "render_patch hunks =
     join [LF] (BEGIN_PATCH_MARKER # concat (map render_hunk hunks) @ [END_PATCH_MARKER])"

text \<open>A Rust string never starts in the middle of a character.\<close>

definition starts_char :: "string \<Rightarrow> bool" where
  "starts_char s \<longleftrightarrow> s = [] \<or> \<not> is_cont (hd s)"

definition context_utf8 :: "codex_patch_chunk \<Rightarrow> bool" where
  "context_utf8 c \<longleftrightarrow> (case change_context c of None \<Rightarrow> True | Some x \<Rightarrow> starts_char x)"

fun hunk_utf8 :: "codex_patch_hunk \<Rightarrow> bool" where
  "hunk_utf8 (AddFile path _) \<longleftrightarrow> starts_char path"
| "hunk_utf8 (DeleteFile path) \<longleftrightarrow> starts_char path"
| "hunk_utf8 (UpdateFile path move_path chunks) \<longleftrightarrow>
     starts_char path \<and> (case move_path of None \<Rightarrow> True | Some d \<Rightarrow> starts_char d)
     \<and> list_all context_utf8 chunks"

lemma trim_end_append_name:
  "clean_name x \<Longrightarrow> starts_char x \<Longrightarrow> trim_end (p @ x) = p @ x"
  using trim_id_iff [of x]
  by (intro trim_end_id) (auto simp: clean_name_def starts_char_def chars_append)

lemma trim_space_name:
  assumes "clean_name x" "starts_char x"
  shows "trim (CHR '' '' # x) = x"
proof -
  have "chars ([CHR '' ''] @ x) = [[CHR '' '']] @ chars x"
    using assms by (subst chars_append) (auto simp: clean_name_def starts_char_def)
  moreover have "is_whitespace [CHR '' '']"
    by (simp add: is_whitespace_def whitespace_chars_def)
  moreover have "\<not> is_whitespace (hd (chars x)) \<and> \<not> is_whitespace (last (chars x))" "x \<noteq> []"
    using assms trim_id_iff [of x] by (auto simp: clean_name_def)
  ultimately show ?thesis
    by (simp add: trim_def dropWhile_id hd_rev hd_append)
qed

lemma nonempty_trimmed_space_name:
  "clean_name x \<Longrightarrow> starts_char x \<Longrightarrow> nonempty_trimmed (CHR '' '' # x) = Some x"
  by (simp add: nonempty_trimmed_def trim_space_name clean_name_def)

lemma nonempty_trimmed_name:
  "clean_name x \<Longrightarrow> nonempty_trimmed x = Some x"
  by (simp add: nonempty_trimmed_def clean_name_def)

lemma marker_path_render:
  "clean_name x \<Longrightarrow> starts_char x \<Longrightarrow> marker_path (m @ '' '' @ x) m = Some x"
proof -
  assume x: "clean_name x" "starts_char x"
  have "trim_end ((m @ '' '') @ x) = (m @ '' '') @ x"
    using x by (rule trim_end_append_name)
  then show ?thesis
    using x by (simp add: marker_path_def nonempty_trimmed_space_name)
qed

text \<open>Lines whose first byte is not the marker character never end a section.\<close>

lemma marker_path_hd:
  assumes "marker_path (c # s) (d # m) \<noteq> None"
  shows "c = d"
proof -
  obtain u where "trim_end (c # s) = d # m @ u"
    using assms by (auto simp: marker_path_def strip_prefix_Some_iff Option.bind_eq_None_conv)
  then show ?thesis
    using trim_end_prefix [of "c # s"] by (metis append_Cons list.inject)
qed

lemma trim_end_hd: "trim_end (c # s) = d # t \<Longrightarrow> c = d"
  using trim_end_prefix [of "c # s"] by (metis append_Cons list.inject)

lemma marker_defs:
  "BEGIN_PATCH_MARKER = CHR ''*'' # ''** Begin Patch''"
  "END_PATCH_MARKER = CHR ''*'' # ''** End Patch''"
  "ADD_FILE_MARKER = CHR ''*'' # ''** Add File:''"
  "DELETE_FILE_MARKER = CHR ''*'' # ''** Delete File:''"
  "UPDATE_FILE_MARKER = CHR ''*'' # ''** Update File:''"
  "MOVE_TO_MARKER = CHR ''*'' # ''** Move to:''"
  "END_OF_FILE_MARKER = CHR ''*'' # ''** End of File''"
  by (simp_all add: BEGIN_PATCH_MARKER_def END_PATCH_MARKER_def ADD_FILE_MARKER_def
      DELETE_FILE_MARKER_def UPDATE_FILE_MARKER_def MOVE_TO_MARKER_def END_OF_FILE_MARKER_def)

lemma content_not_section:
  assumes "c \<noteq> CHR ''*''"
  shows "\<not> ends_section (c # s)"
proof -
  have "marker_path (c # s) (CHR ''*'' # m) = None" for m
    using marker_path_hd [of c s "CHR ''*''" m] assms by blast
  moreover have "trim_end (c # s) \<noteq> CHR ''*'' # m" for m
    using trim_end_hd assms by blast
  ultimately show ?thesis
    by (simp add: ends_section_def is_file_header_def marker_defs)
qed

lemma content_not_blank:
  "c \<in> {CHR ''+'', CHR ''-'', CHR ''@'', CHR ''*''} \<Longrightarrow> \<not> is_blank (c # s)"
  by (rule not_blank_hd) (auto simp del: set_map simp: whitespace_hds)

lemma content_not_separator:
  "c \<in> {CHR ''+'', CHR ''-'', CHR ''@'', CHR ''*''} \<Longrightarrow> \<not> is_separator (c # s) ls"
  using content_not_blank [of c s] by (simp add: is_separator_def)

text \<open>The lines that follow a rendered section start the next one.\<close>

definition next_section :: "string list \<Rightarrow> bool" where
  "next_section ls \<longleftrightarrow> ls \<noteq> [] \<and> ends_section (hd ls)"

lemma next_sectionE:
  assumes "next_section ls"
  obtains l rest where "ls = l # rest" "ends_section l"
  using assms by (cases ls) (auto simp: next_section_def)

lemma add_file_lines_render:
  "next_section rest \<Longrightarrow>
     add_file_lines index (map ((#) CHR ''+'') xs @ rest) acc = Ok (acc @ xs, index + length xs, rest)"
proof (induction xs arbitrary: index acc)
  case Nil
  then show ?case by (auto elim!: next_sectionE simp: add_file_lines.simps)
next
  case (Cons x xs)
  then show ?case
    by (simp add: add_file_lines.simps content_not_section content_not_separator)
qed

lemma update_old_lines:
  "update_file_lines index (map ((#) CHR ''-'') xs @ rest) chunks (Some c) False =
     update_file_lines (index + length xs) rest chunks (Some (c\<lparr>old_lines := old_lines c @ xs\<rparr>)) False"
proof (induction xs arbitrary: index c)
  case (Cons x xs)
  have "trim_end (CHR ''-'' # x) \<noteq> ''@@''" "trim_end (CHR ''-'' # x) \<noteq> END_OF_FILE_MARKER"
    "\<not> starts_with (trim_end (CHR ''-'' # x)) ''@@ ''"
    using trim_end_hd [of "CHR ''-''" x] by (fastforce simp: marker_defs starts_with_iff)+
  with Cons show ?case
    by (simp add: update_file_lines.simps(2) [of index "_ # _"] content_not_section content_not_separator
        push_update_line_def Let_def)
qed simp

lemma update_new_lines:
  "update_file_lines index (map ((#) CHR ''+'') xs @ rest) chunks (Some c) False =
     update_file_lines (index + length xs) rest chunks (Some (c\<lparr>new_lines := new_lines c @ xs\<rparr>)) False"
proof (induction xs arbitrary: index c)
  case (Cons x xs)
  have "trim_end (CHR ''+'' # x) \<noteq> ''@@''" "trim_end (CHR ''+'' # x) \<noteq> END_OF_FILE_MARKER"
    "\<not> starts_with (trim_end (CHR ''+'' # x)) ''@@ ''"
    using trim_end_hd [of "CHR ''+''" x] by (fastforce simp: marker_defs starts_with_iff)+
  with Cons show ?case
    by (simp add: update_file_lines.simps(2) [of index "_ # _"] content_not_section content_not_separator
        push_update_line_def Let_def)
qed simp

lemma end_of_file_marker_facts:
  "trim_end END_OF_FILE_MARKER = END_OF_FILE_MARKER"
  "\<not> ends_section END_OF_FILE_MARKER"
  "trim_end ''@@'' = ''@@''"
  by code_simp+

lemma update_end_of_file:
  "update_file_lines index (END_OF_FILE_MARKER # rest) chunks (Some c) False =
     update_file_lines (index + 1) rest chunks (Some (c\<lparr>is_end_of_file := True\<rparr>)) True"
proof -
  have "\<not> is_separator END_OF_FILE_MARKER rest"
    by (simp add: marker_defs content_not_separator)
  moreover have "\<not> starts_with END_OF_FILE_MARKER ''@@ ''" "END_OF_FILE_MARKER \<noteq> ''@@''"
    by (simp_all add: marker_defs starts_with_def)
  ultimately show ?thesis
    by (simp add: update_file_lines.simps(2) [of index END_OF_FILE_MARKER] end_of_file_marker_facts)
qed

lemma update_context_line:
  assumes "push_pending chunks cur (index + 1) = Ok chunks'"
    "case ctx of None \<Rightarrow> True | Some x \<Rightarrow> clean_name x \<and> starts_char x"
  shows "update_file_lines index ((case ctx of None \<Rightarrow> ''@@'' | Some x \<Rightarrow> ''@@ '' @ x) # rest) chunks cur False =
    update_file_lines (index + 1) rest chunks' (Some (default_chunk\<lparr>change_context := ctx\<rparr>)) False"
proof (cases ctx)
  case None
  have "Option.bind (strip_prefix ''@@ '' ''@@'') nonempty_trimmed = None" by simp
  with None assms show ?thesis
    by (simp add: update_file_lines.simps(2) [of index "_ # _"] content_not_section content_not_separator
        end_of_file_marker_facts)
next
  case (Some x)
  then have "trim_end (''@@ '' @ x) = ''@@ '' @ x" "nonempty_trimmed x = Some x"
    using assms(2) trim_end_append_name [of x "''@@ ''"] by (auto simp: nonempty_trimmed_name)
  with Some assms show ?thesis
    by (simp add: update_file_lines.simps(2) [of index "_ # _"] content_not_section content_not_separator
        starts_with_def)
qed

lemma update_render_chunk:
  assumes "push_pending chunks cur (index + 1) = Ok chunks'" "wf_chunk c" "context_utf8 c"
  shows "update_file_lines index (render_chunk c @ rest) chunks cur False =
    update_file_lines (index + length (render_chunk c)) rest chunks' (Some c) (is_end_of_file c)"
proof -
  have ctx: "case change_context c of None \<Rightarrow> True | Some x \<Rightarrow> clean_name x \<and> starts_char x"
    using assms(2,3) by (auto simp: wf_chunk_def chunk_lines_clean_def context_utf8_def split: option.splits)
  show ?thesis
    using update_context_line [OF assms(1) ctx]
    by (cases c) (simp add: render_chunk_def update_old_lines update_new_lines update_end_of_file
        default_chunk_def add.assoc)
qed

lemma push_pending_wf:
  "wf_chunk c \<Longrightarrow> length chunks < MAX_CODEX_PATCH_CHUNKS_PER_FILE \<Longrightarrow>
     push_pending chunks (Some c) line = Ok (chunks @ [c])"
  by (auto simp: push_pending_def push_chunk_def wf_chunk_def)

lemma update_stops:
  "next_section rest \<Longrightarrow> update_file_lines index rest chunks cur eof = Ok (chunks, cur, index, rest)"
  by (auto elim!: next_sectionE simp: update_file_lines.simps)

lemma update_render_chunks:
  assumes "list_all wf_chunk cs" "list_all context_utf8 cs" "list_all (\<lambda>c. \<not> is_end_of_file c) (butlast cs)"
    "next_section rest" "\<And>line. push_pending chunks cur line = Ok chunks0"
    "length chunks0 + length cs \<le> MAX_CODEX_PATCH_CHUNKS_PER_FILE"
  shows "\<exists>chunks1 cur1 index1.
    update_file_lines index (concat (map render_chunk cs) @ rest) chunks cur False
      = Ok (chunks1, cur1, index1, rest)
    \<and> (\<forall>line. push_pending chunks1 cur1 line = Ok (chunks0 @ cs))"
  using assms
proof (induction cs arbitrary: index chunks cur chunks0)
  case Nil
  then show ?case by (simp add: update_stops)
next
  case (Cons c cs)
  let ?rest = "concat (map render_chunk cs) @ rest"
  let ?i = "index + length (render_chunk c)"
  have step: "update_file_lines index (render_chunk c @ ?rest) chunks cur False =
      update_file_lines ?i ?rest chunks0 (Some c) (is_end_of_file c)"
    using Cons.prems by (intro update_render_chunk) auto
  have push: "push_pending chunks0 (Some c) line = Ok (chunks0 @ [c])" for line
    using Cons.prems by (intro push_pending_wf) auto
  show ?case
  proof (cases cs)
    case Nil
    with step push Cons.prems show ?thesis by (simp add: update_stops)
  next
    case (Cons d ds)
    then have "\<not> is_end_of_file c" using Cons.prems(3) by simp
    moreover have "\<exists>chunks1 cur1 index1.
      update_file_lines ?i ?rest chunks0 (Some c) False = Ok (chunks1, cur1, index1, rest)
      \<and> (\<forall>line. push_pending chunks1 cur1 line = Ok ((chunks0 @ [c]) @ cs))"
      using Cons.prems Cons push by (intro Cons.IH) auto
    ultimately show ?thesis using step by simp
  qed
qed

lemma parse_update_file_render:
  assumes "wf_hunk (UpdateFile path move_path chunks)" "hunk_utf8 (UpdateFile path move_path chunks)"
    "next_section rest"
  shows "\<exists>index'. parse_update_file index path (tl (render_hunk (UpdateFile path move_path chunks)) @ rest)
    = Ok (UpdateFile path move_path chunks, index', rest)"
proof -
  let ?body = "concat (map render_chunk chunks) @ rest"
  have dest: "\<exists>start. move_destination index (tl (render_hunk (UpdateFile path move_path chunks)) @ rest)
      = (move_path, start, ?body)"
  proof (cases move_path)
    case None
    with assms(1) obtain c cs where "chunks = c # cs" by (cases chunks) auto
    moreover have "marker_path (CHR ''@'' # s) MOVE_TO_MARKER = None" for s
      using marker_path_hd [of "CHR ''@''" s] by (force simp: marker_defs)
    ultimately show ?thesis
      using None by (auto simp: move_destination_def render_chunk_def split: option.splits)
  next
    case (Some d)
    with assms show ?thesis
      using marker_path_render [of d MOVE_TO_MARKER] by (simp add: move_destination_def)
  qed
  then obtain start where
    "move_destination index (tl (render_hunk (UpdateFile path move_path chunks)) @ rest)
      = (move_path, start, ?body)" by blast
  moreover obtain chunks1 cur1 index1 where
    "update_file_lines start ?body [] None False = Ok (chunks1, cur1, index1, rest)"
    "\<forall>line. push_pending chunks1 cur1 line = Ok ([] @ chunks)"
    using update_render_chunks [of chunks rest "[]" None "[]" start] assms
    by (auto simp: wf_chunks_def push_pending_def)
  ultimately show ?thesis
    using assms(1) by (auto simp: parse_update_file_def)
qed

lemma header_facts:
  assumes "clean_name path" "starts_char path"
  shows "trim_end (ADD_FILE_MARKER @ '' '' @ path) = ADD_FILE_MARKER @ '' '' @ path"
    "trim_end (DELETE_FILE_MARKER @ '' '' @ path) = DELETE_FILE_MARKER @ '' '' @ path"
    "trim_end (UPDATE_FILE_MARKER @ '' '' @ path) = UPDATE_FILE_MARKER @ '' '' @ path"
  using trim_end_append_name [OF assms, of "ADD_FILE_MARKER @ '' ''"]
    trim_end_append_name [OF assms, of "DELETE_FILE_MARKER @ '' ''"]
    trim_end_append_name [OF assms, of "UPDATE_FILE_MARKER @ '' ''"] by simp_all

lemma header_other_marker:
  assumes "clean_name path" "starts_char path"
  shows "marker_path (DELETE_FILE_MARKER @ '' '' @ path) ADD_FILE_MARKER = None"
    "marker_path (UPDATE_FILE_MARKER @ '' '' @ path) ADD_FILE_MARKER = None"
    "marker_path (UPDATE_FILE_MARKER @ '' '' @ path) DELETE_FILE_MARKER = None"
  using header_facts [OF assms] by (simp_all add: marker_path_def marker_defs)

lemma render_hunk_Cons: "render_hunk h = hd (render_hunk h) # tl (render_hunk h)"
  by (cases h) simp_all

lemma hd_render_hunk:
  assumes "wf_hunk h" "hunk_utf8 h"
  shows "is_file_header (hd (render_hunk h))" "trim_end (hd (render_hunk h)) \<noteq> END_PATCH_MARKER"
    "\<not> is_blank (hd (render_hunk h))"
proof -
  show "is_file_header (hd (render_hunk h))"
    using assms marker_path_render by (cases h) (auto simp: is_file_header_def)
  show "trim_end (hd (render_hunk h)) \<noteq> END_PATCH_MARKER"
    using assms header_facts by (cases h) (auto simp: marker_defs)
  show "\<not> is_blank (hd (render_hunk h))"
    by (cases h) (simp_all add: marker_defs content_not_blank)
qed

lemma parse_section_render:
  assumes "wf_hunk h" "hunk_utf8 h" "next_section rest"
  shows "\<exists>index'. parse_section index (hd (render_hunk h)) (tl (render_hunk h) @ rest)
    = Ok (h, index', rest)"
proof (cases h)
  case (AddFile path contents)
  then obtain c where "contents = c @ [LF]" using assms by (auto simp: ends_with_iff)
  then show ?thesis
    using AddFile assms marker_path_render [of path ADD_FILE_MARKER]
    by (simp add: parse_section_def parse_add_file_def add_file_lines_render)
next
  case (DeleteFile path)
  then show ?thesis
    using assms marker_path_render [of path DELETE_FILE_MARKER] header_other_marker [of path]
    by (simp add: parse_section_def)
next
  case (UpdateFile path move_path chunks)
  then have "marker_path (hd (render_hunk h)) UPDATE_FILE_MARKER = Some path"
    "marker_path (hd (render_hunk h)) ADD_FILE_MARKER = None"
    "marker_path (hd (render_hunk h)) DELETE_FILE_MARKER = None"
    using assms marker_path_render [of path UPDATE_FILE_MARKER] header_other_marker [of path]
    by simp_all
  then show ?thesis
    using parse_update_file_render [of path move_path chunks rest index] assms UpdateFile
    by (simp add: parse_section_def)
qed

lemma next_section_render:
  "list_all wf_hunk hs \<Longrightarrow> list_all hunk_utf8 hs \<Longrightarrow>
     next_section (concat (map render_hunk hs) @ [END_PATCH_MARKER])"
proof (cases hs)
  case Nil
  have "ends_section END_PATCH_MARKER" by code_simp
  with Nil show ?thesis by (simp add: next_section_def)
next
  case (Cons h hs')
  assume "list_all wf_hunk hs" "list_all hunk_utf8 hs"
  then show ?thesis
    using Cons hd_render_hunk(1) [of h] render_hunk_Cons [of h]
    by (metis append_Cons concat.simps(2) ends_section_def list.distinct(1) list.pred_inject(2)
        list.sel(1) list.simps(9) next_section_def)
qed

lemma hunk_loop_render:
  "list_all wf_hunk hs \<Longrightarrow> list_all hunk_utf8 hs \<Longrightarrow>
     length acc + length hs \<le> MAX_CODEX_PATCH_FILE_CHANGES \<Longrightarrow>
     \<exists>index'. hunk_loop index (concat (map render_hunk hs) @ [END_PATCH_MARKER]) acc
       = Ok (acc @ hs, True, index', [])"
proof (induction hs arbitrary: index acc)
  case Nil
  have "trim_end END_PATCH_MARKER = END_PATCH_MARKER" "\<not> is_blank END_PATCH_MARKER"
    by code_simp+
  then show ?case by (simp add: hunk_loop.simps)
next
  case (Cons h hs)
  let ?rest = "concat (map render_hunk hs) @ [END_PATCH_MARKER]"
  have h: "wf_hunk h" "hunk_utf8 h" using Cons.prems by auto
  obtain i where "parse_section index (hd (render_hunk h)) (tl (render_hunk h) @ ?rest) = Ok (h, i, ?rest)"
    using parse_section_render [OF h next_section_render [of hs], of index] Cons.prems by auto
  moreover have "skip_blank index (render_hunk h @ ?rest)
      = (index, hd (render_hunk h) # tl (render_hunk h) @ ?rest)"
    using hd_render_hunk(3) [OF h] by (subst render_hunk_Cons) simp
  ultimately have "hunk_loop index (render_hunk h @ ?rest) acc = hunk_loop i ?rest (acc @ [h])"
    using hd_render_hunk(2) [OF h] Cons.prems(3) by (simp add: hunk_loop.simps [of index])
  then show ?case using Cons.IH [of "acc @ [h]" i] Cons.prems by simp
qed

lemma render_chunk_clean: "wf_chunk c \<Longrightarrow> list_all clean_line (render_chunk c)"
  by (auto simp: wf_chunk_def chunk_lines_clean_def render_chunk_def list_all_iff clean_name_def
      marker_defs clean_line_def split: option.splits)

lemma render_hunk_clean:
  assumes "wf_hunk h"
  shows "list_all clean_line (render_hunk h)"
proof (cases h)
  case (AddFile path contents)
  have "clean_line l" if "l \<in> set (split_on LF (butlast contents))" for l
    using that split_on_no_sep [OF that] split_on_subset [OF that] assms AddFile
    by (auto simp: clean_line_def dest: in_set_butlastD)
  then show ?thesis
    using AddFile assms by (auto simp: list_all_iff clean_name_def marker_defs clean_line_def)
next
  case (DeleteFile path)
  then show ?thesis using assms by (simp add: clean_name_def marker_defs clean_line_def)
next
  case (UpdateFile path move_path chunks)
  then have "list_all (\<lambda>c. list_all clean_line (render_chunk c)) chunks"
    using assms render_chunk_clean by (auto simp: wf_chunks_def list_all_iff)
  then show ?thesis
    using UpdateFile assms
    by (auto simp: list_all_iff clean_name_def marker_defs clean_line_def split: option.splits)
qed

text \<open>
  C27. Printing and parsing are inverse on well-formed patches: for every well-formed list of file
  operations whose printed form is at most 262144 bytes long, \<^verbatim>\<open>parse_codex_patch\<close> accepts the printed patch and returns exactly these
  operations, so no file operation, chunk, context, or content line is lost, merged or reordered.
\<close>

theorem parse_render_patch:
  assumes "wf_patch hunks" "list_all hunk_utf8 hunks"
    "length (render_patch hunks) \<le> MAX_CODEX_PATCH_BYTES"
  shows "parse_codex_patch (render_patch hunks) = Ok hunks"
proof -
  let ?ls = "BEGIN_PATCH_MARKER # concat (map render_hunk hunks) @ [END_PATCH_MARKER]"
  have clean: "list_all clean_line ?ls"
    using assms(1) render_hunk_clean
    by (auto simp: wf_patch_def list_all_iff marker_defs clean_line_def)
  have split: "split_on LF (join [LF] ?ls) = ?ls"
    using clean by (intro split_on_join) (auto simp: list_all_iff clean_line_def)
  have cr: "CR \<notin> set (join [LF] ?ls)"
    using clean by (rule join_clean)
  have ne: "join [LF] ?ls \<noteq> []"
    by (cases "concat (map render_hunk hunks) @ [END_PATCH_MARKER]") (simp_all add: marker_defs)
  have "normalized_patch_lines (render_patch hunks) = Ok ?ls"
    using assms(3) split cr ne replace_crlf_lf_id [OF cr]
    unfolding normalized_patch_lines_def render_patch_def by simp
  moreover have "skip_blank 0 ?ls = (0, ?ls)" "trim BEGIN_PATCH_MARKER = BEGIN_PATCH_MARKER"
  proof -
    have "\<not> is_blank BEGIN_PATCH_MARKER" by code_simp
    then show "skip_blank 0 ?ls = (0, ?ls)" by simp
    show "trim BEGIN_PATCH_MARKER = BEGIN_PATCH_MARKER" by code_simp
  qed
  moreover obtain i where "hunk_loop (0 + 1) (concat (map render_hunk hunks) @ [END_PATCH_MARKER]) []
      = Ok ([] @ hunks, True, i, [])"
    using hunk_loop_render [of hunks "[]" "0 + 1"] assms by (auto simp: wf_patch_def)
  ultimately show ?thesis
    using assms(1) by (simp add: parse_codex_patch_def wf_patch_def)
qed

definition example_hunks :: "codex_patch_hunk list" where
  "example_hunks =
     [AddFile ''new/a.rs'' (''fn a() {}'' @ [LF, LF]),
      UpdateFile ''b.rs'' (Some ''c d.rs'')
        [\<lparr>change_context = Some ''impl B'', old_lines = [''old''], new_lines = [''new'', ''''], is_end_of_file = False\<rparr>,
         \<lparr>change_context = None, old_lines = [], new_lines = [''*** End Patch''], is_end_of_file = True\<rparr>],
      DeleteFile ''e.rs'']"

theorem parse_render_patch_witness:
  "wf_patch example_hunks \<and> list_all hunk_utf8 example_hunks
   \<and> length (render_patch example_hunks) \<le> MAX_CODEX_PATCH_BYTES
   \<and> parse_codex_patch (render_patch example_hunks) = Ok example_hunks"
proof -
  have "wf_patch example_hunks" "list_all hunk_utf8 example_hunks"
    "length (render_patch example_hunks) \<le> MAX_CODEX_PATCH_BYTES"
    by code_simp+
  with parse_render_patch [OF this] show ?thesis by simp
qed

end
