(* ===== verification/Patch_Apply.thy ===== *)
theory Patch_Apply
  imports Patch_Parse Text_Edits "HOL-Library.Multiset"
begin

text \<open>
  The second half of \<^verbatim>\<open>webcodex-core/src/apply_patch_shared.rs\<close>: how the chunks of an
  \<^verbatim>\<open>Update File\<close> section are positioned in the original text and how the new text is derived.
  Source lines are searched tier by tier (exact, trailing whitespace ignored, surrounding whitespace
  ignored, typographic characters normalised); the resulting replacements are sorted and spliced
  into the vector of lines from the last to the first.
\<close>

section \<open>Matching modes and their facts\<close>

datatype codex_patch_match_mode = Exact | TrimEnd | Trim | Normalized

fun match_mode_as_str :: "codex_patch_match_mode \<Rightarrow> string" where
  "match_mode_as_str Exact = ''exact''"
| "match_mode_as_str TrimEnd = ''trim_end''"
| "match_mode_as_str Trim = ''trim''"
| "match_mode_as_str Normalized = ''normalized''"

text \<open>The derived order of the Rust enum is the declaration order.\<close>

fun match_mode_rank :: "codex_patch_match_mode \<Rightarrow> nat" where
  "match_mode_rank Exact = 0"
| "match_mode_rank TrimEnd = 1"
| "match_mode_rank Trim = 2"
| "match_mode_rank Normalized = 3"

lemma match_mode_rank_inject: "match_mode_rank a = match_mode_rank b \<Longrightarrow> a = b"
  by (cases a; cases b) simp_all

instantiation codex_patch_match_mode :: linorder
begin

definition less_eq_codex_patch_match_mode where
  "a \<le> b \<longleftrightarrow> match_mode_rank a \<le> match_mode_rank b"

definition less_codex_patch_match_mode where
  "a < b \<longleftrightarrow> match_mode_rank a < match_mode_rank b"

instance
  by standard (auto simp: less_eq_codex_patch_match_mode_def less_codex_patch_match_mode_def
      intro: match_mode_rank_inject)

end

datatype apply_patch_matching_mode = FirstMatch | Unique | ExactUnique

fun matching_mode_as_str :: "apply_patch_matching_mode \<Rightarrow> string" where
  "matching_mode_as_str FirstMatch = ''first_match''"
| "matching_mode_as_str Unique = ''unique''"
| "matching_mode_as_str ExactUnique = ''exact_unique''"

record codex_patch_match_rejection =
  requested_matching_mode :: apply_patch_matching_mode
  rej_match_mode :: codex_patch_match_mode
  rej_match_source :: codex_patch_match_source
  rej_matched_start_line :: nat
  rej_candidate_count :: nat
  candidate_start_lines :: "nat list"
  candidate_positions_truncated :: bool
  rej_search_start_line :: nat
  source_line_count :: nat

record codex_patch_chunk_match =
  cm_chunk_index :: nat
  cm_match_mode :: "codex_patch_match_mode option"
  cm_match_source :: codex_patch_match_source
  cm_matched_start_line :: nat
  cm_candidate_count :: "nat option"
  unique_match :: bool
  strict_match :: bool
  match_rejection :: "codex_patch_match_rejection option"

record codex_patch_update =
  content :: string
  chunk_matches :: "codex_patch_chunk_match list"

definition MAX_CODEX_PATCH_CANDIDATE_POSITIONS :: nat where
  "MAX_CODEX_PATCH_CANDIDATE_POSITIONS = 4"

record sequence_match =
  sm_index :: nat
  sm_mode :: codex_patch_match_mode
  sm_candidate_count :: nat
  sm_candidate_positions :: "nat list"
  sm_search_start :: nat

definition is_unique :: "sequence_match \<Rightarrow> bool" where
  "is_unique sm \<longleftrightarrow> sm_candidate_count sm = 1"

definition is_exact_unique :: "sequence_match \<Rightarrow> bool" where
  "is_exact_unique sm \<longleftrightarrow> sm_mode sm = Exact \<and> sm_candidate_count sm = 1"

fun mode_satisfied :: "apply_patch_matching_mode \<Rightarrow> sequence_match \<Rightarrow> bool" where
  "mode_satisfied FirstMatch sm = True"
| "mode_satisfied Unique sm = is_unique sm"
| "mode_satisfied ExactUnique sm = is_exact_unique sm"

text \<open>Line numbers are positions plus one; \<^verbatim>\<open>checked_add\<close> cannot fail on an index of a vector.\<close>

definition match_rejection_fact ::
    "sequence_match \<Rightarrow> apply_patch_matching_mode \<Rightarrow> codex_patch_match_source \<Rightarrow> nat \<Rightarrow> nat
     \<Rightarrow> codex_patch_match_rejection option" where
  "match_rejection_fact matched requested source line_count pattern_len =
     (if mode_satisfied requested matched \<or> pattern_len = 0 \<or> line_count < pattern_len then None
      else Some
        \<lparr>requested_matching_mode = requested, rej_match_mode = sm_mode matched,
         rej_match_source = source, rej_matched_start_line = sm_index matched + 1,
         rej_candidate_count = sm_candidate_count matched,
         candidate_start_lines = map (\<lambda>i. i + 1) (sm_candidate_positions matched),
         candidate_positions_truncated = (length (sm_candidate_positions matched) < sm_candidate_count matched),
         rej_search_start_line = sm_search_start matched + 1, source_line_count = line_count\<rparr>)"

definition select_match_rejection ::
    "codex_patch_match_rejection option \<Rightarrow> codex_patch_match_rejection option
     \<Rightarrow> codex_patch_match_rejection option" where
  "select_match_rejection first second =
     (let candidates = List.map_filter id [first, second] in
      case find (\<lambda>c. 1 < rej_candidate_count c) candidates of
        Some c \<Rightarrow> Some c
      | None \<Rightarrow> (case candidates of [] \<Rightarrow> None | c # _ \<Rightarrow> Some c))"

section \<open>Searching a sequence of lines\<close>

definition dash_chars :: "string list" where
  "dash_chars = [[CHR 0xE2, CHR 0x80, CHR 0x90], [CHR 0xE2, CHR 0x80, CHR 0x91],
     [CHR 0xE2, CHR 0x80, CHR 0x92], [CHR 0xE2, CHR 0x80, CHR 0x93], [CHR 0xE2, CHR 0x80, CHR 0x94],
     [CHR 0xE2, CHR 0x80, CHR 0x95], [CHR 0xE2, CHR 0x88, CHR 0x92]]"

definition single_quote_chars :: "string list" where
  "single_quote_chars = [[CHR 0xE2, CHR 0x80, CHR 0x98], [CHR 0xE2, CHR 0x80, CHR 0x99],
     [CHR 0xE2, CHR 0x80, CHR 0x9A], [CHR 0xE2, CHR 0x80, CHR 0x9B]]"

definition double_quote_chars :: "string list" where
  "double_quote_chars = [[CHR 0xE2, CHR 0x80, CHR 0x9C], [CHR 0xE2, CHR 0x80, CHR 0x9D],
     [CHR 0xE2, CHR 0x80, CHR 0x9E], [CHR 0xE2, CHR 0x80, CHR 0x9F]]"

definition space_chars :: "string list" where
  "space_chars = [[CHR 0xC2, CHR 0xA0], [CHR 0xE2, CHR 0x80, CHR 0x82], [CHR 0xE2, CHR 0x80, CHR 0x83],
     [CHR 0xE2, CHR 0x80, CHR 0x84], [CHR 0xE2, CHR 0x80, CHR 0x85], [CHR 0xE2, CHR 0x80, CHR 0x86],
     [CHR 0xE2, CHR 0x80, CHR 0x87], [CHR 0xE2, CHR 0x80, CHR 0x88], [CHR 0xE2, CHR 0x80, CHR 0x89],
     [CHR 0xE2, CHR 0x80, CHR 0x8A], [CHR 0xE2, CHR 0x80, CHR 0xAF], [CHR 0xE2, CHR 0x81, CHR 0x9F],
     [CHR 0xE3, CHR 0x80, CHR 0x80]]"

definition normalize_char :: "string \<Rightarrow> string" where
  "normalize_char g =
     (if List.member dash_chars g then ''-''
      else if List.member single_quote_chars g then [CHR 0x27]
      else if List.member double_quote_chars g then [CHR 0x22]
      else if List.member space_chars g then '' ''
      else g)"

definition normalize_codex_patch_match_text :: "string \<Rightarrow> string" where
  "normalize_codex_patch_match_text value = concat (map normalize_char (chars (trim value)))"

fun line_matches :: "codex_patch_match_mode \<Rightarrow> string \<Rightarrow> string \<Rightarrow> bool" where
  "line_matches Exact candidate expected = (candidate = expected)"
| "line_matches TrimEnd candidate expected = (trim_end candidate = trim_end expected)"
| "line_matches Trim candidate expected = (trim candidate = trim expected)"
| "line_matches Normalized candidate expected =
     (normalize_codex_patch_match_text candidate = normalize_codex_patch_match_text expected)"

definition matches_at ::
    "string list \<Rightarrow> string list \<Rightarrow> nat \<Rightarrow> codex_patch_match_mode \<Rightarrow> bool" where
  "matches_at lines pattern index mode \<longleftrightarrow>
     list_all (\<lambda>(candidate, expected). line_matches mode candidate expected)
       (zip (slice lines index (index + length pattern)) pattern)"

text \<open>One tier: the loop over \<open>effective_start..=last_start\<close>.\<close>

record tier_scan =
  ts_selected :: "nat option"
  ts_count :: nat
  ts_positions :: "nat list"

definition tier_step ::
    "string list \<Rightarrow> string list \<Rightarrow> codex_patch_match_mode \<Rightarrow> nat \<Rightarrow> tier_scan \<Rightarrow> tier_scan" where
  "tier_step lines pattern mode index st =
     (if matches_at lines pattern index mode then
        st\<lparr>ts_count := sat_add (ts_count st) 1,
           ts_positions := push_capped MAX_CODEX_PATCH_CANDIDATE_POSITIONS (ts_positions st) index,
           ts_selected := (case ts_selected st of None \<Rightarrow> Some index | Some i \<Rightarrow> Some i)\<rparr>
      else st)"

definition effective_start :: "nat \<Rightarrow> nat \<Rightarrow> bool \<Rightarrow> apply_patch_matching_mode \<Rightarrow> nat" where
  "effective_start start last_start eof matching_mode =
     (if eof \<and> matching_mode = Unique then last_start else start)"

definition seek_tier ::
    "string list \<Rightarrow> string list \<Rightarrow> nat \<Rightarrow> nat \<Rightarrow> bool \<Rightarrow> apply_patch_matching_mode
     \<Rightarrow> codex_patch_match_mode \<Rightarrow> sequence_match option" where
  "seek_tier lines pattern start last_start eof matching_mode mode =
     (let eff = effective_start start last_start eof matching_mode;
          selected = (if eof \<and> matching_mode \<noteq> Unique \<and> matches_at lines pattern last_start mode
                      then Some last_start else None);
          st = fold (tier_step lines pattern mode) [eff ..< last_start + 1]
                 \<lparr>ts_selected = selected, ts_count = 0, ts_positions = []\<rparr>
      in case ts_selected st of
           None \<Rightarrow> None
         | Some index \<Rightarrow> Some
             \<lparr>sm_index = index, sm_mode = mode, sm_candidate_count = ts_count st,
              sm_candidate_positions = ts_positions st, sm_search_start = eff\<rparr>)"

fun first_some :: "('a \<Rightarrow> 'b option) \<Rightarrow> 'a list \<Rightarrow> 'b option" where
  "first_some f [] = None"
| "first_some f (x # xs) = (case f x of None \<Rightarrow> first_some f xs | Some y \<Rightarrow> Some y)"

definition all_tiers :: "codex_patch_match_mode list" where
  "all_tiers = [Exact, TrimEnd, Trim, Normalized]"

definition seek_sequence ::
    "string list \<Rightarrow> string list \<Rightarrow> nat \<Rightarrow> bool \<Rightarrow> apply_patch_matching_mode \<Rightarrow> sequence_match option" where
  "seek_sequence lines pattern start eof matching_mode =
     (if pattern = [] then
        (let index = min start (length lines) in
         Some \<lparr>sm_index = index, sm_mode = Exact, sm_candidate_count = 1,
               sm_candidate_positions = [index], sm_search_start = index\<rparr>)
      else if length lines < length pattern then None
      else let last_start = length lines - length pattern in
        if last_start < start then None
        else first_some (seek_tier lines pattern start last_start eof matching_mode) all_tiers)"

section \<open>Diagnosing a miss\<close>

definition count_line_matches ::
    "codex_patch_match_mode \<Rightarrow> string list \<Rightarrow> string list \<Rightarrow> nat \<Rightarrow> nat \<Rightarrow> nat" where
  "count_line_matches mode lines pattern index compared =
     length (filter (\<lambda>offset. line_matches mode (lines ! (index + offset)) (pattern ! offset)) [0 ..< compared])"

text \<open>Rust compares tuples lexicographically.\<close>

definition score_greater :: "nat \<times> nat \<times> nat \<Rightarrow> nat \<times> nat \<times> nat \<Rightarrow> bool" where
  "score_greater s t = (case s of (a, b, c) \<Rightarrow> case t of (a', b', c') \<Rightarrow>
     a' < a \<or> a' = a \<and> (b' < b \<or> b' = b \<and> c' < c))"

fun diagnose_scan ::
    "string list \<Rightarrow> string list \<Rightarrow> bool \<Rightarrow> nat list \<Rightarrow> (nat \<times> nat \<times> nat \<times> nat) option
     \<Rightarrow> (nat \<times> nat \<times> nat \<times> nat) option" where
  "diagnose_scan lines pattern has_complete [] best = best"
| "diagnose_scan lines pattern has_complete (index # indices) best =
     (let compared = min (length pattern) (length lines - index) in
      if has_complete \<and> compared < length pattern then best
      else let
        exact = count_line_matches Exact lines pattern index compared;
        trim_end = count_line_matches TrimEnd lines pattern index compared;
        trim = count_line_matches Trim lines pattern index compared;
        replace = (case best of
            None \<Rightarrow> True
          | Some (_, best_exact, best_trim_end, best_trim) \<Rightarrow>
              score_greater (trim, trim_end, exact) (best_trim, best_trim_end, best_exact))
      in diagnose_scan lines pattern has_complete indices
           (if replace then Some (index, exact, trim_end, trim) else best))"

definition diagnose_sequence_miss ::
    "string list \<Rightarrow> string list \<Rightarrow> nat \<Rightarrow> nat \<Rightarrow> codex_patch_match_source \<Rightarrow> codex_patch_match_diagnostic" where
  "diagnose_sequence_miss lines pattern start chunk_index source =
     (let eff = min start (length lines);
          available = length lines - eff;
          best = diagnose_scan lines pattern (length pattern \<le> available) [eff ..< length lines] None;
          (closest, exact, te, tr, first_mismatch) =
            (case best of
               Some (index, exact, te, tr) \<Rightarrow>
                 (Some (index + 1), exact, te, tr,
                  map_option (\<lambda>offset. offset + 1)
                    (find (\<lambda>offset. length lines \<le> index + offset
                                     \<or> lines ! (index + offset) \<noteq> pattern ! offset) [0 ..< length pattern]))
             | None \<Rightarrow> (None, 0, 0, 0, if pattern \<noteq> [] then Some 1 else None))
      in \<lparr>diag_chunk_index = chunk_index, diag_match_source = source, diag_search_start_line = eff + 1,
          expected_line_count = length pattern, available_line_count = available,
          closest_start_line = closest, closest_exact_line_matches = exact,
          closest_trim_end_line_matches = te, closest_trim_line_matches = tr,
          first_exact_mismatch_offset = first_mismatch\<rparr>)"

section \<open>Deriving the new text\<close>

type_synonym replacement = "nat \<times> nat \<times> string list"

record derive_state =
  replacements :: "replacement list"
  ds_matches :: "codex_patch_chunk_match list"
  line_index :: nat

definition derive_init :: derive_state where
  "derive_init = \<lparr>replacements = [], ds_matches = [], line_index = 0\<rparr>"

definition context_miss :: "string list \<Rightarrow> string \<Rightarrow> nat \<Rightarrow> string \<Rightarrow> nat \<Rightarrow> codex_patch_error" where
  "context_miss lines path chunk_index context start =
     with_match_diagnostic
       (patch_error ''context_mismatch'' None
          (path @ '': chunk '' @ show_nat chunk_index @ '' could not find its change context''))
       (diagnose_sequence_miss lines [context] start chunk_index ChangeContext)"

definition old_lines_miss :: "string list \<Rightarrow> string \<Rightarrow> nat \<Rightarrow> string list \<Rightarrow> nat \<Rightarrow> codex_patch_error" where
  "old_lines_miss lines path chunk_index pattern start =
     with_match_diagnostic
       (patch_error ''context_mismatch'' None
          (path @ '': chunk '' @ show_nat chunk_index @ '' could not find its expected old lines''))
       (diagnose_sequence_miss lines pattern start chunk_index OldLines)"

text \<open>The change context, when there is one, moves the search position behind its match.\<close>

definition seek_context ::
    "string list \<Rightarrow> string \<Rightarrow> apply_patch_matching_mode \<Rightarrow> nat \<Rightarrow> codex_patch_chunk \<Rightarrow> nat
     \<Rightarrow> (sequence_match option \<times> nat, codex_patch_error) result" where
  "seek_context lines path matching_mode chunk_index chunk start =
     (case change_context chunk of
        None \<Rightarrow> Ok (None, start)
      | Some context \<Rightarrow>
          (case seek_sequence lines [context] start False matching_mode of
             None \<Rightarrow> Err (context_miss lines path chunk_index context start)
           | Some matched \<Rightarrow> Ok (Some matched, sm_index matched + 1)))"

text \<open>A chunk without old lines inserts after its context, or appends to the file.\<close>

definition insertion_chunk ::
    "string list \<Rightarrow> apply_patch_matching_mode \<Rightarrow> nat \<Rightarrow> codex_patch_chunk \<Rightarrow> sequence_match option \<Rightarrow> nat
     \<Rightarrow> derive_state \<Rightarrow> derive_state" where
  "insertion_chunk lines matching_mode chunk_index chunk context_match start st =
     (let insertion_index = (if change_context chunk \<noteq> None then start else length lines) in
      \<lparr>replacements = replacements st @ [(insertion_index, 0, new_lines chunk)],
       ds_matches = ds_matches st @
         [\<lparr>cm_chunk_index = chunk_index,
           cm_match_mode = map_option sm_mode context_match,
           cm_match_source = (if change_context chunk \<noteq> None then ChangeContext else Append),
           cm_matched_start_line = insertion_index + 1,
           cm_candidate_count = map_option sm_candidate_count context_match,
           unique_match = (case context_match of None \<Rightarrow> True | Some c \<Rightarrow> is_unique c),
           strict_match = (case context_match of None \<Rightarrow> True | Some c \<Rightarrow> is_exact_unique c),
           match_rejection = Option.bind context_match
             (\<lambda>c. match_rejection_fact c matching_mode ChangeContext (length lines) 1)\<rparr>],
       line_index = start\<rparr>)"

text \<open>Looking for the old lines; a trailing empty old line is dropped when it cannot be found.\<close>

definition seek_old_lines ::
    "string list \<Rightarrow> apply_patch_matching_mode \<Rightarrow> codex_patch_chunk \<Rightarrow> nat
     \<Rightarrow> string list \<times> string list \<times> sequence_match option" where
  "seek_old_lines lines matching_mode chunk start =
     (let pattern = old_lines chunk; replacement = new_lines chunk in
      case seek_sequence lines pattern start (is_end_of_file chunk) matching_mode of
        Some found \<Rightarrow> (pattern, replacement, Some found)
      | None \<Rightarrow>
          if pattern \<noteq> [] \<and> last pattern = [] then
            (let pattern = butlast pattern;
                 replacement = (if replacement \<noteq> [] \<and> last replacement = [] then butlast replacement
                                else replacement)
             in (pattern, replacement,
                 seek_sequence lines pattern start (is_end_of_file chunk) matching_mode))
          else (pattern, replacement, None))"

definition replacement_chunk ::
    "string list \<Rightarrow> apply_patch_matching_mode \<Rightarrow> nat \<Rightarrow> sequence_match option \<Rightarrow> string list
     \<Rightarrow> string list \<Rightarrow> sequence_match \<Rightarrow> derive_state \<Rightarrow> derive_state" where
  "replacement_chunk lines matching_mode chunk_index context_match pattern replacement found st =
     (let start = sm_index found;
          context_rejection =
            (if matching_mode = ExactUnique then
               Option.bind context_match
                 (\<lambda>c. match_rejection_fact c matching_mode ChangeContext (length lines) 1)
             else None);
          old_lines_rejection =
            match_rejection_fact found matching_mode OldLines (length lines) (length pattern)
      in \<lparr>replacements = replacements st @ [(start, length pattern, replacement)],
          ds_matches = ds_matches st @
            [\<lparr>cm_chunk_index = chunk_index,
              cm_match_mode = Some (case context_match of None \<Rightarrow> sm_mode found
                                     | Some c \<Rightarrow> max (sm_mode c) (sm_mode found)),
              cm_match_source = OldLines,
              cm_matched_start_line = start + 1,
              cm_candidate_count = Some (sm_candidate_count found),
              unique_match = is_unique found,
              strict_match = ((case context_match of None \<Rightarrow> True | Some c \<Rightarrow> is_exact_unique c)
                              \<and> is_exact_unique found),
              match_rejection = select_match_rejection context_rejection old_lines_rejection\<rparr>],
          line_index = start + length pattern\<rparr>)"

definition derive_chunk ::
    "string list \<Rightarrow> string \<Rightarrow> apply_patch_matching_mode \<Rightarrow> nat \<Rightarrow> codex_patch_chunk \<Rightarrow> derive_state
     \<Rightarrow> (derive_state, codex_patch_error) result" where
  "derive_chunk lines path matching_mode chunk_index chunk st =
     and_then (seek_context lines path matching_mode chunk_index chunk (line_index st))
       (\<lambda>(context_match, start).
          if old_lines chunk = [] then
            Ok (insertion_chunk lines matching_mode chunk_index chunk context_match start st)
          else
            (case seek_old_lines lines matching_mode chunk start of
               (pattern, replacement, None) \<Rightarrow>
                 Err (old_lines_miss lines path chunk_index pattern start)
             | (pattern, replacement, Some found) \<Rightarrow>
                 Ok (replacement_chunk lines matching_mode chunk_index context_match pattern
                       replacement found st)))"

fun derive_chunks ::
    "string list \<Rightarrow> string \<Rightarrow> apply_patch_matching_mode \<Rightarrow> nat \<Rightarrow> codex_patch_chunk list \<Rightarrow> derive_state
     \<Rightarrow> (derive_state, codex_patch_error) result" where
  "derive_chunks lines path matching_mode chunk_index [] st = Ok st"
| "derive_chunks lines path matching_mode chunk_index (chunk # chunks) st =
     and_then (derive_chunk lines path matching_mode chunk_index chunk st)
       (derive_chunks lines path matching_mode (chunk_index + 1) chunks)"

text \<open>Sorting is stable; the sorted replacements are spliced from the last one to the first.\<close>

definition splice_all :: "replacement list \<Rightarrow> string list \<Rightarrow> string list" where
  "splice_all rs lines = fold (\<lambda>(start, old_len, replacement) ls. splice ls start old_len replacement) (rev rs) lines"

definition source_lines :: "string \<Rightarrow> string list" where
  "source_lines canonical =
     (let ls = split_on LF canonical in if ls \<noteq> [] \<and> last ls = [] then butlast ls else ls)"

definition unsupported :: "string \<Rightarrow> string \<Rightarrow> codex_patch_error" where
  "unsupported path message = patch_error ''unsupported_file'' None (path @ '': '' @ message)"

definition derive_codex_patch_update_with_matching_mode ::
    "string \<Rightarrow> string \<Rightarrow> codex_patch_chunk list \<Rightarrow> apply_patch_matching_mode
     \<Rightarrow> (codex_patch_update, codex_patch_error) result" where
  "derive_codex_patch_update_with_matching_mode original path chunks matching_mode =
     and_then (map_err (unsupported path) (detect_apply_text_line_ending original)) (\<lambda>line_ending.
     and_then (map_err (unsupported path) (canonicalize_apply_text_line_endings original line_ending))
       (\<lambda>canonical.
     let original_lines = source_lines canonical in
     and_then (derive_chunks original_lines path matching_mode 0 chunks derive_init) (\<lambda>st.
     let new = splice_all (sort_key fst (replacements st)) original_lines @ [[]] in
     Ok \<lparr>content = restore_apply_text_line_endings (join [LF] new) line_ending,
         chunk_matches = ds_matches st\<rparr>)))"

definition derive_codex_patch_update_with_matches ::
    "string \<Rightarrow> string \<Rightarrow> codex_patch_chunk list \<Rightarrow> (codex_patch_update, codex_patch_error) result" where
  "derive_codex_patch_update_with_matches original path chunks =
     derive_codex_patch_update_with_matching_mode original path chunks FirstMatch"

definition derive_codex_patch_update ::
    "string \<Rightarrow> string \<Rightarrow> codex_patch_chunk list \<Rightarrow> (string, codex_patch_error) result" where
  "derive_codex_patch_update original path chunks =
     map_sum id content (derive_codex_patch_update_with_matches original path chunks)"

section \<open>What a search finds\<close>

text \<open>The positions of a tier that match, in source order: the reference for \<open>seek_sequence\<close>.\<close>

definition tier_candidates ::
    "string list \<Rightarrow> string list \<Rightarrow> nat \<Rightarrow> bool \<Rightarrow> apply_patch_matching_mode
     \<Rightarrow> codex_patch_match_mode \<Rightarrow> nat list" where
  "tier_candidates lines pattern start eof matching_mode mode =
     (if length lines < start + length pattern then []
      else let last_start = length lines - length pattern in
        filter (\<lambda>i. matches_at lines pattern i mode)
          [effective_start start last_start eof matching_mode ..< last_start + 1])"

lemma tier_fold:
  assumes "c \<le> u64_max"
  shows "fold (tier_step lines pattern mode) ixs
      \<lparr>ts_selected = sel, ts_count = c, ts_positions = take 4 ps\<rparr> =
    (let cands = filter (\<lambda>i. matches_at lines pattern i mode) ixs in
      \<lparr>ts_selected = (case sel of Some i \<Rightarrow> Some i
                       | None \<Rightarrow> (case cands of [] \<Rightarrow> None | i # _ \<Rightarrow> Some i)),
       ts_count = min u64_max (c + length cands), ts_positions = take 4 (ps @ cands)\<rparr>)"
  using assms
proof (induction ixs arbitrary: sel c ps)
  case Nil
  then show ?case by (simp split: option.splits)
next
  case (Cons i ixs)
  show ?case
  proof (cases "matches_at lines pattern i mode")
    case True
    have "tier_step lines pattern mode i \<lparr>ts_selected = sel, ts_count = c, ts_positions = take 4 ps\<rparr>
      = \<lparr>ts_selected = Some (case sel of None \<Rightarrow> i | Some j \<Rightarrow> j), ts_count = sat_add c 1,
         ts_positions = take 4 (ps @ [i])\<rparr>"
      using True by (simp add: tier_step_def MAX_CODEX_PATCH_CANDIDATE_POSITIONS_def push_capped_take
          split: option.splits)
    then show ?thesis
      using True Cons.prems Cons.IH [of "sat_add c 1" "Some (case sel of None \<Rightarrow> i | Some j \<Rightarrow> j)" "ps @ [i]"]
      by (simp add: Let_def sat_add_def del: take_append split: option.splits)
  next
    case False
    then have "tier_step lines pattern mode i \<lparr>ts_selected = sel, ts_count = c, ts_positions = take 4 ps\<rparr>
      = \<lparr>ts_selected = sel, ts_count = c, ts_positions = take 4 ps\<rparr>"
      by (simp add: tier_step_def)
    then show ?thesis
      using False Cons by simp
  qed
qed

lemma seek_tier_eq:
  assumes "start \<le> last_start" "last_start = length lines - length pattern" "length pattern \<le> length lines"
  shows "seek_tier lines pattern start last_start eof mm mode =
    (let cands = tier_candidates lines pattern start eof mm mode in
     if cands = [] then None
     else Some \<lparr>sm_index = (if eof \<and> mm \<noteq> Unique \<and> matches_at lines pattern last_start mode
                              then last_start else hd cands),
                sm_mode = mode, sm_candidate_count = min u64_max (length cands),
                sm_candidate_positions = take 4 cands,
                sm_search_start = effective_start start last_start eof mm\<rparr>)"
proof -
  let ?cands = "tier_candidates lines pattern start eof mm mode"
  have cands: "?cands = filter (\<lambda>i. matches_at lines pattern i mode)
      [effective_start start last_start eof mm ..< Suc last_start]"
    using assms(1-3) by (auto simp: tier_candidates_def Let_def simp del: upt_Suc)
  have pre: "?cands \<noteq> []" if "eof \<and> mm \<noteq> Unique \<and> matches_at lines pattern last_start mode"
  proof -
    have "last_start \<in> set ?cands"
      unfolding cands using that assms(1) by (simp add: effective_start_def)
    then show ?thesis by (metis empty_iff list.set(1))
  qed
  show ?thesis
    using tier_fold [of 0 lines pattern mode "[effective_start start last_start eof mm ..< Suc last_start]" _ "[]"]
      pre
    by (auto simp: seek_tier_def Let_def cands [symmetric] u64_max_def simp del: upt_Suc split: list.splits)
qed

lemma first_some_None_iff: "first_some f xs = None \<longleftrightarrow> (\<forall>x \<in> set xs. f x = None)"
  by (induction xs) (auto split: option.splits)

lemma all_tiers_cases: "(\<forall>mode \<in> set all_tiers. P mode) \<longleftrightarrow> (\<forall>mode. P mode)"
  by (auto simp: all_tiers_def) (metis codex_patch_match_mode.exhaust)

lemma first_some_tiers:
  "first_some f all_tiers = Some y \<Longrightarrow> \<exists>mode. f mode = Some y \<and> (\<forall>m < mode. f m = None)"
  unfolding all_tiers_def
  by (auto split: option.splits simp: less_codex_patch_match_mode_def)
    (metis match_mode_rank.simps match_mode_rank_inject less_Suc0 less_2_cases_iff less_numeral_extra(1)
      One_nat_def numeral_3_eq_3 numeral_2_eq_2 less_Suc_eq not_less_zero)+

lemma tier_candidates_bounds:
  assumes "i \<in> set (tier_candidates lines pattern start eof mm mode)"
  shows "start \<le> i \<and> i + length pattern \<le> length lines \<and> matches_at lines pattern i mode"
  using assms by (auto simp: tier_candidates_def Let_def effective_start_def split: if_splits)

text \<open>The outcome of a search over a non-empty pattern, in terms of the candidates of each tier.\<close>

definition tail_preferred ::
    "string list \<Rightarrow> string list \<Rightarrow> bool \<Rightarrow> apply_patch_matching_mode \<Rightarrow> codex_patch_match_mode \<Rightarrow> bool" where
  "tail_preferred lines pattern eof mm mode \<longleftrightarrow>
     eof \<and> mm \<noteq> Unique \<and> matches_at lines pattern (length lines - length pattern) mode"

lemma tier_candidates_tail:
  assumes "tail_preferred lines pattern eof mm mode" "tier_candidates lines pattern start eof mm mode \<noteq> []"
  shows "length lines - length pattern \<in> set (tier_candidates lines pattern start eof mm mode)"
  using assms by (auto simp: tail_preferred_def tier_candidates_def effective_start_def Let_def split: if_splits)

lemma seek_sequence_Some:
  assumes "seek_sequence lines pattern start eof mm = Some sm" "pattern \<noteq> []"
  shows "sm_index sm \<in> set (tier_candidates lines pattern start eof mm (sm_mode sm))
    \<and> sm_index sm = (if tail_preferred lines pattern eof mm (sm_mode sm)
                      then length lines - length pattern
                      else hd (tier_candidates lines pattern start eof mm (sm_mode sm)))
    \<and> sm_candidate_count sm = min u64_max (length (tier_candidates lines pattern start eof mm (sm_mode sm)))
    \<and> sm_candidate_positions sm = take 4 (tier_candidates lines pattern start eof mm (sm_mode sm))
    \<and> (\<forall>m < sm_mode sm. tier_candidates lines pattern start eof mm m = [])"
proof -
  let ?last = "length lines - length pattern"
  have range: "length pattern \<le> length lines" "start \<le> ?last"
    and first: "first_some (seek_tier lines pattern start ?last eof mm) all_tiers = Some sm"
    using assms by (auto simp: seek_sequence_def Let_def split: if_splits)
  obtain mode where mode: "seek_tier lines pattern start ?last eof mm mode = Some sm"
    and before: "\<forall>m < mode. seek_tier lines pattern start ?last eof mm m = None"
    using first_some_tiers [OF first] by blast
  have sm: "sm_mode sm = mode" "tier_candidates lines pattern start eof mm mode \<noteq> []"
    "sm_index sm = (if tail_preferred lines pattern eof mm mode
       then ?last else hd (tier_candidates lines pattern start eof mm mode))"
    "sm_candidate_count sm = min u64_max (length (tier_candidates lines pattern start eof mm mode))"
    "sm_candidate_positions sm = take 4 (tier_candidates lines pattern start eof mm mode)"
    using mode range by (auto simp: seek_tier_eq Let_def tail_preferred_def split: if_splits)
  have "\<forall>m < mode. tier_candidates lines pattern start eof mm m = []"
    using before range by (auto simp: seek_tier_eq Let_def split: if_splits)
  then show ?thesis
    using sm tier_candidates_tail [of lines pattern eof mm mode start] by auto
qed

lemma seek_sequence_None:
  assumes "pattern \<noteq> []"
  shows "seek_sequence lines pattern start eof mm = None \<longleftrightarrow>
    (\<forall>mode. tier_candidates lines pattern start eof mm mode = [])"
proof (cases "length lines < start + length pattern")
  case True
  then show ?thesis
    using assms by (auto simp: seek_sequence_def tier_candidates_def Let_def)
next
  case False
  then have "seek_sequence lines pattern start eof mm =
      first_some (seek_tier lines pattern start (length lines - length pattern) eof mm) all_tiers"
    using assms by (auto simp: seek_sequence_def Let_def)
  then show ?thesis
    using False by (auto simp: first_some_None_iff all_tiers_cases seek_tier_eq Let_def split: if_splits)
qed

lemma seek_sequence_bounds:
  assumes "seek_sequence lines pattern start eof mm = Some sm" "start \<le> length lines"
  shows "start \<le> sm_index sm \<and> sm_index sm + length pattern \<le> length lines
    \<and> matches_at lines pattern (sm_index sm) (sm_mode sm)"
proof (cases "pattern = []")
  case True
  then show ?thesis using assms by (auto simp: seek_sequence_def Let_def matches_at_def)
next
  case False
  then show ?thesis
    using seek_sequence_Some [OF assms(1)] tier_candidates_bounds by blast
qed

lemma chars_trim_end: "chars (trim_end s) = rev (dropWhile is_whitespace (rev (chars s)))"
proof -
  obtain ys where "rev (chars s) = ys @ dropWhile is_whitespace (rev (chars s))"
    by (metis takeWhile_dropWhile_id)
  then have "chars s = rev (dropWhile is_whitespace (rev (chars s))) @ rev ys"
    by (metis rev_append rev_rev_ident)
  then have "wf_groups (rev (dropWhile is_whitespace (rev (chars s))))"
    by (metis wf_groups_append wf_groups_chars)
  then show ?thesis by (simp add: trim_end_def chars_concat_groups)
qed

lemma trim_via_trim_end: "trim s = concat (dropWhile is_whitespace (chars (trim_end s)))"
  by (simp add: trim_def chars_trim_end)

lemma line_matches_widen:
  assumes "line_matches mode a b" "mode \<le> mode'"
  shows "line_matches mode' a b"
proof -
  have te: "trim_end a = trim_end b \<Longrightarrow> trim a = trim b"
    by (simp add: trim_via_trim_end)
  have "trim a = trim b \<Longrightarrow> normalize_codex_patch_match_text a = normalize_codex_patch_match_text b"
    by (simp add: normalize_codex_patch_match_text_def)
  with te assms show ?thesis
    by (cases mode; cases mode') (auto simp: less_eq_codex_patch_match_mode_def)
qed

lemma matches_at_widen: "matches_at lines pattern i mode \<Longrightarrow> mode \<le> mode' \<Longrightarrow> matches_at lines pattern i mode'"
  unfolding matches_at_def by (auto simp: list_all_iff intro: line_matches_widen)

text \<open>
  C2. The search for a chunk's position is exact and deterministic. It fails only when no tier has a
  candidate in the search range; otherwise it picks the strictest tier that has one, reports how many
  candidates that tier has and the first four of them, and selects the first one, or the trailing one
  when the chunk is anchored at the end of the file and the mode is not \<^verbatim>\<open>unique\<close>. Every tier accepts
  all candidates of the stricter ones, so relaxing never loses a position.
\<close>

theorem seek_sequence_correct:
  assumes "pattern \<noteq> []" "length lines < 2 ^ 63"
  shows "(seek_sequence lines pattern start eof mm = None \<longleftrightarrow>
      (\<forall>mode. tier_candidates lines pattern start eof mm mode = []))
    \<and> (\<forall>sm. seek_sequence lines pattern start eof mm = Some sm \<longrightarrow>
        (let cands = tier_candidates lines pattern start eof mm (sm_mode sm) in
          sm_index sm \<in> set cands
          \<and> sm_index sm = (if tail_preferred lines pattern eof mm (sm_mode sm)
                            then length lines - length pattern else hd cands)
          \<and> sm_candidate_count sm = length cands
          \<and> sm_candidate_positions sm = take 4 cands
          \<and> (\<forall>m < sm_mode sm. tier_candidates lines pattern start eof mm m = [])))
    \<and> (\<forall>m m'. m \<le> m' \<longrightarrow> set (tier_candidates lines pattern start eof mm m)
                          \<subseteq> set (tier_candidates lines pattern start eof mm m'))"
proof (intro conjI allI impI)
  show "seek_sequence lines pattern start eof mm = None \<longleftrightarrow>
      (\<forall>mode. tier_candidates lines pattern start eof mm mode = [])"
    using assms(1) by (rule seek_sequence_None)
next
  fix sm
  assume sm: "seek_sequence lines pattern start eof mm = Some sm"
  let ?cands = "tier_candidates lines pattern start eof mm (sm_mode sm)"
  have "length ?cands \<le> Suc (length lines)"
    by (auto simp: tier_candidates_def Let_def simp del: upt_Suc intro!: order_trans [OF length_filter_le])
  then have "min u64_max (length ?cands) = length ?cands"
    using assms(2) by (simp add: u64_max_def)
  then show "let cands = ?cands in
      sm_index sm \<in> set cands
      \<and> sm_index sm = (if tail_preferred lines pattern eof mm (sm_mode sm)
                        then length lines - length pattern else hd cands)
      \<and> sm_candidate_count sm = length cands
      \<and> sm_candidate_positions sm = take 4 cands
      \<and> (\<forall>m < sm_mode sm. tier_candidates lines pattern start eof mm m = [])"
    using seek_sequence_Some [OF sm assms(1)] unfolding Let_def by (metis (no_types))
next
  fix m m' :: codex_patch_match_mode
  assume "m \<le> m'"
  then show "set (tier_candidates lines pattern start eof mm m)
      \<subseteq> set (tier_candidates lines pattern start eof mm m')"
    by (auto simp: tier_candidates_def Let_def intro: matches_at_widen)
qed

theorem seek_sequence_correct_witness:
  "seek_sequence [''a '', ''b'', ''a'', ''a''] [''a''] 0 False Unique
     = Some \<lparr>sm_index = 2, sm_mode = Exact, sm_candidate_count = 2,
             sm_candidate_positions = [2, 3], sm_search_start = 0\<rparr>
   \<and> 2 = hd (tier_candidates [''a '', ''b'', ''a'', ''a''] [''a''] 0 False Unique Exact)"
proof -
  have s: "seek_sequence [''a '', ''b'', ''a'', ''a''] [''a''] 0 False Unique
     = Some \<lparr>sm_index = 2, sm_mode = Exact, sm_candidate_count = 2,
             sm_candidate_positions = [2, 3], sm_search_start = 0\<rparr>"
    by code_simp
  have "length [''a '', ''b'', ''a'', ''a''] < (2 :: nat) ^ 63" by simp
  from seek_sequence_correct [OF _ this, of "[''a'']" 0 False Unique] s show ?thesis
    by (simp add: tail_preferred_def Let_def)
qed

section \<open>Splicing backwards is assembling forwards\<close>

text \<open>
  The abstract view of an update: ordered, disjoint edits of the original lines, and the new lines
  assembled from left to right. The code splices from the last edit to the first so that earlier
  positions stay valid.
\<close>

fun disjoint_edits :: "nat \<Rightarrow> replacement list \<Rightarrow> nat \<Rightarrow> bool" where
  "disjoint_edits pos [] n \<longleftrightarrow> pos \<le> n"
| "disjoint_edits pos ((start, old_len, r) # rs) n \<longleftrightarrow>
     pos \<le> start \<and> disjoint_edits (start + old_len) rs n"

fun assemble :: "nat \<Rightarrow> replacement list \<Rightarrow> string list \<Rightarrow> string list" where
  "assemble pos [] lines = drop pos lines"
| "assemble pos ((start, old_len, r) # rs) lines =
     slice lines pos start @ r @ assemble (start + old_len) rs lines"

lemma disjoint_edits_le: "disjoint_edits pos rs n \<Longrightarrow> pos \<le> n"
  by (induction pos rs n rule: disjoint_edits.induct) auto

lemma splice_all_Cons:
  "splice_all ((start, old_len, r) # rs) lines = splice (splice_all rs lines) start old_len r"
  by (simp add: splice_all_def)

lemma splice_all_assemble:
  "disjoint_edits pos rs (length lines) \<Longrightarrow> splice_all rs lines = take pos lines @ assemble pos rs lines"
proof (induction pos rs lines rule: assemble.induct)
  case (1 pos lines)
  then show ?case by (simp add: splice_all_def)
next
  case (2 pos start old_len r rs lines)
  have le: "start + old_len \<le> length lines"
    using 2 by (auto dest: disjoint_edits_le)
  have "splice_all rs lines = take (start + old_len) lines @ assemble (start + old_len) rs lines"
    using 2 by simp
  then have "splice_all ((start, old_len, r) # rs) lines
      = take start lines @ r @ assemble (start + old_len) rs lines"
    using le by (simp add: splice_all_Cons splice_def min_absorb1)
  moreover have "take start lines = take pos lines @ slice lines pos start"
    using 2(2) by (simp add: slice_def) (metis le_add_diff_inverse take_add)
  ultimately show ?case by simp
qed

lemma disjoint_edits_snoc:
  "disjoint_edits pos (rs @ [(s, k, r)]) n \<longleftrightarrow> disjoint_edits pos rs s \<and> s + k \<le> n"
  by (induction pos rs s rule: disjoint_edits.induct) auto

lemma disjoint_edits_mono: "disjoint_edits pos rs n \<Longrightarrow> n \<le> n' \<Longrightarrow> disjoint_edits pos rs n'"
  by (induction pos rs n rule: disjoint_edits.induct) auto

lemma disjoint_edits_append_end:
  "disjoint_edits pos rs n \<Longrightarrow> (\<forall>r \<in> set es. fst r = n \<and> fst (snd r) = 0) \<Longrightarrow> disjoint_edits pos (rs @ es) n"
proof (induction pos rs n rule: disjoint_edits.induct)
  case (1 pos n)
  then show ?case by (induction es arbitrary: pos) auto
qed auto

lemma disjoint_edits_sorted: "disjoint_edits pos rs n \<Longrightarrow> sorted (map fst rs) \<and> (\<forall>r \<in> set rs. pos \<le> fst r)"
  by (induction pos rs n rule: disjoint_edits.induct) fastforce+

text \<open>Stable sorting by position only moves the edits at the end of the file to the end.\<close>

lemma sort_edits_split:
  assumes "sorted (map fst (filter (\<lambda>r. fst r < n) rs))" "\<forall>r \<in> set rs. fst r \<le> (n :: nat)"
  shows "sort_key fst rs = filter (\<lambda>r. fst r < n) rs @ filter (\<lambda>r. fst r = n) rs"
proof (rule properties_for_sort_key)
  let ?ys = "filter (\<lambda>r. fst r < n) rs @ filter (\<lambda>r. fst r = n) rs"
  have split: "filter (\<lambda>r. \<not> fst r < n) rs = filter (\<lambda>r. fst r = n) rs"
    using assms(2) by (intro filter_cong) auto
  show "mset ?ys = mset rs"
    unfolding split [symmetric] by (simp add: mset_filter)
  show "filter (\<lambda>x. fst k = fst x) ?ys = filter (\<lambda>x. fst k = fst x) rs" if "k \<in> set ?ys" for k
  proof (cases "fst k = n")
    case True
    then have "filter (\<lambda>x. fst k = fst x) (filter (\<lambda>r. fst r < n) rs) = []"
      by (auto simp: filter_empty_conv)
    moreover have "filter (\<lambda>x. fst k = fst x) (filter (\<lambda>r. fst r = n) rs) = filter (\<lambda>x. fst k = fst x) rs"
      using True by (auto simp: filter_filter intro!: filter_cong)
    ultimately show ?thesis by simp
  next
    case False
    then have "filter (\<lambda>x. fst k = fst x) (filter (\<lambda>r. fst r = n) rs) = []"
      by (auto simp: filter_empty_conv)
    moreover have "fst k < n" using that False by auto
    then have "filter (\<lambda>x. fst k = fst x) (filter (\<lambda>r. fst r < n) rs) = filter (\<lambda>x. fst k = fst x) rs"
      by (auto simp: filter_filter intro!: filter_cong)
    ultimately show ?thesis by simp
  qed
  have "sorted (map fst (filter (\<lambda>r. fst r = n) rs))"
    by (induction rs) auto
  then show "sorted (map fst ?ys)"
    using assms by (auto simp: sorted_append)
qed

section \<open>Every chunk becomes one edit\<close>

definition drop_trailing_empty :: "string list \<Rightarrow> string list" where
  "drop_trailing_empty r = (if r \<noteq> [] \<and> last r = [] then butlast r else r)"

text \<open>What the edit of a chunk may be: an insertion behind a line that matches its context, an
  appended block, or the replacement of lines that match its old lines.\<close>

fun chunk_edit :: "string list \<Rightarrow> codex_patch_chunk \<Rightarrow> replacement \<Rightarrow> bool" where
  "chunk_edit lines c (s, k, r) \<longleftrightarrow>
     (if old_lines c = [] then
        k = 0 \<and> r = new_lines c \<and>
        (case change_context c of
           None \<Rightarrow> s = length lines
         | Some x \<Rightarrow> 0 < s \<and> s \<le> length lines
             \<and> list_ex (\<lambda>mode. line_matches mode (lines ! (s - 1)) x) all_tiers)
      else
        s + k \<le> length lines \<and>
        (k = length (old_lines c) \<and> r = new_lines c
           \<and> list_ex (matches_at lines (old_lines c) s) all_tiers
         \<or> last (old_lines c) = [] \<and> k + 1 = length (old_lines c) \<and> r = drop_trailing_empty (new_lines c)
           \<and> list_ex (matches_at lines (butlast (old_lines c)) s) all_tiers))"

definition edits_inv :: "string list \<Rightarrow> derive_state \<Rightarrow> bool" where
  "edits_inv lines st \<longleftrightarrow>
     disjoint_edits 0 (filter (\<lambda>r. fst r < length lines) (replacements st)) (line_index st)
     \<and> line_index st \<le> length lines
     \<and> list_all (\<lambda>r. fst r < length lines \<or> fst r = length lines \<and> fst (snd r) = 0) (replacements st)"

lemma list_ex_all_tiers: "P mode \<Longrightarrow> list_ex P all_tiers"
  by (cases mode) (simp_all add: all_tiers_def)

lemma edits_inv_push:
  assumes "edits_inv lines st" "line_index st \<le> s" "s + k \<le> length lines" "i = s + k"
    "replacements st' = replacements st @ [(s, k, r)]" "line_index st' = i"
  shows "edits_inv lines st'"
proof (cases "s < length lines")
  case True
  then show ?thesis
    using assms by (auto simp: edits_inv_def disjoint_edits_snoc intro: disjoint_edits_mono)
next
  case False
  then show ?thesis
    using assms by (auto simp: edits_inv_def intro: disjoint_edits_mono)
qed

lemma edits_inv_append:
  assumes "edits_inv lines st" "replacements st' = replacements st @ [(length lines, 0, r)]"
    "line_index st' = line_index st"
  shows "edits_inv lines st'"
  using assms by (auto simp: edits_inv_def)

lemma seek_context_Ok:
  assumes "seek_context lines path mm ci chunk start = Ok (cm, start')" "start \<le> length lines"
  shows "start \<le> start' \<and> start' \<le> length lines
    \<and> (case change_context chunk of
         None \<Rightarrow> cm = None \<and> start' = start
       | Some x \<Rightarrow> 0 < start' \<and> list_ex (\<lambda>mode. line_matches mode (lines ! (start' - 1)) x) all_tiers
           \<and> (\<exists>m. cm = Some m \<and> seek_sequence lines [x] start False mm = Some m))"
proof (cases "change_context chunk")
  case None
  then show ?thesis using assms by (simp add: seek_context_def)
next
  case (Some x)
  then obtain m where m: "seek_sequence lines [x] start False mm = Some m" "cm = Some m" "start' = sm_index m + 1"
    using assms by (auto simp: seek_context_def split: option.splits)
  have b: "start \<le> sm_index m" "sm_index m < length lines" "matches_at lines [x] (sm_index m) (sm_mode m)"
    using seek_sequence_bounds [OF m(1) assms(2)] by auto
  then have "slice lines (sm_index m) (sm_index m + 1) = [lines ! sm_index m]"
    by (simp add: slice_def take_Suc_conv_app_nth hd_drop_conv_nth take_Suc drop_eq_Nil)
  then have "line_matches (sm_mode m) (lines ! (start' - 1)) x"
    using b m(3) by (simp add: matches_at_def)
  then show ?thesis
    using Some m b list_ex_all_tiers [of "\<lambda>mode. line_matches mode (lines ! (start' - 1)) x"] by auto
qed

lemma seek_old_lines_Some:
  assumes "seek_old_lines lines mm chunk start = (pattern, replacement, Some found)"
    "start \<le> length lines" "old_lines chunk \<noteq> []"
  shows "start \<le> sm_index found \<and> sm_index found + length pattern \<le> length lines
    \<and> chunk_edit lines chunk (sm_index found, length pattern, replacement)
    \<and> seek_sequence lines pattern start (is_end_of_file chunk) mm = Some found"
proof -
  have seek: "seek_sequence lines pattern start (is_end_of_file chunk) mm = Some found"
    and pat: "pattern = old_lines chunk \<and> replacement = new_lines chunk \<or>
      last (old_lines chunk) = [] \<and> pattern = butlast (old_lines chunk)
        \<and> replacement = drop_trailing_empty (new_lines chunk)"
    using assms(1) by (auto simp: seek_old_lines_def Let_def drop_trailing_empty_def
        split: option.splits if_splits)
  show ?thesis
    using seek_sequence_bounds [OF seek assms(2)] seek pat assms(3) list_ex_all_tiers by auto
qed

lemma chunk_step_simps [simp]:
  "replacements (insertion_chunk lines mm ci chunk cm start st) = replacements st @
     [(if change_context chunk \<noteq> None then start else length lines, 0, new_lines chunk)]"
  "line_index (insertion_chunk lines mm ci chunk cm start st) = start"
  "replacements (replacement_chunk lines mm ci cm pattern replacement found st) = replacements st @
     [(sm_index found, length pattern, replacement)]"
  "line_index (replacement_chunk lines mm ci cm pattern replacement found st) = sm_index found + length pattern"
  by (simp_all add: insertion_chunk_def replacement_chunk_def Let_def)

lemma derive_chunk_edit:
  assumes "derive_chunk lines path mm ci chunk st = Ok st'" "edits_inv lines st"
  shows "edits_inv lines st' \<and> (\<exists>e. replacements st' = replacements st @ [e] \<and> chunk_edit lines chunk e)"
proof -
  obtain cm start where ctx: "seek_context lines path mm ci chunk (line_index st) = Ok (cm, start)"
    using assms(1) by (auto simp: derive_chunk_def rust_ok)
  have li: "line_index st \<le> length lines" using assms(2) by (simp add: edits_inv_def)
  note c = seek_context_Ok [OF ctx li]
  show ?thesis
  proof (cases "old_lines chunk = []")
    case True
    then have st': "st' = insertion_chunk lines mm ci chunk cm start st"
      using assms(1) ctx by (simp add: derive_chunk_def)
    show ?thesis
    proof (cases "change_context chunk")
      case None
      then show ?thesis
        using True c assms(2) by (auto simp: st' intro!: edits_inv_append [OF assms(2)])
    next
      case (Some x)
      then show ?thesis
        using True c assms(2) by (auto simp: st' intro!: edits_inv_push [OF assms(2), of start 0])
    qed
  next
    case False
    then obtain pattern replacement found where
      seek: "seek_old_lines lines mm chunk start = (pattern, replacement, Some found)"
      and st': "st' = replacement_chunk lines mm ci cm pattern replacement found st"
      using assms(1) ctx by (auto simp: derive_chunk_def split: prod.splits option.splits)
    have start: "start \<le> length lines" using c by simp
    note f = seek_old_lines_Some [OF seek start False]
    have "edits_inv lines st'"
      using f c by (intro edits_inv_push [OF assms(2), of "sm_index found" "length pattern"])
        (auto simp: st')
    then show ?thesis using f by (auto simp: st' simp del: chunk_edit.simps)
  qed
qed

lemma derive_chunks_edits:
  "derive_chunks lines path mm ci chunks st = Ok st' \<Longrightarrow> edits_inv lines st \<Longrightarrow>
     edits_inv lines st' \<and>
     (\<exists>es. replacements st' = replacements st @ es \<and> list_all2 (chunk_edit lines) chunks es)"
proof (induction chunks arbitrary: ci st)
  case (Cons chunk chunks)
  then obtain st1 where st1: "derive_chunk lines path mm ci chunk st = Ok st1"
    and rest: "derive_chunks lines path mm (ci + 1) chunks st1 = Ok st'"
    by (auto simp: rust_ok)
  obtain e where e: "edits_inv lines st1" "replacements st1 = replacements st @ [e]" "chunk_edit lines chunk e"
    using derive_chunk_edit [OF st1 Cons.prems(2)] by blast
  obtain es where "edits_inv lines st'" "replacements st' = replacements st1 @ es"
    "list_all2 (chunk_edit lines) chunks es"
    using Cons.IH [OF rest e(1)] by blast
  then show ?case using e by (intro conjI exI [of _ "e # es"]) simp_all
qed simp

lemma edits_inv_sorted:
  assumes "edits_inv lines st"
  shows "disjoint_edits 0 (sort_key fst (replacements st)) (length lines)"
proof -
  let ?n = "length lines"
  have "disjoint_edits 0 (filter (\<lambda>r. fst r < ?n) (replacements st)) ?n"
    using assms by (auto simp: edits_inv_def intro: disjoint_edits_mono)
  then have d: "disjoint_edits 0
      (filter (\<lambda>r. fst r < ?n) (replacements st) @ filter (\<lambda>r. fst r = ?n) (replacements st)) ?n"
    using assms by (intro disjoint_edits_append_end) (auto simp: edits_inv_def list_all_iff)
  have "\<forall>r \<in> set (replacements st). fst r \<le> ?n"
    using assms by (auto simp: edits_inv_def list_all_iff)
  then show ?thesis
    using d disjoint_edits_sorted [of 0 "filter (\<lambda>r. fst r < ?n) (replacements st)" "line_index st"] assms
    by (subst sort_edits_split [of ?n]) (auto simp: edits_inv_def)
qed

lemma map_err_Ok_iff [rust_ok]: "map_err f r = Inr a \<longleftrightarrow> r = Inr a"
  by (cases r) (auto simp: map_err_def)

lemma edits_inv_init: "edits_inv lines derive_init"
  by (simp add: edits_inv_def derive_init_def)

lemma derive_update_Ok:
  assumes "derive_codex_patch_update_with_matching_mode original path chunks mm = Ok u"
  obtains le canonical st where
    "detect_apply_text_line_ending original = Ok le"
    "canonicalize_apply_text_line_endings original le = Ok canonical"
    "derive_chunks (source_lines canonical) path mm 0 chunks derive_init = Ok st"
    "content u = restore_apply_text_line_endings
       (join [LF] (splice_all (sort_key fst (replacements st)) (source_lines canonical) @ [[]])) le"
    "chunk_matches u = ds_matches st"
  using assms
  by (auto simp: derive_codex_patch_update_with_matching_mode_def rust_ok Let_def)

text \<open>
  C1. Applying the chunks of an update is an ordered, non-overlapping edit of the original lines. When
  the derivation succeeds, every chunk contributes exactly one edit, in chunk order: an insertion right
  behind a line that matches its change context, a block appended at the end, or the replacement of
  consecutive lines that match its old lines. The edits, stably sorted by position, are disjoint and
  inside the file, and the new text is the original lines with these edits substituted from left to
  right, newline-terminated, in the line-ending convention of the original file; so the backward
  splicing never shifts or loses a line.
\<close>

theorem derive_update_assembles:
  assumes "derive_codex_patch_update_with_matching_mode original path chunks mm = Ok u"
  shows "\<exists>le canonical edits.
    detect_apply_text_line_ending original = Ok le
    \<and> canonicalize_apply_text_line_endings original le = Ok canonical
    \<and> list_all2 (chunk_edit (source_lines canonical)) chunks edits
    \<and> disjoint_edits 0 (sort_key fst edits) (length (source_lines canonical))
    \<and> content u = restore_apply_text_line_endings
        (join [LF] (assemble 0 (sort_key fst edits) (source_lines canonical) @ [[]])) le"
proof -
  obtain le canonical st where
    le: "detect_apply_text_line_ending original = Ok le"
      "canonicalize_apply_text_line_endings original le = Ok canonical"
    and st: "derive_chunks (source_lines canonical) path mm 0 chunks derive_init = Ok st"
    and c: "content u = restore_apply_text_line_endings
       (join [LF] (splice_all (sort_key fst (replacements st)) (source_lines canonical) @ [[]])) le"
    using assms by (rule derive_update_Ok)
  have inv: "edits_inv (source_lines canonical) st"
    and edits: "list_all2 (chunk_edit (source_lines canonical)) chunks (replacements st)"
    using derive_chunks_edits [OF st edits_inv_init] by (auto simp: derive_init_def)
  have d: "disjoint_edits 0 (sort_key fst (replacements st)) (length (source_lines canonical))"
    using inv by (rule edits_inv_sorted)
  have "splice_all (sort_key fst (replacements st)) (source_lines canonical)
      = assemble 0 (sort_key fst (replacements st)) (source_lines canonical)"
    using splice_all_assemble [OF d] by simp
  then show ?thesis
    using le c d edits by (intro exI [of _ le] exI [of _ canonical] exI [of _ "replacements st"]) simp
qed

definition example_chunk :: codex_patch_chunk where
  "example_chunk = \<lparr>change_context = Some ''b'', old_lines = [''c''], new_lines = [''C'', ''D''], is_end_of_file = False\<rparr>"

theorem derive_update_assembles_witness:
  "map_sum id content (derive_codex_patch_update_with_matching_mode
      [CHR ''a'', CR, LF, CHR ''b'', CR, LF, CHR ''c'', CR, LF] ''f'' [example_chunk] Unique)
     = Ok [CHR ''a'', CR, LF, CHR ''b'', CR, LF, CHR ''C'', CR, LF, CHR ''D'', CR, LF]
   \<and> (\<exists>canonical edits. list_all2 (chunk_edit (source_lines canonical)) [example_chunk] edits
        \<and> disjoint_edits 0 (sort_key fst edits) (length (source_lines canonical)))"
proof -
  let ?file = "[CHR ''a'', CR, LF, CHR ''b'', CR, LF, CHR ''c'', CR, LF]"
  have e: "map_sum id content (derive_codex_patch_update_with_matching_mode ?file ''f'' [example_chunk] Unique)
     = Ok [CHR ''a'', CR, LF, CHR ''b'', CR, LF, CHR ''C'', CR, LF, CHR ''D'', CR, LF]"
    by code_simp
  then obtain u where "derive_codex_patch_update_with_matching_mode ?file ''f'' [example_chunk] Unique = Ok u"
    by (cases "derive_codex_patch_update_with_matching_mode ?file ''f'' [example_chunk] Unique") auto
  from derive_update_assembles [OF this] e show ?thesis by blast
qed

section \<open>Rejections\<close>

lemma match_rejection_fact_None:
  assumes "0 < pattern_len" "pattern_len \<le> line_count"
  shows "match_rejection_fact sm mm src line_count pattern_len = None \<longleftrightarrow> mode_satisfied mm sm"
  using assms by (simp add: match_rejection_fact_def)

lemma match_rejection_fact_satisfied [simp]:
  "mode_satisfied mm sm \<Longrightarrow> match_rejection_fact sm mm src line_count pattern_len = None"
  by (simp add: match_rejection_fact_def)

lemma select_match_rejection_None:
  "select_match_rejection a b = None \<longleftrightarrow> a = None \<and> b = None"
  by (cases a; cases b) (auto simp: select_match_rejection_def map_filter_def split: option.splits)

lemma seek_sequence_empty_satisfied:
  "seek_sequence lines [] start eof mm = Some sm \<Longrightarrow> is_exact_unique sm \<and> mode_satisfied mm' sm"
  by (cases mm') (auto simp: seek_sequence_def Let_def is_unique_def is_exact_unique_def)

lemma rejection_of_seek:
  assumes "seek_sequence lines pattern start eof mm = Some sm" "start \<le> length lines"
  shows "match_rejection_fact sm mm' src (length lines) (length pattern) = None \<longleftrightarrow> mode_satisfied mm' sm"
proof (cases "pattern = []")
  case True
  then show ?thesis using seek_sequence_empty_satisfied [of lines start eof mm sm mm'] assms by simp
next
  case False
  then show ?thesis
    using seek_sequence_bounds [OF assms] by (intro match_rejection_fact_None) auto
qed

definition rejection_truthful :: "apply_patch_matching_mode \<Rightarrow> codex_patch_chunk_match \<Rightarrow> bool" where
  "rejection_truthful mm cm \<longleftrightarrow>
     (match_rejection cm = None \<longleftrightarrow>
       (case mm of FirstMatch \<Rightarrow> True | Unique \<Rightarrow> unique_match cm | ExactUnique \<Rightarrow> strict_match cm))
     \<and> (strict_match cm \<longrightarrow> unique_match cm)"

lemma derive_chunk_match:
  assumes "derive_chunk lines path mm ci chunk st = Ok st'" "edits_inv lines st"
  shows "\<exists>cm. ds_matches st' = ds_matches st @ [cm] \<and> cm_chunk_index cm = ci \<and> rejection_truthful mm cm"
proof -
  obtain cm start where ctx: "seek_context lines path mm ci chunk (line_index st) = Ok (cm, start)"
    using assms(1) by (auto simp: derive_chunk_def rust_ok)
  have li: "line_index st \<le> length lines" using assms(2) by (simp add: edits_inv_def)
  note c = seek_context_Ok [OF ctx li]
  have cr: "match_rejection_fact m mm src (length lines) 1 = None \<longleftrightarrow> mode_satisfied mm m"
    if "cm = Some m" for m src
    using c that rejection_of_seek [OF _ li] by (fastforce split: option.splits)
  have eu: "is_exact_unique m \<Longrightarrow> is_unique m" for m by (simp add: is_exact_unique_def is_unique_def)
  show ?thesis
  proof (cases "old_lines chunk = []")
    case True
    then have st': "st' = insertion_chunk lines mm ci chunk cm start st"
      using assms(1) ctx by (simp add: derive_chunk_def)
    show ?thesis
      using cr eu by (cases mm; cases cm)
        (auto simp: st' insertion_chunk_def Let_def rejection_truthful_def)
  next
    case False
    then obtain pattern replacement found where
      seek: "seek_old_lines lines mm chunk start = (pattern, replacement, Some found)"
      and st': "st' = replacement_chunk lines mm ci cm pattern replacement found st"
      using assms(1) ctx by (auto simp: derive_chunk_def split: prod.splits option.splits)
    have start: "start \<le> length lines" using c by simp
    have fr: "match_rejection_fact found mm OldLines (length lines) (length pattern) = None
        \<longleftrightarrow> mode_satisfied mm found"
      using seek_old_lines_Some [OF seek start False] rejection_of_seek [OF _ start] by blast
    show ?thesis
      using cr fr eu by (cases mm; cases cm)
        (auto simp: st' replacement_chunk_def Let_def rejection_truthful_def select_match_rejection_None)
  qed
qed

lemma derive_chunks_matches:
  "derive_chunks lines path mm ci chunks st = Ok st' \<Longrightarrow> edits_inv lines st \<Longrightarrow>
     \<exists>cms. ds_matches st' = ds_matches st @ cms \<and> map cm_chunk_index cms = [ci ..< ci + length chunks]
       \<and> list_all (rejection_truthful mm) cms"
proof (induction chunks arbitrary: ci st)
  case (Cons chunk chunks)
  then obtain st1 where st1: "derive_chunk lines path mm ci chunk st = Ok st1"
    and rest: "derive_chunks lines path mm (ci + 1) chunks st1 = Ok st'"
    by (auto simp: rust_ok)
  obtain cm where cm: "ds_matches st1 = ds_matches st @ [cm]" "cm_chunk_index cm = ci" "rejection_truthful mm cm"
    using derive_chunk_match [OF st1 Cons.prems(2)] by blast
  have "edits_inv lines st1" using derive_chunk_edit [OF st1 Cons.prems(2)] by blast
  then obtain cms where "ds_matches st' = ds_matches st1 @ cms"
    "map cm_chunk_index cms = [ci + 1 ..< ci + 1 + length chunks]" "list_all (rejection_truthful mm) cms"
    using Cons.IH [OF rest] by blast
  then show ?case
    using cm by (intro exI [of _ "cm # cms"]) (simp add: upt_conv_Cons del: upt_Suc)
qed simp

text \<open>
  C3. The matching mode is enforced chunk by chunk. A successful derivation reports one match per chunk,
  in order, and a match carries a rejection exactly when it violates the requested mode: never under
  \<^verbatim>\<open>first_match\<close>, exactly when its target is not unique under \<^verbatim>\<open>unique\<close>, and exactly when some text
  match that positioned it was fuzzy or ambiguous under \<^verbatim>\<open>exact_unique\<close>; a strict match is always unique.
\<close>

theorem derive_rejections_truthful:
  assumes "derive_codex_patch_update_with_matching_mode original path chunks mm = Ok u"
  shows "map cm_chunk_index (chunk_matches u) = [0 ..< length chunks]
    \<and> list_all (rejection_truthful mm) (chunk_matches u)"
proof -
  obtain le canonical st where
    "derive_chunks (source_lines canonical) path mm 0 chunks derive_init = Ok st"
    "chunk_matches u = ds_matches st"
    using assms by (rule derive_update_Ok)
  then show ?thesis
    using derive_chunks_matches [OF _ edits_inv_init, of "source_lines canonical" path mm 0 chunks st]
    by (auto simp: derive_init_def)
qed

theorem derive_rejections_truthful_witness:
  "(\<exists>u. derive_codex_patch_update_with_matching_mode (''x'' @ [LF] @ ''x'' @ [LF]) ''f''
      [\<lparr>change_context = None, old_lines = [''x''], new_lines = [''y''], is_end_of_file = False\<rparr>] Unique = Ok u
     \<and> list_all (rejection_truthful Unique) (chunk_matches u)
     \<and> \<not> list_all (\<lambda>cm. match_rejection cm = None) (chunk_matches u))"
proof -
  let ?r = "derive_codex_patch_update_with_matching_mode (''x'' @ [LF] @ ''x'' @ [LF]) ''f''
      [\<lparr>change_context = None, old_lines = [''x''], new_lines = [''y''], is_end_of_file = False\<rparr>] Unique"
  have "(case ?r of Inl _ \<Rightarrow> False | Inr u \<Rightarrow> \<not> list_all (\<lambda>cm. Option.is_none (match_rejection cm)) (chunk_matches u))"
    by code_simp
  then obtain u where "?r = Ok u" "\<not> list_all (\<lambda>cm. match_rejection cm = None) (chunk_matches u)"
    by (auto split: sum.splits simp: Option.is_none_def)
  with derive_rejections_truthful [OF this(1)] show ?thesis by blast
qed

end
