(* ===== verification/Job_Lifecycle.thy ===== *)
theory Job_Lifecycle
  imports Wcx_Prelude
begin

text \<open>
  The canonical Runner Job wire lifecycle of \<^verbatim>\<open>webcodex-core/src/runner_job_lifecycle.rs\<close> and the
  Registry's broad activity test on public status strings
  (\<^verbatim>\<open>webcodex-runner-registry/src/job_status.rs\<close>). Every other Job component interprets wire
  status strings only through this vocabulary.
\<close>

datatype runner_job_lifecycle =
    Queued
  | RunnerQueued
  | StartedLegacy
  | Running
  | StopRequested
  | Completed
  | Failed
  | Stopped
  | Timeout
  | TimedOut
  | Lost
  | Cancelled

definition from_wire :: "string \<Rightarrow> (runner_job_lifecycle, string) result" where
  "from_wire status =
     (if status = ''queued'' then Ok Queued
      else if status = ''agent_queued'' then Ok RunnerQueued
      else if status = ''started'' then Ok StartedLegacy
      else if status = ''running'' then Ok Running
      else if status = ''stop_requested'' then Ok StopRequested
      else if status = ''completed'' then Ok Completed
      else if status = ''failed'' then Ok Failed
      else if status = ''stopped'' then Ok Stopped
      else if status = ''timeout'' then Ok Timeout
      else if status = ''timed_out'' then Ok TimedOut
      else if status = ''lost'' then Ok Lost
      else if status = ''cancelled'' then Ok Cancelled
      else Err (''unknown Runner Job lifecycle status: '' @ status))"

fun as_wire :: "runner_job_lifecycle \<Rightarrow> string" where
  "as_wire Queued = ''queued''"
| "as_wire RunnerQueued = ''agent_queued''"
| "as_wire StartedLegacy = ''started''"
| "as_wire Running = ''running''"
| "as_wire StopRequested = ''stop_requested''"
| "as_wire Completed = ''completed''"
| "as_wire Failed = ''failed''"
| "as_wire Stopped = ''stopped''"
| "as_wire Timeout = ''timeout''"
| "as_wire TimedOut = ''timed_out''"
| "as_wire Lost = ''lost''"
| "as_wire Cancelled = ''cancelled''"

definition is_terminal :: "runner_job_lifecycle \<Rightarrow> bool" where
  "is_terminal l \<longleftrightarrow> List.member [Completed, Failed, Stopped, Timeout, TimedOut, Lost, Cancelled] l"

definition is_runner_active :: "runner_job_lifecycle \<Rightarrow> bool" where
  "is_runner_active l \<longleftrightarrow> List.member [RunnerQueued, Running, StopRequested] l"

definition is_active :: "runner_job_lifecycle \<Rightarrow> bool" where
  "is_active l \<longleftrightarrow> List.member [Queued, StartedLegacy] l \<or> is_runner_active l"

definition occupies_execution_slot :: "runner_job_lifecycle \<Rightarrow> bool" where
  "occupies_execution_slot l \<longleftrightarrow> List.member [StartedLegacy, Running, StopRequested] l"

definition is_timed_out :: "runner_job_lifecycle \<Rightarrow> bool" where
  "is_timed_out l \<longleftrightarrow> List.member [Timeout, TimedOut] l"

definition job_status_is_active :: "string \<Rightarrow> bool" where
  "job_status_is_active status \<longleftrightarrow>
     status = ''recovering'' \<or> (case from_wire status of Inl _ \<Rightarrow> False | Inr l \<Rightarrow> is_active l)"

definition is_final_job_status :: "string \<Rightarrow> bool" where
  "is_final_job_status status \<longleftrightarrow> (case from_wire status of Inl _ \<Rightarrow> False | Inr l \<Rightarrow> is_terminal l)"

definition is_runner_active_job_status :: "string \<Rightarrow> bool" where
  "is_runner_active_job_status status \<longleftrightarrow>
     (case from_wire status of Inl _ \<Rightarrow> False | Inr l \<Rightarrow> is_runner_active l)"

section \<open>Facts about the vocabulary\<close>

lemma lifecycle_tests [simp, lifecycle_simps]:
  "is_terminal Queued = False" "is_terminal RunnerQueued = False"
  "is_terminal StartedLegacy = False" "is_terminal Running = False"
  "is_terminal StopRequested = False" "is_terminal Completed = True"
  "is_terminal Failed = True" "is_terminal Stopped = True" "is_terminal Timeout = True"
  "is_terminal TimedOut = True" "is_terminal Lost = True" "is_terminal Cancelled = True"
  "is_runner_active Queued = False" "is_runner_active RunnerQueued = True"
  "is_runner_active StartedLegacy = False" "is_runner_active Running = True"
  "is_runner_active StopRequested = True" "is_runner_active Completed = False"
  "is_runner_active Failed = False" "is_runner_active Stopped = False"
  "is_runner_active Timeout = False" "is_runner_active TimedOut = False"
  "is_runner_active Lost = False" "is_runner_active Cancelled = False"
  by (simp_all add: is_terminal_def is_runner_active_def)

lemma from_wire_as_wire [simp]: "from_wire (as_wire l) = Ok l"
  by (cases l) (simp_all add: from_wire_def)

lemma from_wire_Ok_imp: "from_wire s = Ok l \<Longrightarrow> as_wire l = s"
  by (auto simp: from_wire_def split: if_splits)

lemma from_wire_Ok_iff [rust_ok]: "from_wire s = Ok l \<longleftrightarrow> s = as_wire l"
  using from_wire_Ok_imp by fastforce

lemma as_wire_inject [simp]: "as_wire l = as_wire l' \<longleftrightarrow> l = l'"
  by (metis Inr_inject from_wire_as_wire)

lemma runner_active_not_terminal: "is_runner_active l \<Longrightarrow> \<not> is_terminal l"
  by (cases l) auto

lemma active_iff_not_terminal: "is_active l \<longleftrightarrow> \<not> is_terminal l"
  by (cases l) (auto simp: is_active_def)

lemma is_final_job_status_as_wire [simp]: "is_final_job_status (as_wire l) = is_terminal l"
  by (simp add: is_final_job_status_def)

lemma is_runner_active_job_status_as_wire [simp]:
  "is_runner_active_job_status (as_wire l) = is_runner_active l"
  by (simp add: is_runner_active_job_status_def)

lemma as_wire_not_recovering: "as_wire l \<noteq> ''recovering''"
  by (cases l) auto

section \<open>Properties\<close>

text \<open>The wire codec is a bijection between the twelve lifecycle values and their exact
  spellings: parsing succeeds exactly on the spelling of a value and returns that value, so no
  alternative spelling is accepted and no value is lost.\<close>

theorem lifecycle_wire_roundtrip:
  "from_wire (as_wire l) = Ok l \<and> (from_wire s = Ok l \<longleftrightarrow> s = as_wire l)"
  by (simp add: from_wire_Ok_iff)

text \<open>The lifecycle classes fit together: every value is terminal or broadly active and never
  both, Runner-owned activity and slot occupancy are kinds of activity, and the Registry's status
  test accepts exactly the wire spellings of active values and the Server's own
  \<^verbatim>\<open>recovering\<close> overlay, which is not a lifecycle value.\<close>

theorem lifecycle_classes_partition:
  "(is_active l \<longleftrightarrow> \<not> is_terminal l)
   \<and> (is_runner_active l \<longrightarrow> is_active l)
   \<and> (occupies_execution_slot l \<longrightarrow> is_active l)
   \<and> (is_timed_out l \<longrightarrow> is_terminal l)
   \<and> (job_status_is_active s \<longleftrightarrow> s = ''recovering'' \<or> (\<exists>l'. s = as_wire l' \<and> is_active l'))
   \<and> \<not> is_ok (from_wire ''recovering'')"
proof -
  have "job_status_is_active s \<longleftrightarrow> s = ''recovering'' \<or> (\<exists>l'. s = as_wire l' \<and> is_active l')"
    by (auto simp: job_status_is_active_def from_wire_Ok_iff split: sum.splits)
  moreover have "\<not> is_ok (from_wire ''recovering'')"
    by (simp add: from_wire_def)
  moreover have "(occupies_execution_slot l \<longrightarrow> is_active l) \<and> (is_timed_out l \<longrightarrow> is_terminal l)"
    by (cases l) (auto simp: occupies_execution_slot_def is_timed_out_def is_active_def)
  ultimately show ?thesis
    using active_iff_not_terminal runner_active_not_terminal by blast
qed

text \<open>The classes are inhabited: a running Job occupies a slot, both timeout spellings are
  terminal, and the overlay string is active without being a wire value.\<close>

theorem lifecycle_classes_partition_witness:
  "is_active Running \<and> occupies_execution_slot Running \<and> is_terminal TimedOut
   \<and> job_status_is_active ''recovering'' \<and> \<not> job_status_is_active ''lost''"
  using lifecycle_classes_partition [of Running "''recovering''"]
    lifecycle_classes_partition [of TimedOut "''lost''"]
  by (simp add: is_timed_out_def occupies_execution_slot_def active_iff_not_terminal
      job_status_is_active_def from_wire_def)

end
