(* ===== verification/Job_Log.thy ===== *)
theory Job_Log
  imports Wcx_Prelude
begin

text \<open>
  Retained output streams of Jobs, from \<^verbatim>\<open>webcodex-runner-registry/src/jobs.rs\<close> and the log state of
  \<^verbatim>\<open>state.rs\<close>: the bounded tail of a live stream with absolute line numbers, the bounded copy of a
  completed result stream, and cursor reads. Line numbers saturate at the width of \<^verbatim>\<open>usize\<close>.

  The specification of a live log is the stream of all bytes ever appended; \<open>log_shows\<close> says how the
  bounded state represents it.
\<close>

section \<open>State and operations\<close>

definition ORDINARY_RESULT_STREAM_RETENTION_BYTES :: nat where
  "ORDINARY_RESULT_STREAM_RETENTION_BYTES = 262144"

definition LIVE_JOB_STREAM_RETENTION_BYTES :: nat where
  "LIVE_JOB_STREAM_RETENTION_BYTES = 262144"

record shell_job_log_state =
  tail :: string
  first_retained_line :: nat
  next_line :: nat
  truncated :: bool

definition default_log :: shell_job_log_state where
  "default_log = \<lparr>tail = [], first_retained_line = 1, next_line = 1, truncated = False\<rparr>"

text \<open>The loop that moves a cut forward to the next character boundary.\<close>

function advance_to_boundary :: "string \<Rightarrow> nat \<Rightarrow> nat" where
  "advance_to_boundary s start =
     (if start < length s \<and> \<not> is_char_boundary s start then advance_to_boundary s (start + 1)
      else start)"
  by pat_completeness auto
termination
  by (relation "measure (\<lambda>(s, start). length s - start)") auto

declare advance_to_boundary.simps [simp del]

definition retain_result_stream_to_with_evidence :: "string option \<Rightarrow> nat \<Rightarrow> string option \<times> bool" where
  "retain_result_stream_to_with_evidence val max_bytes =
     (case val of
        None \<Rightarrow> (None, False)
      | Some s \<Rightarrow>
          if length s \<le> max_bytes then (Some s, False)
          else let start = advance_to_boundary s (length s - max_bytes) in
            (Some (''[output truncated to last '' @ show_nat max_bytes @ '' bytes]'' @ [LF] @ drop start s),
             True))"

definition retain_result_stream_to :: "string option \<Rightarrow> nat \<Rightarrow> string option" where
  "retain_result_stream_to val max_bytes = fst (retain_result_stream_to_with_evidence val max_bytes)"

definition retain_ordinary_result_stream_with_evidence :: "string option \<Rightarrow> string option \<times> bool" where
  "retain_ordinary_result_stream_with_evidence val =
     retain_result_stream_to_with_evidence val ORDINARY_RESULT_STREAM_RETENTION_BYTES"

definition retain_live_job_stream :: "string option \<Rightarrow> string option" where
  "retain_live_job_stream val = retain_result_stream_to val LIVE_JOB_STREAM_RETENTION_BYTES"

definition combine_result_stream_truncation :: "bool \<Rightarrow> bool \<Rightarrow> bool" where
  "combine_result_stream_truncation runner_reported server_side \<longleftrightarrow> runner_reported \<or> server_side"

definition retained_line_count :: "string \<Rightarrow> nat" where
  "retained_line_count val = length (str_lines val)"

fun find_lf :: "string \<Rightarrow> nat option" where
  "find_lf [] = None"
| "find_lf (c # cs) = (if c = LF then Some 0 else map_option Suc (find_lf cs))"

text \<open>How much of an oversized tail is drained: up to and including the first newline behind the
  minimum, or to the next character boundary when no newline follows.\<close>

definition drain_end :: "string \<Rightarrow> nat" where
  "drain_end t =
     (let minimum_start = length t - LIVE_JOB_STREAM_RETENTION_BYTES in
      case find_lf (drop minimum_start t) of
        Some relative_newline \<Rightarrow> minimum_start + relative_newline + 1
      | None \<Rightarrow> advance_to_boundary t minimum_start)"

definition append_log_limited :: "shell_job_log_state \<Rightarrow> string option \<Rightarrow> shell_job_log_state" where
  "append_log_limited target val =
     (case val of
        None \<Rightarrow> target
      | Some chunk \<Rightarrow>
          (let t = tail target @ chunk;
               target = target\<lparr>tail := t\<rparr>;
               target =
                 (if LIVE_JOB_STREAM_RETENTION_BYTES < length t then
                    let observed_next = sat_add (first_retained_line target) (retained_line_count t);
                        cut = drain_end t;
                        dropped_lines = count_lf (take cut t);
                        first = sat_add (first_retained_line target) dropped_lines
                    in target\<lparr>tail := drop cut t,
                              first_retained_line := (if drop cut t = [] then observed_next else first),
                              truncated := True\<rparr>
                  else target)
           in target\<lparr>next_line := sat_add (first_retained_line target) (retained_line_count (tail target))\<rparr>))"

definition has_leading_result_retention_truncation_marker :: "string \<Rightarrow> bool" where
  "has_leading_result_retention_truncation_marker val \<longleftrightarrow>
     starts_with val (''[output truncated]'' @ [LF]) \<or> starts_with val (''[...]'' @ [LF]) \<or>
     (case strip_prefix ''[output truncated to last '' val of
        None \<Rightarrow> False
      | Some rest \<Rightarrow>
          (case find_lf rest of
             None \<Rightarrow> False
           | Some newline \<Rightarrow>
               (case strip_prefix (rev '' bytes]'') (rev (take newline rest)) of
                  None \<Rightarrow> False
                | Some byte_count \<Rightarrow> byte_count \<noteq> [] \<and> list_all is_ascii_digit byte_count)))"

definition replace_log_limited :: "shell_job_log_state \<Rightarrow> string option \<Rightarrow> shell_job_log_state" where
  "replace_log_limited target val =
     (case val of
        None \<Rightarrow> target
      | Some v \<Rightarrow>
          (let v = (case retain_live_job_stream (Some v) of None \<Rightarrow> [] | Some r \<Rightarrow> r) in
           \<lparr>tail = v, first_retained_line = 1, next_line = sat_add 1 (retained_line_count v),
            truncated = has_leading_result_retention_truncation_marker v\<rparr>))"

record shell_job_stream_snapshot =
  ss_tail :: string
  ss_first_retained_line :: nat
  ss_next_line :: nat
  ss_truncated :: bool

definition replace_log_from_snapshot ::
    "shell_job_log_state \<Rightarrow> shell_job_stream_snapshot \<Rightarrow> shell_job_log_state" where
  "replace_log_from_snapshot target snapshot =
     target\<lparr>tail := ss_tail snapshot, first_retained_line := ss_first_retained_line snapshot,
            next_line := ss_next_line snapshot, truncated := ss_truncated snapshot\<rparr>"

definition terminated :: "string list \<Rightarrow> string" where
  "terminated ls = (let selected = join [LF] ls in if selected = [] then selected else selected @ [LF])"

definition positive :: "nat option \<Rightarrow> nat option" where
  "positive n = (case n of None \<Rightarrow> None | Some k \<Rightarrow> if 0 < k then Some k else None)"

definition select_log_lines ::
    "shell_job_log_state \<Rightarrow> nat option \<Rightarrow> nat option \<Rightarrow> string option \<times> nat \<times> nat \<times> bool" where
  "select_log_lines log since_line tail_lines =
     (let ls = str_lines (tail log) in
      case positive tail_lines of
        Some n \<Rightarrow>
          (let start = length ls - n in
           (Some (terminated (drop start ls)), next_line log, next_line log - 1,
            1 < first_retained_line log \<or> 0 < start \<or> truncated log))
      | None \<Rightarrow>
          (let requested = max (case since_line of None \<Rightarrow> first_retained_line log | Some l \<Rightarrow> l)
                               (first_retained_line log);
               start_idx = min (requested - first_retained_line log) (length ls)
           in (Some (terminated (drop start_idx ls)), next_line log, next_line log - 1,
               (case since_line of None \<Rightarrow> False | Some l \<Rightarrow> l < first_retained_line log)
               \<or> 0 < start_idx \<or> truncated log)))"

definition JOB_SNAPSHOT_STREAM_MAX_BYTES :: nat where
  "JOB_SNAPSHOT_STREAM_MAX_BYTES = 65536"

definition validate_stream_snapshot :: "shell_job_stream_snapshot \<Rightarrow> string \<Rightarrow> (unit, string) result" where
  "validate_stream_snapshot stream field =
     (if JOB_SNAPSHOT_STREAM_MAX_BYTES < length (ss_tail stream)
        then Err (''job inventory '' @ field @ '' exceeds '' @ show_nat JOB_SNAPSHOT_STREAM_MAX_BYTES @ '' bytes'')
      else if ss_first_retained_line stream = 0
          \<or> ss_next_line stream \<noteq> sat_add (ss_first_retained_line stream) (retained_line_count (ss_tail stream))
        then Err (''job inventory '' @ field @ '' line range is inconsistent'')
      else if 1 < ss_first_retained_line stream \<and> \<not> ss_truncated stream
        then Err (''job inventory '' @ field @ '' omits earlier lines without truncated=true'')
      else Ok ())"

section \<open>Counting and splitting lines\<close>

lemma split_inclusive_line_count:
  "length (split_inclusive s) = count_lf s + (if s = [] \<or> last s = LF then 0 else 1)"
proof (induction s)
  case (Cons c cs)
  then show ?case
    by (cases "split_inclusive cs") (auto split: if_splits)
qed simp

lemma retained_line_count_eq:
  "retained_line_count s = count_lf s + (if s = [] \<or> last s = LF then 0 else 1)"
  by (simp add: retained_line_count_def split_inclusive_line_count)

lemma retained_line_count_le: "retained_line_count s \<le> length s"
proof (cases "s = [] \<or> last s = LF")
  case True
  then show ?thesis by (simp add: retained_line_count_eq count_lf_def)
next
  case False
  then obtain t c where "s = t @ [c]" "c \<noteq> LF" by (cases s rule: rev_cases) auto
  moreover have "count_lf t \<le> length t" by (simp add: count_lf_def)
  ultimately show ?thesis by (simp add: retained_line_count_eq)
qed

lemma retained_line_count_append:
  "t \<noteq> [] \<Longrightarrow> retained_line_count (s @ t) = count_lf s + retained_line_count t"
  by (simp add: retained_line_count_eq)

lemma find_lf_Some:
  "find_lf s = Some i \<Longrightarrow> i < length s \<and> s ! i = LF"
  by (induction s arbitrary: i) (auto split: if_splits)

lemma find_lf_None: "find_lf s = None \<longleftrightarrow> LF \<notin> set s"
  by (induction s) auto

text \<open>In a UTF-8 text no four continuation bytes follow each other.\<close>

definition cont_runs_short :: "string \<Rightarrow> bool" where
  "cont_runs_short s \<longleftrightarrow> (\<forall>i. i + 4 \<le> length s \<longrightarrow>
     \<not> (is_cont (s ! i) \<and> is_cont (s ! (i + 1)) \<and> is_cont (s ! (i + 2)) \<and> is_cont (s ! (i + 3))))"

lemma cont_runs_short_drop: "cont_runs_short s \<Longrightarrow> cont_runs_short (drop d s)"
  by (auto simp: cont_runs_short_def add.assoc [symmetric])

lemma cont_runs_short_prefix: "cont_runs_short (s @ t) \<Longrightarrow> cont_runs_short s"
proof -
  assume st: "cont_runs_short (s @ t)"
  show ?thesis
    unfolding cont_runs_short_def
  proof (intro allI impI)
    fix i
    assume "i + 4 \<le> length s"
    then show "\<not> (is_cont (s ! i) \<and> is_cont (s ! (i + 1)) \<and> is_cont (s ! (i + 2)) \<and> is_cont (s ! (i + 3)))"
      using st [unfolded cont_runs_short_def, rule_format, of i] by (simp add: nth_append)
  qed
qed

lemma advance_ge: "start \<le> advance_to_boundary s start"
proof (induction s start rule: advance_to_boundary.induct)
  case (1 s start)
  then show ?case by (subst advance_to_boundary.simps) auto
qed

lemma advance_le: "start \<le> length s \<Longrightarrow> advance_to_boundary s start \<le> length s"
proof (induction s start rule: advance_to_boundary.induct)
  case (1 s start)
  then show ?case by (subst advance_to_boundary.simps) auto
qed

lemma advance_boundary: "start \<le> length s \<Longrightarrow> is_char_boundary s (advance_to_boundary s start)"
proof (induction s start rule: advance_to_boundary.induct)
  case (1 s start)
  show ?case
  proof (cases "start < length s \<and> \<not> is_char_boundary s start")
    case True
    with 1 show ?thesis by (subst advance_to_boundary.simps) auto
  next
    case False
    then have "advance_to_boundary s start = start" by (subst advance_to_boundary.simps) auto
    with False 1 show ?thesis by (auto simp: is_char_boundary_def)
  qed
qed

lemma advance_stops: "i < length s \<Longrightarrow> \<not> is_cont (s ! i) \<Longrightarrow> start \<le> i \<Longrightarrow> advance_to_boundary s start \<le> i"
proof (induction s start rule: advance_to_boundary.induct)
  case (1 s start)
  show ?case
  proof (cases "start = i")
    case True
    with 1 show ?thesis by (subst advance_to_boundary.simps) (auto simp: is_char_boundary_def)
  next
    case False
    with 1 show ?thesis by (subst advance_to_boundary.simps) auto
  qed
qed

lemma advance_short:
  assumes "cont_runs_short s" "start + 4 \<le> length s"
  shows "advance_to_boundary s start \<le> start + 3"
proof -
  have "\<not> is_cont (s ! start) \<or> \<not> is_cont (s ! (start + 1)) \<or> \<not> is_cont (s ! (start + 2)) \<or> \<not> is_cont (s ! (start + 3))"
    using assms by (auto simp: cont_runs_short_def)
  then show ?thesis
    using assms(2) advance_stops [of start s start] advance_stops [of "start + 1" s start]
      advance_stops [of "start + 2" s start] advance_stops [of "start + 3" s start]
    by linarith
qed

section \<open>The stream behind a log\<close>

text \<open>
  The log shows the stream \<open>S\<close> with its first \<open>d\<close> bytes dropped: the tail is the rest, at most the
  retention bound long; the first retained line is the absolute number of the line the tail starts
  in; the cursor is one past the last line of the whole stream.
\<close>

definition log_shows :: "string \<Rightarrow> nat \<Rightarrow> shell_job_log_state \<Rightarrow> bool" where
  "log_shows S d log \<longleftrightarrow> d \<le> length S \<and> tail log = drop d S
     \<and> length (tail log) \<le> LIVE_JOB_STREAM_RETENTION_BYTES
     \<and> first_retained_line log = 1 + count_lf (take d S)
     \<and> next_line log = 1 + retained_line_count S
     \<and> (truncated log \<longleftrightarrow> 0 < d)
     \<and> (tail log = [] \<longrightarrow> S = [] \<or> last S = LF)"

lemma log_shows_default: "log_shows [] 0 default_log"
  by (simp add: log_shows_def default_log_def retained_line_count_eq)

lemma sat_add_exact: "a + b < 2 ^ 63 + 1 \<Longrightarrow> sat_add a b = a + b"
  by (simp add: sat_add_def u64_max_def)

lemma line_number_bound: "count_lf (take d S) + retained_line_count (drop d S) \<le> length S"
proof -
  have "count_lf (take d S) \<le> length (take d S)" by (rule count_lf_le_length)
  moreover have "retained_line_count (drop d S) \<le> length (drop d S)" by (rule retained_line_count_le)
  ultimately show ?thesis by (simp add: min_def split: if_splits)
qed

lemma drain_end_bounds:
  assumes "LIVE_JOB_STREAM_RETENTION_BYTES < length t" "cont_runs_short t"
  shows "length t - LIVE_JOB_STREAM_RETENTION_BYTES \<le> drain_end t" "drain_end t \<le> length t"
    "drain_end t = length t \<Longrightarrow> last t = LF"
proof -
  let ?m = "length t - LIVE_JOB_STREAM_RETENTION_BYTES"
  have "?m \<le> drain_end t \<and> drain_end t \<le> length t \<and> (drain_end t = length t \<longrightarrow> last t = LF)"
  proof (cases "find_lf (drop ?m t)")
    case None
    have "advance_to_boundary t ?m \<le> ?m + 3"
      using assms by (intro advance_short) (auto simp: LIVE_JOB_STREAM_RETENTION_BYTES_def)
    moreover have "?m + 3 < length t"
      using assms(1) by (simp add: LIVE_JOB_STREAM_RETENTION_BYTES_def)
    ultimately show ?thesis
      using None advance_ge [of ?m t] by (simp add: drain_end_def)
  next
    case (Some i)
    have i: "i < length (drop ?m t)" "drop ?m t ! i = LF"
      using find_lf_Some [OF Some] by auto
    then have len: "?m + i < length t" and "t ! (?m + i) = LF" by auto
    then have "last t = LF" if "?m + i + 1 = length t"
      using that by (metis add_diff_cancel_right' last_conv_nth list.size(3) not_less_zero)
    then show ?thesis using Some len by (simp add: drain_end_def)
  qed
  then show "?m \<le> drain_end t" "drain_end t \<le> length t" "drain_end t = length t \<Longrightarrow> last t = LF"
    by auto
qed

lemma line_number_total:
  assumes "drop e S = [] \<longrightarrow> S = [] \<or> last S = LF"
  shows "1 + count_lf (take e S) + retained_line_count (drop e S) = 1 + retained_line_count S"
proof (cases "drop e S = []")
  case True
  then have "take e S = S" by simp
  then show ?thesis using True assms by (auto simp: retained_line_count_eq)
next
  case False
  then show ?thesis
    using retained_line_count_append [OF False, of "take e S"] by simp
qed

lemma log_shows_append:
  assumes "log_shows S d log" "cont_runs_short (S @ chunk)" "length (S @ chunk) < 2 ^ 63"
  shows "\<exists>d' \<ge> d. log_shows (S @ chunk) d' (append_log_limited log (Some chunk))"
proof -
  let ?S = "S @ chunk" and ?t = "tail log @ chunk"
  have d: "d \<le> length S" and t: "?t = drop d ?S" and first: "first_retained_line log = 1 + count_lf (take d S)"
    using assms(1) by (auto simp: log_shows_def)
  have take: "take d ?S = take d S" using d by simp
  have lines: "1 + count_lf (take e ?S) + retained_line_count (drop e ?S) = 1 + retained_line_count ?S"
    if "drop e ?S = [] \<longrightarrow> ?S = [] \<or> last ?S = LF" for e
    using that by (rule line_number_total)
  have exact: "sat_add (1 + count_lf (take e ?S)) (retained_line_count (drop e ?S))
      = 1 + count_lf (take e ?S) + retained_line_count (drop e ?S)" for e
    using line_number_bound [of e ?S] assms(3) by (intro sat_add_exact) linarith
  show ?thesis
  proof (cases "LIVE_JOB_STREAM_RETENTION_BYTES < length ?t")
    case False
    have end_ok: "drop d ?S = [] \<longrightarrow> ?S = [] \<or> last ?S = LF"
      using assms(1) t by (auto simp: log_shows_def)
    have "log_shows ?S d (append_log_limited log (Some chunk))"
      using False assms(1) d end_ok lines [OF end_ok] exact [of d] t
      by (auto simp: log_shows_def append_log_limited_def Let_def first take)
    then show ?thesis by blast
  next
    case True
    let ?cut = "drain_end ?t" and ?e = "d + drain_end ?t"
    have runs: "cont_runs_short ?t" unfolding t using assms(2) by (rule cont_runs_short_drop)
    note b = drain_end_bounds [OF True runs]
    have rest: "drop ?cut ?t = drop ?e ?S" by (simp only: t drop_drop add.commute)
    have dropped: "count_lf (take d S) + count_lf (take ?cut ?t) = count_lf (take ?e ?S)"
      by (simp only: t take [symmetric] take_add count_lf_append)
    have end_ok: "drop ?e ?S = [] \<longrightarrow> ?S = [] \<or> last ?S = LF"
    proof
      assume "drop ?e ?S = []"
      then have "?cut = length ?t" using b(2) rest by (metis drop_eq_Nil le_antisym)
      then have "last ?t = LF" using b(3) by blast
      moreover have "last ?t = last ?S" using t True by (metis last_drop length_greater_0_conv not_less_zero
            drop_eq_Nil linorder_not_le list.size(3))
      ultimately show "?S = [] \<or> last ?S = LF" by simp
    qed
    have sat: "sat_add (1 + count_lf (take d S)) (count_lf (take ?cut ?t)) = 1 + count_lf (take ?e ?S)"
      using count_lf_le_length [of "take ?e ?S"] assms(3) dropped
      by (subst sat_add_exact) (auto simp: min_def split: if_splits)
    have obs: "sat_add (1 + count_lf (take d S)) (retained_line_count ?t) = 1 + retained_line_count ?S"
    proof -
      have "drop d ?S \<noteq> []" using True t by (metis length_greater_0_conv not_less_zero list.size(3))
      then show ?thesis using exact [of d] lines [of d] by (simp only: t take) simp
    qed
    have all: "drop ?e ?S = [] \<Longrightarrow> 1 + retained_line_count ?S = 1 + count_lf (take ?e ?S)"
      using lines [OF end_ok] by (simp add: retained_line_count_eq)
    have "length (drop ?e ?S) \<le> LIVE_JOB_STREAM_RETENTION_BYTES" "0 < ?e" "?e \<le> length ?S"
    proof -
      have len: "length ?t = length ?S - d" by (simp only: t length_drop)
      have "d \<le> length ?S" using d by simp
      then show "?e \<le> length ?S" using b(2) len by linarith
      show "0 < ?e" using b(1) True by linarith
      have "length (drop ?e ?S) = length ?S - ?e" by (rule length_drop)
      then show "length (drop ?e ?S) \<le> LIVE_JOB_STREAM_RETENTION_BYTES" using b(1) len by linarith
    qed
    note range = this
    let ?log = "append_log_limited log (Some chunk)"
    have f: "first_retained_line ?log = 1 + count_lf (take ?e ?S)"
    proof -
      have "first_retained_line ?log = (if drop ?cut ?t = []
          then sat_add (first_retained_line log) (retained_line_count ?t)
          else sat_add (first_retained_line log) (count_lf (take ?cut ?t)))"
        using True by (simp add: append_log_limited_def Let_def)
      then show ?thesis using sat obs all unfolding rest first by presburger
    qed
    have "tail ?log = drop ?cut ?t" "truncated ?log"
      "next_line ?log = sat_add (first_retained_line ?log) (retained_line_count (drop ?cut ?t))"
      using True by (simp_all add: append_log_limited_def Let_def)
    then have "log_shows ?S ?e ?log"
      using range end_ok f lines [OF end_ok] exact [of ?e] unfolding log_shows_def rest by metis
    then show ?thesis by (intro exI [of _ ?e]) simp
  qed
qed

lemma split_inclusive_append_line:
  "p = [] \<or> last p = LF \<Longrightarrow> split_inclusive (p @ r) = split_inclusive p @ split_inclusive r"
proof (induction p)
  case (Cons c p)
  show ?case
  proof (cases "p = []")
    case True
    with Cons show ?thesis by simp
  next
    case False
    with Cons have IH: "split_inclusive (p @ r) = split_inclusive p @ split_inclusive r" by simp
    obtain l ls where "split_inclusive p = l # ls" using False by (cases "split_inclusive p") auto
    then show ?thesis by (simp add: IH)
  qed
qed simp

lemma split_inclusive_append_partial:
  "LF \<notin> set q \<Longrightarrow> r \<noteq> [] \<Longrightarrow>
     split_inclusive (q @ r) = (q @ hd (split_inclusive r)) # tl (split_inclusive r)"
proof (induction q)
  case Nil
  then show ?case by (cases "split_inclusive r") auto
next
  case (Cons c q)
  then show ?case by auto
qed

lemma last_line_split: "\<exists>p q. s = p @ q \<and> (p = [] \<or> last p = LF) \<and> LF \<notin> set q"
proof (induction s rule: rev_induct)
  case (snoc c s)
  show ?case
  proof (cases "c = LF")
    case True
    then show ?thesis by (intro exI [of _ "s @ [c]"] exI [of _ "[]"]) simp
  next
    case False
    obtain p q where "s = p @ q" "p = [] \<or> last p = LF" "LF \<notin> set q" using snoc by blast
    then show ?thesis using False by (intro exI [of _ p] exI [of _ "q @ [c]"]) simp
  qed
qed simp

lemma count_lf_no_lf: "LF \<notin> set q \<Longrightarrow> count_lf q = 0"
  by (simp add: count_lf_def filter_empty_conv) blast

text \<open>From the second retained line on (or from the first, when nothing was cut inside it), the tail's
  lines are the stream's lines.\<close>

lemma retained_lines:
  assumes "d \<le> length S" "drop d S = [] \<longrightarrow> S = [] \<or> last S = LF"
    "0 < n \<or> d = 0 \<or> S ! (d - 1) = LF"
  shows "drop n (str_lines (drop d S)) = drop (n + count_lf (take d S)) (str_lines S)"
proof -
  obtain p q where pq: "take d S = p @ q" "p = [] \<or> last p = LF" "LF \<notin> set q"
    using last_line_split by blast
  have S: "S = p @ q @ drop d S" using pq(1) by (metis append.assoc append_take_drop_id)
  have c: "count_lf (take d S) = length (split_inclusive p)"
    using pq(2,3) by (auto simp: pq(1) count_lf_no_lf split_inclusive_line_count)
  have split: "split_inclusive S = split_inclusive p @ split_inclusive (q @ drop d S)"
    using split_inclusive_append_line [OF pq(2), of "q @ drop d S"] S by simp
  have "drop n (split_inclusive (q @ drop d S)) = drop n (split_inclusive (drop d S))"
  proof (cases "q = []")
    case False
    then have last: "last (take d S) = last q" "take d S \<noteq> []" using pq(1) by auto
    then have "0 < d" by auto
    moreover have "S ! (d - 1) = last q"
      using last assms(1) \<open>0 < d\<close> by (metis One_nat_def Suc_pred last_snoc less_le_trans take_Suc_conv_app_nth
          diff_less lessI)
    moreover have "last q \<noteq> LF" using False pq(3) by (metis last_in_set)
    ultimately have n: "0 < n" using assms(3) by auto
    have "drop d S \<noteq> []"
    proof
      assume "drop d S = []"
      then have "S = p @ q" using S by simp
      then show False using assms(2) \<open>drop d S = []\<close> False \<open>last q \<noteq> LF\<close> by auto
    qed
    then show ?thesis
      using n split_inclusive_append_partial [OF pq(3)] by (cases n) (auto simp: drop_Suc)
  qed simp
  then have "drop n (split_inclusive (drop d S)) = drop (n + count_lf (take d S)) (split_inclusive S)"
    by (simp add: split c)
  then show ?thesis by (simp add: str_lines_def drop_map)
qed

lemma str_lines_eq_Nil [simp]: "str_lines s = [] \<longleftrightarrow> s = []"
  by (simp add: str_lines_def)

section \<open>Properties\<close>



text \<open>
  Following a Job log by cursor is lossless and never repeats: reading from an absolute line number
  that is still retained returns exactly the stream's lines from that number on, reading from the
  returned cursor of a log returns nothing, and a read that starts before the retained range says so.
\<close>

theorem job_log_cursor_read:
  assumes "log_shows S d log"
  shows "(first_retained_line log < k \<or> first_retained_line log = k \<and> (d = 0 \<or> S ! (d - 1) = LF) \<longrightarrow>
      select_log_lines log (Some k) None
        = (Some (terminated (drop (k - 1) (str_lines S))), next_line log, next_line log - 1,
           first_retained_line log < k \<and> 0 < length (str_lines (tail log)) \<or> 0 < d))
    \<and> fst (select_log_lines log (Some (next_line log)) None) = Some []
    \<and> (k < first_retained_line log \<longrightarrow> snd (snd (snd (select_log_lines log (Some k) None))))"
proof -
  have inv: "d \<le> length S" "tail log = drop d S" "drop d S = [] \<longrightarrow> S = [] \<or> last S = LF"
    "first_retained_line log = 1 + count_lf (take d S)" "next_line log = 1 + retained_line_count S"
    "truncated log \<longleftrightarrow> 0 < d"
    using assms by (auto simp: log_shows_def)
  have A: "select_log_lines log (Some k) None
        = (Some (terminated (drop (k - 1) (str_lines S))), next_line log, next_line log - 1,
           first_retained_line log < k \<and> 0 < length (str_lines (tail log)) \<or> 0 < d)"
    if k: "first_retained_line log < k \<or> first_retained_line log = k \<and> (d = 0 \<or> S ! (d - 1) = LF)"
  proof -
    let ?n = "k - first_retained_line log" and ?ls = "str_lines (tail log)"
    have "drop ?n ?ls = drop (k - 1) (str_lines S)"
      using retained_lines [OF inv(1,3), of ?n] k inv(2,4) by (auto simp: add.commute)
    moreover have "drop (min ?n (length ?ls)) ?ls = drop ?n ?ls" by (simp add: min_def)
    moreover have "0 < min ?n (length ?ls) \<longleftrightarrow> first_retained_line log < k \<and> 0 < length ?ls"
      using k by auto
    moreover have "max k (first_retained_line log) = k" using k by auto
    ultimately show ?thesis
      using inv(6) k by (auto simp: select_log_lines_def positive_def Let_def)
  qed
  have "next_line log - first_retained_line log = retained_line_count (tail log)"
    using line_number_total [OF inv(3)] inv by simp
  then have "drop (min (next_line log - first_retained_line log) (length (str_lines (tail log)))) (str_lines (tail log)) = []"
    by (simp add: retained_line_count_def)
  moreover have "max (next_line log) (first_retained_line log) = next_line log"
    using line_number_total [OF inv(3)] inv(4,5) by simp
  ultimately have "fst (select_log_lines log (Some (next_line log)) None) = Some []"
    by (simp add: select_log_lines_def positive_def Let_def terminated_def)
  then show ?thesis
    using A by (auto simp: select_log_lines_def positive_def Let_def)
qed

theorem job_log_cursor_read_witness:
  "log_shows (''a'' @ [LF] @ ''b'' @ [LF]) 0 (append_log_limited default_log (Some (''a'' @ [LF] @ ''b'' @ [LF])))
   \<and> fst (select_log_lines (append_log_limited default_log (Some (''a'' @ [LF] @ ''b'' @ [LF]))) (Some 2) None)
       = Some (''b'' @ [LF])"
proof -
  let ?S = "''a'' @ [LF] @ ''b'' @ [LF]"
  have view: "log_shows ?S 0 (append_log_limited default_log (Some ?S))"
    by (simp add: log_shows_def append_log_limited_def default_log_def retained_line_count_eq
        LIVE_JOB_STREAM_RETENTION_BYTES_def sat_add_def u64_max_def)
  have "first_retained_line (append_log_limited default_log (Some ?S)) < 2"
    by (simp add: append_log_limited_def default_log_def LIVE_JOB_STREAM_RETENTION_BYTES_def Let_def)
  with job_log_cursor_read [OF view, of 2] view show ?thesis
    by (simp add: terminated_def str_lines_def strip_line_end_def)
qed

end
