(* ===== verification/Test_Count.thy ===== *)
theory Test_Count
  imports Wcx_Prelude "HOL-Library.Multiset"
begin

text \<open>
  Test-count evidence from a complete Cargo output: the incremental parser of
  \<^verbatim>\<open>webcodex-core/src/cargo_test_count.rs\<close> and the summary-line parser it calls in
  \<^verbatim>\<open>webcodex-core/src/validation_evidence.rs\<close>. The reference is the fold of one effect per line over the two
  complete streams; the theorems say that the bounded incremental parser computes it for every way the
  output was cut into chunks and the two streams were interleaved, and within a fixed amount of memory.
\<close>

section \<open>Summary lines\<close>

definition is_control :: "string \<Rightarrow> bool" where
  "is_control g \<longleftrightarrow> (case g of
       [c] \<Rightarrow> (let n = of_char c :: nat in n < 32 \<or> n = 127)
     | [b, c] \<Rightarrow> b = CHR 0xC2 \<and> (let n = of_char c :: nat in 128 \<le> n \<and> n < 160)
     | _ \<Rightarrow> False)"

fun contains_str :: "string \<Rightarrow> string \<Rightarrow> bool" where
  "contains_str [] p \<longleftrightarrow> p = []"
| "contains_str (c # s) p \<longleftrightarrow> starts_with (c # s) p \<or> contains_str s p"

fun drop_csi :: "string list \<Rightarrow> string list" where
  "drop_csi [] = []"
| "drop_csi (g # gs) =
     (case g of [c] \<Rightarrow> if 64 \<le> (of_char c :: nat) \<and> of_char c \<le> (126 :: nat) then gs else drop_csi gs
        | _ \<Rightarrow> drop_csi gs)"

fun drop_osc :: "bool \<Rightarrow> string list \<Rightarrow> string list" where
  "drop_osc previous_escape [] = []"
| "drop_osc previous_escape (g # gs) =
     (if g = [CHR 0x07] \<or> previous_escape \<and> g = [CHR 0x5C] then gs else drop_osc (g = [CHR 0x1B]) gs)"

lemma length_drop_csi: "length (drop_csi gs) \<le> length gs"
  by (induction gs) (auto simp: le_SucI split: list.splits)

lemma length_drop_osc: "length (drop_osc b gs) \<le> length gs"
  by (induction b gs rule: drop_osc.induct) auto

function strip_ansi_groups :: "string list \<Rightarrow> string list" where
  "strip_ansi_groups gs =
     (case gs of
        [] \<Rightarrow> []
      | g # gs \<Rightarrow>
          if g \<noteq> [CHR 0x1B] then g # strip_ansi_groups gs
          else (case gs of
              [] \<Rightarrow> []
            | h # hs \<Rightarrow>
                if h = ''['' then strip_ansi_groups (drop_csi hs)
                else if h = '']'' then strip_ansi_groups (drop_osc False hs)
                else strip_ansi_groups hs))"
  by pat_completeness auto

termination
  by (relation "measure length")
    (simp_all add: less_Suc_eq_le le_SucI length_drop_csi length_drop_osc)

definition strip_ansi :: "string \<Rightarrow> string" where
  "strip_ansi s = concat (strip_ansi_groups (chars s))"

fun sanitize_groups :: "string list \<Rightarrow> bool \<Rightarrow> string \<Rightarrow> string" where
  "sanitize_groups [] pending_space out = out"
| "sanitize_groups (g # gs) pending_space out =
     (if is_control g \<or> is_whitespace g then sanitize_groups gs (out \<noteq> []) out
      else sanitize_groups gs False ((if pending_space then out @ '' '' else out) @ g))"

definition sanitize_line :: "string \<Rightarrow> string" where
  "sanitize_line s = sanitize_groups (chars (strip_ansi s)) False []"

text \<open>The pieces of a string between the characters that satisfy a predicate.\<close>

fun split_groups :: "(string \<Rightarrow> bool) \<Rightarrow> string list \<Rightarrow> string list" where
  "split_groups p [] = [[]]"
| "split_groups p (g # gs) =
     (if p g then [] # split_groups p gs
      else case split_groups p gs of [] \<Rightarrow> [g] | w # ws \<Rightarrow> (g @ w) # ws)"

definition tokens_by :: "(string \<Rightarrow> bool) \<Rightarrow> string \<Rightarrow> string list" where
  "tokens_by p s = filter (\<lambda>w. w \<noteq> []) (split_groups p (chars s))"

definition split_whitespace :: "string \<Rightarrow> string list" where
  "split_whitespace = tokens_by is_whitespace"

text \<open>\<^verbatim>\<open>str::parse::<u64>\<close>: an optional plus sign, then decimal digits, without overflow.\<close>

definition parse_u64 :: "string \<Rightarrow> nat option" where
  "parse_u64 s =
     (let ds = (case s of [] \<Rightarrow> [] | c # r \<Rightarrow> if c = CHR ''+'' then r else s);
          n = foldl (\<lambda>n c. 10 * n + (of_char c - 48)) 0 ds
      in if ds = [] \<or> \<not> list_all is_ascii_digit ds \<or> u64_max < n then None else Some n)"

fun count_before_label :: "string list \<Rightarrow> string \<Rightarrow> nat option" where
  "count_before_label (a # b # ts) label =
     (case (if b = label then parse_u64 a else None) of
        Some n \<Rightarrow> Some n
      | None \<Rightarrow> count_before_label (b # ts) label)"
| "count_before_label _ label = None"

record cargo_test_summary =
  passed :: "nat option"
  failed :: "nat option"
  ignored :: "nat option"

definition test_result_marker :: string where
  "test_result_marker = ''test result:''"

definition parse_test_summary_line :: "string \<Rightarrow> cargo_test_summary option" where
  "parse_test_summary_line line =
     (let line = sanitize_line line in
      if \<not> contains_str line test_result_marker then None
      else
        let tokens = tokens_by (\<lambda>g. is_whitespace g \<or> g = '';'' \<or> g = ''.'') line;
            summary = \<lparr>passed = count_before_label tokens ''passed'', failed = count_before_label tokens ''failed'',
                       ignored = count_before_label tokens ''ignored''\<rparr>
        in if passed summary \<noteq> None \<or> failed summary \<noteq> None \<or> ignored summary \<noteq> None
           then Some summary else None)"

definition parse_complete_cargo_test_summary_counts :: "string \<Rightarrow> (nat \<times> nat) option" where
  "parse_complete_cargo_test_summary_counts line =
     (let line = sanitize_line line in
      Option.bind (strip_prefix test_result_marker line) (\<lambda>rest.
        let result = trim_start rest in
        if \<not> starts_with result ''ok.'' \<and> \<not> starts_with result ''FAILED.'' then None
        else Option.bind (parse_test_summary_line line) (\<lambda>summary.
             Option.bind (passed summary) (\<lambda>p.
             Option.bind (failed summary) (\<lambda>f.
             Option.bind (ignored summary) (\<lambda>_. Some (p, f)))))))"

datatype count_evidence_status = CompleteSummary | PartialHarnessSummary | NoCompleteSummary | IncompleteStream

fun count_reason_code :: "count_evidence_status \<Rightarrow> string" where
  "count_reason_code CompleteSummary = ''complete_summary''"
| "count_reason_code PartialHarnessSummary = ''partial_harness_summary''"
| "count_reason_code NoCompleteSummary = ''no_complete_summary''"
| "count_reason_code IncompleteStream = ''incomplete_stream''"

definition count_is_proven :: "count_evidence_status \<Rightarrow> bool" where
  "count_is_proven s \<longleftrightarrow> s = CompleteSummary"

section \<open>The aggregate\<close>

record cargo_test_run_metadata =
  tests_detected :: bool
  tests_run_count :: "nat option"
  tests_passed :: "nat option"
  tests_failed :: "nat option"
  zero_tests_run :: "bool option"
  count_evidence_status :: count_evidence_status

record cargo_test_aggregate =
  agg_run_count :: nat
  agg_passed :: nat
  agg_failed :: nat
  complete_summary_found :: bool
  incomplete_summary_found :: bool
  agg_detected :: bool
  incomplete_stream :: bool

definition default_aggregate :: cargo_test_aggregate where
  "default_aggregate = \<lparr>agg_run_count = 0, agg_passed = 0, agg_failed = 0, complete_summary_found = False,
     incomplete_summary_found = False, agg_detected = False, incomplete_stream = False\<rparr>"

definition running_line :: "string \<Rightarrow> bool" where
  "running_line line =
     (case strip_prefix ''running '' (trim_start line) of
        None \<Rightarrow> False
      | Some rest \<Rightarrow> (case split_whitespace rest of
            num # label # _ \<Rightarrow> parse_u64 num \<noteq> None \<and> (label = ''test'' \<or> label = ''tests'')
          | _ \<Rightarrow> False))"

definition trim_end_cr :: "string \<Rightarrow> string" where
  "trim_end_cr s = rev (dropWhile ((=) CR) (rev s))"

definition observe_line :: "string \<Rightarrow> cargo_test_aggregate \<Rightarrow> cargo_test_aggregate" where
  "observe_line line agg =
     (let line = trim_end_cr line;
          agg = (if running_line line then agg\<lparr>agg_detected := True\<rparr> else agg)
      in if \<not> contains_str line test_result_marker then agg
         else
           let agg = agg\<lparr>agg_detected := True\<rparr> in
           (case parse_complete_cargo_test_summary_counts line of
              Some (p, f) \<Rightarrow>
                agg\<lparr>complete_summary_found := True,
                    agg_passed := sat_add (agg_passed agg) p,
                    agg_failed := sat_add (agg_failed agg) f,
                    agg_run_count := sat_add (sat_add (agg_run_count agg) p) f\<rparr>
            | None \<Rightarrow> agg\<lparr>incomplete_summary_found := True\<rparr>))"

definition aggregate_finish :: "cargo_test_aggregate \<Rightarrow> cargo_test_run_metadata" where
  "aggregate_finish agg =
     (let status = (if incomplete_stream agg then IncompleteStream
                    else if incomplete_summary_found agg then PartialHarnessSummary
                    else if complete_summary_found agg then CompleteSummary
                    else NoCompleteSummary);
          proven = count_is_proven status
      in \<lparr>tests_detected = agg_detected agg,
          tests_run_count = (if proven then Some (agg_run_count agg) else None),
          tests_passed = (if proven then Some (agg_passed agg) else None),
          tests_failed = (if proven then Some (agg_failed agg) else None),
          zero_tests_run = (if proven then Some (agg_run_count agg = 0) else None),
          count_evidence_status = status\<rparr>)"

section \<open>The incremental parser\<close>

definition CARGO_TEST_STREAM_LINE_MAX_BYTES :: nat where
  "CARGO_TEST_STREAM_LINE_MAX_BYTES = 16 * 1024"

record stream_buffer =
  pending :: string
  discarding_oversized_line :: bool
  discarded_saw_test_result :: bool
  marker_tail :: string

definition default_buffer :: stream_buffer where
  "default_buffer = \<lparr>pending = [], discarding_oversized_line = False, discarded_saw_test_result = False,
     marker_tail = []\<rparr>"

definition scan_discarded_fragment :: "string \<Rightarrow> stream_buffer \<Rightarrow> stream_buffer" where
  "scan_discarded_fragment bytes stream =
     (let keep = length test_result_marker - 1;
          saw = (if discarded_saw_test_result stream then True
                 else
                   let direct = contains_str bytes test_result_marker;
                       boundary = marker_tail stream @ take (min (length bytes) keep) bytes;
                       crossed = contains_str boundary test_result_marker
                   in direct \<or> crossed);
          tail = (if keep = 0 then []
                  else if keep \<le> length bytes then drop (length bytes - keep) bytes
                  else
                    let t = marker_tail stream @ bytes in
                    if keep < length t then drop (length t - keep) t else t)
      in stream\<lparr>discarded_saw_test_result := saw, marker_tail := tail\<rparr>)"

definition finish_discarded_line ::
    "cargo_test_aggregate \<times> stream_buffer \<Rightarrow> cargo_test_aggregate \<times> stream_buffer" where
  "finish_discarded_line acc =
     (case acc of (agg, stream) \<Rightarrow>
        (if discarded_saw_test_result stream then agg\<lparr>agg_detected := True, incomplete_stream := True\<rparr> else agg,
         stream\<lparr>discarding_oversized_line := False, discarded_saw_test_result := False, marker_tail := []\<rparr>))"

text \<open>The fragment before a newline or before the end of the chunk is added to the line under way.\<close>

definition extend_line :: "string \<Rightarrow> stream_buffer \<Rightarrow> stream_buffer" where
  "extend_line fragment stream =
     (if discarding_oversized_line stream then scan_discarded_fragment fragment stream
      else if sat_add (length (pending stream)) (length fragment) \<le> CARGO_TEST_STREAM_LINE_MAX_BYTES
        then stream\<lparr>pending := pending stream @ fragment\<rparr>
      else scan_discarded_fragment fragment (scan_discarded_fragment (pending stream)
             (stream\<lparr>pending := [], discarding_oversized_line := True\<rparr>)))"

definition end_line ::
    "cargo_test_aggregate \<times> stream_buffer \<Rightarrow> cargo_test_aggregate \<times> stream_buffer" where
  "end_line acc =
     (case (if discarding_oversized_line (snd acc) then finish_discarded_line acc
            else (observe_line (pending (snd acc)) (fst acc), snd acc)) of
        (agg, stream) \<Rightarrow> (agg, stream\<lparr>pending := []\<rparr>))"

function push_stream_chunk ::
    "cargo_test_aggregate \<times> stream_buffer \<Rightarrow> string \<Rightarrow> cargo_test_aggregate \<times> stream_buffer" where
  "push_stream_chunk acc chunk =
     (if chunk = [] then acc
      else
        let fragment = takeWhile (\<lambda>c. c \<noteq> LF) chunk;
            acc = (fst acc, extend_line fragment (snd acc))
        in case dropWhile (\<lambda>c. c \<noteq> LF) chunk of
             [] \<Rightarrow> acc
           | _ # rest \<Rightarrow> push_stream_chunk (end_line acc) rest)"
  by pat_completeness auto

termination
proof (relation "measure (length \<circ> snd)")
  fix acc :: "cargo_test_aggregate \<times> stream_buffer" and chunk x xa c rest
  assume "dropWhile (\<lambda>c. c \<noteq> LF) chunk = c # rest"
  then have "length (c # rest) \<le> length chunk"
    by (metis length_dropWhile_le)
  then show "((end_line xa, rest), acc, chunk) \<in> measure (length \<circ> snd)" by simp
qed simp

record accumulator =
  aggregate :: cargo_test_aggregate
  out_buffer :: stream_buffer
  err_buffer :: stream_buffer

definition new_accumulator :: accumulator where
  "new_accumulator = \<lparr>aggregate = default_aggregate, out_buffer = default_buffer, err_buffer = default_buffer\<rparr>"

definition push_stdout_chunk :: "string \<Rightarrow> accumulator \<Rightarrow> accumulator" where
  "push_stdout_chunk chunk a =
     (case push_stream_chunk (aggregate a, out_buffer a) chunk of (agg, s) \<Rightarrow> a\<lparr>aggregate := agg, out_buffer := s\<rparr>)"

definition push_stderr_chunk :: "string \<Rightarrow> accumulator \<Rightarrow> accumulator" where
  "push_stderr_chunk chunk a =
     (case push_stream_chunk (aggregate a, err_buffer a) chunk of (agg, s) \<Rightarrow> a\<lparr>aggregate := agg, err_buffer := s\<rparr>)"

definition finish_stream :: "cargo_test_aggregate \<Rightarrow> stream_buffer \<Rightarrow> cargo_test_aggregate" where
  "finish_stream agg stream =
     (if discarding_oversized_line stream then fst (finish_discarded_line (agg, stream))
      else if pending stream \<noteq> [] then observe_line (pending stream) agg
      else agg)"

definition accumulator_finish :: "accumulator \<Rightarrow> cargo_test_run_metadata" where
  "accumulator_finish a =
     aggregate_finish (finish_stream (finish_stream (aggregate a) (out_buffer a)) (err_buffer a))"

definition parse_cargo_test_run_metadata :: "string \<Rightarrow> cargo_test_run_metadata" where
  "parse_cargo_test_run_metadata text = accumulator_finish (push_stdout_chunk text new_accumulator)"

declare strip_ansi_groups.simps [simp del] push_stream_chunk.simps [simp del]

section \<open>The state of one stream\<close>

lemma contains_str_iff: "contains_str s p \<longleftrightarrow> (\<exists>a b. s = a @ p @ b)"
proof (induction s)
  case (Cons c s)
  have "(\<exists>a b. c # s = a @ p @ b) \<longleftrightarrow> (\<exists>b. c # s = p @ b) \<or> (\<exists>a b. s = a @ p @ b)"
    by (auto simp: Cons_eq_append_conv)
  then show ?case using Cons by (simp add: starts_with_iff)
qed simp

definition last_bytes :: "nat \<Rightarrow> string \<Rightarrow> string" where
  "last_bytes k s = drop (length s - k) s"

lemma last_bytes_append:
  "last_bytes k (s @ t) = (if k \<le> length t then last_bytes k t else last_bytes (k - length t) s @ t)"
  by (simp add: last_bytes_def)

lemma last_bytes_short: "length s \<le> k \<Longrightarrow> last_bytes k s = s"
  by (simp add: last_bytes_def)

lemma length_last_bytes: "length (last_bytes k s) = min k (length s)"
  by (simp add: last_bytes_def)

lemma last_bytes_absorb: "last_bytes k (last_bytes k s @ t) = last_bytes k (s @ t)"
  by (cases "k \<le> length s") (simp_all add: last_bytes_def add.commute)

lemma last_bytes_split: "\<exists>r. s = r @ last_bytes k s"
  by (metis append_take_drop_id last_bytes_def)

text \<open>A marker that straddles two fragments is found in the last bytes of one and the first of the other.\<close>

lemma contains_append:
  assumes "length p = Suc k"
  shows "contains_str (s @ t) p \<longleftrightarrow>
    contains_str s p \<or> contains_str t p \<or> contains_str (last_bytes k s @ take k t) p"
proof
  assume "contains_str (s @ t) p"
  then obtain a b where ab: "s @ t = a @ p @ b" by (auto simp: contains_str_iff)
  show "contains_str s p \<or> contains_str t p \<or> contains_str (last_bytes k s @ take k t) p"
  proof (cases "length s \<le> length a")
    case True
    then have "t = drop (length s) a @ p @ b" using ab by (metis append_eq_append_conv_if append_eq_conv_conj drop_append)
    then show ?thesis by (auto simp: contains_str_iff)
  next
    case False
    then obtain u where u: "s = a @ u" "u @ t = p @ b"
      using ab by (metis append_eq_append_conv2 length_append le_add1)
    show ?thesis
    proof (cases "length p \<le> length u")
      case True
      then obtain v where "u = p @ v" using u(2) by (metis append_eq_append_conv_if append_take_drop_id)
      then show ?thesis using u(1) by (auto simp: contains_str_iff)
    next
      case False
      then obtain q where q: "p = u @ q" "t = q @ b"
        using u(2) by (metis append_eq_append_conv_if append_take_drop_id nat_le_linear)
      have "u \<noteq> []" using u(1) \<open>\<not> length s \<le> length a\<close> by auto
      then have lens: "length u \<le> k" "length q \<le> k" using q(1) assms False by (cases u; simp)+
      have "last_bytes k s = last_bytes (k - length u) a @ u"
        using lens by (auto simp: u(1) last_bytes_append last_bytes_def)
      moreover have "take k t = q @ take (k - length q) b" using lens by (simp add: q(2))
      ultimately show ?thesis by (auto simp: contains_str_iff q(1))
    qed
  qed
next
  obtain r where r: "s = r @ last_bytes k s" using last_bytes_split by blast
  have t: "t = take k t @ drop k t" by simp
  assume "contains_str s p \<or> contains_str t p \<or> contains_str (last_bytes k s @ take k t) p"
  then show "contains_str (s @ t) p"
    unfolding contains_str_iff by (metis append.assoc r t)
qed

definition scanned :: "string \<Rightarrow> stream_buffer \<Rightarrow> bool" where
  "scanned l s \<longleftrightarrow> discarded_saw_test_result s = contains_str l test_result_marker
     \<and> marker_tail s = last_bytes 11 l"

lemma length_marker: "length test_result_marker = Suc 11"
  by (simp add: test_result_marker_def)

lemma scan_scanned:
  assumes "scanned l s"
  shows "scanned (l @ f) (scan_discarded_fragment f s)"
    "pending (scan_discarded_fragment f s) = pending s"
    "discarding_oversized_line (scan_discarded_fragment f s) = discarding_oversized_line s"
proof -
  have "take (min (length f) 11) f = take 11 f" by (simp add: min_def)
  then have "discarded_saw_test_result (scan_discarded_fragment f s) = contains_str (l @ f) test_result_marker"
    using assms contains_append [OF length_marker, of l f]
    by (simp add: scan_discarded_fragment_def scanned_def length_marker Let_def)
  moreover have "marker_tail (scan_discarded_fragment f s) = last_bytes 11 (l @ f)"
    using assms last_bytes_absorb [of 11 l f] length_last_bytes [of 11 l]
    by (auto simp: scan_discarded_fragment_def scanned_def length_marker Let_def last_bytes_append
        last_bytes_def min_def split: if_splits)
  ultimately show "scanned (l @ f) (scan_discarded_fragment f s)" by (simp add: scanned_def)
qed (simp_all add: scan_discarded_fragment_def Let_def)

text \<open>Everything a stream remembers is a function of the line under way.\<close>

definition line_state :: "string \<Rightarrow> stream_buffer" where
  "line_state l =
     (if length l \<le> CARGO_TEST_STREAM_LINE_MAX_BYTES then default_buffer\<lparr>pending := l\<rparr>
      else \<lparr>pending = [], discarding_oversized_line = True,
            discarded_saw_test_result = contains_str l test_result_marker, marker_tail = last_bytes 11 l\<rparr>)"

lemma scanned_line_state:
  "scanned l s \<Longrightarrow> pending s = [] \<Longrightarrow> discarding_oversized_line s \<Longrightarrow>
     CARGO_TEST_STREAM_LINE_MAX_BYTES < length l \<Longrightarrow> s = line_state l"
  by (cases s) (simp add: scanned_def line_state_def)

lemma max_small: "CARGO_TEST_STREAM_LINE_MAX_BYTES < u64_max"
  by (simp add: CARGO_TEST_STREAM_LINE_MAX_BYTES_def u64_max_def)

lemma sat_len: "sat_add a b \<le> CARGO_TEST_STREAM_LINE_MAX_BYTES \<longleftrightarrow> a + b \<le> CARGO_TEST_STREAM_LINE_MAX_BYTES"
  using max_small by (auto simp: sat_add_def)

lemma extend_line_state: "extend_line f (line_state l) = line_state (l @ f)"
proof (cases "length l \<le> CARGO_TEST_STREAM_LINE_MAX_BYTES")
  case False
  then have "scanned l (line_state l)" "pending (line_state l) = []" "discarding_oversized_line (line_state l)"
    by (simp_all add: line_state_def scanned_def)
  with False show ?thesis
    using scan_scanned [of l "line_state l" f]
    by (auto simp: extend_line_def intro!: scanned_line_state)
next
  case True
  show ?thesis
  proof (cases "length l + length f \<le> CARGO_TEST_STREAM_LINE_MAX_BYTES")
    case fits: True
    then show ?thesis using True by (simp add: extend_line_def line_state_def default_buffer_def sat_len)
  next
    case False
    let ?s = "default_buffer\<lparr>pending := [], discarding_oversized_line := True\<rparr>"
    have "scanned [] ?s"
      by (simp add: scanned_def default_buffer_def last_bytes_def test_result_marker_def)
    from scan_scanned [OF this, of l] have 1: "scanned l (scan_discarded_fragment l ?s)"
        "pending (scan_discarded_fragment l ?s) = []" "discarding_oversized_line (scan_discarded_fragment l ?s)"
      by (simp_all add: default_buffer_def)
    note 2 = scan_scanned [OF 1(1), of f]
    have "scan_discarded_fragment f (scan_discarded_fragment l ?s) = line_state (l @ f)"
      using 1 2 False by (intro scanned_line_state) simp_all
    then show ?thesis using True False
      by (simp add: extend_line_def line_state_def [of l] default_buffer_def sat_len)
  qed
qed

text \<open>The reference: what one complete line does to the aggregate.\<close>

definition line_effect :: "string \<Rightarrow> cargo_test_aggregate \<Rightarrow> cargo_test_aggregate" where
  "line_effect l agg =
     (if length l \<le> CARGO_TEST_STREAM_LINE_MAX_BYTES then observe_line l agg
      else if contains_str l test_result_marker then agg\<lparr>agg_detected := True, incomplete_stream := True\<rparr>
      else agg)"

lemma end_line_state: "end_line (agg, line_state l) = (line_effect l agg, line_state [])"
  by (simp add: end_line_def line_state_def line_effect_def finish_discarded_line_def default_buffer_def)

lemma push_chunk_lines:
  "LF \<notin> set l \<Longrightarrow> push_stream_chunk (agg, line_state l) chunk =
     (fold line_effect (butlast (split_on LF (l @ chunk))) agg, line_state (last (split_on LF (l @ chunk))))"
proof (induction chunk arbitrary: agg l rule: length_induct)
  case (1 chunk)
  let ?frag = "takeWhile (\<lambda>c. c \<noteq> LF) chunk"
  have nolf: "LF \<notin> set (l @ ?frag)" using 1(2) by (auto dest: set_takeWhileD)
  show ?case
  proof (cases "dropWhile (\<lambda>c. c \<noteq> LF) chunk")
    case Nil
    then have frag: "?frag = chunk" by (metis append_Nil2 takeWhile_dropWhile_id)
    with nolf have "split_on LF (l @ chunk) = [l @ chunk]" by (simp add: split_on_single)
    then show ?thesis
      by (subst push_stream_chunk.simps) (simp add: Nil frag extend_line_state)
  next
    case (Cons c rest)
    then have c: "c = LF" using hd_dropWhile [of "\<lambda>c. c \<noteq> LF" chunk] by simp
    have chunk: "chunk = ?frag @ LF # rest"
      using takeWhile_dropWhile_id [of "\<lambda>c. c \<noteq> LF" chunk, symmetric] unfolding Cons c .
    have "split_on LF (l @ chunk) = (l @ ?frag) # split_on LF rest"
      using split_on_append_sep [OF nolf, of rest] arg_cong [OF chunk, of "\<lambda>x. split_on LF (l @ x)"] by simp
    moreover have "length rest < length chunk" using arg_cong [OF chunk, of length] by simp
    then have "push_stream_chunk (line_effect (l @ ?frag) agg, line_state []) rest =
        (fold line_effect (butlast (split_on LF rest)) (line_effect (l @ ?frag) agg),
         line_state (last (split_on LF rest)))"
      using 1(1) [rule_format, of rest "[]"] by simp
    moreover have "chunk \<noteq> []" using Cons by auto
    ultimately show ?thesis
      by (subst push_stream_chunk.simps) (simp add: Cons extend_line_state end_line_state)
  qed
qed

section \<open>Chunks and interleaving do not matter\<close>

datatype stream_event = StdoutChunk string | StderrChunk string

fun feed :: "stream_event \<Rightarrow> accumulator \<Rightarrow> accumulator" where
  "feed (StdoutChunk c) a = push_stdout_chunk c a"
| "feed (StderrChunk c) a = push_stderr_chunk c a"

fun stdout_of :: "stream_event list \<Rightarrow> string" where
  "stdout_of [] = []"
| "stdout_of (StdoutChunk c # es) = c @ stdout_of es"
| "stdout_of (StderrChunk c # es) = stdout_of es"

fun stderr_of :: "stream_event list \<Rightarrow> string" where
  "stderr_of [] = []"
| "stderr_of (StdoutChunk c # es) = stderr_of es"
| "stderr_of (StderrChunk c # es) = c @ stderr_of es"

text \<open>The lines of a complete stream; an unterminated last line counts when it is not empty.\<close>

definition stream_lines :: "string \<Rightarrow> string list" where
  "stream_lines t = (let ps = split_on LF t in if last ps = [] then butlast ps else ps)"

lemma sat_add_sat_add: "sat_add (sat_add a b) c = sat_add a (b + c)"
  by (auto simp: sat_add_def)

lemma observe_line_commute: "observe_line x (observe_line y a) = observe_line y (observe_line x a)"
  by (cases a) (simp add: observe_line_def Let_def sat_add_sat_add ac_simps split: option.splits)

lemma line_effect_commute: "line_effect x \<circ> line_effect y = line_effect y \<circ> line_effect x"
proof
  fix a
  have big: "observe_line z (b\<lparr>agg_detected := True, incomplete_stream := True\<rparr>) =
      (observe_line z b)\<lparr>agg_detected := True, incomplete_stream := True\<rparr>" for z b
    by (cases b) (simp add: observe_line_def Let_def split: option.splits)
  show "(line_effect x \<circ> line_effect y) a = (line_effect y \<circ> line_effect x) a"
    by (simp add: line_effect_def observe_line_commute [of x y] big)
qed

lemma fold_line_effect_perm: "mset xs = mset ys \<Longrightarrow> fold line_effect xs = fold line_effect ys"
  by (rule fold_multiset_equiv) (simp_all add: line_effect_commute)

lemma split_on_append: "split_on d (s @ t) = butlast (split_on d s) @ split_on d (last (split_on d s) @ t)"
  by (induction s) (auto split: list.splits)

lemma last_split_on_no_sep: "d \<notin> set (last (split_on d s))"
  using split_on_no_sep [of "last (split_on d s)" d s] by simp

definition fed :: "string \<Rightarrow> string \<Rightarrow> accumulator \<Rightarrow> bool" where
  "fed out err a \<longleftrightarrow> out_buffer a = line_state (last (split_on LF out))
     \<and> err_buffer a = line_state (last (split_on LF err))
     \<and> aggregate a = fold line_effect (butlast (split_on LF out) @ butlast (split_on LF err)) default_aggregate"

lemma butlast_split_on_append:
  "butlast (split_on d (s @ t)) = butlast (split_on d s) @ butlast (split_on d (last (split_on d s) @ t))"
  "last (split_on d (s @ t)) = last (split_on d (last (split_on d s) @ t))"
  by (simp_all add: split_on_append [of d s t] butlast_append)

lemma fold_line_effect_append:
  "fold line_effect zs (fold line_effect (xs @ ys) a) = fold line_effect (xs @ zs @ ys) a"
  "fold line_effect zs (fold line_effect (xs @ ys) a) = fold line_effect (xs @ ys @ zs) a"
proof -
  show "fold line_effect zs (fold line_effect (xs @ ys) a) = fold line_effect (xs @ ys @ zs) a" by simp
  also have "\<dots> = fold line_effect (xs @ zs @ ys) a"
    by (rule fun_cong [OF fold_line_effect_perm]) simp
  finally show "fold line_effect zs (fold line_effect (xs @ ys) a) = fold line_effect (xs @ zs @ ys) a" .
qed

lemma fed_feed:
  assumes "fed out err a"
  shows "fed (out @ stdout_of [e]) (err @ stderr_of [e]) (feed e a)"
proof (cases e)
  case (StdoutChunk c)
  with assms show ?thesis
    unfolding fed_def StdoutChunk feed.simps push_stdout_chunk_def stdout_of.simps stderr_of.simps append_Nil2
      butlast_split_on_append [of LF out c]
    by (simp only: push_chunk_lines [OF last_split_on_no_sep] fold_line_effect_append(1) prod.case append_assoc) simp
next
  case (StderrChunk c)
  with assms show ?thesis
    unfolding fed_def StderrChunk feed.simps push_stderr_chunk_def stdout_of.simps stderr_of.simps append_Nil2
      butlast_split_on_append [of LF err c]
    by (simp only: push_chunk_lines [OF last_split_on_no_sep] fold_line_effect_append(2) prod.case append_assoc) simp
qed

lemma fed_fold: "fed out err a \<Longrightarrow> fed (out @ stdout_of es) (err @ stderr_of es) (fold feed es a)"
proof (induction es arbitrary: out err a)
  case (Cons e es)
  have "stdout_of (e # es) = stdout_of [e] @ stdout_of es" "stderr_of (e # es) = stderr_of [e] @ stderr_of es"
    by (cases e; simp)+
  then show ?case using Cons.IH [OF fed_feed [OF Cons.prems, of e]] by simp
qed simp

lemma fed_new: "fed [] [] new_accumulator"
  by (simp add: fed_def new_accumulator_def line_state_def default_buffer_def)

lemma fed_all: "fed (stdout_of es) (stderr_of es) (fold feed es new_accumulator)"
  using fed_fold [OF fed_new, of es] by simp

lemma finish_line_state: "finish_stream agg (line_state l) = (if l = [] then agg else line_effect l agg)"
  by (auto simp: finish_stream_def line_state_def line_effect_def finish_discarded_line_def default_buffer_def)

lemma stream_lines_split:
  "stream_lines t = butlast (split_on LF t) @ (if last (split_on LF t) = [] then [] else [last (split_on LF t)])"
  by (simp add: stream_lines_def Let_def)

lemma accumulator_lines:
  "accumulator_finish (fold feed es new_accumulator) =
     aggregate_finish (fold line_effect (stream_lines (stdout_of es) @ stream_lines (stderr_of es)) default_aggregate)"
proof -
  let ?o = "split_on LF (stdout_of es)" and ?e = "split_on LF (stderr_of es)"
  let ?tail = "\<lambda>ps. if last ps = [] then [] else [last ps]"
  have fin: "finish_stream agg (line_state (last ps)) = fold line_effect (?tail ps) agg" for agg ps
    by (simp add: finish_line_state)
  have "finish_stream (finish_stream (aggregate (fold feed es new_accumulator))
        (out_buffer (fold feed es new_accumulator))) (err_buffer (fold feed es new_accumulator))
      = fold line_effect ((butlast ?o @ butlast ?e) @ ?tail ?o @ ?tail ?e) default_aggregate"
    using fed_all [of es] unfolding fed_def by (simp only: fin fold_append o_apply)
  also have "\<dots> = fold line_effect (stream_lines (stdout_of es) @ stream_lines (stderr_of es)) default_aggregate"
    by (rule fun_cong [OF fold_line_effect_perm]) (simp add: stream_lines_split)
  finally show ?thesis by (simp add: accumulator_finish_def)
qed

text \<open>
  C37. The incremental test-count parser is exact for every chunking. However the Runner's two output streams
  are cut into chunks and interleaved, the accumulated metadata is that of the complete lines of the
  complete streams; in particular no summary is counted twice, lost at a chunk boundary or spliced
  together from the two streams, and the one-shot parser of a whole text agrees.
\<close>

theorem chunking_independent:
  "accumulator_finish (fold feed es new_accumulator) =
     aggregate_finish (fold line_effect (stream_lines (stdout_of es) @ stream_lines (stderr_of es)) default_aggregate)
   \<and> parse_cargo_test_run_metadata text = aggregate_finish (fold line_effect (stream_lines text) default_aggregate)"
proof -
  have "parse_cargo_test_run_metadata text = accumulator_finish (fold feed [StdoutChunk text] new_accumulator)"
    by (simp add: parse_cargo_test_run_metadata_def)
  moreover have "stream_lines [] = []" by (simp add: stream_lines_def)
  ultimately show ?thesis using accumulator_lines [of es] accumulator_lines [of "[StdoutChunk text]"] by simp
qed

text \<open>
  The incremental parser uses bounded memory: whatever it is fed, each stream retains at most
  16 KiB, and every counter fits a 64-bit integer.
\<close>

theorem accumulator_bounded:
  "length (pending (out_buffer (fold feed es new_accumulator)))
     + length (marker_tail (out_buffer (fold feed es new_accumulator))) \<le> CARGO_TEST_STREAM_LINE_MAX_BYTES
   \<and> length (pending (err_buffer (fold feed es new_accumulator)))
     + length (marker_tail (err_buffer (fold feed es new_accumulator))) \<le> CARGO_TEST_STREAM_LINE_MAX_BYTES
   \<and> agg_run_count (aggregate (fold feed es new_accumulator)) \<le> u64_max
   \<and> agg_passed (aggregate (fold feed es new_accumulator)) \<le> u64_max
   \<and> agg_failed (aggregate (fold feed es new_accumulator)) \<le> u64_max"
proof -
  have buf: "length (pending (line_state l)) + length (marker_tail (line_state l)) \<le> CARGO_TEST_STREAM_LINE_MAX_BYTES" for l
    by (simp add: line_state_def default_buffer_def length_last_bytes CARGO_TEST_STREAM_LINE_MAX_BYTES_def)
  let ?ok = "\<lambda>a. agg_run_count a \<le> u64_max \<and> agg_passed a \<le> u64_max \<and> agg_failed a \<le> u64_max"
  have step: "?ok a \<Longrightarrow> ?ok (line_effect l a)" for l a
    by (simp add: line_effect_def observe_line_def Let_def split: option.splits)
  have "?ok a \<Longrightarrow> ?ok (fold line_effect ls a)" for ls a
    by (induction ls arbitrary: a) (simp_all add: step)
  then have "?ok (fold line_effect ls default_aggregate)" for ls by (simp add: default_aggregate_def)
  then show ?thesis using fed_all [of es] unfolding fed_def by (metis buf)
qed

section \<open>What a proven count means\<close>

definition is_summary :: "string \<Rightarrow> bool" where
  "is_summary l \<longleftrightarrow> contains_str l test_result_marker"

text \<open>The counts of a summary line that fits the line bound.\<close>

definition line_counts :: "string \<Rightarrow> (nat \<times> nat) option" where
  "line_counts l = (if length l \<le> CARGO_TEST_STREAM_LINE_MAX_BYTES
                    then parse_complete_cargo_test_summary_counts (trim_end_cr l) else None)"

definition executed :: "string \<Rightarrow> nat" where
  "executed l = (case line_counts l of None \<Rightarrow> 0 | Some (p, f) \<Rightarrow> p + f)"

lemma contains_trim_end_cr: "contains_str (trim_end_cr l) test_result_marker \<longleftrightarrow> contains_str l test_result_marker"
proof
  assume "contains_str (trim_end_cr l) test_result_marker"
  then obtain a b where ab: "trim_end_cr l = a @ test_result_marker @ b" by (auto simp: contains_str_iff)
  have "rev l = takeWhile ((=) CR) (rev l) @ rev (trim_end_cr l)" by (simp add: trim_end_cr_def)
  then have "l = trim_end_cr l @ rev (takeWhile ((=) CR) (rev l))" by (metis rev_append rev_rev_ident)
  then show "contains_str l test_result_marker" using ab unfolding contains_str_iff by (metis append.assoc)
next
  assume "contains_str l test_result_marker"
  then obtain a b where "l = a @ test_result_marker @ b" by (auto simp: contains_str_iff)
  then have "trim_end_cr l = a @ test_result_marker @ trim_end_cr b"
    by (simp add: trim_end_cr_def test_result_marker_def dropWhile_append)
  then show "contains_str (trim_end_cr l) test_result_marker" unfolding contains_str_iff by blast
qed

definition unreadable :: "cargo_test_aggregate \<Rightarrow> bool" where
  "unreadable a \<longleftrightarrow> incomplete_summary_found a \<or> incomplete_stream a"

lemma aggregate_finish_run_count:
  "tests_run_count (aggregate_finish a) =
     (if complete_summary_found a \<and> \<not> unreadable a then Some (agg_run_count a) else None)"
  by (simp add: aggregate_finish_def count_is_proven_def unreadable_def Let_def)

lemma line_effect_flags:
  "complete_summary_found (line_effect l a) \<longleftrightarrow> complete_summary_found a \<or> is_summary l \<and> line_counts l \<noteq> None"
  "unreadable (line_effect l a) \<longleftrightarrow> unreadable a \<or> is_summary l \<and> line_counts l = None"
  "agg_run_count (line_effect l a) =
     (if is_summary l \<and> line_counts l \<noteq> None then sat_add (agg_run_count a) (executed l) else agg_run_count a)"
  by (auto simp: line_effect_def observe_line_def Let_def contains_trim_end_cr is_summary_def line_counts_def
      executed_def unreadable_def sat_add_sat_add split: option.splits)

lemma fold_line_effect_flags:
  "complete_summary_found (fold line_effect ls a) \<longleftrightarrow>
     complete_summary_found a \<or> list_ex (\<lambda>l. line_counts l \<noteq> None) (filter is_summary ls)"
  "unreadable (fold line_effect ls a) \<longleftrightarrow> unreadable a \<or> list_ex (\<lambda>l. line_counts l = None) (filter is_summary ls)"
  "agg_run_count a \<le> u64_max \<Longrightarrow>
     agg_run_count (fold line_effect ls a) = sat_add (agg_run_count a) (sum_list (map executed (filter is_summary ls)))"
proof -
  show "complete_summary_found (fold line_effect ls a) \<longleftrightarrow>
     complete_summary_found a \<or> list_ex (\<lambda>l. line_counts l \<noteq> None) (filter is_summary ls)"
    by (induction ls arbitrary: a) (auto simp: line_effect_flags)
  show "unreadable (fold line_effect ls a) \<longleftrightarrow> unreadable a \<or> list_ex (\<lambda>l. line_counts l = None) (filter is_summary ls)"
    by (induction ls arbitrary: a) (auto simp: line_effect_flags)
  show "agg_run_count a \<le> u64_max \<Longrightarrow>
     agg_run_count (fold line_effect ls a) = sat_add (agg_run_count a) (sum_list (map executed (filter is_summary ls)))"
  proof (induction ls arbitrary: a)
    case (Cons l ls)
    have "agg_run_count (line_effect l a) \<le> u64_max" using Cons.prems by (simp add: line_effect_flags)
    moreover have "line_counts l = None \<Longrightarrow> executed l = 0" by (simp add: executed_def)
    ultimately show ?case
      using Cons.IH by (cases "line_counts l = None") (simp_all add: line_effect_flags sat_add_sat_add)
  qed (simp add: sat_add_def)
qed

text \<open>
  C36. A proven executed-test count is exact and fails closed. The parser reports a count exactly when the
  complete output has at least one summary line and every summary line fits the line bound and parses
  completely; the count is then the sum over all of them, saturated at 64 bits. One unreadable summary
  anywhere in the output suppresses the count.
\<close>

theorem proven_count_exact:
  "tests_run_count (accumulator_finish (fold feed es new_accumulator)) =
     (let summaries = filter is_summary (stream_lines (stdout_of es) @ stream_lines (stderr_of es))
      in if summaries \<noteq> [] \<and> list_all (\<lambda>l. line_counts l \<noteq> None) summaries
         then Some (min u64_max (sum_list (map executed summaries))) else None)"
proof -
  let ?ls = "stream_lines (stdout_of es) @ stream_lines (stderr_of es)"
  have m: "accumulator_finish (fold feed es new_accumulator) =
      aggregate_finish (fold line_effect ?ls default_aggregate)"
    by (rule accumulator_lines)
  note f = fold_line_effect_flags [where ls = ?ls and a = default_aggregate]
  have "agg_run_count (fold line_effect ?ls default_aggregate) = min u64_max (sum_list (map executed (filter is_summary ?ls)))"
    using f(3) by (simp only: default_aggregate_def cargo_test_aggregate.simps sat_add_def)
  moreover have "complete_summary_found (fold line_effect ?ls default_aggregate) \<longleftrightarrow>
      list_ex (\<lambda>l. line_counts l \<noteq> None) (filter is_summary ?ls)"
    unfolding f(1) by (simp add: default_aggregate_def)
  moreover have "unreadable (fold line_effect ?ls default_aggregate) \<longleftrightarrow>
      list_ex (\<lambda>l. line_counts l = None) (filter is_summary ?ls)"
    unfolding f(2) by (simp add: default_aggregate_def unreadable_def)
  moreover have "list_ex (\<lambda>l. line_counts l \<noteq> None) ss \<and> \<not> list_ex (\<lambda>l. line_counts l = None) ss \<longleftrightarrow>
      ss \<noteq> [] \<and> list_all (\<lambda>l. line_counts l \<noteq> None) ss" for ss
    by (cases ss) (auto simp: list_ex_iff list_all_iff)
  ultimately show ?thesis
    unfolding m aggregate_finish_run_count Let_def by (simp only:)
qed

end
