(* ===== verification/Validation_Steps.thy ===== *)
theory Validation_Steps
  imports Test_Count "HOL-Library.List_Lexorder" "HOL-Library.Char_ord"
begin

text \<open>
  The closed vocabulary of validation commands a Runner may execute: the canonical-argv checks of
  \<^verbatim>\<open>ShellJobValidationStep\<close> and the normalisers of Cargo values, package selections and test filters they share
  with the planners (\<^verbatim>\<open>webcodex-core/src/runner_protocol/job.rs\<close>). Strings are sorted bytewise, as Rust does.
\<close>

section \<open>Limits and small helpers\<close>

definition RUST_TEST_FILTER_MAX_BYTES :: nat where
  "RUST_TEST_FILTER_MAX_BYTES = 200"

definition CARGO_VALUE_MAX_BYTES :: nat where
  "CARGO_VALUE_MAX_BYTES = 500"

definition CARGO_PACKAGE_MAX_ITEMS :: nat where
  "CARGO_PACKAGE_MAX_ITEMS = 32"

definition CARGO_TEST_MIN_TESTS_MAX :: nat where
  "CARGO_TEST_MIN_TESTS_MAX = 1000000"

definition GO_TEST_PACKAGE_MAX_ITEMS :: nat where
  "GO_TEST_PACKAGE_MAX_ITEMS = 8"

definition GO_TEST_PACKAGE_MAX_BYTES :: nat where
  "GO_TEST_PACKAGE_MAX_BYTES = 256"

text \<open>A text in single quotes.\<close>

definition quoted :: "string \<Rightarrow> string" where
  "quoted s = CHR 0x27 # s @ [CHR 0x27]"

definition has_nul :: "string \<Rightarrow> bool" where
  "has_nul s \<longleftrightarrow> List.member s (CHR 0x00)"

definition has_control :: "string \<Rightarrow> bool" where
  "has_control s \<longleftrightarrow> list_ex is_control (chars s)"

definition is_ascii_alphanumeric :: "char \<Rightarrow> bool" where
  "is_ascii_alphanumeric c \<longleftrightarrow> is_ascii_digit c \<or> is_ascii_lowercase c \<or> is_ascii_uppercase c"

definition is_ascii_control :: "char \<Rightarrow> bool" where
  "is_ascii_control c \<longleftrightarrow> (let n = of_char c :: nat in n < 32 \<or> n = 127)"

text \<open>\<^verbatim>\<open>u8::is_ascii_whitespace\<close>: space, tab, line feed, form feed and carriage return.\<close>

definition is_ascii_whitespace :: "char \<Rightarrow> bool" where
  "is_ascii_whitespace c \<longleftrightarrow> List.member [CHR 0x20, CHR 0x09, CHR 0x0A, CHR 0x0C, CHR 0x0D] c"

definition sort_dedup :: "'a :: linorder list \<Rightarrow> 'a list" where
  "sort_dedup xs = remdups_adj (sort xs)"

text \<open>\<^verbatim>\<open>collect::<Result<Vec<_>, _>>()\<close>: the first error wins.\<close>

fun map_result :: "('a \<Rightarrow> ('b, 'e) result) \<Rightarrow> 'a list \<Rightarrow> ('b list, 'e) result" where
  "map_result f [] = Ok []"
| "map_result f (x # xs) = and_then (f x) (\<lambda>y. and_then (map_result f xs) (\<lambda>ys. Ok (y # ys)))"

section \<open>Normalisers\<close>

definition normalize_cargo_value :: "string \<Rightarrow> (string option, string) result" where
  "normalize_cargo_value raw =
     (if has_nul raw then Err ''cannot contain NUL bytes''
      else let trimmed = trim raw in
        if trimmed = [] then Ok None
        else if has_control trimmed then Err ''contains control characters''
        else if starts_with trimmed ''-'' then Err (''must not start with '' @ quoted ''-'') 
        else if CARGO_VALUE_MAX_BYTES < length trimmed then Err ''exceeds 500 bytes''
        else Ok (Some trimmed))"

definition required_cargo_value :: "string \<Rightarrow> string \<Rightarrow> (string, string) result" where
  "required_cargo_value message raw =
     and_then (normalize_cargo_value raw) (\<lambda>v. case v of None \<Rightarrow> Err message | Some p \<Rightarrow> Ok p)"

definition normalize_cargo_packages ::
    "string option \<Rightarrow> string list option \<Rightarrow> (string list option, string) result" where
  "normalize_cargo_packages package packages =
     (case (package, packages) of
        (Some _, Some _) \<Rightarrow> Err ''package and packages are mutually exclusive''
      | (Some p, None) \<Rightarrow>
          and_then (normalize_cargo_value p) (\<lambda>v. case v of
              None \<Rightarrow> Ok None
            | Some p \<Rightarrow> Ok (Some (sort_dedup [p])))
      | (None, Some ps) \<Rightarrow>
          if ps = [] \<or> CARGO_PACKAGE_MAX_ITEMS < length ps
            then Err ''packages must contain between 1 and 32 items''
          else and_then (map_result (required_cargo_value ''packages cannot contain an empty package name'') ps)
                 (\<lambda>qs. Ok (Some (sort_dedup qs)))
      | (None, None) \<Rightarrow> Ok None)"

definition exact_package_name :: "string \<Rightarrow> (string, string) result" where
  "exact_package_name raw =
     and_then (required_cargo_value ''exclude_packages cannot contain an empty name'' raw) (\<lambda>value.
       if \<not> list_all (\<lambda>b. is_ascii_alphanumeric b \<or> b = CHR ''_'' \<or> b = CHR ''-'') value
         then Err ''exclude_packages must use exact package names''
       else Ok value)"

definition normalize_cargo_excluded_packages :: "string list \<Rightarrow> (string list, string) result" where
  "normalize_cargo_excluded_packages packages =
     (if packages = [] then Ok []
      else if 8 < length packages then Err ''exclude_packages must contain at most 8 items''
      else and_then (map_result exact_package_name packages) (\<lambda>ps. Ok (sort_dedup ps)))"

fun go_segments :: "string list \<Rightarrow> (unit, string) result" where
  "go_segments [] = Ok ()"
| "go_segments (segment # rest) =
     (if segment = [] then Err ''package pattern contains an empty segment''
      else if segment = ''.'' \<or> segment = ''..''
        then Err ''package pattern contains an interior '.' or '..' segment''
      else if segment = ''...'' then
        (if rest \<noteq> [] then Err (quoted ''...'' @ '' is only allowed as the final complete segment'')
         else go_segments rest)
      else if contains_str segment ''...''
        then Err (quoted ''...'' @ '' is only allowed as the final complete segment'')
      else if \<not> list_all (\<lambda>b. is_ascii_alphanumeric b \<or> b = CHR ''_'' \<or> b = CHR ''-'' \<or> b = CHR ''.'') segment
        then Err ''package pattern contains invalid characters''
      else go_segments rest)"

definition normalize_go_package :: "string \<Rightarrow> (string, string) result" where
  "normalize_go_package raw =
     (if raw = [] then Err ''package pattern cannot be empty''
      else if GO_TEST_PACKAGE_MAX_BYTES < length raw then Err ''package pattern exceeds 256 bytes''
      else if \<not> list_all (\<lambda>c. (of_char c :: nat) < 128) raw then Err ''package pattern must be ASCII''
      else if list_ex (\<lambda>b. is_ascii_control b \<or> is_ascii_whitespace b) raw
        then Err ''package pattern cannot contain whitespace or control characters''
      else if List.member raw (CHR 0x5C) then Err ''package pattern cannot contain backslashes''
      else if raw = ''.'' then Ok raw
      else (case strip_prefix ''./'' raw of
          None \<Rightarrow> Err (''package pattern must be '.' or start with '' @ quoted ''./'')
        | Some rest \<Rightarrow>
            if rest = [] then Err ''package pattern must name a package path''
            else and_then (go_segments (split_on (CHR ''/'') rest)) (\<lambda>_. Ok raw)))"

definition normalize_go_packages :: "string list option \<Rightarrow> (string list, string) result" where
  "normalize_go_packages packages =
     (case packages of
        None \<Rightarrow> Ok [''./...'']
      | Some ps \<Rightarrow>
          if ps = [] \<or> GO_TEST_PACKAGE_MAX_ITEMS < length ps
            then Err ''packages must contain between 1 and 8 items''
          else map_result normalize_go_package ps)"

definition normalize_pytest_filter :: "string \<Rightarrow> (string option, string) result" where
  "normalize_pytest_filter raw =
     (if RUST_TEST_FILTER_MAX_BYTES < length raw \<or> has_control raw \<or> starts_with (trim_start raw) ''-''
        then Err ''pytest filter must be a bounded -k expression, not flags''
      else Ok (if trim raw \<noteq> [] then Some raw else None))"

definition normalize_go_test_filter :: "string \<Rightarrow> (string option, string) result" where
  "normalize_go_test_filter raw =
     (if RUST_TEST_FILTER_MAX_BYTES < length raw \<or> has_control raw
        then Err ''Go test filter exceeds 200 bytes or contains control characters''
      else Ok (if raw \<noteq> [] then Some raw else None))"

definition normalize_rust_test_filter :: "string \<Rightarrow> (string option, string) result" where
  "normalize_rust_test_filter raw =
     (if RUST_TEST_FILTER_MAX_BYTES < length raw then Err ''exceeds 200 bytes''
      else if has_nul raw then Err ''cannot contain NUL bytes''
      else let trimmed = trim raw in
        if trimmed = [] then Ok None
        else if has_control trimmed then Err ''contains control characters''
        else if starts_with trimmed ''-'' then Err (''must not start with '' @ quoted ''-'')
        else Ok (Some trimmed))"

definition valid_rust_test_filter :: "string \<Rightarrow> bool" where
  "valid_rust_test_filter value = (case normalize_rust_test_filter value of Inr (Some _) \<Rightarrow> True | _ \<Rightarrow> False)"

section \<open>Cargo flags\<close>

definition CARGO_SINGLE_FLAGS :: "string list" where
  "CARGO_SINGLE_FLAGS = [''--all-targets'', ''--all-features'', ''--no-default-features'', ''--locked'', ''--offline'']"

definition cargo_single_flag :: "bool \<Rightarrow> bool \<Rightarrow> string \<Rightarrow> bool" where
  "cargo_single_flag cargo_test allow_project_workspace arg \<longleftrightarrow>
     List.member CARGO_SINGLE_FLAGS arg
     \<or> allow_project_workspace \<and> arg = ''--workspace''
     \<or> cargo_test \<and> (arg = ''--lib'' \<or> arg = ''--no-run'')"

definition canonical_cargo_value :: "string \<Rightarrow> bool" where
  "canonical_cargo_value value \<longleftrightarrow> normalize_cargo_value value = Ok (Some value)"

definition canonical_exclusion :: "string \<Rightarrow> bool" where
  "canonical_exclusion value \<longleftrightarrow>
     (case normalize_cargo_excluded_packages [value] of
        Inl _ \<Rightarrow> False
      | Inr vs \<Rightarrow> vs \<noteq> [] \<and> last vs = value)"

fun cargo_flags_loop ::
    "bool \<Rightarrow> bool \<Rightarrow> bool \<Rightarrow> string list \<Rightarrow> string list \<Rightarrow> string list \<Rightarrow> string list \<Rightarrow> bool" where
  "cargo_flags_loop cargo_test multi ws seen seen_packages seen_exclusions [] \<longleftrightarrow>
     \<not> (List.member seen ''--workspace'' \<and> seen_packages \<noteq> [])
     \<and> (seen_exclusions = []
        \<or> List.member seen ''--workspace''
          \<and> normalize_cargo_excluded_packages seen_exclusions = Ok seen_exclusions)"
| "cargo_flags_loop cargo_test multi ws seen seen_packages seen_exclusions (arg # rest) \<longleftrightarrow>
     (if arg = ''--exclude'' then
        ws \<and> (case rest of
            [] \<Rightarrow> False
          | value # rest \<Rightarrow>
              canonical_exclusion value \<and> \<not> List.member seen_exclusions value
              \<and> cargo_flags_loop cargo_test multi ws seen seen_packages (seen_exclusions @ [value]) rest)
      else if arg = ''--features'' then
        \<not> List.member seen arg \<and> (case rest of
            [] \<Rightarrow> False
          | value # rest \<Rightarrow>
              canonical_cargo_value value
              \<and> cargo_flags_loop cargo_test multi ws (arg # seen) seen_packages seen_exclusions rest)
      else if arg = ''-p'' then
        (multi \<or> \<not> List.member seen arg) \<and> (case rest of
            [] \<Rightarrow> False
          | value # rest \<Rightarrow>
              canonical_cargo_value value \<and> \<not> List.member seen_packages value
              \<and> cargo_flags_loop cargo_test multi ws (if multi then seen else arg # seen) (value # seen_packages)
                  seen_exclusions rest)
      else
        cargo_single_flag cargo_test ws arg \<and> \<not> List.member seen arg
        \<and> cargo_flags_loop cargo_test multi ws (arg # seen) seen_packages seen_exclusions rest)"

definition is_canonical_cargo_flags :: "string list \<Rightarrow> bool \<Rightarrow> bool \<Rightarrow> bool \<Rightarrow> bool" where
  "is_canonical_cargo_flags args cargo_test allow_multiple_packages allow_project_workspace \<longleftrightarrow>
     cargo_flags_loop cargo_test allow_multiple_packages allow_project_workspace [] [] [] args"

definition is_canonical_cargo_check_args :: "string list \<Rightarrow> bool \<Rightarrow> bool" where
  "is_canonical_cargo_check_args args ws =
     (case args of [] \<Rightarrow> False | a # rest \<Rightarrow> a = ''check'' \<and> is_canonical_cargo_flags rest False True ws)"

definition is_canonical_cargo_test_args :: "string list \<Rightarrow> bool \<Rightarrow> bool" where
  "is_canonical_cargo_test_args args ws =
     (case args of
        [] \<Rightarrow> False
      | a # rest \<Rightarrow> a = ''test'' \<and>
          (case rest of
             f # flags \<Rightarrow> is_canonical_cargo_flags (if valid_rust_test_filter f then flags else rest) True True ws
           | [] \<Rightarrow> is_canonical_cargo_flags rest True True ws))"

section \<open>Go, Node and Python\<close>

definition canonical_go_packages :: "string list \<Rightarrow> bool" where
  "canonical_go_packages packages \<longleftrightarrow> normalize_go_packages (Some packages) = Ok packages"

definition is_canonical_go_vet_args :: "string list \<Rightarrow> bool" where
  "is_canonical_go_vet_args args =
     (case args of
        [] \<Rightarrow> False
      | a # rest \<Rightarrow> rest \<noteq> [] \<and> a = ''vet''
          \<and> (let packages = (if hd rest = ''-mod=readonly'' then tl rest else rest)
             in packages \<noteq> [] \<and> canonical_go_packages packages))"

text \<open>The arguments after an optional \<^verbatim>\<open>-run\<close> filter, when the filter is acceptable.\<close>

definition after_go_run :: "string list \<Rightarrow> string list option" where
  "after_go_run args =
     (case args of
        [] \<Rightarrow> Some []
      | a # rest \<Rightarrow>
          if a = ''-run'' then
            (case rest of
               [] \<Rightarrow> None
             | filt # packages \<Rightarrow>
                 if normalize_go_test_filter filt = Ok (Some filt) then Some packages else None)
          else Some args)"

definition is_canonical_go_test_json_args :: "string list \<Rightarrow> bool" where
  "is_canonical_go_test_json_args args =
     (case args of
        a # b # c # rest \<Rightarrow>
          a = ''test'' \<and> b = ''-json''
          \<and> (case after_go_run (if c = ''-mod=readonly'' then rest else c # rest) of
               None \<Rightarrow> False
             | Some packages \<Rightarrow> canonical_go_packages packages)
      | _ \<Rightarrow> False)"

definition node_script_allowed :: "string \<Rightarrow> string \<Rightarrow> bool" where
  "node_script_allowed kind script \<longleftrightarrow>
     kind = ''format'' \<and> List.member [''format:check'', ''format-check'', ''check:format''] script
     \<or> kind = ''check'' \<and> List.member [''check'', ''typecheck'', ''lint''] script
     \<or> kind = ''test'' \<and> script = ''test''"

section \<open>Steps\<close>

record validation_step =
  step_name :: string
  program :: string
  args :: "string list"
  step_env :: "(string \<times> string) list"

definition is_structured_node_check :: "validation_step \<Rightarrow> bool" where
  "is_structured_node_check s \<longleftrightarrow> step_name s = ''check'' \<and> program s = ''node'' \<and> step_env s = []
     \<and> (case args s of [a, b] \<Rightarrow> a = ''--run'' \<and> List.member [''check'', ''typecheck'', ''lint''] b | _ \<Rightarrow> False)"

definition is_structured_node_tap_test :: "validation_step \<Rightarrow> bool" where
  "is_structured_node_tap_test s \<longleftrightarrow> step_name s = ''test'' \<and> program s = ''node'' \<and> step_env s = []
     \<and> args s = [''--test'', ''--test-reporter=tap'']"

definition node_json_test :: "string \<Rightarrow> validation_step option" where
  "node_json_test framework =
     map_option (\<lambda>as. \<lparr>step_name = ''test'', program = ''node'', args = as, step_env = []\<rparr>)
       (if framework = ''vitest'' then
          Some [''node_modules/vitest/vitest.mjs'', ''run'', ''--reporter=json'', ''--outputFile'',
                ''__WEBCODEX_JOB_REPORT__'']
        else if framework = ''jest'' then
          Some [''node_modules/jest/bin/jest.js'', ''--runInBand'', ''--json'', ''--outputFile'',
                ''__WEBCODEX_JOB_REPORT__'']
        else None)"

definition node_json_framework :: "validation_step \<Rightarrow> string option" where
  "node_json_framework s = List.find (\<lambda>framework. node_json_test framework = Some s) [''vitest'', ''jest'']"

definition python_ruff :: "string \<Rightarrow> validation_step option" where
  "python_ruff kind =
     map_option (\<lambda>as. \<lparr>step_name = kind, program = ''python'', args = as, step_env = []\<rparr>)
       (if kind = ''check'' then
          Some [''-I'', ''-B'', ''-m'', ''ruff'', ''check'', ''--no-fix'', ''--no-fix-only'', ''--no-cache'',
                ''--no-respect-gitignore'', ''--output-format'', ''json-lines'', ''--config'', ''pyproject.toml'', ''.'']
        else if kind = ''format'' then
          Some [''-I'', ''-B'', ''-m'', ''ruff'', ''format'', ''--check'', ''--no-cache'',
                ''--no-respect-gitignore'', ''--config'', ''pyproject.toml'', ''.'']
        else None)"

definition is_structured_ruff :: "validation_step \<Rightarrow> bool" where
  "is_structured_ruff s \<longleftrightarrow> python_ruff (step_name s) = Some s"

definition is_structured_pytest :: "validation_step \<Rightarrow> bool" where
  "is_structured_pytest s \<longleftrightarrow> step_name s = ''test'' \<and> program s = ''python'' \<and> step_env s = []
     \<and> (let base = [''-m'', ''pytest'', ''--color=no'', ''-rA''] in
        args s = base
        \<or> (case drop 4 (args s) of
             [k, filt] \<Rightarrow> take 4 (args s) = base \<and> k = ''-k'' \<and> normalize_pytest_filter filt = Ok (Some filt)
           | _ \<Rightarrow> False))"

definition is_structured_go_test_json :: "validation_step \<Rightarrow> bool" where
  "is_structured_go_test_json s \<longleftrightarrow> step_name s = ''test'' \<and> program s = ''go'' \<and> step_env s = []
     \<and> is_canonical_go_test_json_args (args s)"

definition LINT_SUFFIX :: "string list" where
  "LINT_SUFFIX = [''--'', ''-D'', ''clippy::correctness'']"

definition is_canonical_cargo_lint_args :: "string list \<Rightarrow> bool \<Rightarrow> bool" where
  "is_canonical_cargo_lint_args as ws \<longleftrightarrow>
     starts_with as [''clippy''] \<and> ends_with as LINT_SUFFIX \<and> 5 \<le> length as
     \<and> length (filter (\<lambda>a. a = ''-p'') as) \<le> 8
     \<and> (let flags = slice as 1 (length as - 3) in
        List.member flags ''--all-targets''
        \<and> \<not> list_ex (\<lambda>a. List.member [''--all-features'', ''--no-default-features'', ''--features''] a) flags
        \<and> is_canonical_cargo_flags flags False True ws)"

definition is_canonical_with_project_workspace :: "bool \<Rightarrow> validation_step \<Rightarrow> bool" where
  "is_canonical_with_project_workspace ws s \<longleftrightarrow>
     \<not> list_ex (\<lambda>a. has_nul a \<or> CARGO_VALUE_MAX_BYTES < length a) (args s)
     \<and> list_all (\<lambda>(key, value). key = ''CARGO_TARGET_DIR'' \<and> value \<noteq> [] \<and> \<not> has_nul value \<and> length value \<le> 500)
         (step_env s)
     \<and> (if program s = ''cargo'' then
          (if step_name s = ''format'' then args s = [''fmt'', ''--'', ''--check'']
           else if step_name s = ''lint'' then is_canonical_cargo_lint_args (args s) ws
           else if step_name s = ''check'' then is_canonical_cargo_check_args (args s) ws
           else if step_name s = ''test'' then is_canonical_cargo_test_args (args s) ws
           else False)
        else if program s = ''go'' then
          (if step_name s = ''check'' then is_canonical_go_vet_args (args s)
           else if step_name s = ''test'' then args s = [''test'', ''./...''] \<or> is_structured_go_test_json s
           else False)
        else if program s = ''node'' then
          (if step_name s = ''check'' then is_structured_node_check s
           else if step_name s = ''test'' then is_structured_node_tap_test s \<or> node_json_framework s \<noteq> None
           else False)
        else if program s = ''python'' then
          (if step_name s = ''format'' then
             args s = [''-m'', ''ruff'', ''format'', ''--check''] \<or> args s = [''-m'', ''black'', ''--check'']
             \<or> is_structured_ruff s
           else if step_name s = ''check'' then
             args s = [''-m'', ''ruff'', ''check''] \<or> args s = [''-m'', ''mypy''] \<or> is_structured_ruff s
           else if step_name s = ''test'' then
             args s = [''-m'', ''pytest''] \<or> args s = [''-B'', ''-m'', ''unittest'', ''discover'', ''-v'']
             \<or> is_structured_pytest s
           else False)
        else if List.member [''npm'', ''pnpm'', ''yarn'', ''bun''] (program s) then
          (case args s of
             [a, b, c] \<Rightarrow> a = ''run'' \<and> b = ''--silent'' \<and> node_script_allowed (step_name s) c
           | _ \<Rightarrow> False)
        else False)"

definition is_canonical :: "validation_step \<Rightarrow> bool" where
  "is_canonical = is_canonical_with_project_workspace False"

definition is_canonical_project_step :: "validation_step \<Rightarrow> bool" where
  "is_canonical_project_step = is_canonical_with_project_workspace True"

definition is_project_workspace_cargo :: "validation_step \<Rightarrow> bool" where
  "is_project_workspace_cargo s \<longleftrightarrow> program s = ''cargo'' \<and> List.member [''check'', ''lint'', ''test''] (step_name s)
     \<and> List.member (args s) ''--workspace'' \<and> is_canonical_project_step s"

definition is_multi_package_cargo_check :: "validation_step \<Rightarrow> bool" where
  "is_multi_package_cargo_check s \<longleftrightarrow> step_name s = ''check'' \<and> program s = ''cargo'' \<and> is_canonical s
     \<and> 1 < length (filter (\<lambda>a. a = ''-p'') (args s))"

section \<open>Normal forms\<close>

lemma sorted_distinct_remdups_adj: "sorted xs \<Longrightarrow> distinct (remdups_adj xs)"
  by (induction xs rule: remdups_adj.induct) (auto simp: antisym)

lemma sort_dedup_props [simp]: "sorted (sort_dedup xs)" "distinct (sort_dedup xs)" "set (sort_dedup xs) = set xs"
  by (simp_all add: sort_dedup_def sorted_remdups_adj sorted_distinct_remdups_adj)

lemma sort_dedup_id_iff: "sort_dedup xs = xs \<longleftrightarrow> sorted xs \<and> distinct xs"
  by (metis sort_dedup_def sort_dedup_props(1,2) sorted_sort_id remdups_adj_distinct)

lemma map_result_Ok: "map_result f xs = Ok ys \<longleftrightarrow> list_all2 (\<lambda>x y. f x = Ok y) xs ys"
  by (induction xs arbitrary: ys) (auto simp: rust_ok list_all2_Cons1)

lemma map_result_id: "map_result f xs = Ok xs \<longleftrightarrow> list_all (\<lambda>x. f x = Ok x) xs"
  by (simp add: map_result_Ok list_all2_same list_all_iff)

lemma starts_with_dash: "starts_with s ''-'' \<longleftrightarrow> s \<noteq> [] \<and> hd s = CHR ''-''"
  by (cases s) (auto simp: starts_with_iff)

lemma has_nul_trim: "has_nul (trim s) \<Longrightarrow> has_nul s"
  using set_trim [of s] by (auto simp: has_nul_def)

lemma normalize_cargo_value_Some:
  "normalize_cargo_value raw = Ok (Some v) \<longleftrightarrow> v = trim raw \<and> \<not> has_nul raw \<and> v \<noteq> [] \<and> \<not> has_control v
     \<and> hd v \<noteq> CHR ''-'' \<and> length v \<le> CARGO_VALUE_MAX_BYTES"
  by (auto simp: normalize_cargo_value_def Let_def starts_with_dash)

lemma normalize_cargo_value_idem: "normalize_cargo_value raw = Ok (Some v) \<Longrightarrow> normalize_cargo_value v = Ok (Some v)"
  unfolding normalize_cargo_value_Some using has_nul_trim by auto

lemma required_cargo_value_Ok: "required_cargo_value m raw = Ok v \<longleftrightarrow> normalize_cargo_value raw = Ok (Some v)"
  by (auto simp: required_cargo_value_def rust_ok split: option.splits)

lemma exact_package_name_id: "exact_package_name raw = Ok v \<Longrightarrow> exact_package_name v = Ok v"
  using normalize_cargo_value_idem
  by (auto simp: exact_package_name_def rust_ok required_cargo_value_Ok split: if_splits)

text \<open>
  Package selections have one canonical form. Every accepted \<^verbatim>\<open>packages\<close> list becomes the sorted,
  duplicate-free list of the trimmed names, each of which is non-empty, bounded, free of control
  characters and not an option; the canonical form is accepted again and is its own normal form.
\<close>

theorem cargo_packages_canonical:
  assumes "normalize_cargo_packages None (Some ps) = Ok (Some qs)"
  shows "sorted qs \<and> distinct qs \<and> set qs = trim ` set ps \<and> qs \<noteq> []
    \<and> list_all (\<lambda>q. hd q \<noteq> CHR ''-'' \<and> q \<noteq> [] \<and> \<not> has_control q \<and> length q \<le> CARGO_VALUE_MAX_BYTES) qs
    \<and> normalize_cargo_packages None (Some qs) = Ok (Some qs)"
proof -
  let ?req = "required_cargo_value ''packages cannot contain an empty package name''"
  from assms obtain rs where rs: "map_result ?req ps = Ok rs" "qs = sort_dedup rs" and len: "ps \<noteq> []" "length ps \<le> 32"
    by (auto simp: normalize_cargo_packages_def rust_ok CARGO_PACKAGE_MAX_ITEMS_def split: if_splits)
  from rs(1) have all: "list_all2 (\<lambda>p r. normalize_cargo_value p = Ok (Some r)) ps rs"
    by (simp add: map_result_Ok required_cargo_value_Ok)
  then have "rs = map trim ps"
    by (induction rule: list_all2_induct) (simp_all add: normalize_cargo_value_Some)
  then have set: "set qs = trim ` set ps" by (simp add: rs(2))
  have norm: "normalize_cargo_value q = Ok (Some q)" if "q \<in> set qs" for q
    using that all normalize_cargo_value_idem by (auto simp: rs(2) list_all2_conv_all_nth in_set_conv_nth)
  have "length qs \<le> length ps"
    using set \<open>rs = map trim ps\<close> by (simp add: rs(2) sort_dedup_def le_trans [OF remdups_adj_length])
  moreover have "qs \<noteq> []" using set len(1) by auto
  moreover have "map_result ?req qs = Ok qs"
    using norm by (simp add: map_result_id required_cargo_value_Ok list_all_iff)
  moreover have "sort_dedup qs = qs" by (simp add: sort_dedup_id_iff rs(2))
  moreover have "normalize_cargo_packages None (Some qs) = Ok (Some qs)"
    using calculation len(2) by (simp add: normalize_cargo_packages_def CARGO_PACKAGE_MAX_ITEMS_def)
  moreover have "hd q \<noteq> CHR ''-'' \<and> q \<noteq> [] \<and> \<not> has_control q \<and> length q \<le> CARGO_VALUE_MAX_BYTES"
    if "q \<in> set qs" for q
    using norm [OF that] unfolding normalize_cargo_value_Some by blast
  moreover have "sorted qs" "distinct qs" by (simp_all add: rs(2))
  ultimately show ?thesis using set by (simp add: list_all_iff)
qed

theorem cargo_packages_canonical_witness:
  "normalize_cargo_packages None (Some ['' web '', ''core'', ''web'']) = Ok (Some [''core'', ''web''])
   \<and> normalize_cargo_packages None (Some [''core'', ''web'']) = Ok (Some [''core'', ''web''])"
proof -
  have n: "normalize_cargo_packages None (Some ['' web '', ''core'', ''web'']) = Ok (Some [''core'', ''web''])"
    by code_simp
  from cargo_packages_canonical [OF n] n show ?thesis by blast
qed

section \<open>The grammar of Cargo flags\<close>

text \<open>The reference for the flag scanner: a list of items, their rendering, and when they fit together.\<close>

datatype cargo_item = Flag string | Features string | Package string | Exclude string

fun render_item :: "cargo_item \<Rightarrow> string list" where
  "render_item (Flag f) = [f]"
| "render_item (Features v) = [''--features'', v]"
| "render_item (Package v) = [''-p'', v]"
| "render_item (Exclude v) = [''--exclude'', v]"

fun item_ok :: "bool \<Rightarrow> bool \<Rightarrow> cargo_item \<Rightarrow> bool" where
  "item_ok test ws (Flag f) = cargo_single_flag test ws f"
| "item_ok test ws (Features v) = canonical_cargo_value v"
| "item_ok test ws (Package v) = canonical_cargo_value v"
| "item_ok test ws (Exclude v) = (ws \<and> canonical_exclusion v)"

fun item_keys :: "cargo_item list \<Rightarrow> string list" where
  "item_keys [] = []"
| "item_keys (Flag f # is) = f # item_keys is"
| "item_keys (Features v # is) = ''--features'' # item_keys is"
| "item_keys (_ # is) = item_keys is"

fun item_packages :: "cargo_item list \<Rightarrow> string list" where
  "item_packages [] = []"
| "item_packages (Package v # is) = v # item_packages is"
| "item_packages (_ # is) = item_packages is"

fun item_exclusions :: "cargo_item list \<Rightarrow> string list" where
  "item_exclusions [] = []"
| "item_exclusions (Exclude v # is) = v # item_exclusions is"
| "item_exclusions (_ # is) = item_exclusions is"

definition fits :: "string list \<Rightarrow> string list \<Rightarrow> string list \<Rightarrow> bool" where
  "fits keys packages exclusions \<longleftrightarrow>
     (''--workspace'' \<in> set keys \<longrightarrow> packages = [])
     \<and> (exclusions \<noteq> [] \<longrightarrow> ''--workspace'' \<in> set keys \<and> sorted exclusions \<and> length exclusions \<le> 8)"

definition wf_cargo_items :: "bool \<Rightarrow> bool \<Rightarrow> cargo_item list \<Rightarrow> bool" where
  "wf_cargo_items test ws is \<longleftrightarrow> list_all (item_ok test ws) is
     \<and> distinct (item_keys is) \<and> distinct (item_packages is) \<and> distinct (item_exclusions is)
     \<and> fits (item_keys is) (item_packages is) (item_exclusions is)"

fun items_of :: "string list \<Rightarrow> cargo_item list option" where
  "items_of [] = Some []"
| "items_of (a # rest) =
     (if a = ''--exclude'' then (case rest of [] \<Rightarrow> None | v # r \<Rightarrow> map_option ((#) (Exclude v)) (items_of r))
      else if a = ''--features'' then (case rest of [] \<Rightarrow> None | v # r \<Rightarrow> map_option ((#) (Features v)) (items_of r))
      else if a = ''-p'' then (case rest of [] \<Rightarrow> None | v # r \<Rightarrow> map_option ((#) (Package v)) (items_of r))
      else map_option ((#) (Flag a)) (items_of rest))"

lemma items_of_render: "items_of as = Some is \<Longrightarrow> as = concat (map render_item is)"
  by (induction as arbitrary: "is" rule: items_of.induct) (auto split: if_splits list.splits)

lemma single_flag_lexical: "cargo_single_flag test ws f \<Longrightarrow> f \<noteq> ''--exclude'' \<and> f \<noteq> ''--features'' \<and> f \<noteq> ''-p''"
  by (auto simp: cargo_single_flag_def CARGO_SINGLE_FLAGS_def)

lemma render_items_of: "list_all (item_ok test ws) is \<Longrightarrow> items_of (concat (map render_item is)) = Some is"
proof (induction "is")
  case (Cons i "is")
  then show ?case using single_flag_lexical by (cases i) auto
qed simp

lemma canonical_exclusion_iff: "canonical_exclusion v \<longleftrightarrow> exact_package_name v = Ok v"
  using exact_package_name_id
  by (auto simp: canonical_exclusion_def normalize_cargo_excluded_packages_def sort_dedup_def rust_ok
      split: sum.splits)

lemma exclusions_normal:
  assumes "xs \<noteq> []" "list_all canonical_exclusion xs" "distinct xs"
  shows "normalize_cargo_excluded_packages xs = Ok xs \<longleftrightarrow> sorted xs \<and> length xs \<le> 8"
proof -
  have "map_result exact_package_name xs = Ok xs"
    using assms(2) by (simp add: map_result_id list_all_iff canonical_exclusion_iff)
  then show ?thesis
    using assms by (auto simp: normalize_cargo_excluded_packages_def sort_dedup_id_iff)
qed

lemma cargo_flags_loop_items:
  "list_all canonical_exclusion ex \<Longrightarrow> distinct ex \<Longrightarrow>
   cargo_flags_loop test True ws seen pk ex as \<longleftrightarrow>
     (case items_of as of
        None \<Rightarrow> False
      | Some is \<Rightarrow> list_all (item_ok test ws) is
          \<and> distinct (item_keys is) \<and> set (item_keys is) \<inter> set seen = {}
          \<and> distinct (item_packages is) \<and> set (item_packages is) \<inter> set pk = {}
          \<and> distinct (item_exclusions is) \<and> set (item_exclusions is) \<inter> set ex = {}
          \<and> fits (item_keys is @ seen) (item_packages is @ pk) (ex @ item_exclusions is))"
proof (induction test "True" ws seen pk ex as rule: cargo_flags_loop.induct)
  case (1 cargo_test ws seen pk ex)
  then show ?case using exclusions_normal [of ex] by (auto simp: fits_def)
next
  case (2 test ws seen pk ex a rest)
  have fits_perm: "fits k p e \<longleftrightarrow> fits k' p' e" if "set k = set k'" "set p = set p'" for k k' p p' e
    using that by (auto simp: fits_def)
  consider (exclude) "a = ''--exclude''" | (features) "a = ''--features''" | (package) "a = ''-p''"
    | (flag) "a \<noteq> ''--exclude''" "a \<noteq> ''--features''" "a \<noteq> ''-p''" by blast
  then show ?case
  proof cases
    case exclude
    show ?thesis
    proof (cases rest)
      case (Cons v r)
      show ?thesis
      proof (cases "ws \<and> canonical_exclusion v \<and> v \<notin> set ex")
        case True
        then show ?thesis using 2(1) [OF exclude Cons] 2(5,6) True
          by (auto simp: exclude Cons split: option.splits)
      qed (auto simp: exclude Cons split: option.splits)
    qed (simp add: exclude)
  next
    case features
    show ?thesis
    proof (cases rest)
      case (Cons v r)
      have "fits (item_keys is @ a # seen) p e \<longleftrightarrow> fits (a # item_keys is @ seen) p e" for "is" p e
        by (rule fits_perm) auto
      then show ?thesis
        using 2(2) [of v r] 2(5,6) by (auto simp: features Cons split: option.splits)
    qed (simp add: features)
  next
    case package
    show ?thesis
    proof (cases rest)
      case (Cons v r)
      have "fits k (item_packages is @ v # pk) e \<longleftrightarrow> fits k (v # item_packages is @ pk) e" for "is" k e
        by (rule fits_perm) auto
      then show ?thesis
        using 2(3) [of v r] 2(5,6) by (auto simp: package Cons split: option.splits)
    qed (simp add: package)
  next
    case flag
    have "fits (item_keys is @ a # seen) p e \<longleftrightarrow> fits (a # item_keys is @ seen) p e" for "is" p e
      by (rule fits_perm) auto
    then show ?thesis
      using 2(4) 2(5,6) flag by (auto simp: flag split: option.splits)
  qed
qed

lemma canonical_cargo_flags_items:
  "is_canonical_cargo_flags as test True ws \<longleftrightarrow> (\<exists>is. as = concat (map render_item is) \<and> wf_cargo_items test ws is)"
proof
  assume "is_canonical_cargo_flags as test True ws"
  then obtain "is" where "items_of as = Some is" "wf_cargo_items test ws is"
    using cargo_flags_loop_items [of "[]" test ws "[]" "[]" as]
    by (auto simp: is_canonical_cargo_flags_def wf_cargo_items_def split: option.splits)
  then show "\<exists>is. as = concat (map render_item is) \<and> wf_cargo_items test ws is"
    using items_of_render by blast
next
  assume "\<exists>is. as = concat (map render_item is) \<and> wf_cargo_items test ws is"
  then obtain "is" where "as = concat (map render_item is)" "wf_cargo_items test ws is" by blast
  moreover have "items_of (concat (map render_item is)) = Some is"
    using calculation(2) by (intro render_items_of [of test ws]) (simp add: wf_cargo_items_def)
  ultimately show "is_canonical_cargo_flags as test True ws"
    using cargo_flags_loop_items [of "[]" test ws "[]" "[]" as]
    by (simp add: is_canonical_cargo_flags_def wf_cargo_items_def)
qed

text \<open>
  The single-pass flag scanner accepts exactly the flag grammar: a list of read-only flags (each at
  most once), at most one feature list, distinct packages, and, only with a workspace selection and
  without packages, at most eight exclusions in sorted order, where every value is in its own normal form.
\<close>

theorem cargo_flags_grammar:
  "is_canonical_cargo_flags as test True ws \<longleftrightarrow> (\<exists>is. as = concat (map render_item is) \<and> wf_cargo_items test ws is)"
  by (rule canonical_cargo_flags_items)

section \<open>No option smuggling\<close>

definition OPTION_VOCABULARY :: "string list" where
  "OPTION_VOCABULARY = CARGO_SINGLE_FLAGS @
     [''--workspace'', ''--lib'', ''--no-run'', ''--features'', ''-p'', ''--exclude'', ''--'', ''--check'', ''-D'',
      ''-mod=readonly'', ''-json'', ''-run'', ''--run'', ''--test'', ''--test-reporter=tap'', ''--reporter=json'',
      ''--outputFile'', ''--runInBand'', ''--json'', ''-m'', ''-B'', ''-v'', ''-I'', ''--no-fix'', ''--no-fix-only'',
      ''--no-cache'', ''--no-respect-gitignore'', ''--output-format'', ''--config'', ''--color=no'', ''-rA'', ''-k'',
      ''--silent'']"

definition option_free :: "string \<Rightarrow> bool" where
  "option_free a \<longleftrightarrow> a = [] \<or> hd a \<noteq> CHR ''-'' \<or> a \<in> set OPTION_VOCABULARY"

lemma option_free_vocabulary: "a \<in> set OPTION_VOCABULARY \<Longrightarrow> option_free a"
  by (simp add: option_free_def)

lemma option_free_single: "cargo_single_flag test ws f \<Longrightarrow> option_free f"
  by (auto simp: cargo_single_flag_def option_free_def OPTION_VOCABULARY_def)

lemma option_free_value: "normalize_cargo_value v = Ok (Some v) \<Longrightarrow> option_free v"
  unfolding normalize_cargo_value_Some by (simp add: option_free_def)

lemma option_free_selectors: "option_free ''--features''" "option_free ''-p''" "option_free ''--exclude''"
  by (simp_all add: option_free_def OPTION_VOCABULARY_def)

lemma option_free_item:
  assumes "item_ok test ws i" "a \<in> set (render_item i)"
  shows "option_free a"
proof (cases i)
  case (Flag f)
  then show ?thesis using assms option_free_single by simp
next
  case (Exclude v)
  then have "a = ''--exclude'' \<or> normalize_cargo_value a = Ok (Some a)"
    using assms by (auto simp: canonical_exclusion_iff exact_package_name_def rust_ok required_cargo_value_Ok
        split: if_splits)
  then show ?thesis using option_free_value option_free_selectors by blast
qed (use assms option_free_selectors in \<open>auto simp: canonical_cargo_value_def option_free_value\<close>)

lemma option_free_flags: "is_canonical_cargo_flags as test True ws \<Longrightarrow> a \<in> set as \<Longrightarrow> option_free a"
  unfolding canonical_cargo_flags_items wf_cargo_items_def list_all_iff
  using option_free_item by fastforce

lemma dash_group: "s \<noteq> [] \<Longrightarrow> hd s = CHR ''-'' \<Longrightarrow> \<not> is_whitespace (hd (chars s))"
  using whitespace_group_hd [of "hd (chars s)"] unfolding whitespace_hds by (auto simp: hd_hd_chars)

lemma dash_trim_start: "s \<noteq> [] \<Longrightarrow> hd s = CHR ''-'' \<Longrightarrow> trim_start s = s"
  using dash_group [of s] by (simp add: trim_start_def dropWhile_id)

lemma dash_trim:
  assumes "s \<noteq> []" "hd s = CHR ''-''" "trim s \<noteq> []"
  shows "hd (trim s) = CHR ''-''"
proof -
  let ?r = "rev (dropWhile is_whitespace (rev (chars s)))"
  have split: "chars s = ?r @ rev (takeWhile is_whitespace (rev (chars s)))"
    by (metis rev_append rev_rev_ident takeWhile_dropWhile_id)
  have ne: "?r \<noteq> []" using assms(3) unfolding trim_def by (metis concat.simps(1) dropWhile.simps(1))
  then have "hd ?r = hd (chars s)" using split by (metis hd_append2)
  then have "trim s = concat ?r" using dash_group [OF assms(1,2)] by (simp add: trim_def dropWhile_id)
  moreover have "s = concat ?r @ concat (rev (takeWhile is_whitespace (rev (chars s))))"
    using split by (metis concat_append concat_chars)
  ultimately show ?thesis using assms by (metis hd_append2)
qed

lemma option_free_pytest: "normalize_pytest_filter v = Ok (Some v) \<Longrightarrow> option_free v"
  using dash_trim_start [of v]
  by (cases "v = [] \<or> hd v \<noteq> CHR ''-''")
    (auto simp: normalize_pytest_filter_def option_free_def starts_with_dash)

lemma option_free_rust_filter: "valid_rust_test_filter v \<Longrightarrow> option_free v"
  using dash_trim [of v]
  by (cases "v = [] \<or> hd v \<noteq> CHR ''-''")
    (auto simp: valid_rust_test_filter_def normalize_rust_test_filter_def Let_def starts_with_dash option_free_def
      split: sum.splits option.splits if_splits)

lemma go_package_option_free: "normalize_go_package a = Ok b \<Longrightarrow> option_free a \<and> b = a"
  by (auto simp: normalize_go_package_def option_free_def strip_prefix_Some_iff rust_ok split: if_splits option.splits)

lemma go_packages_option_free: "canonical_go_packages ps \<Longrightarrow> a \<in> set ps \<Longrightarrow> option_free a"
  using go_package_option_free
  by (auto simp: canonical_go_packages_def normalize_go_packages_def map_result_id list_all_iff split: if_splits)

text \<open>The value of a Go \<^verbatim>\<open>-run\<close> option, which is one argument and may have any shape.\<close>

definition go_run_value :: "validation_step \<Rightarrow> string \<Rightarrow> bool" where
  "go_run_value s a \<longleftrightarrow> program s = ''go'' \<and> (\<exists>as bs. args s = as @ [''-run'', a] @ bs)"

lemma after_go_run_split:
  "after_go_run as = Some packages \<Longrightarrow> as = packages \<or> (\<exists>f. as = [''-run'', f] @ packages)"
  by (auto simp: after_go_run_def split: list.splits if_splits)

lemma go_test_json_args:
  assumes "is_canonical_go_test_json_args as" "a \<in> set as"
  shows "option_free a \<or> (\<exists>bs cs. as = bs @ [''-run'', a] @ cs)"
proof -
  obtain m rest packages where as: "as = [''test'', ''-json''] @ m @ rest" "m = [] \<or> m = [''-mod=readonly'']"
      "after_go_run rest = Some packages" and p: "canonical_go_packages packages"
  proof -
    obtain c r where c: "as = ''test'' # ''-json'' # c # r"
      using assms(1) by (auto simp: is_canonical_go_test_json_args_def split: list.splits)
    then obtain packages where r: "after_go_run (if c = ''-mod=readonly'' then r else c # r) = Some packages"
        "canonical_go_packages packages"
      using assms(1) by (auto simp: is_canonical_go_test_json_args_def split: option.splits)
    show ?thesis
    proof (cases "c = ''-mod=readonly''")
      case True
      then show ?thesis using that [of "[c]" r packages] r c by simp
    next
      case False
      then show ?thesis using that [of "[]" "c # r" packages] r c by simp
    qed
  qed
  have lits: "option_free ''test''" "option_free ''-json''" "option_free ''-mod=readonly''" "option_free ''-run''"
    by (simp_all add: option_free_def OPTION_VOCABULARY_def)
  from after_go_run_split [OF as(3)] show ?thesis
  proof
    assume "rest = packages"
    then show ?thesis using as(1,2) assms(2) lits go_packages_option_free [OF p] by auto
  next
    assume "\<exists>f. rest = [''-run'', f] @ packages"
    then obtain f where f: "as = ([''test'', ''-json''] @ m) @ [''-run'', f] @ packages" using as(1) by auto
    show ?thesis
    proof (cases "a = f")
      case True
      then show ?thesis using f by blast
    next
      case False
      then show ?thesis using f as(2) assms(2) lits go_packages_option_free [OF p] by auto
    qed
  qed
qed

lemma go_vet_args: "is_canonical_go_vet_args as \<Longrightarrow> a \<in> set as \<Longrightarrow> option_free a"
proof -
  assume as: "is_canonical_go_vet_args as" "a \<in> set as"
  then obtain rest where rest: "as = ''vet'' # rest" "rest \<noteq> []"
      "canonical_go_packages (if hd rest = ''-mod=readonly'' then tl rest else rest)"
    by (cases as) (simp_all add: is_canonical_go_vet_args_def Let_def)
  have lits: "option_free ''vet''" "option_free ''-mod=readonly''"
    by (simp_all add: option_free_def OPTION_VOCABULARY_def)
  have "x \<in> set rest \<Longrightarrow> option_free x" for x
    using go_packages_option_free [OF rest(3), of x] rest(2) lits(2)
    by (cases rest; cases "x = hd rest"; cases "hd rest = ''-mod=readonly''") simp_all
  then show ?thesis using as(2) rest(1) lits(1) by (simp, blast)
qed

lemma vocabulary_args: "list_all option_free as \<Longrightarrow> a \<in> set as \<Longrightarrow> option_free a"
  by (simp add: list_all_iff)

lemma cargo_lint_args:
  assumes "is_canonical_cargo_lint_args as ws" "a \<in> set as"
  shows "option_free a"
proof -
  obtain x where x: "as = ''clippy'' # x" using assms(1) by (auto simp: is_canonical_cargo_lint_args_def starts_with_iff)
  obtain y where y: "as = y @ LINT_SUFFIX" using assms(1) by (auto simp: is_canonical_cargo_lint_args_def ends_with_iff)
  have len: "5 \<le> length as" using assms(1) by (simp add: is_canonical_cargo_lint_args_def)
  have ly: "length y = length as - 3" using y by (simp add: LINT_SUFFIX_def)
  then obtain z where z: "y = ''clippy'' # z" using x y len by (cases y) (auto simp: LINT_SUFFIX_def)
  have "slice as 1 (length as - 3) = z"
    using ly by (simp add: slice_def y z)
  then have "is_canonical_cargo_flags z False True ws"
    using assms(1) by (simp add: is_canonical_cargo_lint_args_def Let_def)
  then have "a \<in> set z \<Longrightarrow> option_free a" by (rule option_free_flags)
  moreover have "list_all option_free (''clippy'' # LINT_SUFFIX)" by code_simp
  ultimately show ?thesis using assms(2) y z by (auto simp: list_all_iff)
qed

lemma cargo_check_args: "is_canonical_cargo_check_args as ws \<Longrightarrow> a \<in> set as \<Longrightarrow> option_free a"
proof -
  assume as: "is_canonical_cargo_check_args as ws" "a \<in> set as"
  then obtain rest where "as = ''check'' # rest" "is_canonical_cargo_flags rest False True ws"
    by (cases as) (simp_all add: is_canonical_cargo_check_args_def)
  moreover have "option_free ''check''" by (simp add: option_free_def)
  ultimately show ?thesis using as(2) option_free_flags [of rest False ws a] by auto
qed

lemma cargo_test_args:
  assumes "is_canonical_cargo_test_args as ws" "a \<in> set as"
  shows "option_free a"
proof -
  obtain rest where r: "as = ''test'' # rest"
    using assms(1) by (auto simp: is_canonical_cargo_test_args_def split: list.splits)
  have t: "option_free ''test''" by (simp add: option_free_def)
  have "a \<in> set rest \<Longrightarrow> option_free a"
    using assms(1) option_free_flags option_free_rust_filter
    by (cases rest) (auto simp: is_canonical_cargo_test_args_def r split: if_splits)
  then show ?thesis using assms(2) r t by auto
qed

lemma python_args:
  assumes "is_structured_ruff s \<or> is_structured_pytest s" "a \<in> set (args s)"
  shows "option_free a"
  using assms(1)
proof
  assume "is_structured_ruff s"
  then obtain as where "args s = as" "python_ruff (step_name s) = Some s" by (simp add: is_structured_ruff_def)
  moreover have "list_all option_free (args t)" if "python_ruff k = Some t" for k t
    using that by (auto simp: python_ruff_def option_free_def OPTION_VOCABULARY_def split: if_splits)
  ultimately show ?thesis using assms(2) by (auto simp: list_all_iff)
next
  assume p: "is_structured_pytest s"
  let ?base = "[''-m'', ''pytest'', ''--color=no'', ''-rA'']"
  have base: "list_all option_free (''-k'' # ?base)" by code_simp
  have "args s = take 4 (args s) @ drop 4 (args s)" by simp
  moreover have "args s = ?base \<or> (\<exists>f. take 4 (args s) = ?base \<and> drop 4 (args s) = [''-k'', f]
      \<and> normalize_pytest_filter f = Ok (Some f))"
    using p by (auto simp: is_structured_pytest_def Let_def split: list.splits)
  ultimately obtain f where "args s = ?base \<or> args s = ?base @ [''-k'', f] \<and> option_free f"
    using option_free_pytest by metis
  then show ?thesis using assms(2) base by (auto simp: list_all_iff)
qed

lemma node_args:
  assumes "is_structured_node_check s \<or> is_structured_node_tap_test s \<or> node_json_framework s \<noteq> None"
    "a \<in> set (args s)"
  shows "option_free a"
proof -
  have json: "list_all option_free (args t)" if "node_json_test f = Some t" for f t
    using that by (auto simp: node_json_test_def option_free_def OPTION_VOCABULARY_def split: if_splits)
  have chk: "list_all option_free (args s)" if "is_structured_node_check s"
  proof -
    obtain b where "args s = [''--run'', b]" "List.member [''check'', ''typecheck'', ''lint''] b"
      using \<open>is_structured_node_check s\<close>
      by (cases "args s"; cases "tl (args s)"; cases "tl (tl (args s))") (simp_all add: is_structured_node_check_def)
    moreover have "list_all option_free [''--run'', ''check'', ''typecheck'', ''lint'']" by code_simp
    ultimately show ?thesis by auto
  qed
  have "list_all option_free [''--test'', ''--test-reporter=tap'']" by code_simp
  then have tap: "list_all option_free (args s)" if "is_structured_node_tap_test s"
    using that by (simp only: is_structured_node_tap_test_def)
  have "\<exists>f. node_json_test f = Some s" if "node_json_framework s \<noteq> None"
    using that unfolding node_json_framework_def find_None_iff by blast
  then have "list_all option_free (args s)" using assms(1) chk tap json by blast
  then show ?thesis using assms(2) by (simp add: list_all_iff)
qed

lemma package_manager_args: "node_script_allowed k c \<Longrightarrow> list_all option_free [''run'', ''--silent'', c]"
proof -
  assume "node_script_allowed k c"
  then have "List.member [''format:check'', ''format-check'', ''check:format'', ''check'', ''typecheck'', ''lint'', ''test''] c"
    unfolding node_script_allowed_def by auto
  moreover have "list_all option_free [''format:check'', ''format-check'', ''check:format'', ''check'', ''typecheck'',
      ''lint'', ''test'', ''run'', ''--silent'']" by code_simp
  ultimately show ?thesis by auto
qed

lemma fixed_step_args:
  "list_all option_free [''fmt'', ''--'', ''--check'', ''test'', ''./...'', ''-m'', ''ruff'', ''format'', ''black'',
     ''check'', ''mypy'', ''pytest'', ''-B'', ''unittest'', ''discover'', ''-v'']"
  by code_simp

lemma canonical_step_option_free:
  assumes "is_canonical_with_project_workspace ws s" "a \<in> set (args s)"
  shows "option_free a \<or> go_run_value s a"
proof -
  have fixed: "a \<in> set [''fmt'', ''--'', ''--check'', ''test'', ''./...'', ''-m'', ''ruff'', ''format'', ''black'',
     ''check'', ''mypy'', ''pytest'', ''-B'', ''unittest'', ''discover'', ''-v''] \<Longrightarrow> option_free a"
    using fixed_step_args by (simp only: list_all_iff)
  note c = assms(1) [unfolded is_canonical_with_project_workspace_def, THEN conjunct2, THEN conjunct2]
  consider (cargo) "program s = ''cargo''" | (go) "program s = ''go''" | (node) "program s = ''node''"
    | (python) "program s = ''python''" | (pm) "List.member [''npm'', ''pnpm'', ''yarn'', ''bun''] (program s)"
      "program s \<noteq> ''cargo''" "program s \<noteq> ''go''" "program s \<noteq> ''node''" "program s \<noteq> ''python''"
    using c by (auto split: if_splits)
  then show ?thesis
  proof cases
    case cargo
    then have "args s = [''fmt'', ''--'', ''--check''] \<or> is_canonical_cargo_lint_args (args s) ws
        \<or> is_canonical_cargo_check_args (args s) ws \<or> is_canonical_cargo_test_args (args s) ws"
      using c by (simp split: if_splits)
    then show ?thesis
      using assms(2) fixed cargo_lint_args cargo_check_args cargo_test_args by auto
  next
    case go
    then have "is_canonical_go_vet_args (args s) \<or> args s = [''test'', ''./...''] \<or> is_canonical_go_test_json_args (args s)"
      using c by (auto simp: is_structured_go_test_json_def split: if_splits)
    then show ?thesis
      using assms(2) fixed go_vet_args go_test_json_args [of "args s" a] go by (auto simp: go_run_value_def)
  next
    case node
    then show ?thesis using c node_args [OF _ assms(2)] by (auto split: if_splits)
  next
    case python
    then have "is_structured_ruff s \<or> is_structured_pytest s \<or> args s = [''-m'', ''ruff'', ''format'', ''--check'']
        \<or> args s = [''-m'', ''black'', ''--check''] \<or> args s = [''-m'', ''ruff'', ''check''] \<or> args s = [''-m'', ''mypy'']
        \<or> args s = [''-m'', ''pytest''] \<or> args s = [''-B'', ''-m'', ''unittest'', ''discover'', ''-v'']"
      using c by (auto split: if_splits)
    then show ?thesis using assms(2) fixed python_args [OF _ assms(2)] by auto
  next
    case pm
    then have "\<exists>k. args s = [''run'', ''--silent'', k] \<and> node_script_allowed (step_name s) k"
      using c by (simp split: list.splits)
    then show ?thesis using package_manager_args assms(2) unfolding list_all_iff by metis
  qed
qed


text \<open>A cargo test step with a filter, a package and a workspace-free flag list.\<close>

definition sample_step :: validation_step where
  "sample_step = \<lparr>step_name = ''test'', program = ''cargo'',
     args = [''test'', ''parser'', ''--locked'', ''-p'', ''webcodex-core''], step_env = [(''CARGO_TARGET_DIR'', ''/cache'')]\<rparr>"


end
