(* ===== verification/Sensitive_Paths.thy ===== *)
theory Sensitive_Paths
  imports Wcx_Prelude
begin

text \<open>
  The project-path sensitivity policy of \<^verbatim>\<open>webcodex-core/src/sensitive_paths.rs\<close>: which paths hold
  credentials, keys, Runner configuration or Git control data, which trees bulk operations skip, and
  which include globs reach for either.

  Lower-casing is exact on ASCII text. Of the other characters only the Kelvin sign and the dotted
  capital I have a lower case that contains an ASCII letter, and these two are mapped as well; the rest
  stay non-ASCII, so no comparison with the ASCII vocabulary of the policy depends on them and they are left alone.
\<close>

section \<open>Vocabulary\<close>

definition SECRET_COMPONENTS :: "string list" where
  "SECRET_COMPONENTS = [''.git'', ''secrets'', ''tokens'', ''project-registry'', ''projects.d'']"

definition SECRET_PREFIXES :: "string list" where
  "SECRET_PREFIXES = [''.env'', ''runner.toml'', ''agent.toml'', ''webcodex.env'']"

definition PUBLIC_DOTENV_TEMPLATE_COMPONENTS :: "string list" where
  "PUBLIC_DOTENV_TEMPLATE_COMPONENTS = [''.env.example'', ''.env.sample'', ''.env.template'', ''.env.dist'']"

definition SECRET_SUFFIXES :: "string list" where
  "SECRET_SUFFIXES = [''.pem'', ''.key'', ''.env'', ''.toml.bak'']"

definition BULK_COMPONENTS :: "string list" where
  "BULK_COMPONENTS = [''target'', ''node_modules'']"

section \<open>Components\<close>

definition lower_group :: "string \<Rightarrow> string" where
  "lower_group g =
     (case g of
        [c] \<Rightarrow> [ascii_lower c]
      | _ \<Rightarrow> if g = [CHR 0xE2, CHR 0x84, CHR 0xAA] then ''k''
             else if g = [CHR 0xC4, CHR 0xB0] then [CHR ''i'', CHR 0xCC, CHR 0x87]
             else g)"

definition to_lowercase :: "string \<Rightarrow> string" where
  "to_lowercase s = concat (map lower_group (chars s))"

definition eq_ignore_ascii_case :: "string \<Rightarrow> string \<Rightarrow> bool" where
  "eq_ignore_ascii_case s t \<longleftrightarrow> map ascii_lower s = map ascii_lower t"

fun split_any :: "(char \<Rightarrow> bool) \<Rightarrow> string \<Rightarrow> string list" where
  "split_any p [] = [[]]"
| "split_any p (c # s) =
     (if p c then [] # split_any p s
      else case split_any p s of [] \<Rightarrow> [[c]] | w # ws \<Rightarrow> (c # w) # ws)"

definition is_path_separator :: "char \<Rightarrow> bool" where
  "is_path_separator c \<longleftrightarrow> c = CHR ''/'' \<or> c = CHR 0x5C"

definition path_components :: "string \<Rightarrow> string list" where
  "path_components path =
     map to_lowercase (filter (\<lambda>c. c \<noteq> [] \<and> c \<noteq> ''.'' \<and> c \<noteq> ''..'') (split_any is_path_separator path))"

definition is_public_dotenv_template_component :: "string \<Rightarrow> bool" where
  "is_public_dotenv_template_component component \<longleftrightarrow>
     list_ex (eq_ignore_ascii_case component) PUBLIC_DOTENV_TEMPLATE_COMPONENTS"

section \<open>Predicates\<close>

definition secret_prefix :: "string \<Rightarrow> bool" where
  "secret_prefix c \<longleftrightarrow> list_ex (starts_with c) SECRET_PREFIXES"

definition secret_suffix :: "string \<Rightarrow> bool" where
  "secret_suffix c \<longleftrightarrow> list_ex (ends_with c) SECRET_SUFFIXES"

definition secret_component :: "bool \<Rightarrow> string \<Rightarrow> bool" where
  "secret_component is_basename c \<longleftrightarrow>
     List.member SECRET_COMPONENTS c
     \<or> (secret_prefix c \<and> \<not> (is_basename \<and> is_public_dotenv_template_component c))
     \<or> secret_suffix c"

definition is_secret_path :: "string \<Rightarrow> bool" where
  "is_secret_path path \<longleftrightarrow>
     (let components = path_components path;
          basename_index = length components - 1
      in list_ex (\<lambda>(index, component). secret_component (index = basename_index) component)
           (List.enumerate 0 components))"

definition is_bulk_excluded_path :: "string \<Rightarrow> bool" where
  "is_bulk_excluded_path path \<longleftrightarrow> list_ex (\<lambda>c. List.member BULK_COMPONENTS c) (path_components path)"

definition is_bulk_skipped_path :: "string \<Rightarrow> bool" where
  "is_bulk_skipped_path path \<longleftrightarrow> is_secret_path path \<or> is_bulk_excluded_path path"

definition is_glob_meta :: "char \<Rightarrow> bool" where
  "is_glob_meta c \<longleftrightarrow> List.member ''*?[]'' c"

definition glob_targets_protected_path :: "string \<Rightarrow> bool" where
  "glob_targets_protected_path glob \<longleftrightarrow>
     (let normalized = (case strip_prefix ''./'' glob of None \<Rightarrow> glob | Some r \<Rightarrow> r);
          lowered = to_lowercase normalized;
          components = split_any ((=) (CHR ''/'')) lowered;
          final = last components
      in secret_prefix final \<or> secret_suffix final
         \<or> list_ex (\<lambda>c. List.member SECRET_COMPONENTS c \<or> List.member BULK_COMPONENTS c
                        \<or> secret_prefix c \<or> secret_suffix c)
             (filter (\<lambda>c. \<not> list_ex is_glob_meta c) components))"

section \<open>Splitting\<close>

lemma split_any_nonempty [simp]: "split_any p s \<noteq> []"
  by (induction s) (auto split: list.splits)

lemma split_any_sep: "p d \<Longrightarrow> split_any p (s @ d # t) = split_any p s @ split_any p t"
  by (induction s) (auto split: list.splits simp: append_eq_Cons_conv)

lemma path_components_join: "is_path_separator d \<Longrightarrow> path_components (s @ d # t) = path_components s @ path_components t"
  by (simp add: path_components_def split_any_sep)

lemma is_secret_path_iff:
  "is_secret_path path \<longleftrightarrow> path_components path \<noteq> []
     \<and> (list_ex (secret_component False) (butlast (path_components path))
        \<or> secret_component True (last (path_components path)))"
proof (cases "path_components path" rule: rev_cases)
  case (snoc cs c)
  have "list_ex (\<lambda>(i, x). secret_component (i = length cs) x) (List.enumerate 0 cs) \<longleftrightarrow>
      list_ex (secret_component False) cs"
  proof -
    have "list_ex (\<lambda>(i, x). secret_component (i = n + length cs) x) (List.enumerate n cs) \<longleftrightarrow>
        list_ex (secret_component False) cs" for n
      by (induction cs arbitrary: n) (simp_all, metis add_Suc_right add_Suc)
    from this [of 0] show ?thesis by simp
  qed
  then show ?thesis by (simp add: is_secret_path_def snoc enumerate_append_eq)
qed (simp add: is_secret_path_def)

lemma secret_component_mono: "secret_component True c \<Longrightarrow> secret_component False c"
  by (auto simp: secret_component_def)

text \<open>
  A protected path cannot be unprotected by embedding it: whatever is put in front of it or below it, with
  either separator, including traversal components that name no directory, the longer path is
  protected as well. The bulk exclusion is preserved in the same way.
\<close>

theorem secret_path_closed:
  assumes "is_path_separator d"
  shows "(is_secret_path p \<longrightarrow> is_secret_path (q @ d # p) \<and> is_secret_path (p @ d # q))
    \<and> (is_bulk_skipped_path p \<longrightarrow> is_bulk_skipped_path (q @ d # p) \<and> is_bulk_skipped_path (p @ d # q))"
proof -
  have secret: "is_secret_path p \<Longrightarrow> is_secret_path (q @ d # p) \<and> is_secret_path (p @ d # q)"
  proof -
    assume p: "is_secret_path p"
    then have ne: "path_components p \<noteq> []" by (simp add: is_secret_path_iff)
    have "is_secret_path (q @ d # p)"
      using p ne by (auto simp: is_secret_path_iff path_components_join [OF assms] butlast_append)
    moreover have "is_secret_path (p @ d # q)"
    proof (cases "path_components q = []")
      case True
      then show ?thesis using p by (simp add: is_secret_path_iff path_components_join [OF assms])
    next
      case False
      have "list_ex (secret_component False) (path_components p)"
        using p ne secret_component_mono
        by (cases "path_components p" rule: rev_cases) (auto simp: is_secret_path_iff)
      then show ?thesis
        using False by (simp add: is_secret_path_iff path_components_join [OF assms] butlast_append)
    qed
    ultimately show ?thesis by blast
  qed
  moreover have "is_bulk_excluded_path p \<Longrightarrow> is_bulk_excluded_path (q @ d # p) \<and> is_bulk_excluded_path (p @ d # q)"
    by (simp add: is_bulk_excluded_path_def path_components_join [OF assms])
  ultimately show ?thesis by (auto simp: is_bulk_skipped_path_def)
qed

theorem secret_path_closed_witness:
  "is_secret_path ''certs/../A.PEM'' \<and> is_secret_path ''A.PEM/notes.txt'' \<and> \<not> is_secret_path ''.env.example''
   \<and> is_secret_path ''.env.example/x''"
proof -
  have pem: "is_secret_path ''A.PEM''" by code_simp
  have "is_path_separator (CHR ''/'')" by (simp add: is_path_separator_def)
  from secret_path_closed [OF this, of "''A.PEM''" "''certs/..''"] secret_path_closed [OF this, of "''A.PEM''" "''notes.txt''"]
  have "is_secret_path ''certs/../A.PEM'' \<and> is_secret_path ''A.PEM/notes.txt''" using pem by simp
  moreover have "\<not> is_secret_path ''.env.example''" by code_simp
  moreover have "is_secret_path ''.env.example/x''" by code_simp
  ultimately show ?thesis by blast
qed

section \<open>Globs\<close>

definition is_ascii_char :: "char \<Rightarrow> bool" where
  "is_ascii_char c \<longleftrightarrow> (of_char c :: nat) < 128"

lemma chars_ascii: "list_all is_ascii_char s \<Longrightarrow> chars s = map (\<lambda>c. [c]) s"
proof (induction s)
  case (Cons c s)
  then show ?case
    by (cases s) (auto simp: is_ascii_char_def is_cont_def)
qed simp

lemma to_lowercase_ascii: "list_all is_ascii_char s \<Longrightarrow> to_lowercase s = map ascii_lower s"
  by (simp add: to_lowercase_def chars_ascii lower_group_def comp_def concat_map_singleton)

lemma of_char_ascii_lower:
  "is_ascii_char c \<Longrightarrow>
     (of_char (ascii_lower c) :: nat) = (if 65 \<le> (of_char c :: nat) \<and> (of_char c :: nat) \<le> 90 then of_char c + 32 else of_char c)"
  by (simp add: ascii_lower_def is_ascii_uppercase_def is_ascii_char_def Let_def)

lemma ascii_lower_eq:
  assumes "is_ascii_char c" "(of_char d :: nat) < 65 \<or> (of_char d :: nat) = 91 \<or> (of_char d :: nat) = 93"
  shows "ascii_lower c = d \<longleftrightarrow> c = d"
proof -
  have "ascii_lower c = d \<longleftrightarrow> (of_char (ascii_lower c) :: nat) = of_char d"
    by (simp add: of_char_eq_iff)
  also have "\<dots> \<longleftrightarrow> (of_char c :: nat) = of_char d"
    using assms(2) by (auto simp: of_char_ascii_lower [OF assms(1)])
  finally show ?thesis by (simp add: of_char_eq_iff)
qed

lemma split_any_map:
  "list_all (\<lambda>c. p (f c) \<longleftrightarrow> p c) s \<Longrightarrow> split_any p (map f s) = map (map f) (split_any p s)"
  by (induction s) (auto split: list.splits)

lemma split_any_subset: "w \<in> set (split_any p s) \<Longrightarrow> set w \<subseteq> set s"
  by (induction s arbitrary: w) (fastforce split: list.splits if_splits)+

lemma split_any_cong: "list_all (\<lambda>c. p c \<longleftrightarrow> q c) s \<Longrightarrow> split_any p s = split_any q s"
  by (induction s) auto

lemma ascii_lower_slash: "is_ascii_char c \<Longrightarrow> CHR ''/'' = ascii_lower c \<longleftrightarrow> CHR ''/'' = c"
  using ascii_lower_eq [of c "CHR ''/''"] by (simp add: eq_commute)

lemma literal_components:
  assumes "list_all is_ascii_char s" "CHR 0x5C \<notin> set s" "c \<in> set (path_components s)"
  shows "c \<in> set (split_any ((=) (CHR ''/'')) (to_lowercase s))"
proof -
  have sep: "split_any is_path_separator s = split_any ((=) (CHR ''/'')) s"
    using assms(2) by (intro split_any_cong) (auto simp: is_path_separator_def list_all_iff)
  obtain w where w: "c = to_lowercase w" "w \<in> set (split_any ((=) (CHR ''/'')) s)"
    using assms(3) by (auto simp: path_components_def sep)
  have "list_all is_ascii_char w" using split_any_subset [OF w(2)] assms(1) by (auto simp: list_all_iff)
  then have "c = map ascii_lower w" by (simp add: w(1) to_lowercase_ascii)
  moreover have "split_any ((=) (CHR ''/'')) (map ascii_lower s) = map (map ascii_lower) (split_any ((=) (CHR ''/'')) s)"
    using assms(1) by (intro split_any_map) (simp add: list_all_iff ascii_lower_slash)
  ultimately show ?thesis using w(2) by (simp add: to_lowercase_ascii [OF assms(1)])
qed

lemma path_components_dot: "path_components (''./'' @ s) = path_components s"
  by (simp add: path_components_def is_path_separator_def)

lemma ascii_lower_meta: "is_ascii_char c \<Longrightarrow> is_glob_meta (ascii_lower c) = is_glob_meta c"
  using ascii_lower_eq [of c "CHR ''*''"] ascii_lower_eq [of c "CHR ''?''"] ascii_lower_eq [of c "CHR ''[''"]
    ascii_lower_eq [of c "CHR '']''"]
  by (simp add: is_glob_meta_def)

text \<open>
  The search surface is at least as strict as the read and edit surfaces: a literal ASCII include glob that
  names a secret path or a bulk-excluded tree is always recognised as targeting a protected path.
\<close>

theorem literal_glob_protected:
  assumes "list_all is_ascii_char g" "\<not> list_ex is_glob_meta g" "CHR 0x5C \<notin> set g" "is_bulk_skipped_path g"
  shows "glob_targets_protected_path g"
proof -
  define n where "n = (case strip_prefix ''./'' g of None \<Rightarrow> g | Some r \<Rightarrow> r)"
  have n: "g = n \<or> g = ''./'' @ n"
    by (auto simp: n_def strip_prefix_Some_iff split: option.splits)
  then have comps: "path_components n = path_components g" using path_components_dot by auto
  have sub: "set n \<subseteq> set g" using n by auto
  have asc: "list_all is_ascii_char n" "CHR 0x5C \<notin> set n" using sub assms(1,3) by (auto simp: list_all_iff)
  let ?cs = "split_any ((=) (CHR ''/'')) (to_lowercase n)"
  have "\<exists>c \<in> set (path_components n). secret_component False c \<or> List.member BULK_COMPONENTS c"
    using assms(4) secret_component_mono unfolding comps is_bulk_skipped_path_def is_secret_path_iff is_bulk_excluded_path_def
    by (cases "path_components g" rule: rev_cases) (simp_all add: list_ex_iff, blast)
  then obtain c where c: "c \<in> set ?cs" "secret_component False c \<or> List.member BULK_COMPONENTS c"
    using literal_components [OF asc] by blast
  have "\<not> list_ex is_glob_meta (to_lowercase n)"
    using assms(2) sub asc(1) by (auto simp: to_lowercase_ascii list_ex_iff list_all_iff ascii_lower_meta)
  then have "\<not> list_ex is_glob_meta c" using split_any_subset [OF c(1)] by (auto simp: list_ex_iff)
  then show ?thesis
    using c unfolding glob_targets_protected_path_def n_def [symmetric] Let_def
    by (auto simp: list_ex_iff secret_component_def)
qed

theorem literal_glob_protected_witness:
  "glob_targets_protected_path ''./Secrets/key.txt''"
proof -
  have "list_all is_ascii_char ''./Secrets/key.txt''" by code_simp
  moreover have "\<not> list_ex is_glob_meta ''./Secrets/key.txt''" by code_simp
  moreover have "CHR 0x5C \<notin> set ''./Secrets/key.txt''" by simp
  moreover have "is_bulk_skipped_path ''./Secrets/key.txt''" by code_simp
  ultimately show ?thesis by (rule literal_glob_protected)
qed

text \<open>
  The converse fails for the public dotenv templates: the path may be read and edited, but a glob that
  names it is refused.
\<close>

lemma public_template_glob_refused:
  "\<not> is_bulk_skipped_path ''.env.example'' \<and> glob_targets_protected_path ''.env.example''"
  by code_simp

end
