(* ===== verification/Project_Plans.thy ===== *)
theory Project_Plans
  imports Validation_Steps Sensitive_Paths
begin

text \<open>
  Declarative project operations: the shared scope (\<^verbatim>\<open>webcodex-core/src/project_operation.rs\<close>), validation
  requests and their provenance (\<^verbatim>\<open>project_validation.rs\<close>, \<^verbatim>\<open>validation_source.rs\<close>), build requests, the exact process
  a build runs and its artifact reports (\<^verbatim>\<open>project_build.rs\<close>), and formatting requests and mutation
  reports (\<^verbatim>\<open>project_format.rs\<close>). The SHA-256 digest of a serialised invocation is a parameter.
\<close>

section \<open>Scope\<close>

datatype project_dependency_mode = Locked

record project_operation_scope =
  packages :: "string list"
  all_packages :: bool
  exclude_packages :: "string list"

datatype scope_error =
    Selection | PackageCount | InvalidPackage | ExclusionRequiresAllPackages | ExclusionCount | InvalidExclusion

definition scope_validate :: "project_operation_scope \<Rightarrow> (unit, scope_error) result" where
  "scope_validate s =
     (if (packages s = []) \<noteq> all_packages s then Err Selection
      else if 8 < length (packages s) then Err PackageCount
      else if list_ex (\<lambda>p. p = [] \<or> 256 < length p \<or> has_control p) (packages s) then Err InvalidPackage
      else if exclude_packages s \<noteq> [] \<and> \<not> all_packages s then Err ExclusionRequiresAllPackages
      else if exclude_packages s \<noteq> [] then
        (if 8 < length (exclude_packages s) then Err ExclusionCount
         else if list_ex (\<lambda>p. 256 < length p) (exclude_packages s)
             \<or> \<not> is_ok (normalize_cargo_excluded_packages (exclude_packages s))
           then Err InvalidExclusion
         else Ok ())
      else Ok ())"

definition explicit_packages :: "project_operation_scope \<Rightarrow> string list option" where
  "explicit_packages s = (if packages s \<noteq> [] then Some (packages s) else None)"

definition normalized_exclude_packages :: "project_operation_scope \<Rightarrow> (string list, string) result" where
  "normalized_exclude_packages s = normalize_cargo_excluded_packages (exclude_packages s)"

definition validate_excluded_members :: "project_operation_scope \<Rightarrow> string list \<Rightarrow> (unit, string) result" where
  "validate_excluded_members s members =
     and_then (normalized_exclude_packages s) (\<lambda>exclusions.
       if list_ex (\<lambda>e. \<not> List.member members e) exclusions
         then Err ''excluded package is not a workspace member''
       else if members \<noteq> [] \<and> list_all (\<lambda>m. List.member exclusions m) members
         then Err ''scope cannot exclude every workspace member''
       else Ok ())"

definition relative_path_bad :: "string \<Rightarrow> bool" where
  "relative_path_bad path \<longleftrightarrow> path = [] \<or> 1024 < length path \<or> starts_with path ''/''
     \<or> List.member path (CHR 0x5C) \<or> List.member path (CHR '':'') \<or> has_control path
     \<or> list_ex (\<lambda>p. p = ''..'') (split_on (CHR ''/'') path)"

definition validate_relative :: "string \<Rightarrow> string \<Rightarrow> (unit, string) result" where
  "validate_relative message path = (if relative_path_bad path then Err message else Ok ())"

definition project_id_bad :: "string \<Rightarrow> bool" where
  "project_id_bad pid \<longleftrightarrow> pid = [] \<or> 200 < length pid \<or> has_control pid"

definition hex_digest :: "string \<Rightarrow> bool" where
  "hex_digest d \<longleftrightarrow> length d = 64 \<and> list_all is_ascii_hexdigit d"

text \<open>The messages differ in the name of the operation.\<close>

definition scope_error_message :: "string \<Rightarrow> scope_error \<Rightarrow> string" where
  "scope_error_message operation e =
     (case e of
        Selection \<Rightarrow> ''project '' @ operation @ '' scope must select packages or all_packages=true''
      | PackageCount \<Rightarrow> ''project '' @ operation @ '' packages must contain between 1 and 8 items''
      | InvalidPackage \<Rightarrow> ''invalid project '' @ operation @ '' package scope''
      | ExclusionRequiresAllPackages \<Rightarrow> ''exclude_packages requires all_packages=true''
      | ExclusionCount \<Rightarrow> ''exclude_packages must contain at most 8 items''
      | InvalidExclusion \<Rightarrow> ''invalid excluded package name'')"

section \<open>Validation requests\<close>

datatype validation_action = FormatCheck | ActionCheck | ActionLint | ActionTest

fun action_kind :: "validation_action \<Rightarrow> string" where
  "action_kind FormatCheck = ''format''"
| "action_kind ActionCheck = ''check''"
| "action_kind ActionLint = ''check''"
| "action_kind ActionTest = ''test''"

definition kind_for_backend :: "validation_action \<Rightarrow> string \<Rightarrow> string" where
  "kind_for_backend a backend = (if a = ActionLint \<and> backend = ''rust'' then ''lint'' else action_kind a)"

datatype project_adapter = AdapterAuto | AdapterRust | AdapterGo | AdapterPython | AdapterNode

datatype dependency_resolution_policy = Offline

record validation_test_options =
  test_filter :: "string option"
  opt_require_tests :: "bool option"
  min_tests :: "nat option"

record validation_request =
  vr_project_id :: string
  vr_cwd :: "string option"
  vr_action :: validation_action
  vr_adapter :: project_adapter
  vr_scope :: "project_operation_scope option"
  vr_dependency_policy :: "project_dependency_mode option"
  vr_resolution_policy :: "dependency_resolution_policy option"
  vr_test :: "validation_test_options option"

definition test_requirements :: "validation_request \<Rightarrow> bool option \<times> nat option" where
  "test_requirements r =
     (if vr_action r \<noteq> ActionTest then (None, None)
      else
        let required = (case Option.bind (vr_test r) opt_require_tests of None \<Rightarrow> True | Some b \<Rightarrow> b);
            minimum = (case Option.bind (vr_test r) min_tests of
                         Some n \<Rightarrow> Some n | None \<Rightarrow> if required then Some 1 else None)
        in (Some required, minimum))"

definition cwd_or_dot :: "string option \<Rightarrow> string" where
  "cwd_or_dot c = (case c of None \<Rightarrow> ''.'' | Some p \<Rightarrow> p)"

definition validate_test_options :: "validation_action \<Rightarrow> validation_test_options \<Rightarrow> (unit, string) result" where
  "validate_test_options action t =
     (if action \<noteq> ActionTest then Err ''test options require project_validate action=test''
      else if (case test_filter t of None \<Rightarrow> False
                 | Some f \<Rightarrow> RUST_TEST_FILTER_MAX_BYTES < length f \<or> has_control f)
        then Err ''test filter must be at most 200 UTF-8 bytes without control characters''
      else if (case min_tests t of None \<Rightarrow> False | Some n \<Rightarrow> \<not> (1 \<le> n \<and> n \<le> CARGO_TEST_MIN_TESTS_MAX))
        then Err ''min_tests must be between 1 and 1000000''
      else Ok ())"

definition validation_request_validate :: "validation_request \<Rightarrow> (unit, string) result" where
  "validation_request_validate r =
     and_then (guard_err (project_id_bad (vr_project_id r)) ''invalid project validation project id'') (\<lambda>_.
     and_then (validate_relative ''validation cwd must be project-relative'' (cwd_or_dot (vr_cwd r))) (\<lambda>_.
     and_then (case vr_scope r of
         None \<Rightarrow> Ok ()
       | Some s \<Rightarrow>
           and_then (map_err (scope_error_message ''validation'') (scope_validate s)) (\<lambda>_.
             guard_err (vr_action r = FormatCheck \<and> exclude_packages s \<noteq> [])
               ''workspace_exclusions_unsupported: format_check'')) (\<lambda>_.
     and_then (guard_err (vr_resolution_policy r \<noteq> None
           \<and> (vr_action r = FormatCheck \<or> \<not> List.member [AdapterAuto, AdapterRust] (vr_adapter r)))
         ''dependency_resolution_policy requires Rust check, lint or test'') (\<lambda>_.
     and_then (guard_err (vr_dependency_policy r \<noteq> None \<and> vr_action r = FormatCheck)
         ''dependency_policy requires project_validate action=check, lint or test'') (\<lambda>_.
       case vr_test r of None \<Rightarrow> Ok () | Some t \<Rightarrow> validate_test_options (vr_action r) t)))))"

record validation_provenance =
  vp_request :: validation_request
  vp_backend :: string
  vp_recipe_root :: string
  vp_root_digest :: string
  vp_manifest_digest :: string
  vp_invocation_digest :: string

definition validation_provenance_is_valid :: "validation_provenance \<Rightarrow> bool" where
  "validation_provenance_is_valid p \<longleftrightarrow>
     is_ok (validation_request_validate (vp_request p))
     \<and> is_ok (validate_relative ''validation cwd must be project-relative'' (vp_recipe_root p))
     \<and> List.member [''rust'', ''go'', ''python'', ''node''] (vp_backend p)
     \<and> (vr_action (vp_request p) \<noteq> ActionLint \<or> List.member [''node'', ''rust''] (vp_backend p))
     \<and> (vr_resolution_policy (vp_request p) = None \<or> vp_backend p = ''rust'')
     \<and> list_all hex_digest [vp_root_digest p, vp_manifest_digest p, vp_invocation_digest p]"

section \<open>Source fences\<close>

definition MAX_SOURCE_GENERATION :: nat where
  "MAX_SOURCE_GENERATION = 2 ^ 53 - 1"

record validation_source_fence =
  fence_epoch :: string
  generation :: nat
  quiescent :: bool

definition fence_is_valid :: "validation_source_fence \<Rightarrow> bool" where
  "fence_is_valid f \<longleftrightarrow> length (fence_epoch f) = 32 \<and> list_all is_ascii_hexdigit (fence_epoch f)
     \<and> generation f \<le> MAX_SOURCE_GENERATION"

datatype observed_mutation_fence = Uncrossed | Crossed | FenceUnknown

datatype validation_freshness = Unproven | Stale

record validation_source_state =
  freshness :: validation_freshness
  mutation_fence :: observed_mutation_fence
  start_fence :: "validation_source_fence option"

definition filter_option :: "('a \<Rightarrow> bool) \<Rightarrow> 'a option \<Rightarrow> 'a option" where
  "filter_option p x = (case x of None \<Rightarrow> None | Some a \<Rightarrow> if p a then Some a else None)"

definition observe_source ::
    "validation_source_fence option \<Rightarrow> validation_source_fence option \<Rightarrow> validation_source_state" where
  "observe_source start now =
     (let start = filter_option fence_is_valid start;
          observation = (case (start, filter_option fence_is_valid now) of
              (Some s, Some n) \<Rightarrow>
                if fence_epoch s = fence_epoch n then
                  (if generation s < generation n then Crossed
                   else if generation n = generation s \<and> quiescent s \<and> quiescent n then Uncrossed
                   else FenceUnknown)
                else FenceUnknown
            | _ \<Rightarrow> FenceUnknown)
      in \<lparr>freshness = (if observation = Crossed then Stale else Unproven), mutation_fence = observation,
          start_fence = start\<rparr>)"

section \<open>Builds\<close>

record build_targets =
  library :: bool
  binaries :: "string list"

record build_request =
  br_project_id :: string
  br_cwd :: "string option"
  br_adapter :: project_adapter
  br_scope :: "project_operation_scope option"
  br_dependency_policy :: "project_dependency_mode option"
  br_resolution_policy :: "dependency_resolution_policy option"
  br_profile :: "string option"
  br_targets :: "build_targets option"
  br_observe_artifacts :: bool

record process_argv =
  executable :: string
  argv :: "string list"

definition build_name_valid :: "string \<Rightarrow> nat \<Rightarrow> bool" where
  "build_name_valid value n \<longleftrightarrow> value \<noteq> [] \<and> length value \<le> n
     \<and> list_all (\<lambda>b. is_ascii_alphanumeric b \<or> b = CHR ''_'' \<or> b = CHR ''-'') value
     \<and> \<not> starts_with value ''-''"

definition has_rust_options :: "build_request \<Rightarrow> bool" where
  "has_rust_options r \<longleftrightarrow> br_profile r \<noteq> None \<or> br_targets r \<noteq> None \<or> br_observe_artifacts r"

definition build_request_validate :: "build_request \<Rightarrow> (unit, string) result" where
  "build_request_validate r =
     and_then (guard_err (project_id_bad (br_project_id r)) ''invalid project build project id'') (\<lambda>_.
     and_then (validate_relative ''build cwd must be project-relative'' (cwd_or_dot (br_cwd r))) (\<lambda>_.
     and_then (guard_err (has_rust_options r \<and> \<not> List.member [AdapterAuto, AdapterRust] (br_adapter r))
         ''build_options_unsupported: profile, targets and artifact_policy require Rust'') (\<lambda>_.
     and_then (guard_err (case br_profile r of None \<Rightarrow> False | Some name \<Rightarrow> \<not> build_name_valid name 64)
         ''invalid build profile'') (\<lambda>_.
     and_then (guard_err (case br_targets r of None \<Rightarrow> False
           | Some t \<Rightarrow> \<not> library t \<and> binaries t = [] \<or> 8 < length (binaries t)
               \<or> list_ex (\<lambda>name. \<not> build_name_valid name 256) (binaries t))
         ''build targets require a library or at most eight named binaries'') (\<lambda>_.
     and_then (case br_scope r of None \<Rightarrow> Ok ()
         | Some s \<Rightarrow> map_err (scope_error_message ''build'') (scope_validate s)) (\<lambda>_.
       guard_err (br_resolution_policy r \<noteq> None \<and> \<not> List.member [AdapterAuto, AdapterRust] (br_adapter r))
         ''dependency_resolution_policy requires Rust project_build''))))))"

record build_provenance =
  bp_request :: build_request
  bp_backend :: string
  bp_recipe_root :: string
  bp_root_digest :: string
  bp_manifest_digest :: string
  bp_invocation_digest :: string

definition build_provenance_is_valid :: "build_provenance \<Rightarrow> bool" where
  "build_provenance_is_valid p \<longleftrightarrow>
     is_ok (build_request_validate (bp_request p))
     \<and> is_ok (validate_relative ''build cwd must be project-relative'' (bp_recipe_root p))
     \<and> (case br_adapter (bp_request p) of
          AdapterAuto \<Rightarrow> List.member [''rust'', ''go'', ''python'', ''node''] (bp_backend p)
        | AdapterRust \<Rightarrow> bp_backend p = ''rust''
        | AdapterGo \<Rightarrow> bp_backend p = ''go''
        | AdapterPython \<Rightarrow> bp_backend p = ''python''
        | AdapterNode \<Rightarrow> bp_backend p = ''node'')
     \<and> (br_resolution_policy (bp_request p) = None \<or> bp_backend p = ''rust'')
     \<and> (\<not> has_rust_options (bp_request p) \<or> bp_backend p = ''rust'')
     \<and> list_all hex_digest [bp_root_digest p, bp_manifest_digest p, bp_invocation_digest p]"

definition target_args :: "build_targets option \<Rightarrow> string list" where
  "target_args t =
     (case t of
        None \<Rightarrow> []
      | Some t \<Rightarrow> (if library t then [''--lib''] else [])
                 @ concat (map (\<lambda>b. [''--bin'', b]) (sort_dedup (binaries t))))"

definition rust_build_args :: "build_request \<Rightarrow> bool \<Rightarrow> string list \<Rightarrow> string list option \<Rightarrow> string list" where
  "rust_build_args r workspace excluded selected =
     [''build'']
     @ (case br_profile r of None \<Rightarrow> [] | Some p \<Rightarrow> [''--profile'', p])
     @ target_args (br_targets r)
     @ (if br_observe_artifacts r then [''--message-format=json-render-diagnostics''] else [])
     @ (if br_dependency_policy r = Some Locked then [''--locked''] else [])
     @ (if br_resolution_policy r = Some Offline then [''--offline''] else [])
     @ (if workspace then ''--workspace'' # concat (map (\<lambda>p. [''--exclude'', p]) excluded)
        else case selected of None \<Rightarrow> [] | Some ps \<Rightarrow> concat (map (\<lambda>p. [''-p'', p]) ps))"

definition canonical_project_build_process_with_manager ::
    "string \<Rightarrow> build_request \<Rightarrow> string \<Rightarrow> (process_argv, string) result" where
  "canonical_project_build_process_with_manager backend r manager =
     (if \<not> is_ok (build_request_validate r) then Err ''invalid_arguments''
      else if has_rust_options r \<and> backend \<noteq> ''rust'' then Err ''build_options_unsupported''
      else if br_resolution_policy r \<noteq> None \<and> backend \<noteq> ''rust''
        then Err ''dependency_resolution_policy_unsupported''
      else
        let selected = Option.bind (br_scope r) explicit_packages;
            all = (case br_scope r of None \<Rightarrow> False | Some s \<Rightarrow> all_packages s) in
        and_then (case br_scope r of None \<Rightarrow> Ok [] | Some s \<Rightarrow> normalized_exclude_packages s) (\<lambda>excluded.
          if excluded \<noteq> [] \<and> backend \<noteq> ''rust'' then Err ''workspace_exclusions_unsupported''
          else if backend = ''rust'' then
            and_then (normalize_cargo_packages None selected) (\<lambda>ps.
              Ok \<lparr>executable = ''cargo'', argv = rust_build_args r all excluded ps\<rparr>)
          else if backend = ''python'' then
            (if br_scope r \<noteq> None then Err ''Python packaging does not support package scope''
             else Ok \<lparr>executable = ''python'', argv = [''-m'', ''build'', ''--no-isolation'']\<rparr>)
          else if backend = ''go'' then
            and_then (normalize_go_packages (if all then None else selected)) (\<lambda>ps.
              Ok \<lparr>executable = ''go'',
                  argv = [''build''] @ (if br_dependency_policy r = Some Locked then [''-mod=readonly''] else []) @ ps\<rparr>)
          else if backend = ''node'' \<and> List.member [''npm'', ''pnpm'', ''yarn'', ''bun''] manager then
            (if br_scope r \<noteq> None \<or> br_dependency_policy r \<noteq> None
               then Err ''Node build scope/dependency policy unavailable''
             else Ok \<lparr>executable = manager,
                      argv = (if manager = ''yarn'' then [''run'', ''build''] else [''run'', ''--silent'', ''build''])\<rparr>)
          else Err ''unsupported project build backend''))"

definition canonical_project_build_process :: "string \<Rightarrow> build_request \<Rightarrow> (process_argv, string) result" where
  "canonical_project_build_process backend r =
     (if has_rust_options r \<and> backend \<noteq> ''rust'' then Err ''build_options_unsupported''
      else canonical_project_build_process_with_manager backend r ''npm'')"

text \<open>\<open>digest\<close> is the hexadecimal SHA-256 of the serialised process.\<close>

record build_plan =
  plan_provenance :: build_provenance
  plan_process :: process_argv

definition build_plan_is_valid :: "(process_argv \<Rightarrow> string) \<Rightarrow> build_plan \<Rightarrow> bool" where
  "build_plan_is_valid digest plan \<longleftrightarrow>
     build_provenance_is_valid (plan_provenance plan)
     \<and> canonical_project_build_process_with_manager (bp_backend (plan_provenance plan))
         (bp_request (plan_provenance plan)) (executable (plan_process plan)) = Ok (plan_process plan)
     \<and> digest (plan_process plan) = bp_invocation_digest (plan_provenance plan)"

section \<open>Build artifacts\<close>

record build_artifact =
  artifact_path :: string
  artifact_bytes :: nat
  artifact_sha256 :: string
  mime_type :: "string option"

definition PROJECT_BUILD_ARTIFACTS_MAX :: nat where
  "PROJECT_BUILD_ARTIFACTS_MAX = 16"

definition build_artifact_path_valid :: "string \<Rightarrow> bool" where
  "build_artifact_path_valid path \<longleftrightarrow> \<not> relative_path_bad path \<and> \<not> is_secret_path path
     \<and> \<not> list_ex (\<lambda>c. eq_ignore_ascii_case c ''node_modules'') (split_on (CHR ''/'') path)"

text \<open>\<^verbatim>\<open>try_fold\<close> with \<^verbatim>\<open>checked_add\<close>.\<close>

fun checked_sum :: "nat list \<Rightarrow> nat \<Rightarrow> nat option" where
  "checked_sum [] acc = Some acc"
| "checked_sum (n # ns) acc = (if u64_max < acc + n then None else checked_sum ns (acc + n))"

definition artifact_valid :: "(string \<Rightarrow> bool) \<Rightarrow> build_artifact \<Rightarrow> bool" where
  "artifact_valid path_valid a \<longleftrightarrow> path_valid (artifact_path a) \<and> artifact_bytes a \<le> 256 * 1024 * 1024
     \<and> length (artifact_sha256 a) = 64 \<and> list_all is_lower_hexdigit (artifact_sha256 a)
     \<and> (case mime_type a of None \<Rightarrow> True | Some m \<Rightarrow> m \<noteq> [] \<and> length m \<le> 128 \<and> \<not> has_control m)"

definition validate_artifacts_with_path_policy :: "build_artifact list \<Rightarrow> (string \<Rightarrow> bool) \<Rightarrow> bool" where
  "validate_artifacts_with_path_policy artifacts path_valid \<longleftrightarrow>
     length artifacts \<le> PROJECT_BUILD_ARTIFACTS_MAX
     \<and> (case checked_sum (map artifact_bytes artifacts) 0 of None \<Rightarrow> False | Some n \<Rightarrow> n \<le> 256 * 1024 * 1024)
     \<and> list_all (\<lambda>(i, a). artifact_valid path_valid a
           \<and> \<not> list_ex (\<lambda>earlier. artifact_path earlier = artifact_path a) (take i artifacts))
         (List.enumerate 0 artifacts)"

definition validate_build_artifacts :: "build_artifact list \<Rightarrow> bool" where
  "validate_build_artifacts artifacts =
     validate_artifacts_with_path_policy artifacts (\<lambda>path. \<not> relative_path_bad path \<and> \<not> is_bulk_skipped_path path)"

definition validate_cargo_build_artifacts :: "build_artifact list \<Rightarrow> bool" where
  "validate_cargo_build_artifacts artifacts = validate_artifacts_with_path_policy artifacts build_artifact_path_valid"

datatype shell_command_execution_state = CesNotStarted | CesOutcomeUnknown | CesTimedOut | CesCompleted

definition validate_build_artifact_report ::
    "string \<Rightarrow> string \<Rightarrow> int option \<Rightarrow> shell_command_execution_state option \<Rightarrow> build_artifact list option
     \<Rightarrow> (unit, string) result" where
  "validate_build_artifact_report source status exit state artifacts =
     (case artifacts of
        None \<Rightarrow> Ok ()
      | Some as \<Rightarrow>
          if source \<noteq> ''project_build'' \<or> status \<noteq> ''completed'' \<or> exit \<noteq> Some 0 \<or> state \<noteq> Some CesCompleted
             \<or> \<not> validate_cargo_build_artifacts as
            then Err ''build_artifacts_invalid''
          else Ok ())"

section \<open>Formatting\<close>

datatype format_mutation_report = FmUnknown | FmUnchanged | FmChanged

definition valid_format_relative_path :: "string \<Rightarrow> bool \<Rightarrow> bool" where
  "valid_format_relative_path path directory \<longleftrightarrow>
     directory \<and> path = ''.''
     \<or> path \<noteq> [] \<and> length path \<le> 1024 \<and> \<not> List.member path (CHR 0x5C) \<and> \<not> List.member path (CHR '':'')
       \<and> \<not> has_control path \<and> list_all (\<lambda>p. p \<noteq> [] \<and> p \<noteq> ''.'' \<and> p \<noteq> ''..'') (split_on (CHR ''/'') path)"

datatype format_adapter = FormatAuto | FormatRust | FormatPython | FormatGo

record format_request =
  fr_project_id :: string
  fr_cwd :: "string option"
  fr_adapter :: format_adapter
  fr_files :: "string list"

definition requires_go :: "format_request \<Rightarrow> bool" where
  "requires_go r \<longleftrightarrow> fr_adapter r = FormatGo \<or> list_ex (\<lambda>f. ends_with f ''.go'') (fr_files r)"

definition selected_adapter :: "string \<Rightarrow> format_adapter option" where
  "selected_adapter file =
     (if ends_with file ''.rs'' then Some FormatRust
      else if ends_with file ''.py'' \<or> ends_with file ''.pyi'' then Some FormatPython
      else if ends_with file ''.go'' then Some FormatGo
      else None)"

fun format_files :: "format_adapter \<Rightarrow> string list \<Rightarrow> format_adapter option \<Rightarrow> string list \<Rightarrow> (unit, string) result" where
  "format_files adapter earlier backend [] = Ok ()"
| "format_files adapter earlier backend (file # rest) =
     (if \<not> valid_format_relative_path file False \<or> List.member earlier file
        then Err ''invalid project format files''
      else (case selected_adapter file of
          None \<Rightarrow> Err ''unsupported project format extension''
        | Some selected \<Rightarrow>
            if (case backend of None \<Rightarrow> False | Some b \<Rightarrow> b \<noteq> selected)
               \<or> (adapter \<noteq> FormatAuto \<and> adapter \<noteq> selected)
              then Err ''project format scope mismatch''
            else format_files adapter (earlier @ [file]) (Some selected) rest))"

definition format_request_validate :: "format_request \<Rightarrow> (unit, string) result" where
  "format_request_validate r =
     (if project_id_bad (fr_project_id r) \<or> \<not> valid_format_relative_path (cwd_or_dot (fr_cwd r)) True
         \<or> \<not> (1 \<le> length (fr_files r) \<and> length (fr_files r) \<le> 8)
        then Err ''invalid project format request''
      else format_files (fr_adapter r) [] None (fr_files r))"

definition validate_mutation_report ::
    "string \<Rightarrow> string \<Rightarrow> int option \<Rightarrow> shell_command_execution_state option \<Rightarrow> format_mutation_report option
     \<Rightarrow> string option \<Rightarrow> (unit, string) result" where
  "validate_mutation_report kind status exit execution report err =
     (case report of
        None \<Rightarrow> Ok ()
      | Some rep \<Rightarrow>
          if kind \<noteq> ''project_format''
             \<or> (rep \<noteq> FmUnknown
                \<and> (status \<noteq> ''completed'' \<or> exit \<noteq> Some 0 \<or> execution \<noteq> Some CesCompleted \<or> err \<noteq> None))
            then Err ''format_mutation_invalid''
          else Ok ())"

section \<open>Build processes are closed\<close>

definition BUILD_VOCABULARY :: "string list" where
  "BUILD_VOCABULARY =
     [''--profile'', ''--lib'', ''--bin'', ''--message-format=json-render-diagnostics'', ''--locked'', ''--offline'',
      ''--workspace'', ''--exclude'', ''-p'', ''-m'', ''--no-isolation'', ''-mod=readonly'', ''--silent'']"

definition build_arg_ok :: "string \<Rightarrow> bool" where
  "build_arg_ok a \<longleftrightarrow> a = [] \<or> hd a \<noteq> CHR ''-'' \<or> List.member BUILD_VOCABULARY a"

lemma build_args_fixed:
  "list_all build_arg_ok [''build'', ''run'', ''--profile'', ''--lib'', ''--bin'',
     ''--message-format=json-render-diagnostics'', ''--locked'', ''--offline'', ''--workspace'', ''--exclude'', ''-p'',
     ''-m'', ''--no-isolation'', ''-mod=readonly'', ''--silent'', ''./...'']"
  by code_simp

lemma build_arg_name: "build_name_valid v n \<Longrightarrow> build_arg_ok v"
  by (cases v) (auto simp: build_name_valid_def build_arg_ok_def starts_with_iff)

lemma build_arg_value: "normalize_cargo_value p = Ok (Some v) \<Longrightarrow> build_arg_ok v"
  unfolding normalize_cargo_value_Some build_arg_ok_def by blast

lemma list_all2_all:
  assumes "list_all2 P xs ys" "\<And>x y. P x y \<Longrightarrow> Q y"
  shows "list_all Q ys"
  using assms(1) by (induction rule: list_all2_induct) (auto intro: assms(2))

lemma list_all_sort_dedup [simp]: "list_all Q (sort_dedup ys) = list_all Q ys"
  by (simp add: list_all_iff)

lemma build_arg_packages:
  assumes "normalize_cargo_packages None ps = Ok (Some qs)"
  shows "list_all build_arg_ok qs"
proof -
  obtain xs ys where "qs = sort_dedup ys"
      "list_all2 (\<lambda>x y. normalize_cargo_value x = Ok (Some y)) xs ys"
    using assms
    by (cases ps) (auto simp: normalize_cargo_packages_def rust_ok map_result_Ok required_cargo_value_Ok split: if_splits)
  then show ?thesis by (simp add: list_all2_all [OF _ build_arg_value])
qed

lemma build_arg_exclusions:
  assumes "normalize_cargo_excluded_packages ps = Ok qs"
  shows "list_all build_arg_ok qs"
proof (cases "ps = []")
  case False
  then obtain ys where "qs = sort_dedup ys" "list_all2 (\<lambda>x y. exact_package_name x = Ok y) ps ys"
    using assms by (auto simp: normalize_cargo_excluded_packages_def rust_ok map_result_Ok split: if_splits)
  moreover have "exact_package_name x = Ok y \<Longrightarrow> build_arg_ok y" for x y
    using build_arg_value by (auto simp: exact_package_name_def rust_ok required_cargo_value_Ok split: if_splits)
  ultimately show ?thesis by (simp add: list_all2_all)
qed (use assms in \<open>simp add: normalize_cargo_excluded_packages_def\<close>)

lemma build_arg_go:
  assumes "normalize_go_packages ps = Ok qs"
  shows "list_all build_arg_ok qs"
proof (cases ps)
  case None
  then show ?thesis using assms build_args_fixed by (auto simp: normalize_go_packages_def)
next
  case (Some xs)
  then have "list_all2 (\<lambda>x y. normalize_go_package x = Ok y) xs qs"
    using assms by (auto simp: normalize_go_packages_def map_result_Ok split: if_splits)
  moreover have "normalize_go_package x = Ok y \<Longrightarrow> build_arg_ok y" for x y
    by (auto simp: normalize_go_package_def build_arg_ok_def strip_prefix_Some_iff rust_ok split: if_splits option.splits)
  ultimately show ?thesis by (simp add: list_all2_all)
qed

lemma rust_build_args_ok:
  assumes "is_ok (build_request_validate r)" "list_all build_arg_ok excluded"
    "\<And>ps. selected = Some ps \<Longrightarrow> list_all build_arg_ok ps"
  shows "list_all build_arg_ok (rust_build_args r ws excluded selected)"
proof -
  have profile: "build_arg_ok p" if "br_profile r = Some p" for p
    using assms(1) that build_arg_name by (auto simp: build_request_validate_def is_ok_iff rust_ok)
  have binary: "build_arg_ok b" if "br_targets r = Some t" "b \<in> set (binaries t)" for t b
    using assms(1) that build_arg_name by (auto simp: build_request_validate_def is_ok_iff rust_ok list_ex_iff)
  have pairs: "list_all build_arg_ok (concat (map (\<lambda>p. [k, p]) xs))"
    if "build_arg_ok k" "list_all build_arg_ok xs" for k xs
    using that by (auto simp: list_all_iff)
  have "list_all build_arg_ok (target_args (br_targets r))"
    using build_args_fixed pairs [of "''--bin''"] binary
    by (cases "br_targets r") (fastforce simp: target_args_def list_all_iff)+
  then show ?thesis
    using build_args_fixed assms(2,3) profile pairs [of "''--exclude''"] pairs [of "''-p''"]
    unfolding rust_build_args_def by (simp split: option.splits)
qed

lemma build_process_args_ok:
  assumes "canonical_project_build_process_with_manager backend r manager = Ok p"
  shows "list_all build_arg_ok (argv p)"
proof -
  have v: "is_ok (build_request_validate r)"
    using assms by (auto simp: canonical_project_build_process_with_manager_def split: if_splits)
  obtain excluded where ex: "(case br_scope r of None \<Rightarrow> Ok [] | Some s \<Rightarrow> normalized_exclude_packages s) = Ok excluded"
    using assms by (auto simp: canonical_project_build_process_with_manager_def Let_def rust_ok split: if_splits)
  have exok: "list_all build_arg_ok excluded"
    using ex build_arg_exclusions by (auto simp: normalized_exclude_packages_def split: option.splits)
  show ?thesis
  proof (cases "backend = ''rust''")
    case True
    obtain ps where "normalize_cargo_packages None (Option.bind (br_scope r) explicit_packages) = Ok ps"
      "argv p = rust_build_args r (case br_scope r of None \<Rightarrow> False | Some s \<Rightarrow> all_packages s) excluded ps"
      using assms ex by (auto simp: canonical_project_build_process_with_manager_def Let_def True rust_ok split: if_splits)
    then show ?thesis using rust_build_args_ok [OF v exok, of ps] build_arg_packages by metis
  next
    case False
    then consider "argv p = [''-m'', ''build'', ''--no-isolation'']" | "argv p = [''run'', ''build'']"
      | "argv p = [''run'', ''--silent'', ''build'']"
      | (go) xs ps where "normalize_go_packages xs = Ok ps"
          "argv p = ''build'' # ps \<or> argv p = ''build'' # ''-mod=readonly'' # ps"
      using assms ex
      by (auto simp: canonical_project_build_process_with_manager_def Let_def rust_ok split: if_splits)
    then show ?thesis using build_args_fixed by cases (auto dest: build_arg_go)
  qed
qed

text \<open>
  A project build runs exactly one of a fixed set of programs with a closed option vocabulary. Whatever the
  request selects (profile, targets, packages, exclusions), an argument that looks like an option is one
  of the fixed list; no package, profile or target name can introduce an option of its own.
\<close>

theorem build_process_closed_options:
  assumes "canonical_project_build_process_with_manager backend r manager = Ok p"
    "a \<in> set (argv p)" "a \<noteq> []" "hd a = CHR ''-''"
  shows "List.member BUILD_VOCABULARY a
    \<and> List.member [''cargo'', ''python'', ''go'', ''npm'', ''pnpm'', ''yarn'', ''bun''] (executable p)"
proof -
  have "build_arg_ok a" using build_process_args_ok [OF assms(1)] assms(2) by (simp add: list_all_iff)
  moreover have "List.member [''cargo'', ''python'', ''go'', ''npm'', ''pnpm'', ''yarn'', ''bun''] (executable p)"
    using assms(1)
    by (auto simp: canonical_project_build_process_with_manager_def Let_def rust_ok split: if_splits)
  ultimately show ?thesis using assms(3,4) by (simp add: build_arg_ok_def)
qed

definition sample_build :: build_request where
  "sample_build = \<lparr>br_project_id = ''demo'', br_cwd = None, br_adapter = AdapterAuto,
     br_scope = Some \<lparr>packages = [''web'', ''core''], all_packages = False, exclude_packages = []\<rparr>,
     br_dependency_policy = Some Locked, br_resolution_policy = None, br_profile = Some ''release'',
     br_targets = None, br_observe_artifacts = False\<rparr>"

theorem build_process_closed_options_witness:
  "canonical_project_build_process_with_manager ''rust'' sample_build ''npm'' =
     Ok \<lparr>executable = ''cargo'', argv = [''build'', ''--profile'', ''release'', ''--locked'', ''-p'', ''core'', ''-p'', ''web'']\<rparr>
   \<and> List.member BUILD_VOCABULARY ''--locked''"
proof -
  have c: "canonical_project_build_process_with_manager ''rust'' sample_build ''npm'' =
     Ok \<lparr>executable = ''cargo'', argv = [''build'', ''--profile'', ''release'', ''--locked'', ''-p'', ''core'', ''-p'', ''web'']\<rparr>"
    by code_simp
  from build_process_closed_options [OF c, of "''--locked''"] c show ?thesis by simp
qed

end
