(* ===== verification/Validation_Metadata.thy ===== *)
theory Validation_Metadata
  imports Project_Plans
begin

text \<open>
  What a Job carries besides its process: test-count evidence, activity, validation metadata,
  structured-execution metadata and the recovery context
  (\<^verbatim>\<open>webcodex-core/src/runner_protocol/job.rs\<close>), with the closed checks the server and the
  Runner both apply to them.
\<close>

section \<open>Test-count evidence\<close>

record test_count_evidence =
  ev_tests_passed :: "nat option"
  ev_tests_failed :: "nat option"
  ev_tests_detected :: bool
  ev_tests_run_count :: "nat option"
  ev_status :: count_evidence_status

definition u64_checked_add :: "nat \<Rightarrow> nat \<Rightarrow> nat option" where
  "u64_checked_add a b = (if u64_max < a + b then None else Some (a + b))"

definition evidence_is_valid :: "test_count_evidence \<Rightarrow> bool" where
  "evidence_is_valid e =
     ((case (ev_tests_passed e, ev_tests_failed e) of
         (Some p, Some f) \<Rightarrow> u64_checked_add p f = ev_tests_run_count e
       | (a, b) \<Rightarrow> a = None \<and> b = None)
      \<and> (if count_is_proven (ev_status e) then ev_tests_detected e \<and> ev_tests_run_count e \<noteq> None
         else ev_tests_run_count e = None))"

text \<open>The Runner's two producers of evidence: the Cargo accumulator of a step's output streams
  (\<^verbatim>\<open>webcodex-runner/src/webcodex_runner/execution_io.rs\<close>) and the report file of a Node test framework
  (\<^verbatim>\<open>job_manager/node_report.rs\<close>). The JSON parser is a parameter: \<open>document\<close> is the value of the report file,
  if it could be read and parsed. A value is what \<^verbatim>\<open>serde_json\<close> distinguishes.\<close>

definition observe_cargo_test_count_chunks :: "string \<Rightarrow> string \<Rightarrow> accumulator option \<Rightarrow> accumulator option" where
  "observe_cargo_test_count_chunks out err acc =
     map_option (\<lambda>a. push_stderr_chunk err (push_stdout_chunk out a)) acc"

definition finish_cargo_test_count_evidence :: "accumulator option \<Rightarrow> test_count_evidence option" where
  "finish_cargo_test_count_evidence acc =
     map_option (\<lambda>a. let m = accumulator_finish a in
       \<lparr>ev_tests_passed = None, ev_tests_failed = None, ev_tests_detected = tests_detected m,
        ev_tests_run_count = tests_run_count m, ev_status = count_evidence_status m\<rparr>) acc"

datatype json = JNull | JBool bool | JInt int | JFloat | JString string | JArray "json list"
  | JObject "(string \<times> json) list"

fun as_object :: "json \<Rightarrow> (string \<times> json) list option" where
  "as_object (JObject o') = Some o'"
| "as_object _ = None"

fun as_array :: "json \<Rightarrow> json list option" where
  "as_array (JArray xs) = Some xs"
| "as_array _ = None"

fun as_bool :: "json \<Rightarrow> bool option" where
  "as_bool (JBool b) = Some b"
| "as_bool _ = None"

fun as_str :: "json \<Rightarrow> string option" where
  "as_str (JString s) = Some s"
| "as_str _ = None"

fun as_u64 :: "json \<Rightarrow> nat option" where
  "as_u64 (JInt n) = (if 0 \<le> n \<and> nat n \<le> u64_max then Some (nat n) else None)"
| "as_u64 _ = None"

definition json_get :: "json \<Rightarrow> string \<Rightarrow> json option" where
  "json_get v key = Option.bind (as_object v) (\<lambda>o'. map_of o' key)"

definition report_count :: "(string \<times> json) list \<Rightarrow> string \<Rightarrow> nat option" where
  "report_count obj key = filter_option (\<lambda>n. n \<le> 1000000) (Option.bind (map_of obj key) as_u64)"

definition assertion_index :: "json \<Rightarrow> nat option" where
  "assertion_index a =
     Option.bind (Option.bind (json_get a ''status'') as_str) (\<lambda>s.
       if s = ''passed'' then Some 0
       else if s = ''failed'' then Some 1
       else if List.member [''pending'', ''skipped'', ''disabled''] s then Some 2
       else if s = ''todo'' then Some 3
       else None)"

fun observe_assertions :: "json list \<Rightarrow> nat list \<Rightarrow> nat list option" where
  "observe_assertions [] obs = Some obs"
| "observe_assertions (a # as) obs =
     Option.bind (assertion_index a) (\<lambda>i.
     Option.bind (u64_checked_add (obs ! i) 1) (\<lambda>n. observe_assertions as (obs[i := n])))"

fun observe_suites :: "json list \<Rightarrow> nat list \<Rightarrow> nat list option" where
  "observe_suites [] obs = Some obs"
| "observe_suites (s # ss) obs =
     Option.bind (Option.bind (json_get s ''assertionResults'') as_array) (\<lambda>as.
     Option.bind (observe_assertions as obs) (observe_suites ss))"

definition parse_report :: "json \<Rightarrow> bool \<Rightarrow> (nat \<times> nat) option" where
  "parse_report v process_passed =
     Option.bind (as_object v) (\<lambda>obj.
     Option.bind (report_count obj ''numPassedTests'') (\<lambda>passed.
     Option.bind (report_count obj ''numFailedTests'') (\<lambda>failed.
     Option.bind (report_count obj ''numPendingTests'') (\<lambda>pending.
     Option.bind (report_count obj ''numTodoTests'') (\<lambda>todo.
     Option.bind (Option.bind (map_of obj ''success'') as_bool) (\<lambda>success.
       if success \<noteq> process_passed then None
       else
         Option.bind (report_count obj ''numTotalTests'') (\<lambda>total.
         Option.bind (u64_checked_add passed failed) (\<lambda>n.
         Option.bind (u64_checked_add n pending) (\<lambda>n.
         Option.bind (u64_checked_add n todo) (\<lambda>n.
           if total \<noteq> n \<or> process_passed \<and> failed \<noteq> 0 then None
           else
             Option.bind (Option.bind (map_of obj ''testResults'') as_array) (\<lambda>suites.
             Option.bind (observe_suites suites [0, 0, 0, 0]) (\<lambda>observed.
               if observed \<noteq> [passed, failed, pending, todo] then None
               else Some (passed, failed)))))))))))))"

definition node_report_evidence :: "json option \<Rightarrow> string \<Rightarrow> int option \<Rightarrow> test_count_evidence" where
  "node_report_evidence document status exit_code =
     (case (if status = ''completed'' \<and> exit_code = Some 0 \<or> status = ''failed'' \<and> exit_code = Some 1
            then Option.bind document (\<lambda>v. parse_report v (exit_code = Some 0)) else None) of
        Some (p, f) \<Rightarrow>
          \<lparr>ev_tests_passed = Some p, ev_tests_failed = Some f, ev_tests_detected = True,
           ev_tests_run_count = u64_checked_add p f, ev_status = CompleteSummary\<rparr>
      | None \<Rightarrow>
          \<lparr>ev_tests_passed = None, ev_tests_failed = None, ev_tests_detected = False,
           ev_tests_run_count = None, ev_status = NoCompleteSummary\<rparr>)"

section \<open>Activity\<close>

datatype activity_state = Working | Waiting

datatype activity_phase =
    ProcessRunning | ValidationFormat | ValidationCheck | ValidationTest
  | CargoWaitingForBuildLock | CargoCompiling | CargoChecking

datatype activity_source = RunnerExecution | ValidationPlan | CargoOutput

record shell_job_activity =
  act_state :: activity_state
  act_phase :: activity_phase
  act_source :: activity_source

definition activity_is_canonical :: "shell_job_activity \<Rightarrow> bool" where
  "activity_is_canonical a \<longleftrightarrow>
     List.member
       [(Working, ProcessRunning, RunnerExecution),
        (Working, ValidationFormat, ValidationPlan),
        (Working, ValidationCheck, ValidationPlan),
        (Working, ValidationTest, ValidationPlan),
        (Waiting, CargoWaitingForBuildLock, CargoOutput),
        (Working, CargoCompiling, CargoOutput),
        (Working, CargoChecking, CargoOutput)]
       (act_state a, act_phase a, act_source a)"

section \<open>Validation metadata\<close>

record validation_metadata =
  project_validation :: "validation_provenance option"
  vm_tool :: string
  vm_kind :: string
  steps :: "validation_step list"
  effective_timeout_secs :: nat
  sync_wait_secs :: nat
  vm_adapter :: string
  validation_target_id :: "string option"
  source_fence :: "validation_source_fence option"
  minimum_tests :: "nat option"
  require_tests :: "bool option"
  no_run :: "bool option"

definition hex24_suffix :: "string \<Rightarrow> bool" where
  "hex24_suffix s \<longleftrightarrow> length s = 24 \<and> list_all is_ascii_hexdigit s"

definition TEST_ADAPTERS :: "string list" where
  "TEST_ADAPTERS = [''cargo_test'', ''go_test'', ''python:pytest:test'', ''node:tap:test'',
     ''node:vitest:test'', ''node:jest:test'']"

definition project_all_packages :: "validation_metadata \<Rightarrow> bool" where
  "project_all_packages m =
     (case Option.bind (project_validation m) (\<lambda>p. vr_scope (vp_request p)) of
        None \<Rightarrow> False | Some s \<Rightarrow> all_packages s)"

definition metadata_envelope_valid :: "validation_metadata \<Rightarrow> bool" where
  "metadata_envelope_valid m \<longleftrightarrow>
     (vm_tool m = ''project_validate'' \<or> vm_adapter m = vm_tool m)
     \<and> length (steps m) = 1
     \<and> (case steps m of [] \<Rightarrow> False
        | s # _ \<Rightarrow> if project_all_packages m then is_canonical_project_step s else is_canonical s)
     \<and> 1 \<le> effective_timeout_secs m
     \<and> sync_wait_secs m \<le> effective_timeout_secs m
     \<and> (case validation_target_id m of None \<Rightarrow> True
        | Some v \<Rightarrow> (case strip_prefix ''target:'' v of None \<Rightarrow> False | Some s \<Rightarrow> hex24_suffix s))
     \<and> (case source_fence m of None \<Rightarrow> True | Some f \<Rightarrow> fence_is_valid f)
     \<and> (case minimum_tests m of None \<Rightarrow> True | Some n \<Rightarrow> 1 \<le> n \<and> n \<le> CARGO_TEST_MIN_TESTS_MAX)"

definition metadata_test_policy_valid :: "validation_metadata \<Rightarrow> bool" where
  "metadata_test_policy_valid m \<longleftrightarrow>
     (minimum_tests m \<noteq> None \<longrightarrow> List.member TEST_ADAPTERS (vm_adapter m))
     \<and> (require_tests m \<noteq> None \<or> no_run m \<noteq> None \<longrightarrow> List.member TEST_ADAPTERS (vm_adapter m))
     \<and> \<not> (no_run m = Some True \<and> minimum_tests m \<noteq> None)
     \<and> \<not> (require_tests m = Some True \<and> (minimum_tests m = None \<or> no_run m = Some True))"

definition backend_adapters :: "string \<Rightarrow> string list" where
  "backend_adapters backend =
     (if backend = ''rust'' then [''cargo_fmt'', ''cargo_check'', ''cargo_clippy'', ''cargo_test'']
      else if backend = ''go'' then [''go_vet'', ''go_test'']
      else if backend = ''python'' then [''python:pytest:test'', ''python:ruff:check'', ''python:ruff:format'']
      else if backend = ''node'' then [''node:script:check'', ''node:tap:test'', ''node:vitest:test'', ''node:jest:test'']
      else [])"

definition node_provenance_valid :: "validation_metadata \<Rightarrow> validation_provenance \<Rightarrow> bool" where
  "node_provenance_valid m p \<longleftrightarrow>
     (let r = vp_request p in
      (vm_adapter m = ''node:script:check'' \<and> List.member [ActionCheck, ActionLint] (vr_action r)
        \<or> List.member [''node:tap:test'', ''node:vitest:test'', ''node:jest:test''] (vm_adapter m)
          \<and> vr_action r = ActionTest)
      \<and> vr_scope r = None \<and> vr_dependency_policy r = None
      \<and> \<not> (vr_action r = ActionLint \<and> args (hd (steps m)) \<noteq> [''--run'', ''lint''])
      \<and> \<not> (vm_adapter m = ''node:script:check'' \<and> vr_test r \<noteq> None))"

definition project_provenance_valid :: "validation_metadata \<Rightarrow> validation_provenance \<Rightarrow> bool" where
  "project_provenance_valid m p \<longleftrightarrow>
     validation_provenance_is_valid p
     \<and> kind_for_backend (vr_action (vp_request p)) (vp_backend p) = vm_kind m
     \<and> \<not> (vp_backend p = ''rust'' \<and> project_all_packages m \<and> \<not> is_project_workspace_cargo (hd (steps m)))
     \<and> List.member (backend_adapters (vp_backend p)) (vm_adapter m)
     \<and> (vp_backend p = ''node'' \<longrightarrow> node_provenance_valid m p)
     \<and> (require_tests m, minimum_tests m) = test_requirements (vp_request p)
     \<and> no_run m = None"

definition metadata_adapter_step_valid :: "validation_metadata \<Rightarrow> validation_step \<Rightarrow> bool" where
  "metadata_adapter_step_valid m step =
     (let adapter = vm_adapter m; project = (vm_tool m = ''project_validate'') in
      if adapter = ''cargo_fmt'' then vm_kind m = ''format'' \<and> step_name step = ''format'' \<and> program step = ''cargo''
      else if adapter = ''cargo_clippy'' then
        project \<and> vm_kind m = ''lint'' \<and> step_name step = ''lint'' \<and> program step = ''cargo''
        \<and> (case project_validation m of None \<Rightarrow> False | Some p \<Rightarrow> vr_action (vp_request p) = ActionLint)
      else if adapter = ''cargo_check'' then vm_kind m = ''check'' \<and> step_name step = ''check'' \<and> program step = ''cargo''
      else if adapter = ''cargo_test'' then vm_kind m = ''test'' \<and> step_name step = ''test'' \<and> program step = ''cargo''
      else if adapter = ''go_test'' then vm_kind m = ''test'' \<and> is_structured_go_test_json step
      else if adapter = ''python:pytest:test'' then project \<and> vm_kind m = ''test'' \<and> is_structured_pytest step
      else if adapter = ''python:ruff:check'' \<or> adapter = ''python:ruff:format'' then
        project \<and> adapter = ''python:ruff:'' @ vm_kind m \<and> vm_kind m = step_name step \<and> is_structured_ruff step
      else if adapter = ''go_vet'' then vm_kind m = ''check'' \<and> step_name step = ''check'' \<and> program step = ''go''
      else if adapter = ''node:vitest:test'' \<or> adapter = ''node:jest:test'' then
        project \<and> vm_kind m = ''test''
        \<and> (case node_json_framework step of None \<Rightarrow> False | Some fw \<Rightarrow> adapter = ''node:'' @ fw @ '':test'')
      else if adapter = ''node:tap:test'' then
        project \<and> vm_kind m = ''test'' \<and> step_name step = ''test'' \<and> program step = ''node''
        \<and> args step = [''--test'', ''--test-reporter=tap''] \<and> step_env step = []
      else if adapter = ''node:script:check'' then project \<and> vm_kind m = ''check'' \<and> is_structured_node_check step
      else False)"

definition metadata_is_valid :: "validation_metadata \<Rightarrow> bool" where
  "metadata_is_valid m \<longleftrightarrow>
     metadata_envelope_valid m
     \<and> metadata_test_policy_valid m
     \<and> (if vm_tool m = ''project_validate''
        then (case project_validation m of None \<Rightarrow> False | Some p \<Rightarrow> project_provenance_valid m p)
        else project_validation m = None)
     \<and> metadata_adapter_step_valid m (hd (steps m))"

section \<open>Structured execution\<close>

datatype script_language = Sh | Bash | Powershell | Python | Javascript | Typescript

definition VALIDATION_ASSERTION_NAME_MAX_CHARS :: nat where
  "VALIDATION_ASSERTION_NAME_MAX_CHARS = 120"

definition PROCESS_ARG_MAX_COUNT :: nat where
  "PROCESS_ARG_MAX_COUNT = 256"

definition SCRIPT_MIN_BYTES :: nat where
  "SCRIPT_MIN_BYTES = 1"

definition SCRIPT_MAX_BYTES :: nat where
  "SCRIPT_MAX_BYTES = 512 * 1024"

definition SCRIPT_ARG_MAX_COUNT :: nat where
  "SCRIPT_ARG_MAX_COUNT = 256"

record structured_execution_metadata =
  execution_source :: string
  se_language :: "script_language option"
  script_bytes :: "nat option"
  arg_count :: nat
  stdin_present :: bool
  validation_identity :: "string option"
  assertion_name :: "string option"
  validation_tool :: "string option"

definition format_structured_metadata :: structured_execution_metadata where
  "format_structured_metadata =
     \<lparr>execution_source = ''project_format'', se_language = None, script_bytes = None, arg_count = 0,
      stdin_present = False, validation_identity = None, assertion_name = None, validation_tool = None\<rparr>"

definition identity_has_prefix :: "structured_execution_metadata \<Rightarrow> string \<Rightarrow> bool" where
  "identity_has_prefix e p = (case validation_identity e of None \<Rightarrow> False | Some v \<Rightarrow> starts_with v p)"

definition identity_valid :: "string \<Rightarrow> bool" where
  "identity_valid v =
     (case strip_prefix ''target:'' v of
        Some s \<Rightarrow> hex24_suffix s
      | None \<Rightarrow> (case strip_prefix ''command:'' v of
            Some s \<Rightarrow> hex24_suffix s
          | None \<Rightarrow> (case strip_prefix ''assertion:'' v of Some s \<Rightarrow> hex24_suffix s | None \<Rightarrow> False)))"

definition assertion_source :: "structured_execution_metadata \<Rightarrow> bool" where
  "assertion_source e \<longleftrightarrow> List.member [''run_process'', ''run_script''] (execution_source e)"

definition assertion_name_valid :: "structured_execution_metadata \<Rightarrow> string \<Rightarrow> bool" where
  "assertion_name_valid e v \<longleftrightarrow>
     v = trim v \<and> trim v \<noteq> [] \<and> length (chars (trim v)) \<le> VALIDATION_ASSERTION_NAME_MAX_CHARS
     \<and> \<not> has_control (trim v) \<and> identity_has_prefix e ''assertion:'' \<and> assertion_source e"

definition execution_shape_valid :: "structured_execution_metadata \<Rightarrow> bool" where
  "execution_shape_valid e =
     (let plain = (se_language e = None \<and> script_bytes e = None \<and> arg_count e \<le> PROCESS_ARG_MAX_COUNT);
          anonymous = (\<not> stdin_present e \<and> validation_identity e = None \<and> validation_tool e = None
                       \<and> assertion_name e = None);
          src = execution_source e in
      if src = ''run_process'' \<or> src = ''run_detached_process'' then plain
      else if src = ''run_process_interactive'' then plain \<and> anonymous
      else if src = ''project_format'' then e = format_structured_metadata
      else if src = ''project_build'' then plain \<and> anonymous
      else if src = ''run_skill_resource'' then plain \<and> stdin_present e
      else if src = ''run_script'' then
        se_language e \<noteq> None
        \<and> (case script_bytes e of None \<Rightarrow> False | Some n \<Rightarrow> SCRIPT_MIN_BYTES \<le> n \<and> n \<le> SCRIPT_MAX_BYTES)
        \<and> arg_count e \<le> SCRIPT_ARG_MAX_COUNT
      else False)"

definition execution_is_valid :: "structured_execution_metadata \<Rightarrow> bool" where
  "execution_is_valid e \<longleftrightarrow>
     (case validation_identity e of None \<Rightarrow> True | Some v \<Rightarrow> identity_valid v)
     \<and> (identity_has_prefix e ''assertion:'' \<longrightarrow> assertion_source e)
     \<and> (case validation_tool e of None \<Rightarrow> True
        | Some t \<Rightarrow> List.member [''cargo_fmt'', ''cargo_check'', ''cargo_test''] t
            \<and> (identity_has_prefix e ''target:'' \<or> identity_has_prefix e ''assertion:''))
     \<and> (case assertion_name e of None \<Rightarrow> True | Some n \<Rightarrow> assertion_name_valid e n)
     \<and> execution_shape_valid e"

section \<open>Context\<close>

record shell_job_context =
  runtime_project_id :: "string option"
  workflow_session_id :: "string option"
  ctx_ssh_resource :: "string option"
  ctx_project_cwd :: "string option"
  ctx_cwd :: "string option"
  ctx_purpose :: "string option"
  ctx_shell :: "string option"
  ctx_command_preview :: string
  ctx_validation_steps :: "string list"
  ctx_validation :: "validation_metadata option"
  ctx_structured_execution :: "structured_execution_metadata option"

definition validation_steps_are_valid :: "shell_job_context \<Rightarrow> bool" where
  "validation_steps_are_valid c \<longleftrightarrow>
     length (ctx_validation_steps c) \<le> 3
     \<and> list_all (\<lambda>(i, s). List.member [''format'', ''check'', ''lint'', ''test''] s
           \<and> \<not> List.member (take i (ctx_validation_steps c)) s)
         (List.enumerate 0 (ctx_validation_steps c))"

definition validation_metadata_is_valid :: "shell_job_context \<Rightarrow> bool" where
  "validation_metadata_is_valid c =
     (case ctx_validation c of None \<Rightarrow> True
      | Some m \<Rightarrow> metadata_is_valid m \<and> map step_name (steps m) = ctx_validation_steps c)"

definition is_valid_shell :: "string \<Rightarrow> bool" where
  "is_valid_shell s = List.member [''sh'', ''bash'', ''bash_login'', ''powershell'', ''python'', ''javascript'',
     ''typescript'', ''direct_argv'', ''configured'', ''custom'', ''remote''] s"

section \<open>Infrastructure failures\<close>

definition VALIDATION_STEP_SPAWN_FAILED_CODE :: string where
  "VALIDATION_STEP_SPAWN_FAILED_CODE = ''validation_step_spawn_failed''"

definition VALIDATION_TOOL_UNAVAILABLE_CODE :: string where
  "VALIDATION_TOOL_UNAVAILABLE_CODE = ''validation_tool_unavailable''"

definition VALIDATION_STEP_WAIT_FAILED_CODE :: string where
  "VALIDATION_STEP_WAIT_FAILED_CODE = ''validation_step_wait_failed''"

definition validation_infrastructure_failure_code :: "string \<Rightarrow> string option" where
  "validation_infrastructure_failure_code e =
     (if List.member [VALIDATION_STEP_SPAWN_FAILED_CODE, VALIDATION_TOOL_UNAVAILABLE_CODE,
          VALIDATION_STEP_WAIT_FAILED_CODE] e
      then Some e else None)"

section \<open>Evidence a Runner produces is accepted\<close>

lemma observe_line_detects:
  "complete_summary_found agg \<longrightarrow> agg_detected agg \<Longrightarrow>
     complete_summary_found (line_effect l agg) \<longrightarrow> agg_detected (line_effect l agg)"
  by (auto simp: line_effect_def observe_line_def Let_def split: option.splits)

lemma fold_detects:
  "complete_summary_found agg \<longrightarrow> agg_detected agg \<Longrightarrow>
     complete_summary_found (fold line_effect ls agg) \<longrightarrow> agg_detected (fold line_effect ls agg)"
proof (induction ls arbitrary: agg)
  case (Cons l ls)
  show ?case using Cons.IH [OF observe_line_detects [OF Cons.prems]] by simp
qed simp

lemma chunks_are_events:
  "fold (\<lambda>(out, err). observe_cargo_test_count_chunks out err) cs (Some a) =
     Some (fold feed (concat (map (\<lambda>(out, err). [StdoutChunk out, StderrChunk err]) cs)) a)"
  by (induction cs arbitrary: a) (auto simp: observe_cargo_test_count_chunks_def)

text \<open>
  C38. Evidence built by the Runner always passes the server's check. Whatever output a Cargo test step
  writes, in whatever chunks, the evidence the Runner sends at its end is valid; and whatever report a Node test framework
  leaves behind, the evidence read from it is valid. A terminal update is therefore never turned into a
  protocol violation by its own test counts.
\<close>

theorem runner_evidence_valid:
  "(\<exists>e. finish_cargo_test_count_evidence
          (fold (\<lambda>(out, err). observe_cargo_test_count_chunks out err) cs (Some new_accumulator)) = Some e
        \<and> evidence_is_valid e)
   \<and> evidence_is_valid (node_report_evidence document status exit)"
proof
  have d: "complete_summary_found (fold line_effect ls default_aggregate)
      \<longrightarrow> agg_detected (fold line_effect ls default_aggregate)" for ls
    by (rule fold_detects) (simp add: default_aggregate_def)
  show "\<exists>e. finish_cargo_test_count_evidence
          (fold (\<lambda>(out, err). observe_cargo_test_count_chunks out err) cs (Some new_accumulator)) = Some e
        \<and> evidence_is_valid e"
    unfolding chunks_are_events finish_cargo_test_count_evidence_def option.map Let_def accumulator_lines
    using d by (simp add: evidence_is_valid_def aggregate_finish_def Let_def count_is_proven_def del: fold_append)
  have n: "report_count obj key = Some n \<Longrightarrow> n \<le> 1000000" for obj key n
    by (auto simp: report_count_def filter_option_def split: option.splits if_splits)
  have "parse_report v b = Some (p, f) \<Longrightarrow> p \<le> 1000000 \<and> f \<le> 1000000" for v b p f
    by (auto simp: parse_report_def bind_eq_Some_conv split: if_splits dest!: n)
  then show "evidence_is_valid (node_report_evidence document status exit)"
    by (fastforce simp: node_report_evidence_def evidence_is_valid_def count_is_proven_def u64_checked_add_def u64_max_def
        bind_eq_Some_conv split: option.splits if_splits)
qed

section \<open>Validation metadata names its step\<close>

definition adapter_program :: "string \<Rightarrow> string" where
  "adapter_program adapter =
     (if List.member [''cargo_fmt'', ''cargo_check'', ''cargo_clippy'', ''cargo_test''] adapter then ''cargo''
      else if List.member [''go_vet'', ''go_test''] adapter then ''go''
      else if List.member [''python:pytest:test'', ''python:ruff:check'', ''python:ruff:format''] adapter then ''python''
      else ''node'')"

lemma ruff_step: "is_structured_ruff s \<Longrightarrow> program s = ''python''"
  by (auto simp: is_structured_ruff_def python_ruff_def split: if_splits)

lemma framework_step: "node_json_framework s = Some fw \<Longrightarrow> step_name s = ''test'' \<and> program s = ''node''"
  by (auto simp: node_json_framework_def node_json_test_def split: if_splits)

lemma adapter_programs:
  "adapter_program ''cargo_fmt'' = ''cargo''" "adapter_program ''cargo_check'' = ''cargo''"
  "adapter_program ''cargo_clippy'' = ''cargo''" "adapter_program ''cargo_test'' = ''cargo''"
  "adapter_program ''go_vet'' = ''go''" "adapter_program ''go_test'' = ''go''"
  "adapter_program ''python:pytest:test'' = ''python''" "adapter_program ''python:ruff:check'' = ''python''"
  "adapter_program ''python:ruff:format'' = ''python''" "adapter_program ''node:script:check'' = ''node''"
  "adapter_program ''node:tap:test'' = ''node''" "adapter_program ''node:vitest:test'' = ''node''"
  "adapter_program ''node:jest:test'' = ''node''"
  by code_simp+

lemma structured_step_names:
  "is_structured_go_test_json s \<Longrightarrow> step_name s = ''test'' \<and> program s = ''go''"
  "is_structured_pytest s \<Longrightarrow> step_name s = ''test'' \<and> program s = ''python''"
  "is_structured_node_check s \<Longrightarrow> step_name s = ''check'' \<and> program s = ''node''"
  "(case node_json_framework s of None \<Rightarrow> False | Some fw \<Rightarrow> P fw) \<Longrightarrow> step_name s = ''test'' \<and> program s = ''node''"
  unfolding is_structured_go_test_json_def is_structured_pytest_def is_structured_node_check_def
  using framework_step by (blast, blast, blast, cases "node_json_framework s") auto

lemma if_elim: "(if b then x else y) \<Longrightarrow> (b \<Longrightarrow> x \<Longrightarrow> R) \<Longrightarrow> (\<not> b \<Longrightarrow> y \<Longrightarrow> R) \<Longrightarrow> R"
  by (simp split: if_splits)

lemma adapter_step_agrees:
  assumes "metadata_adapter_step_valid m s"
  shows "step_name s = vm_kind m \<and> program s = adapter_program (vm_adapter m)"
  using assms unfolding metadata_adapter_step_valid_def Let_def
  by (elim if_elim conjE disjE FalseE) (simp_all only: adapter_programs ruff_step structured_step_names)

text \<open>
  Validation metadata that passes its check describes exactly one canonical step, and the recorded
  adapter, kind and step names cannot disagree with it: the step's name is the kind, its program is the
  one its adapter stands for, and the context lists exactly that step. Its waits are bounded by its
  timeout and a required test count is never zero.
\<close>

theorem valid_metadata_names_its_step:
  assumes "validation_metadata_is_valid c" "ctx_validation c = Some m"
  shows "\<exists>s. steps m = [s] \<and> is_canonical_with_project_workspace (project_all_packages m) s \<and> step_name s = vm_kind m
    \<and> program s = adapter_program (vm_adapter m) \<and> ctx_validation_steps c = [vm_kind m]
    \<and> 1 \<le> effective_timeout_secs m \<and> sync_wait_secs m \<le> effective_timeout_secs m
    \<and> (require_tests m = Some True \<longrightarrow> (\<exists>n. minimum_tests m = Some n \<and> 1 \<le> n \<and> n \<le> CARGO_TEST_MIN_TESTS_MAX))"
proof -
  from assms have v: "metadata_is_valid m" "map step_name (steps m) = ctx_validation_steps c"
    by (simp_all add: validation_metadata_is_valid_def)
  then obtain s where s: "steps m = [s]"
    by (auto simp: metadata_is_valid_def metadata_envelope_valid_def length_Suc_conv)
  then have "step_name s = vm_kind m \<and> program s = adapter_program (vm_adapter m)"
    using v(1) adapter_step_agrees by (simp add: metadata_is_valid_def)
  moreover have "is_canonical_with_project_workspace (project_all_packages m) s"
    using v(1) s
    by (cases "project_all_packages m")
      (simp_all add: metadata_is_valid_def metadata_envelope_valid_def is_canonical_project_step_def is_canonical_def)
  ultimately show ?thesis
    using v s by (auto simp: metadata_is_valid_def metadata_envelope_valid_def metadata_test_policy_valid_def split: option.splits)
qed

definition sample_metadata :: validation_metadata where
  "sample_metadata =
     \<lparr>project_validation = None, vm_tool = ''cargo_check'', vm_kind = ''check'',
      steps = [\<lparr>step_name = ''check'', program = ''cargo'', args = [''check'', ''--locked''], step_env = []\<rparr>],
      effective_timeout_secs = 600, sync_wait_secs = 30, vm_adapter = ''cargo_check'', validation_target_id = None,
      source_fence = None, minimum_tests = None, require_tests = None, no_run = None\<rparr>"

definition sample_context :: shell_job_context where
  "sample_context =
     \<lparr>runtime_project_id = None, workflow_session_id = None, ctx_ssh_resource = None, ctx_project_cwd = None,
      ctx_cwd = None, ctx_purpose = None, ctx_shell = None, ctx_command_preview = ''make'', ctx_validation_steps = [''check''],
      ctx_validation = Some sample_metadata, ctx_structured_execution = None\<rparr>"

theorem valid_metadata_names_its_step_witness:
  "validation_metadata_is_valid sample_context \<and> (\<exists>s. steps sample_metadata = [s] \<and> program s = ''cargo'')"
proof -
  have v: "validation_metadata_is_valid sample_context" by code_simp
  have m: "ctx_validation sample_context = Some sample_metadata" by (simp add: sample_context_def)
  have "adapter_program (vm_adapter sample_metadata) = ''cargo''" by code_simp
  then show ?thesis using v valid_metadata_names_its_step [OF v m] by fastforce
qed

end
