(* ===== verification/Job_Record.thy ===== *)
theory Job_Record
  imports Job_Lifecycle Job_Log Validation_Metadata "HOL-Library.Word"
begin

text \<open>
  The Registry's Job record and the operations on one record: the data of
  \<^verbatim>\<open>webcodex-runner-registry/src/state.rs\<close>, the Job wire types of
  \<^verbatim>\<open>webcodex-core/src/runner_protocol/job.rs\<close>, and the record-level operations of \<^verbatim>\<open>jobs.rs\<close>.

  Values of serde types that the Registry only stores, compares and copies (Codex metadata, replay
  intents) are represented by their canonical serialisation. The observation revision is an atomic 64-bit counter, so it wraps; the
  sinks shared by all Jobs (receipt and terminal-event candidates) are updates returned beside the
  record.
\<close>

section \<open>Wire types\<close>

type_synonym wire_json = string

record validation_progress_state =
  completed :: nat
  current_step :: "string option"
  failed_step :: "string option"

record shell_job_snapshot =
  snap_job_id :: string
  snap_request_id :: string
  snap_status :: string
  update_seq :: nat
  snap_created_at :: int
  snap_started_at :: "int option"
  snap_ended_at :: "int option"
  snap_exit_code :: "int option"
  snap_duration_ms :: "nat option"
  snap_error :: "string option"
  snap_command_execution_state :: "shell_command_execution_state option"
  snap_context :: shell_job_context
  snap_stdout :: shell_job_stream_snapshot
  snap_stderr :: shell_job_stream_snapshot
  snap_validation_progress :: "validation_progress_state option"
  snap_test_count_evidence :: "test_count_evidence option"
  snap_format_mutation :: "format_mutation_report option"
  snap_build_artifacts :: "build_artifact list option"
  snap_activity :: "shell_job_activity option"

record shell_job_inventory =
  active_complete :: bool
  inv_jobs :: "shell_job_snapshot list"

section \<open>The record\<close>

datatype runner_access_group = SharedKey string | ProjectGrant string | OpenAnonymous

datatype shell_job_visibility = Public | HiddenUntilHandoff | CleanupPending

datatype job_recovery_phase = Recovering | Reconciled | LostAfterReconcile

fun recovery_phase_as_wire :: "job_recovery_phase \<Rightarrow> string" where
  "recovery_phase_as_wire Recovering = ''recovering''"
| "recovery_phase_as_wire Reconciled = ''reconciled''"
| "recovery_phase_as_wire LostAfterReconcile = ''lost_after_reconcile''"

datatype job_recovery_reason =
    RunnerTransportDisconnected
  | RunnerTransportStale
  | RunnerRequestNotDispatched
  | RunnerDisconnectedWithoutReconciliation
  | SharedKeyRunnerExpired
  | RunnerInventoryMissing
  | RunnerInstanceReplaced
  | RunnerRecoveryDeadlineExceeded
  | ServerRestartReconciliation
  | SameInstanceReconciliation
  | SameInstanceUpdateReconciliation
  | DetachedInstanceTransfer

fun recovery_reason_as_wire :: "job_recovery_reason \<Rightarrow> string" where
  "recovery_reason_as_wire RunnerTransportDisconnected = ''runner_transport_disconnected''"
| "recovery_reason_as_wire RunnerTransportStale = ''runner_transport_stale''"
| "recovery_reason_as_wire RunnerRequestNotDispatched = ''runner_request_not_dispatched''"
| "recovery_reason_as_wire RunnerDisconnectedWithoutReconciliation =
     ''runner_disconnected_without_reconciliation''"
| "recovery_reason_as_wire SharedKeyRunnerExpired = ''shared_key_runner_expired''"
| "recovery_reason_as_wire RunnerInventoryMissing = ''runner_inventory_missing''"
| "recovery_reason_as_wire RunnerInstanceReplaced = ''runner_instance_replaced''"
| "recovery_reason_as_wire RunnerRecoveryDeadlineExceeded = ''runner_recovery_deadline_exceeded''"
| "recovery_reason_as_wire ServerRestartReconciliation = ''server_restart_reconciliation''"
| "recovery_reason_as_wire SameInstanceReconciliation = ''same_instance_reconciliation''"
| "recovery_reason_as_wire SameInstanceUpdateReconciliation = ''same_instance_update_reconciliation''"
| "recovery_reason_as_wire DetachedInstanceTransfer = ''detached_instance_transfer''"

definition implies_lost_after_reconcile :: "job_recovery_reason \<Rightarrow> bool" where
  "implies_lost_after_reconcile reason \<longleftrightarrow>
     List.member [RunnerInventoryMissing, RunnerInstanceReplaced, RunnerRecoveryDeadlineExceeded] reason"

record job_recovery_state =
  phase :: "job_recovery_phase option"
  recovered_after_server_restart :: bool
  reconciled_at :: "int option"
  reason :: "job_recovery_reason option"
  recovering_since :: "int option"

definition recovering :: "job_recovery_state \<Rightarrow> bool" where
  "recovering r \<longleftrightarrow> phase r = Some Recovering"

definition public_state :: "job_recovery_state \<Rightarrow> string option" where
  "public_state r = map_option recovery_phase_as_wire (phase r)"

definition public_reason :: "job_recovery_state \<Rightarrow> string option" where
  "public_reason r = map_option recovery_reason_as_wire (reason r)"

text \<open>The two candidate sinks are shared handles: a record only knows whether it has them.\<close>

record job_observation_state =
  epoch :: string
  revision :: "64 word"
  last_meaningful_revision :: "64 word"
  terminal_observed_at :: "int option"
  has_receipt_candidates :: bool
  has_terminal_event_candidates :: bool
  receipt_expires_at :: "int option"
  receipt_persisted :: bool

definition new_observation :: "string \<Rightarrow> job_observation_state" where
  "new_observation e =
     \<lparr>epoch = e, revision = 0, last_meaningful_revision = 0, terminal_observed_at = None,
      has_receipt_candidates = False, has_terminal_event_candidates = False,
      receipt_expires_at = None, receipt_persisted = False\<rparr>"

record shell_job_record =
  job_id :: string
  request_id :: "string option"
  client_id :: string
  auth_group :: "runner_access_group option"
  owner_at_admission :: "string option"
  runner_instance_id :: string
  kind :: string
  project_id :: "string option"
  session_id :: "string option"
  ssh_resource :: "string option"
  cwd :: "string option"
  project_cwd :: "string option"
  purpose :: "string option"
  shell :: "string option"
  command_preview :: string
  detached_idempotency_intent :: "wire_json option"
  lifecycle :: runner_job_lifecycle
  created_at :: int
  started_at :: "int option"
  ended_at :: "int option"
  exit_code :: "int option"
  duration_ms :: "nat option"
  stdout :: shell_job_log_state
  stderr :: shell_job_log_state
  error :: "string option"
  command_execution_state :: "shell_command_execution_state option"
  structured_execution :: "structured_execution_metadata option"
  codex :: "wire_json option"
  validation_steps :: "string list"
  validation :: "validation_metadata option"
  validation_progress :: "validation_progress_state option"
  test_count_evidence :: "test_count_evidence option"
  format_mutation :: "format_mutation_report option"
  build_artifacts :: "build_artifact list option"
  activity :: "shell_job_activity option"
  visibility :: shell_job_visibility
  last_update_seq :: nat
  recovery :: job_recovery_state
  observation :: job_observation_state

definition recovery_active :: "shell_job_record \<Rightarrow> bool" where
  "recovery_active job \<longleftrightarrow> is_runner_active (lifecycle job) \<and> recovering (recovery job)"

definition public_status :: "shell_job_record \<Rightarrow> string" where
  "public_status job = (if recovery_active job then ''recovering'' else as_wire (lifecycle job))"

section \<open>Operations on one record\<close>

datatype job_effect = ReceiptCandidate string | TerminalEventCandidate string

type_synonym job_step = "shell_job_record \<Rightarrow> shell_job_record \<times> job_effect list"

definition then_step :: "job_step \<Rightarrow> job_step \<Rightarrow> job_step" where
  "then_step f g job = (case f job of (job', es) \<Rightarrow> case g job' of (job'', es') \<Rightarrow> (job'', es @ es'))"

definition observe_job_terminal :: "int \<Rightarrow> job_step" where
  "observe_job_terminal now job =
     (if is_terminal (lifecycle job) \<and> terminal_observed_at (observation job) = None then
        (job\<lparr>observation := (observation job)\<lparr>terminal_observed_at := Some now\<rparr>\<rparr>,
         if has_terminal_event_candidates (observation job)
           then [TerminalEventCandidate (job_id job)] else [])
      else (job, []))"

text \<open>\<^verbatim>\<open>fetch_add(1).saturating_add(1)\<close>: the stored counter wraps, the reported value saturates.\<close>

definition notify_job_observation :: "bool \<Rightarrow> job_step" where
  "notify_job_observation meaningful job =
     (let old = revision (observation job);
          reported = (if old = - 1 then - 1 else old + 1);
          obs = (observation job)\<lparr>revision := old + 1\<rparr>;
          obs = (if meaningful then obs\<lparr>last_meaningful_revision := reported\<rparr> else obs)
      in (job\<lparr>observation := obs\<rparr>,
          if is_terminal (lifecycle job) \<and> has_receipt_candidates (observation job)
            then [ReceiptCandidate (job_id job)] else []))"

definition notify_job_update :: job_step where
  "notify_job_update = notify_job_observation True"

definition notify_job_heartbeat :: job_step where
  "notify_job_heartbeat = notify_job_observation False"

definition begin_job_recovery :: "int \<Rightarrow> job_recovery_reason \<Rightarrow> job_step" where
  "begin_job_recovery now why job =
     (if is_terminal (lifecycle job) \<or> lifecycle job = Queued then (job, [])
      else
        let r = recovery job;
            r = (if recovering r then r else r\<lparr>recovering_since := Some now\<rparr>);
            r = r\<lparr>phase := Some Recovering, reason := Some why\<rparr>
        in notify_job_update (job\<lparr>recovery := r, ended_at := None, activity := None\<rparr>))"

definition mark_job_lost :: "int \<Rightarrow> job_recovery_reason \<Rightarrow> string \<Rightarrow> job_step" where
  "mark_job_lost now why message job =
     (if is_terminal (lifecycle job) then (job, [])
      else
        then_step (observe_job_terminal now)
          (\<lambda>job. notify_job_update
             (job\<lparr>ended_at := (case ended_at job of None \<Rightarrow> Some now | Some t \<Rightarrow> Some t),
                  error := Some message,
                  command_execution_state :=
                    (if structured_execution job \<noteq> None then
                       Some (if started_at job \<noteq> None then CesOutcomeUnknown else CesNotStarted)
                     else command_execution_state job),
                  recovery := (recovery job)
                    \<lparr>phase := (if implies_lost_after_reconcile why then Some LostAfterReconcile else None),
                     reason := Some why, recovering_since := None\<rparr>\<rparr>))
          (job\<lparr>lifecycle := Lost, activity := None\<rparr>))"

section \<open>Facts about record steps\<close>

text \<open>The parts of a record that a step may not touch.\<close>

definition same_identity :: "shell_job_record \<Rightarrow> shell_job_record \<Rightarrow> bool" where
  "same_identity a b \<longleftrightarrow> job_id a = job_id b \<and> request_id a = request_id b \<and> client_id a = client_id b
     \<and> auth_group a = auth_group b \<and> owner_at_admission a = owner_at_admission b
     \<and> visibility a = visibility b \<and> last_update_seq a = last_update_seq b"

lemma same_identity_refl [simp]: "same_identity a a"
  by (simp add: same_identity_def)

lemma observe_job_terminal_fields:
  "lifecycle (fst (observe_job_terminal now job)) = lifecycle job"
  "recovery (fst (observe_job_terminal now job)) = recovery job"
  "same_identity (fst (observe_job_terminal now job)) job"
  by (simp_all add: observe_job_terminal_def same_identity_def)

lemma notify_fields:
  "lifecycle (fst (notify_job_observation b job)) = lifecycle job"
  "recovery (fst (notify_job_observation b job)) = recovery job"
  "same_identity (fst (notify_job_observation b job)) job"
  "terminal_observed_at (observation (fst (notify_job_observation b job))) = terminal_observed_at (observation job)"
  "ended_at (fst (notify_job_observation b job)) = ended_at job"
  by (simp_all add: notify_job_observation_def Let_def same_identity_def)

lemma begin_job_recovery_fields:
  "lifecycle (fst (begin_job_recovery now why job)) = lifecycle job"
  "same_identity (fst (begin_job_recovery now why job)) job"
  by (simp_all add: begin_job_recovery_def notify_job_update_def notify_job_observation_def Let_def
      same_identity_def)

lemma mark_job_lost_terminal:
  "is_terminal (lifecycle job) \<Longrightarrow> mark_job_lost now why message job = (job, [])"
  by (simp add: mark_job_lost_def)

lemma mark_job_lost_fields:
  "same_identity (fst (mark_job_lost now why message job)) job"
  "lifecycle (fst (mark_job_lost now why message job)) =
     (if is_terminal (lifecycle job) then lifecycle job else Lost)"
  "is_terminal (lifecycle (fst (mark_job_lost now why message job)))"
  by (simp_all add: mark_job_lost_def then_step_def observe_job_terminal_def notify_job_update_def
      notify_job_observation_def Let_def same_identity_def)

section \<open>A sample record\<close>

text \<open>A running shell Job, for the concrete instances of the theorems.\<close>

definition sample_recovery :: job_recovery_state where
  "sample_recovery = \<lparr>phase = None, recovered_after_server_restart = False, reconciled_at = None,
     reason = None, recovering_since = None\<rparr>"

definition sample_job :: "string \<Rightarrow> string \<Rightarrow> string \<Rightarrow> runner_job_lifecycle \<Rightarrow> shell_job_record" where
  "sample_job jid cid iid l =
     \<lparr>job_id = jid, request_id = Some (''req-'' @ jid), client_id = cid, auth_group = None,
      owner_at_admission = Some ''ada'', runner_instance_id = iid, kind = ''shell'', project_id = None,
      session_id = None, ssh_resource = None, cwd = None, project_cwd = None, purpose = None, shell = None,
      command_preview = ''make'', detached_idempotency_intent = None, lifecycle = l, created_at = 10,
      started_at = Some 11, ended_at = None, exit_code = None, duration_ms = None, stdout = default_log,
      stderr = default_log, error = None, command_execution_state = None, structured_execution = None,
      codex = None, validation_steps = [], validation = None, validation_progress = None,
      test_count_evidence = None, format_mutation = None, build_artifacts = None, activity = None,
      visibility = Public, last_update_seq = 3, recovery = sample_recovery,
      observation = new_observation ''e''\<rparr>"

lemmas sample_defs = sample_job_def sample_recovery_def new_observation_def default_log_def

end
