(* ===== verification/Job_Index.thy ===== *)
theory Job_Index
  imports Job_Record "HOL-Library.AList"
begin

text \<open>
  The process-local active-Job index of \<^verbatim>\<open>webcodex-runner-registry/src/job_index.rs\<close>. A hash map is an
  association list with distinct keys, in its iteration order; a hash set is a list without
  duplicates. Mutations mark the identifiers they touch as dirty and \<^verbatim>\<open>reconcile_active\<close> repairs the
  index for exactly these, so the index is exact whenever it is read.

  The interface is the locale \<open>indexed_store\<close>: a keyed store with a lazily repaired index of its live
  entries. Its client lemma is proved once, for every sequence of operations.
\<close>

section \<open>The interface\<close>

datatype ('k, 'v) store_op = Put 'k 'v | Modify 'k "'v \<Rightarrow> 'v" | Remove 'k | Flush

text \<open>What an operation means for the plain map of records.\<close>

fun store_spec :: "('k, 'v) store_op \<Rightarrow> ('k \<Rightarrow> 'v option) \<Rightarrow> 'k \<Rightarrow> 'v option" where
  "store_spec (Put k v) m = m(k \<mapsto> v)"
| "store_spec (Modify k f) m = m(k := map_option f (m k))"
| "store_spec (Remove k) m = m(k := None)"
| "store_spec Flush m = m"

locale indexed_store =
  fixes get :: "'s \<Rightarrow> 'k \<Rightarrow> 'v option"
    and put :: "'k \<Rightarrow> 'v \<Rightarrow> 's \<Rightarrow> 's"
    and modify :: "'k \<Rightarrow> ('v \<Rightarrow> 'v) \<Rightarrow> 's \<Rightarrow> 's"
    and remove :: "'k \<Rightarrow> 's \<Rightarrow> 's"
    and flush :: "'s \<Rightarrow> 's"
    and index :: "'s \<Rightarrow> 'k set"
    and live :: "'v \<Rightarrow> bool"
    and inv :: "'s \<Rightarrow> bool"
  assumes get_put: "inv s \<Longrightarrow> get (put k v s) = (get s)(k \<mapsto> v)"
    and get_modify: "inv s \<Longrightarrow> get (modify k f s) = (get s)(k := map_option f (get s k))"
    and get_remove: "inv s \<Longrightarrow> get (remove k s) = (get s)(k := None)"
    and get_flush: "inv s \<Longrightarrow> get (flush s) = get s"
    and inv_put: "inv s \<Longrightarrow> inv (put k v s)"
    and inv_modify: "inv s \<Longrightarrow> inv (modify k f s)"
    and inv_remove: "inv s \<Longrightarrow> inv (remove k s)"
    and inv_flush: "inv s \<Longrightarrow> inv (flush s)"
    and index_flush: "inv s \<Longrightarrow> index (flush s) = {k. \<exists>v. get s k = Some v \<and> live v}"
begin

fun run :: "('k, 'v) store_op \<Rightarrow> 's \<Rightarrow> 's" where
  "run (Put k v) s = put k v s"
| "run (Modify k f) s = modify k f s"
| "run (Remove k) s = remove k s"
| "run Flush s = flush s"

lemma run_step: "inv s \<Longrightarrow> inv (run x s) \<and> get (run x s) = store_spec x (get s)"
  by (cases x) (simp_all add: inv_put inv_modify inv_remove inv_flush get_put get_modify get_remove get_flush)

lemma run_all: "inv s \<Longrightarrow> inv (fold run ops s) \<and> get (fold run ops s) = fold store_spec ops (get s)"
  by (induction ops arbitrary: s) (simp_all add: run_step)

lemma index_after:
  "inv s \<Longrightarrow> index (flush (fold run ops s)) = {k. \<exists>v. fold store_spec ops (get s) k = Some v \<and> live v}"
  by (simp add: index_flush run_all)

end

section \<open>The Job records\<close>

record job_records =
  records :: "(string \<times> shell_job_record) list"
  active_ids_set :: "string list"
  dirty :: "string list"

definition empty_records :: job_records where
  "empty_records = \<lparr>records = [], active_ids_set = [], dirty = []\<rparr>"

definition get_job :: "job_records \<Rightarrow> string \<Rightarrow> shell_job_record option" where
  "get_job js jid = map_of (records js) jid"

definition insert_job :: "string \<Rightarrow> shell_job_record \<Rightarrow> job_records \<Rightarrow> job_records" where
  "insert_job jid job js =
     js\<lparr>dirty := List.insert jid (dirty js), records := AList.update jid job (records js)\<rparr>"

definition insert_if_absent :: "shell_job_record \<Rightarrow> job_records \<Rightarrow> job_records" where
  "insert_if_absent job js =
     (if get_job js (job_id job) = None then insert_job (job_id job) job js else js)"

text \<open>A mutation through \<^verbatim>\<open>get_mut\<close>: nothing happens when the Job is absent.\<close>

definition modify_job :: "string \<Rightarrow> (shell_job_record \<Rightarrow> shell_job_record) \<Rightarrow> job_records \<Rightarrow> job_records" where
  "modify_job jid f js =
     (case get_job js jid of
        None \<Rightarrow> js
      | Some job \<Rightarrow> js\<lparr>dirty := List.insert jid (dirty js), records := AList.update jid (f job) (records js)\<rparr>)"

definition remove_job :: "string \<Rightarrow> job_records \<Rightarrow> job_records" where
  "remove_job jid js =
     js\<lparr>active_ids_set := removeAll jid (active_ids_set js), dirty := removeAll jid (dirty js),
        records := AList.delete jid (records js)\<rparr>"

definition job_is_active :: "shell_job_record \<Rightarrow> bool" where
  "job_is_active job \<longleftrightarrow> is_active (lifecycle job)"

definition reconcile_one :: "(string \<times> shell_job_record) list \<Rightarrow> string \<Rightarrow> string list \<Rightarrow> string list" where
  "reconcile_one rs jid acts =
     (case map_of rs jid of
        Some job \<Rightarrow> if job_is_active job then List.insert jid acts else removeAll jid acts
      | None \<Rightarrow> removeAll jid acts)"

definition reconcile_active :: "job_records \<Rightarrow> job_records" where
  "reconcile_active js =
     js\<lparr>active_ids_set := fold (reconcile_one (records js)) (dirty js) (active_ids_set js), dirty := []\<rparr>"

definition active_ids :: "job_records \<Rightarrow> string list \<times> job_records" where
  "active_ids js = (let js = reconcile_active js in (active_ids_set js, js))"

section \<open>The index is exact\<close>

text \<open>Outside the dirty identifiers the index agrees with the records.\<close>

definition index_inv :: "job_records \<Rightarrow> bool" where
  "index_inv js \<longleftrightarrow> (\<forall>jid. jid \<notin> set (dirty js) \<longrightarrow>
     (jid \<in> set (active_ids_set js) \<longleftrightarrow> (\<exists>job. get_job js jid = Some job \<and> job_is_active job)))"

lemma reconcile_one_set:
  "set (reconcile_one rs jid acts) =
     (if \<exists>job. map_of rs jid = Some job \<and> job_is_active job then insert jid (set acts) else set acts - {jid})"
  by (auto simp: reconcile_one_def split: option.splits)

lemma fold_reconcile_set:
  "x \<in> set (fold (reconcile_one rs) ids acts) \<longleftrightarrow>
     (if x \<in> set ids then \<exists>job. map_of rs x = Some job \<and> job_is_active job else x \<in> set acts)"
proof (induction ids arbitrary: acts)
  case (Cons jid ids)
  then show ?case by (auto simp: reconcile_one_set)
qed simp

interpretation job_store: indexed_store get_job insert_job modify_job remove_job reconcile_active
    "\<lambda>js. set (active_ids_set js)" job_is_active index_inv
proof unfold_locales
  fix s k v f
  assume inv: "index_inv s"
  show "get_job (insert_job k v s) = (get_job s)(k \<mapsto> v)"
    by (rule ext) (simp add: get_job_def insert_job_def update_conv')
  show "get_job (modify_job k f s) = (get_job s)(k := map_option f (get_job s k))"
    by (rule ext) (simp add: get_job_def modify_job_def update_conv' split: option.splits)
  show "get_job (remove_job k s) = (get_job s)(k := None)"
    by (rule ext) (simp add: get_job_def remove_job_def delete_conv')
  show "get_job (reconcile_active s) = get_job s"
    by (rule ext) (simp add: get_job_def reconcile_active_def)
  show "index_inv (insert_job k v s)"
    using inv by (auto simp: index_inv_def get_job_def insert_job_def update_conv')
  show "index_inv (modify_job k f s)"
    using inv by (auto simp: index_inv_def get_job_def modify_job_def update_conv' split: option.splits)
  show "index_inv (remove_job k s)"
    using inv by (auto simp: index_inv_def get_job_def remove_job_def delete_conv')
  show "index_inv (reconcile_active s)"
    using inv by (auto simp: index_inv_def get_job_def reconcile_active_def fold_reconcile_set)
  show "set (active_ids_set (reconcile_active s)) = {k. \<exists>v. get_job s k = Some v \<and> job_is_active v}"
    using inv by (auto simp: index_inv_def get_job_def reconcile_active_def fold_reconcile_set split: if_splits)
qed

lemma index_inv_empty: "index_inv empty_records"
  by (simp add: index_inv_def empty_records_def get_job_def)

text \<open>An operation on the Job records.\<close>

fun run_job_op :: "(string, shell_job_record) store_op \<Rightarrow> job_records \<Rightarrow> job_records" where
  "run_job_op (Put jid job) js = insert_job jid job js"
| "run_job_op (Modify jid f) js = modify_job jid f js"
| "run_job_op (Remove jid) js = remove_job jid js"
| "run_job_op Flush js = reconcile_active js"

lemma run_job_op_eq: "run_job_op = job_store.run"
proof (intro ext)
  fix x js
  show "run_job_op x js = job_store.run x js" by (cases x) simp_all
qed

text \<open>
  C35. The active-Job index is exact whenever it is read: after any sequence of insertions, in-place
  mutations, removals and repairs, \<^verbatim>\<open>active_ids\<close> returns exactly the identifiers whose current record has
  an active lifecycle, and the records themselves are what the sequence of updates describes.
\<close>

theorem active_index_exact:
  "set (fst (active_ids (fold run_job_op ops empty_records)))
     = {jid. \<exists>job. fold store_spec ops Map.empty jid = Some job \<and> is_active (lifecycle job)}
   \<and> get_job (fold run_job_op ops empty_records) = fold store_spec ops Map.empty"
proof -
  have e: "get_job empty_records = Map.empty"
    by (rule ext) (simp add: get_job_def empty_records_def)
  show ?thesis
    using job_store.index_after [OF index_inv_empty, of ops] job_store.run_all [OF index_inv_empty, of ops]
    by (simp add: active_ids_def Let_def e job_is_active_def run_job_op_eq)
qed

end
