(* ===== verification/Project_Summary.thy ===== *)
theory Project_Summary
  imports Validation_Steps
begin

text \<open>
  The project summaries a Runner reports and the state of their paged synchronisation
  (\<^verbatim>\<open>RunnerProjectSummary\<close>, \<^verbatim>\<open>ShellProjectInventoryPage\<close> and \<^verbatim>\<open>ShellProjectInventoryStatus\<close> of
  \<^verbatim>\<open>webcodex-core/src/runner_protocol.rs\<close>; \<^verbatim>\<open>ProjectInventoryState\<close> of
  \<^verbatim>\<open>webcodex-runner-registry/src/state.rs\<close>; the checks of \<^verbatim>\<open>validation.rs\<close> and the pure part of
  \<^verbatim>\<open>project_inventory.rs\<close>).

  The JSON serialiser, the digest and the UUID parser are parameters, collected in \<open>inventory_codec\<close>.
\<close>

section \<open>Identifiers\<close>

definition MAX_CLIENT_ID_LEN :: nat where
  "MAX_CLIENT_ID_LEN = 80"

definition validate_id :: "string \<Rightarrow> string \<Rightarrow> (unit, string) result" where
  "validate_id v field =
     (if v = [] \<or> MAX_CLIENT_ID_LEN < length v
        then Err (field @ '' must be 1..='' @ show_nat MAX_CLIENT_ID_LEN @ '' characters'')
      else if \<not> list_all (\<lambda>c. is_ascii_alphanumeric c \<or> c = CHR ''-'' \<or> c = CHR ''_'' \<or> c = CHR ''.'') v
        then Err (field @ '' may only contain ASCII letters, digits, '' @ quoted ''-'' @ '', '' @ quoted ''_''
                  @ '', and '' @ quoted ''.'')
      else Ok ())"

definition MAX_AGENT_INSTANCE_ID_LEN :: nat where
  "MAX_AGENT_INSTANCE_ID_LEN = 128"

definition validate_runner_instance_id :: "string \<Rightarrow> (unit, string) result" where
  "validate_runner_instance_id v =
     (if v = [] then Err ''agent_instance_id must not be empty''
      else if MAX_AGENT_INSTANCE_ID_LEN < length v
        then Err (''agent_instance_id is too long; maximum is '' @ show_nat MAX_AGENT_INSTANCE_ID_LEN @ '' characters'')
      else if \<not> list_all (\<lambda>c. is_ascii_alphanumeric c \<or> c = CHR ''-'' \<or> c = CHR ''_'') v
        then Err (''agent_instance_id may only contain ASCII letters, digits, '' @ quoted ''-'' @ '', and '' @ quoted ''_'')
      else Ok ())"

section \<open>Summaries\<close>

datatype runner_project_lineage = ManagedWorktreeSource string string string

record runner_project_summary =
  ps_id :: string
  ps_name :: "string option"
  ps_path :: string
  ps_allow_patch :: bool
  ps_kind :: "string option"
  ps_registration_source :: "string option"
  ps_description :: "string option"
  ps_hooks :: "string list"
  ps_disabled :: bool
  ps_revision :: "string option"
  ps_registration_incarnation :: "string option"
  ps_root_fingerprint :: "string option"
  ps_lineage :: "runner_project_lineage option"
  ps_git_branch :: "string option"
  ps_git_head :: "string option"
  ps_git_dirty :: "bool option"
  ps_updated_at :: int
  ps_shell_profile :: "string option"

definition PROJECT_INVENTORY_PAGE_MAX_SUMMARIES :: nat where
  "PROJECT_INVENTORY_PAGE_MAX_SUMMARIES = 64"

definition PROJECT_INVENTORY_PAGE_MAX_SERIALIZED_BYTES :: nat where
  "PROJECT_INVENTORY_PAGE_MAX_SERIALIZED_BYTES = 256 * 1024"

definition PROJECT_INVENTORY_SNAPSHOT_MAX_SERIALIZED_BYTES :: nat where
  "PROJECT_INVENTORY_SNAPSHOT_MAX_SERIALIZED_BYTES = 16 * 1024 * 1024"

definition PROJECT_INVENTORY_GENERATION_MAX_BYTES :: nat where
  "PROJECT_INVENTORY_GENERATION_MAX_BYTES = 96"

definition PROJECT_INVENTORY_STAGING_TTL_SECS :: int where
  "PROJECT_INVENTORY_STAGING_TTL_SECS = 120"

definition PROJECT_INVENTORY_MAX_CONCURRENT_SYNCS :: nat where
  "PROJECT_INVENTORY_MAX_CONCURRENT_SYNCS = 8"

definition PROJECT_ROOT_FINGERPRINT_PREFIX :: string where
  "PROJECT_ROOT_FINGERPRINT_PREFIX = ''wc_projroot_''"

definition id_text :: "string \<Rightarrow> bool" where
  "id_text v \<longleftrightarrow> list_all (\<lambda>c. is_ascii_alphanumeric c \<or> List.member [CHR ''-'', CHR ''_'', CHR ''.''] c) v"

definition valid_project_root_fingerprint :: "string \<Rightarrow> bool" where
  "valid_project_root_fingerprint v =
     (case strip_prefix PROJECT_ROOT_FINGERPRINT_PREFIX v of
        None \<Rightarrow> False
      | Some hex \<Rightarrow> length hex = 64 \<and> list_all is_ascii_hexdigit hex)"

definition valid_git_sha :: "string \<Rightarrow> bool" where
  "valid_git_sha v \<longleftrightarrow> (length v = 40 \<or> length v = 64) \<and> list_all is_ascii_hexdigit v"

text \<open>An optional text that is too long or contains a NUL byte.\<close>

definition text_bad :: "nat \<Rightarrow> string option \<Rightarrow> bool" where
  "text_bad n v = (case v of None \<Rightarrow> False | Some t \<Rightarrow> n < length t \<or> has_nul t)"

fun lineage_bad :: "string \<Rightarrow> runner_project_lineage \<Rightarrow> bool" where
  "lineage_bad pid (ManagedWorktreeSource source fingerprint base_sha) \<longleftrightarrow>
     source = [] \<or> 64 < length source \<or> source = pid \<or> \<not> id_text source
     \<or> \<not> valid_project_root_fingerprint fingerprint \<or> \<not> valid_git_sha base_sha"

definition revision_bad :: "string \<Rightarrow> bool" where
  "revision_bad revision =
     (case strip_prefix ''sha256:'' revision of
        None \<Rightarrow> True
      | Some hex \<Rightarrow> length hex \<noteq> 64 \<or> \<not> list_all is_ascii_hexdigit hex)"

definition validate_project_summary :: "(string \<Rightarrow> bool) \<Rightarrow> runner_project_summary \<Rightarrow> (unit, string) result" where
  "validate_project_summary uuid_ok p =
     (if ps_id p = [] \<or> 64 < length (ps_id p) \<or> \<not> id_text (ps_id p) then Err ''project_summary_invalid_id''
      else if ps_path p = [] \<or> 4096 < length (ps_path p) \<or> has_nul (ps_path p) then Err ''project_summary_invalid_path''
      else if ps_name p = Some [] \<or> text_bad 120 (ps_name p) then Err ''project_summary_invalid_name''
      else if text_bad 500 (ps_description p) then Err ''project_summary_invalid_description''
      else if text_bad 120 (ps_kind p) \<or> text_bad 120 (ps_shell_profile p) \<or> text_bad 512 (ps_git_branch p)
          \<or> text_bad 128 (ps_git_head p) then Err ''project_summary_invalid_metadata''
      else if 64 < length (ps_hooks p) \<or> list_ex (\<lambda>h. h = [] \<or> 120 < length h \<or> has_nul h) (ps_hooks p)
        then Err ''project_summary_invalid_hooks''
      else if (case ps_root_fingerprint p of None \<Rightarrow> False | Some f \<Rightarrow> \<not> valid_project_root_fingerprint f)
        then Err ''project_summary_invalid_root_fingerprint''
      else if (case ps_registration_incarnation p of None \<Rightarrow> False | Some v \<Rightarrow> \<not> uuid_ok v)
        then Err ''project_summary_invalid_registration_incarnation''
      else if (case ps_lineage p of None \<Rightarrow> False | Some l \<Rightarrow> lineage_bad (ps_id p) l)
        then Err ''project_summary_invalid_lineage''
      else if (case ps_revision p of None \<Rightarrow> False | Some r \<Rightarrow> revision_bad r)
        then Err ''project_summary_invalid_revision''
      else Ok ())"

section \<open>Pages and the synchronisation state\<close>

record project_inventory_page =
  pg_generation :: string
  pg_snapshot_sequence :: nat
  page_index :: nat
  pg_total_reported :: nat
  pg_complete :: bool
  pg_projects :: "runner_project_summary list"

record inventory_codec =
  projects_json :: "runner_project_summary list \<Rightarrow> string option"
  page_json :: "project_inventory_page \<Rightarrow> string option"
  sha256_hex :: "string \<Rightarrow> string"
  uuid_ok :: "string \<Rightarrow> bool"

fun validate_summaries :: "(string \<Rightarrow> bool) \<Rightarrow> runner_project_summary list \<Rightarrow> (unit, string) result" where
  "validate_summaries ok [] = Ok ()"
| "validate_summaries ok (p # ps) = and_then (validate_project_summary ok p) (\<lambda>_. validate_summaries ok ps)"

definition validate_project_summary_batch ::
    "inventory_codec \<Rightarrow> runner_project_summary list \<Rightarrow> (nat, string) result" where
  "validate_project_summary_batch codec ps =
     and_then (validate_summaries (uuid_ok codec) ps) (\<lambda>_.
       (case projects_json codec ps of
          None \<Rightarrow> Err ''project_inventory_serialization_failed''
        | Some json \<Rightarrow>
            if PROJECT_INVENTORY_SNAPSHOT_MAX_SERIALIZED_BYTES < length json
              then Err ''project_inventory_snapshot_too_large''
            else if card (set (map ps_id ps)) \<noteq> length ps then Err ''project_inventory_duplicate_project_id''
            else Ok (length json)))"

record project_inventory_status =
  sync_state :: string
  st_generation :: "string option"
  st_total_reported :: "nat option"
  total_synced :: nat
  last_error_code :: "string option"
  last_sync_at :: "int option"
  max_summaries_per_page :: nat
  max_serialized_bytes_per_page :: nat

definition inventory_status ::
    "string \<Rightarrow> string option \<Rightarrow> nat option \<Rightarrow> nat \<Rightarrow> string option \<Rightarrow> int option \<Rightarrow> project_inventory_status" where
  "inventory_status state gen reported synced err at =
     \<lparr>sync_state = state, st_generation = gen, st_total_reported = reported, total_synced = synced,
      last_error_code = err, last_sync_at = at,
      max_summaries_per_page = PROJECT_INVENTORY_PAGE_MAX_SUMMARIES,
      max_serialized_bytes_per_page = PROJECT_INVENTORY_PAGE_MAX_SERIALIZED_BYTES\<rparr>"

definition pending_status :: "nat \<Rightarrow> project_inventory_status" where
  "pending_status synced = inventory_status ''pending'' None None synced None None"

record project_inventory_staging =
  sg_generation :: string
  sg_snapshot_sequence :: nat
  sg_total_reported :: nat
  next_page_index :: nat
  sg_projects :: "runner_project_summary list"
  seen_ids :: "string set"
  serialized_bytes :: nat
  sg_started_at :: int

record project_inventory_state =
  pi_status :: project_inventory_status
  staging :: "project_inventory_staging option"
  retired_generations :: "string list"
  highest_snapshot_sequence :: nat
  last_page_generation :: "string option"
  last_page_index :: "nat option"
  last_page_digest :: "string option"

definition pending_inventory_state :: "nat \<Rightarrow> project_inventory_state" where
  "pending_inventory_state synced =
     \<lparr>pi_status = pending_status synced, staging = None, retired_generations = [], highest_snapshot_sequence = 0,
      last_page_generation = None, last_page_index = None, last_page_digest = None\<rparr>"

definition MAX_RETIRED_PROJECT_GENERATIONS :: nat where
  "MAX_RETIRED_PROJECT_GENERATIONS = 16"

definition retire_generation :: "string \<Rightarrow> project_inventory_state \<Rightarrow> project_inventory_state" where
  "retire_generation gen st =
     (if gen = [] \<or> List.member (retired_generations st) gen then st
      else st\<lparr>retired_generations := pop_front_to MAX_RETIRED_PROJECT_GENERATIONS (retired_generations st @ [gen])\<rparr>)"

text \<open>\<^verbatim>\<open>staging.take()\<close> followed by the retirement of its generation.\<close>

definition drop_staging :: "project_inventory_state \<Rightarrow> project_inventory_state" where
  "drop_staging st =
     (case staging st of None \<Rightarrow> st | Some s \<Rightarrow> retire_generation (sg_generation s) (st\<lparr>staging := None\<rparr>))"

definition preserve_authoritative_pending :: "project_inventory_state \<Rightarrow> nat \<Rightarrow> project_inventory_state" where
  "preserve_authoritative_pending existing synced =
     (let st = drop_staging existing in
      st\<lparr>pi_status := inventory_status ''pending'' (st_generation (pi_status st)) None synced None
           (last_sync_at (pi_status st))\<rparr>)"

definition validate_generation :: "string \<Rightarrow> (unit, string) result" where
  "validate_generation gen =
     (if gen = [] \<or> PROJECT_INVENTORY_GENERATION_MAX_BYTES < length gen \<or> \<not> id_text gen
        then Err ''project_inventory_invalid_generation''
      else Ok ())"

definition validate_page :: "inventory_codec \<Rightarrow> project_inventory_page \<Rightarrow> (nat \<times> string, string) result" where
  "validate_page codec page =
     and_then (validate_generation (pg_generation page)) (\<lambda>_.
     and_then (guard_err (pg_snapshot_sequence page = 0) ''project_inventory_invalid_snapshot_sequence'') (\<lambda>_.
     and_then (guard_err (PROJECT_INVENTORY_PAGE_MAX_SUMMARIES < length (pg_projects page))
       ''project_inventory_page_summary_limit'') (\<lambda>_.
     and_then (if pg_total_reported page = 0
       then guard_err (page_index page \<noteq> 0 \<or> \<not> pg_complete page \<or> pg_projects page \<noteq> [])
              ''project_inventory_empty_snapshot_malformed''
       else guard_err (pg_projects page = []) ''project_inventory_empty_page'') (\<lambda>_.
     and_then (validate_project_summary_batch codec (pg_projects page)) (\<lambda>_.
       (case page_json codec page of
          None \<Rightarrow> Err ''project_inventory_serialization_failed''
        | Some bytes \<Rightarrow>
            if PROJECT_INVENTORY_PAGE_MAX_SERIALIZED_BYTES < length bytes then Err ''project_inventory_page_too_large''
            else Ok (length bytes, sha256_hex codec bytes)))))))"

end
