(* ===== verification/Runner_Operation.thy ===== *)
theory Runner_Operation
  imports Job_Record
begin

text \<open>
  The typed operations a request carries to a Runner (\<^verbatim>\<open>RunnerOperation\<close> of \<^verbatim>\<open>webcodex-core/src/runner_operation.rs\<close>, as
  far as the Registry looks at them), the closed key vocabulary of computer input
  (\<^verbatim>\<open>computer_input_contract.rs\<close>), and the fence that binds a request to what it was admitted for
  (\<^verbatim>\<open>webcodex-runner-registry/src/dispatch_fence.rs\<close>).

  The payloads that only the Runner reads are left out of the constructors.
\<close>

section \<open>Operations\<close>

datatype computer_kind =
    ListWindows | ListApplications | LaunchApplication | ListDisplays | SnapshotDisplay | ReadClipboard
  | WriteClipboard | PointerMove | PointerClick | Snapshot | SnapshotRegion | AccessibilityStatus
  | AccessibilityTree | ElementState | ActivateWindow | ComputerControl | ScrollToElement | ComputerScroll
  | KeyInput | InputText

fun is_effect :: "computer_kind \<Rightarrow> bool" where
  "is_effect LaunchApplication = True"
| "is_effect WriteClipboard = True"
| "is_effect PointerMove = True"
| "is_effect PointerClick = True"
| "is_effect ActivateWindow = True"
| "is_effect ComputerControl = True"
| "is_effect ScrollToElement = True"
| "is_effect ComputerScroll = True"
| "is_effect KeyInput = True"
| "is_effect InputText = True"
| "is_effect _ = False"

definition computer_is_large_image :: "computer_kind \<Rightarrow> bool" where
  "computer_is_large_image k \<longleftrightarrow> List.member [Snapshot, SnapshotRegion, SnapshotDisplay] k"

record computer_operation =
  co_control_epoch :: "string option"
  co_kind :: computer_kind
  co_payload :: string

datatype runner_job_operation =
    StartShell string | StartValidation string | StartBuild string | StartFormat string | StartProcess string
  | StartInteractiveProcess string | StartDetachedProcess string | StartScript string | StartSkillResource string
  | JobStop string

fun operation_job_id :: "runner_job_operation \<Rightarrow> string" where
  "operation_job_id (StartShell j) = j"
| "operation_job_id (StartValidation j) = j"
| "operation_job_id (StartBuild j) = j"
| "operation_job_id (StartFormat j) = j"
| "operation_job_id (StartProcess j) = j"
| "operation_job_id (StartInteractiveProcess j) = j"
| "operation_job_id (StartDetachedProcess j) = j"
| "operation_job_id (StartScript j) = j"
| "operation_job_id (StartSkillResource j) = j"
| "operation_job_id (JobStop j) = j"

text \<open>
  Of the file operations the Registry tells apart reading a file, reading an artifact (with the content of its
  request) and reading a chunk of an artifact export.
\<close>

datatype runner_file_operation =
    FileRead | ReadProjectArtifact "string option" | ReadProjectArtifactExportChunk | FileOther string

record job_input_request =
  in_job_id :: string
  in_runner_instance_id :: string
  in_project :: string

datatype runner_operation =
    OpRunShell | OpRunProcess | OpRunScript | OpRunInternalPosixScript | OpRunSkillResource
  | OpJob runner_job_operation
  | OpJobInput job_input_request
  | OpFile runner_file_operation
  | OpProject
  | OpComputer computer_operation
  | OpBrowser bool
  | OpPlanProjectValidation | OpPlanProjectBuild | OpPlanProjectFormat | OpValidation | OpLsp
  | OpPersistentShell string string string
  | OpMcpGateway string string
  | OpPluginGateway "(string \<times> string) option"
  | OpCodingAgent
  | OpSkill bool
  | OpSshResource | OpRunnerConfig | OpRunnerInstruction

text \<open>
  The arguments of the gateway operations are the provider they name and its instance, that of a browser operation whether it
  takes a screenshot, that of a Skill operation whether it manages Skills; a persistent-shell operation has the
  identities of the shell, the session and the project.
\<close>

section \<open>Keys\<close>

definition COMPUTER_KEY_INPUT_KEYS :: "string list" where
  "COMPUTER_KEY_INPUT_KEYS =
     [''enter'', ''escape'', ''tab'', ''arrow_up'', ''arrow_down'', ''arrow_left'', ''arrow_right'', ''page_up'', ''page_down'', ''home'', ''end'']"

definition COMPUTER_LETTER_SHORTCUT_KEYS :: "string list" where
  "COMPUTER_LETTER_SHORTCUT_KEYS = [''j'', ''p'']"

definition LETTER_KEYS :: "string list" where
  "LETTER_KEYS = [''a'', ''b'', ''c'', ''d'', ''e'', ''f'', ''g'', ''h'', ''i'', ''j'', ''k'', ''l'', ''m'', ''n'', ''o'', ''p'', ''q'',
     ''r'', ''s'', ''t'', ''u'', ''v'', ''w'', ''x'', ''y'', ''z'']"

definition DIGIT_KEYS :: "string list" where
  "DIGIT_KEYS = [''0'', ''1'', ''2'', ''3'', ''4'', ''5'', ''6'', ''7'', ''8'', ''9'']"

definition FUNCTION_KEYS :: "string list" where
  "FUNCTION_KEYS = [''f1'', ''f2'', ''f3'', ''f4'', ''f5'', ''f6'', ''f7'', ''f8'', ''f9'', ''f10'', ''f11'', ''f12'', ''f13'', ''f14'',
     ''f15'', ''f16'', ''f17'', ''f18'', ''f19'', ''f20'', ''f21'', ''f22'', ''f23'', ''f24'']"

definition EDITING_KEYS :: "string list" where
  "EDITING_KEYS = [''space'', ''backspace'', ''delete'', ''insert'']"

definition PUNCTUATION_KEYS :: "string list" where
  "PUNCTUATION_KEYS = [''semicolon'', ''equal'', ''comma'', ''minus'', ''period'', ''slash'', ''backquote'', ''left_bracket'',
     ''backslash'', ''right_bracket'', ''quote'']"

definition NUMPAD_KEYS :: "string list" where
  "NUMPAD_KEYS = [''numpad_0'', ''numpad_1'', ''numpad_2'', ''numpad_3'', ''numpad_4'', ''numpad_5'', ''numpad_6'', ''numpad_7'',
     ''numpad_8'', ''numpad_9'', ''numpad_add'', ''numpad_subtract'', ''numpad_multiply'', ''numpad_divide'', ''numpad_decimal'',
     ''numpad_enter'']"

definition computer_key_input_keys :: "string list" where
  "computer_key_input_keys =
     concat [COMPUTER_KEY_INPUT_KEYS, LETTER_KEYS, DIGIT_KEYS, FUNCTION_KEYS, EDITING_KEYS, PUNCTUATION_KEYS, NUMPAD_KEYS]"

definition COMPUTER_KEY_INPUT_MODIFIERS :: "string list" where
  "COMPUTER_KEY_INPUT_MODIFIERS = [''shift'', ''control'', ''option'', ''command'']"

fun modifiers_valid :: "string list \<Rightarrow> string list \<Rightarrow> bool" where
  "modifiers_valid seen [] = True"
| "modifiers_valid seen (m # ms) \<longleftrightarrow>
     List.member COMPUTER_KEY_INPUT_MODIFIERS m \<and> \<not> List.member seen m \<and> modifiers_valid (m # seen) ms"

definition validate_computer_key_modifiers :: "string list \<Rightarrow> (unit, string) result" where
  "validate_computer_key_modifiers ms =
     (if length COMPUTER_KEY_INPUT_MODIFIERS < length ms then Err ''computer key input has too many modifiers''
      else if \<not> modifiers_valid [] ms then Err ''computer key input modifiers are invalid or duplicated''
      else Ok ())"

definition validate_computer_key_input :: "string \<Rightarrow> string list \<Rightarrow> (unit, string) result" where
  "validate_computer_key_input key ms =
     (if \<not> List.member computer_key_input_keys key
        then Err ''computer key input key is outside the closed vocabulary''
      else validate_computer_key_modifiers ms)"

definition computer_key_input_capabilities :: "string \<Rightarrow> string list \<Rightarrow> bool \<Rightarrow> string list" where
  "computer_key_input_capabilities key ms general_chords =
     (if List.member COMPUTER_KEY_INPUT_KEYS key then [''computer_key_input'']
      else if \<not> general_chords \<and> List.member COMPUTER_LETTER_SHORTCUT_KEYS key \<and> ms = [''control'']
        then [''computer_key_input'', ''computer_letter_shortcuts'']
      else [''computer_key_input'', ''computer_key_chords''])"

section \<open>Fences\<close>

record runner_access =
  global_visibility :: bool
  owner_bypass :: bool
  username :: "string option"
  access_group :: "runner_access_group option"

record project_dispatch_fence =
  pf_owner :: "string option"
  pf_project_id :: string
  pf_cwd :: string
  pf_runner_instance_id :: "string option"

record mcp_gateway_dispatch_fence =
  mf_runner_instance_id :: string
  mf_provider_id :: string
  mf_provider_instance_id :: string

datatype pending_dispatch_fence =
    Unfenced
  | ProjectFence project_dispatch_fence
  | McpGatewayFence mcp_gateway_dispatch_fence
  | RunnerInstructionFence string
  | RunnerConfigFence string
  | SshResourceFence string
  | SkillFence string
  | ComputerFence string "runner_access option"

definition needs_fence :: "runner_operation \<Rightarrow> bool" where
  "needs_fence operation =
     (case operation of OpMcpGateway _ _ \<Rightarrow> True | OpRunnerInstruction \<Rightarrow> True | OpRunnerConfig \<Rightarrow> True
      | OpSshResource \<Rightarrow> True | OpSkill _ \<Rightarrow> True | _ \<Rightarrow> False)"

definition fence_fits :: "pending_dispatch_fence \<Rightarrow> runner_operation \<Rightarrow> bool" where
  "fence_fits fence operation =
     (case fence of
        Unfenced \<Rightarrow> \<not> needs_fence operation
      | ProjectFence f \<Rightarrow>
          (case operation of
             OpFile _ \<Rightarrow> pf_project_id f \<noteq> [] \<and> pf_cwd f \<noteq> [] \<and> pf_runner_instance_id f \<noteq> Some []
           | _ \<Rightarrow> False)
      | McpGatewayFence f \<Rightarrow>
          (case operation of
             OpMcpGateway provider inst \<Rightarrow>
               mf_runner_instance_id f \<noteq> [] \<and> provider = mf_provider_id f \<and> inst = mf_provider_instance_id f
           | _ \<Rightarrow> False)
      | RunnerInstructionFence i \<Rightarrow> operation = OpRunnerInstruction \<and> i \<noteq> []
      | RunnerConfigFence i \<Rightarrow> operation = OpRunnerConfig \<and> i \<noteq> []
      | SshResourceFence i \<Rightarrow> operation = OpSshResource \<and> i \<noteq> []
      | SkillFence i \<Rightarrow> (case operation of OpSkill _ \<Rightarrow> i \<noteq> [] | _ \<Rightarrow> False)
      | ComputerFence i _ \<Rightarrow>
          (case operation of
             OpComputer c \<Rightarrow>
               i \<noteq> [] \<and> (co_control_epoch c \<noteq> None
                 \<or> List.member [ComputerControl, InputText, AccessibilityTree, KeyInput, ComputerScroll] (co_kind c))
           | _ \<Rightarrow> False))"

definition validate_operation :: "pending_dispatch_fence \<Rightarrow> runner_operation \<Rightarrow> (unit, string) result" where
  "validate_operation fence operation =
     (if fence_fits fence operation then Ok ()
      else Err ''pending dispatch fence is missing or inconsistent with the Runner operation'')"

end
