(* ===== verification/Registry_State.thy ===== *)
theory Registry_State
  imports Job_Index Project_Summary Runner_Operation
begin

text \<open>
  The state behind the Registry mutex (\<^verbatim>\<open>RunnerRegistryInner\<close> of
  \<^verbatim>\<open>webcodex-runner-registry/src/state.rs\<close>) and the operations that several components share: Runner
  liveness, queue and dispatch admission (\<^verbatim>\<open>jobs.rs\<close>), request retirement (\<^verbatim>\<open>requests.rs\<close>), structured
  terminal suppressions (\<^verbatim>\<open>state.rs\<close>) and the on-demand refresh of a Job's status (\<^verbatim>\<open>jobs.rs\<close>).

  Hash maps are association lists with distinct keys in their iteration order, so every theorem holds
  for every order. The clock is an argument: a call reads one time. Waiter channels and the handles of
  notifiers are not state of the model; Runner capabilities are the list of their wire names. Of a Runner's
  registration the record has what an operation reads; descriptive fields that are only shown are left out.
\<close>

section \<open>Runners, leases and the registry\<close>

datatype maintenance_scope = AllRuntimes | RunnerScope string

definition covers :: "maintenance_scope \<Rightarrow> string \<Rightarrow> bool" where
  "covers scope cid \<longleftrightarrow> scope = AllRuntimes \<or> scope = RunnerScope cid"

record maintenance_lease_state =
  scope :: maintenance_scope
  lease_owner :: string
  nonce :: string
  token :: string
  expires :: nat
  lease_runner_instance_id :: "string option"
  expires_at_unix_ms :: nat

record terminal_suppression =
  sup_client_id :: string
  sup_runner_instance_id :: string
  sup_job_id :: string
  sup_request_id :: string
  sup_expires_at :: int

datatype runner_transport = TransportPolling | TransportWebSocket | TransportQuic

record provider_identity =
  pv_provider_id :: string
  pv_provider_instance_id :: string
  pv_name :: string

record runner_policy_summary =
  pol_tool_providers :: "string option"
  pol_mcp_gateway_providers :: "provider_identity list option"

record runner_record =
  rr_client_id :: string
  rr_runner_instance_id :: string
  rr_owner :: "string option"
  rr_features :: "string list"
  last_seen :: int
  rr_auth_group :: "runner_access_group option"
  rr_connection_id :: "string option"
  rr_projects :: "runner_project_summary list"
  rr_inventory :: project_inventory_state
  rr_transport :: runner_transport
  rr_policy :: "runner_policy_summary option"
  rr_registered_at :: int
  rr_disconnected_at :: "int option"
  rr_computer_session_availability :: "bool option"
  rr_computer_control_epoch :: "string option"
  rr_job_concurrency_limit :: "nat option"
  rr_job_capacity_generation :: nat
  rr_coding_agent_providers :: "provider_identity list"
  suppressions :: "terminal_suppression list"

record pending_shell_request =
  pr_client_id :: string
  pr_job_id :: "string option"
  pr_operation :: runner_operation
  pr_fence :: pending_dispatch_fence
  dispatched :: bool

record notifier_entry =
  ne_runner_instance_id :: string
  ne_connection_id :: "string option"

record registry_inner =
  maintenance :: "maintenance_lease_state option"
  runtime_calls :: nat
  runners :: "(string \<times> runner_record) list"
  pending_by_id :: "(string \<times> pending_shell_request) list"
  persistent_waiters :: "string list"
  queues_by_runner :: "(string \<times> string list) list"
  jobs_by_id :: job_records
  request_to_job :: "(string \<times> string) list"
  candidate_sinks :: "job_effect list"
  retired_instances :: "(string \<times> string list) list"
  unregistering_projects :: "(string \<times> nat) list"
  notifiers :: "(string \<times> notifier_entry) list"

definition empty_inner :: registry_inner where
  "empty_inner =
     \<lparr>maintenance = None, runtime_calls = 0, runners = [], pending_by_id = [], persistent_waiters = [],
      queues_by_runner = [], jobs_by_id = empty_records, request_to_job = [], candidate_sinks = [],
      retired_instances = [], unregistering_projects = [], notifiers = []\<rparr>"

section \<open>Terminal suppressions\<close>

definition JOB_TERMINAL_RETENTION_SECS :: int where
  "JOB_TERMINAL_RETENTION_SECS = 86400"

definition JOB_INVENTORY_MAX_TERMINAL_JOBS :: nat where
  "JOB_INVENTORY_MAX_TERMINAL_JOBS = 64"

definition prune_suppressions :: "int \<Rightarrow> runner_record \<Rightarrow> runner_record" where
  "prune_suppressions now r = r\<lparr>suppressions := filter (\<lambda>s. now < sup_expires_at s) (suppressions r)\<rparr>"

definition remember_projected_structured_terminal ::
    "string \<Rightarrow> string \<Rightarrow> int \<Rightarrow> runner_record \<Rightarrow> runner_record" where
  "remember_projected_structured_terminal jid rid now r =
     (let r = prune_suppressions now r;
          kept = filter (\<lambda>s. sup_job_id s \<noteq> jid \<or> sup_request_id s \<noteq> rid) (suppressions r);
          s = \<lparr>sup_client_id = rr_client_id r, sup_runner_instance_id = rr_runner_instance_id r,
               sup_job_id = jid, sup_request_id = rid,
               sup_expires_at = sat_add_i64 now JOB_TERMINAL_RETENTION_SECS\<rparr>
      in r\<lparr>suppressions := pop_front_to JOB_INVENTORY_MAX_TERMINAL_JOBS (kept @ [s])\<rparr>)"

definition suppresses_projected_structured_terminal ::
    "runner_record \<Rightarrow> string \<Rightarrow> string \<Rightarrow> string \<Rightarrow> string \<Rightarrow> int \<Rightarrow> bool" where
  "suppresses_projected_structured_terminal r cid iid jid rid now \<longleftrightarrow>
     list_ex (\<lambda>s. now < sup_expires_at s \<and> sup_client_id s = cid \<and> sup_runner_instance_id s = iid
                  \<and> sup_job_id s = jid \<and> sup_request_id s = rid) (suppressions r)"

section \<open>Liveness and admission\<close>

definition RUNNER_ONLINE_WINDOW_SECS :: int where
  "RUNNER_ONLINE_WINDOW_SECS = 60"

definition MAX_QUEUED_REQUESTS_PER_RUNNER :: nat where
  "MAX_QUEUED_REQUESTS_PER_RUNNER = 256"

definition runner_is_connected_locked :: "int \<Rightarrow> registry_inner \<Rightarrow> string \<Rightarrow> bool" where
  "runner_is_connected_locked now inner cid \<longleftrightarrow>
     (case map_of (runners inner) cid of
        None \<Rightarrow> False
      | Some r \<Rightarrow> sat_sub_i64 now (last_seen r) \<le> RUNNER_ONLINE_WINDOW_SECS)"

definition offline_last_seen :: "int \<Rightarrow> int" where
  "offline_last_seen now = sat_sub_i64 now (sat_add_i64 RUNNER_ONLINE_WINDOW_SECS 1)"

definition assert_active_instance_locked :: "registry_inner \<Rightarrow> string \<Rightarrow> string \<Rightarrow> (unit, string) result" where
  "assert_active_instance_locked inner cid iid =
     (case map_of (runners inner) cid of
        None \<Rightarrow> Err (''unknown shell client: '' @ cid)
      | Some r \<Rightarrow>
          if rr_runner_instance_id r \<noteq> iid
            then Err (''runner '' @ cid @ '' is no longer the active instance (stale or replaced)'')
          else Ok ())"

datatype pending_request_enqueue_error =
    InvalidOperation string
  | UnknownRunner string
  | RunnerOffline string
  | QueueFull string nat
  | Maintenance

fun enqueue_error_display :: "pending_request_enqueue_error \<Rightarrow> string" where
  "enqueue_error_display (InvalidOperation message) = ''invalid canonical Runner operation: '' @ message"
| "enqueue_error_display (UnknownRunner cid) = ''unknown shell client: '' @ cid"
| "enqueue_error_display (RunnerOffline cid) =
     ''runner '' @ cid @ '' is offline (no keepalive within '' @ ''60s); reconnect the Runner before retrying''"
| "enqueue_error_display (QueueFull cid limit) =
     ''too many pending requests for runner '' @ cid @ '' (limit '' @ show_nat limit @ '')''"
| "enqueue_error_display Maintenance = ''runner admission is paused for maintenance''"

definition ensure_queue_capacity_locked ::
    "registry_inner \<Rightarrow> string \<Rightarrow> (unit, pending_request_enqueue_error) result" where
  "ensure_queue_capacity_locked inner cid =
     (let len = (case map_of (queues_by_runner inner) cid of None \<Rightarrow> 0 | Some q \<Rightarrow> length q) in
      if MAX_QUEUED_REQUESTS_PER_RUNNER \<le> len
        then Err (QueueFull cid MAX_QUEUED_REQUESTS_PER_RUNNER) else Ok ())"

definition ensure_dispatch_supported_locked ::
    "int \<Rightarrow> registry_inner \<Rightarrow> string \<Rightarrow> (unit, pending_request_enqueue_error) result" where
  "ensure_dispatch_supported_locked now inner cid =
     (if (case maintenance inner of None \<Rightarrow> False | Some lease \<Rightarrow> covers (scope lease) cid)
        then Err Maintenance
      else if map_of (runners inner) cid = None then Err (UnknownRunner cid)
      else if \<not> runner_is_connected_locked now inner cid then Err (RunnerOffline cid)
      else Ok ())"

section \<open>Requests of Jobs\<close>

text \<open>
  The only insertion of a pending request. \<open>decoded\<close> is the outcome of decoding the wire request into
  its canonical operation; \<open>target\<close> is the client the request itself names.
\<close>

definition enqueue_pending_request_with_fence_locked ::
    "int \<Rightarrow> string \<Rightarrow> string \<Rightarrow> string \<Rightarrow> (runner_operation, string) result \<Rightarrow> pending_dispatch_fence \<Rightarrow> string option
     \<Rightarrow> registry_inner \<Rightarrow> (registry_inner, pending_request_enqueue_error) result" where
  "enqueue_pending_request_with_fence_locked now cid rid target decoded fence jid inner =
     (case and_then decoded (\<lambda>operation. and_then (validate_operation fence operation) (\<lambda>_. Ok operation)) of
        Inl message \<Rightarrow> Err (InvalidOperation message)
      | Inr operation \<Rightarrow>
          and_then (ensure_dispatch_supported_locked now inner cid) (\<lambda>_.
          and_then (ensure_queue_capacity_locked inner cid) (\<lambda>_.
          let q = (case map_of (queues_by_runner inner) cid of None \<Rightarrow> [] | Some q \<Rightarrow> q) in
          Ok (inner\<lparr>queues_by_runner := AList.update cid (q @ [rid]) (queues_by_runner inner),
                    pending_by_id := AList.update rid
                      \<lparr>pr_client_id = target, pr_job_id = jid, pr_operation = operation, pr_fence = fence, dispatched = False\<rparr> (pending_by_id inner)\<rparr>))))"

definition remove_request_from_runner_queue_locked :: "string \<Rightarrow> string \<Rightarrow> registry_inner \<Rightarrow> registry_inner" where
  "remove_request_from_runner_queue_locked cid rid inner =
     (case map_of (queues_by_runner inner) cid of
        None \<Rightarrow> inner
      | Some q \<Rightarrow> inner\<lparr>queues_by_runner := AList.update cid (filter (\<lambda>x. x \<noteq> rid) q) (queues_by_runner inner)\<rparr>)"

definition take_pending_request_locked :: "string \<Rightarrow> registry_inner \<Rightarrow> registry_inner" where
  "take_pending_request_locked rid inner = inner\<lparr>pending_by_id := AList.delete rid (pending_by_id inner)\<rparr>"

definition retire_job_request_locked :: "string \<Rightarrow> string \<Rightarrow> registry_inner \<Rightarrow> registry_inner" where
  "retire_job_request_locked cid rid inner =
     (let inner = take_pending_request_locked rid inner;
          inner = inner\<lparr>request_to_job := AList.delete rid (request_to_job inner)\<rparr>
      in remove_request_from_runner_queue_locked cid rid inner)"

section \<open>Mutating one Job in place\<close>

definition step_job :: "string \<Rightarrow> job_step \<Rightarrow> registry_inner \<Rightarrow> registry_inner" where
  "step_job jid step inner =
     (case get_job (jobs_by_id inner) jid of
        None \<Rightarrow> inner
      | Some job \<Rightarrow>
          (case step job of (job', es) \<Rightarrow>
             inner\<lparr>jobs_by_id := modify_job jid (\<lambda>_. job') (jobs_by_id inner),
                   candidate_sinks := candidate_sinks inner @ es\<rparr>))"

text \<open>The refresh of one Job before it is shown; \<open>grace\<close> is the configured recovery grace period.\<close>

definition refresh_job_status_locked :: "int \<Rightarrow> int \<Rightarrow> string \<Rightarrow> registry_inner \<Rightarrow> registry_inner" where
  "refresh_job_status_locked now grace jid inner =
     (case get_job (jobs_by_id inner) jid of
        None \<Rightarrow> inner
      | Some job \<Rightarrow>
          if is_terminal (lifecycle job) \<or> \<not> is_runner_active (lifecycle job) then inner
          else if recovery_active job then
            (if (case recovering_since (recovery job) of None \<Rightarrow> False
                   | Some since \<Rightarrow> grace \<le> sat_sub_i64 now since)
             then step_job jid
                    (mark_job_lost now RunnerRecoveryDeadlineExceeded
                       ''runner did not reconcile the job before the recovery deadline'') inner
             else inner)
          else if runner_is_connected_locked now inner (client_id job) then inner
          else if (case map_of (runners inner) (client_id job) of None \<Rightarrow> False
                     | Some r \<Rightarrow> List.member (rr_features r) ''job_state_reconciliation'')
            then step_job jid (begin_job_recovery now RunnerTransportStale) inner
          else step_job jid
                 (mark_job_lost now RunnerDisconnectedWithoutReconciliation
                    ''runner went stale while job was running'') inner)"

section \<open>Grace period\<close>

definition JOB_RECOVERY_GRACE_SECS :: int where
  "JOB_RECOVERY_GRACE_SECS = 120"

definition JOB_RECOVERY_GRACE_MIN_SECS :: int where
  "JOB_RECOVERY_GRACE_MIN_SECS = 5"

definition JOB_RECOVERY_GRACE_MAX_SECS :: int where
  "JOB_RECOVERY_GRACE_MAX_SECS = 3600"

definition clamp_grace :: "int \<Rightarrow> int" where
  "clamp_grace raw = max JOB_RECOVERY_GRACE_MIN_SECS (min JOB_RECOVERY_GRACE_MAX_SECS raw)"

text \<open>\<open>configured\<close> is the parsed environment variable, when it is set and a number.\<close>

definition job_recovery_grace_secs :: "int option \<Rightarrow> int" where
  "job_recovery_grace_secs configured =
     (case configured of None \<Rightarrow> JOB_RECOVERY_GRACE_SECS | Some raw \<Rightarrow> clamp_grace raw)"

section \<open>Facts\<close>

lemma enqueue_Ok:
  assumes "enqueue_pending_request_with_fence_locked now cid rid target decoded fence jid inner = Ok inner'"
  obtains operation where "decoded = Ok operation" "fence_fits fence operation"
    "ensure_dispatch_supported_locked now inner cid = Ok ()" "ensure_queue_capacity_locked inner cid = Ok ()"
    "inner' = inner\<lparr>queues_by_runner := AList.update cid
         ((case map_of (queues_by_runner inner) cid of None \<Rightarrow> [] | Some q \<Rightarrow> q) @ [rid]) (queues_by_runner inner),
       pending_by_id := AList.update rid
         \<lparr>pr_client_id = target, pr_job_id = jid, pr_operation = operation, pr_fence = fence, dispatched = False\<rparr>
         (pending_by_id inner)\<rparr>"
  using assms
  by (auto simp: enqueue_pending_request_with_fence_locked_def validate_operation_def Let_def rust_ok split: sum.splits if_splits)

lemma set_AList_update: "set (AList.update k v xs) \<subseteq> insert (k, v) (set xs)"
  by (induction xs) auto

lemma set_AList_delete: "set (AList.delete k xs) \<subseteq> set xs"
  by (auto simp: AList.delete_eq)

lemma get_step_job:
  "get_job (jobs_by_id (step_job jid f inner)) =
     (get_job (jobs_by_id inner))(jid := map_option (fst \<circ> f) (get_job (jobs_by_id inner) jid))"
  by (rule ext)
    (simp add: step_job_def get_job_def modify_job_def update_conv' split: option.splits prod.splits)

lemma step_job_frame:
  "runners (step_job jid f inner) = runners inner"
  "maintenance (step_job jid f inner) = maintenance inner"
  "pending_by_id (step_job jid f inner) = pending_by_id inner"
  "queues_by_runner (step_job jid f inner) = queues_by_runner inner"
  "request_to_job (step_job jid f inner) = request_to_job inner"
  by (simp_all add: step_job_def split: option.splits prod.splits)

lemma runner_is_connected_cong:
  "runners inner' = runners inner \<Longrightarrow>
     runner_is_connected_locked now inner' cid = runner_is_connected_locked now inner cid"
  by (simp add: runner_is_connected_locked_def)

lemma refresh_runners [simp]: "runners (refresh_job_status_locked now grace jid inner) = runners inner"
  by (simp add: refresh_job_status_locked_def step_job_frame split: option.splits)

lemma refresh_other_jobs:
  "k \<noteq> jid \<Longrightarrow>
     get_job (jobs_by_id (refresh_job_status_locked now grace jid inner)) k = get_job (jobs_by_id inner) k"
  by (simp add: refresh_job_status_locked_def get_step_job split: option.splits)

lemma refresh_terminal:
  "get_job (jobs_by_id inner) jid = Some job \<Longrightarrow> is_terminal (lifecycle job) \<Longrightarrow>
     refresh_job_status_locked now grace jid inner = inner"
  by (simp add: refresh_job_status_locked_def)

lemma begin_job_recovery_recovering:
  "is_runner_active (lifecycle job) \<Longrightarrow>
     recovering (recovery (fst (begin_job_recovery now why job)))
     \<and> (\<not> recovering (recovery job) \<longrightarrow>
          recovering_since (recovery (fst (begin_job_recovery now why job))) = Some now)
     \<and> client_id (fst (begin_job_recovery now why job)) = client_id job"
  using runner_active_not_terminal [of "lifecycle job"]
  by (cases "lifecycle job")
    (auto simp: begin_job_recovery_def notify_job_update_def notify_job_observation_def Let_def recovering_def)

lemma refresh_recovering:
  assumes "get_job (jobs_by_id inner) jid = Some job" "recovery_active job"
    "recovering_since (recovery job) = Some since"
  shows "get_job (jobs_by_id (refresh_job_status_locked now grace jid inner)) jid =
    Some (if grace \<le> sat_sub_i64 now since
          then fst (mark_job_lost now RunnerRecoveryDeadlineExceeded
                 ''runner did not reconcile the job before the recovery deadline'' job)
          else job)"
  using assms runner_active_not_terminal [of "lifecycle job"]
  by (auto simp: refresh_job_status_locked_def get_step_job recovery_active_def)

lemma sat_sub_i64_exact: "i64_min \<le> a - b \<Longrightarrow> a - b \<le> i64_max \<Longrightarrow> sat_sub_i64 a b = a - b"
  by (simp add: sat_sub_i64_def)

text \<open>
  A Job cannot stay active behind a Runner that went away. If a Runner-owned Job's Runner is offline
  when the Job is refreshed, a refresh at any time at least one grace period later finds it terminal
  (\<^verbatim>\<open>lost\<close>): either the first refresh already gave it up because the Runner cannot reconcile or its
  deadline had passed, or that refresh started the recovery clock and the second one runs it out. No
  other Job is changed on the way.
\<close>

theorem orphaned_job_is_lost:
  assumes job: "get_job (jobs_by_id inner) jid = Some job" "is_runner_active (lifecycle job)"
    and offline: "\<not> runner_is_connected_locked now inner (client_id job)"
    and clock: "recovering (recovery job) \<longrightarrow>
        (\<exists>since. recovering_since (recovery job) = Some since \<and> 0 \<le> since \<and> since \<le> now)"
      "0 \<le> now" "0 \<le> grace" "now + grace \<le> later" "later \<le> i64_max"
  shows "\<exists>job'. get_job (jobs_by_id (refresh_job_status_locked later grace jid
                  (refresh_job_status_locked now grace jid inner))) jid = Some job'
          \<and> lifecycle job' = Lost
    \<and> (\<forall>k. k \<noteq> jid \<longrightarrow> get_job (jobs_by_id (refresh_job_status_locked later grace jid
                  (refresh_job_status_locked now grace jid inner))) k = get_job (jobs_by_id inner) k)"
proof -
  let ?in1 = "refresh_job_status_locked now grace jid inner"
  let ?in2 = "refresh_job_status_locked later grace jid ?in1"
  have others: "\<forall>k. k \<noteq> jid \<longrightarrow> get_job (jobs_by_id ?in2) k = get_job (jobs_by_id inner) k"
    by (simp add: refresh_other_jobs)
  have nt: "\<not> is_terminal (lifecycle job)" using job(2) by (rule runner_active_not_terminal)
  have lost_now: ?thesis if "get_job (jobs_by_id ?in1) jid = Some j" "lifecycle j = Lost" for j
    using that others refresh_terminal [of ?in1 jid j later grace] by simp
  have wait: ?thesis if j: "get_job (jobs_by_id ?in1) jid = Some j" "recovery_active j"
      "recovering_since (recovery j) = Some since" "0 \<le> since" "since \<le> now" for j since
  proof -
    have "sat_sub_i64 later since = later - since"
      using clock j by (intro sat_sub_i64_exact) (auto simp: i64_min_def)
    then have "grace \<le> sat_sub_i64 later since" using clock j by simp
    moreover have "\<not> is_terminal (lifecycle j)"
      using j(2) by (simp add: recovery_active_def runner_active_not_terminal)
    ultimately show ?thesis
      using refresh_recovering [OF j(1-3), of later grace] others by (simp add: mark_job_lost_fields)
  qed
  show ?thesis
  proof (cases "recovering (recovery job)")
    case True
    then obtain since where since: "recovering_since (recovery job) = Some since" "0 \<le> since" "since \<le> now"
      using clock(1) by blast
    have act: "recovery_active job" using True job(2) by (simp add: recovery_active_def)
    show ?thesis
      using refresh_recovering [OF job(1) act since(1), of now grace] lost_now wait [of job since] act since nt
      by (auto simp: mark_job_lost_fields split: if_splits)
  next
    case False
    then have "\<not> recovery_active job" by (simp add: recovery_active_def)
    then have r: "get_job (jobs_by_id ?in1) jid = Some (fst (begin_job_recovery now RunnerTransportStale job))
      \<or> (\<exists>why message. get_job (jobs_by_id ?in1) jid = Some (fst (mark_job_lost now why message job)))"
      using job offline nt by (auto simp: refresh_job_status_locked_def get_step_job split: option.splits)
    moreover have "recovery_active (fst (begin_job_recovery now RunnerTransportStale job))"
      "recovering_since (recovery (fst (begin_job_recovery now RunnerTransportStale job))) = Some now"
      using begin_job_recovery_recovering [OF job(2), of now RunnerTransportStale] False job(2)
      by (auto simp: recovery_active_def begin_job_recovery_fields)
    ultimately show ?thesis
      using wait [of "fst (begin_job_recovery now RunnerTransportStale job)" now] clock(2) nt lost_now
      by (auto simp: mark_job_lost_fields)
  qed
qed

theorem orphaned_job_is_lost_witness:
  "\<exists>job'. get_job (jobs_by_id (refresh_job_status_locked 300 120 ''j''
       (refresh_job_status_locked 100 120 ''j''
          (empty_inner\<lparr>jobs_by_id := insert_job ''j'' (sample_job ''j'' ''c'' ''i'' Running) empty_records\<rparr>)))) ''j''
     = Some job' \<and> lifecycle job' = Lost"
proof -
  let ?inner = "empty_inner\<lparr>jobs_by_id := insert_job ''j'' (sample_job ''j'' ''c'' ''i'' Running) empty_records\<rparr>"
  have "get_job (jobs_by_id ?inner) ''j'' = Some (sample_job ''j'' ''c'' ''i'' Running)"
    by (simp add: get_job_def insert_job_def empty_records_def)
  moreover have "is_runner_active (lifecycle (sample_job ''j'' ''c'' ''i'' Running))"
    by (simp add: sample_job_def)
  moreover have "\<not> runner_is_connected_locked 100 ?inner (client_id (sample_job ''j'' ''c'' ''i'' Running))"
    by (simp add: runner_is_connected_locked_def empty_inner_def)
  moreover have "\<not> recovering (recovery (sample_job ''j'' ''c'' ''i'' Running))"
    by (simp add: recovering_def sample_defs)
  ultimately show ?thesis
    using orphaned_job_is_lost [of ?inner "''j''" "sample_job ''j'' ''c'' ''i'' Running" 100 120 300]
    by (auto simp: i64_max_def)
qed

end
