(* ===== verification/Access_Control.thy ===== *)
theory Access_Control
  imports Registry_State
begin

text \<open>
  Who may see and use a Runner or a Job: \<^verbatim>\<open>webcodex-runner-registry/src/access.rs\<close>,
  \<^verbatim>\<open>access_control.rs\<close>, and the typed admission rejections of \<^verbatim>\<open>execution_admission.rs\<close>.
\<close>

section \<open>Admission rejections\<close>

datatype admission_rejection =
    Pending pending_request_enqueue_error
  | InvalidRequest string
  | CapabilityUnavailable string
  | PermissionDenied string
  | TargetChanged string
  | Unavailable string
  | AsyncJobsUnavailable string
  | FormatExecutionUnavailable
  | FormatRunnerReplaced
  | IdempotencyConflict string
  | IdempotencyRecoveryRequired string

definition unknown_runner :: "string \<Rightarrow> admission_rejection" where
  "unknown_runner cid = Pending (UnknownRunner cid)"

definition async_jobs_unavailable :: "string \<Rightarrow> admission_rejection" where
  "async_jobs_unavailable cid =
     AsyncJobsUnavailable (''runner '' @ cid @ '' does not support async shell jobs'')"

fun is_async_jobs_unavailable :: "admission_rejection \<Rightarrow> bool" where
  "is_async_jobs_unavailable (AsyncJobsUnavailable _) = True"
| "is_async_jobs_unavailable _ = False"

fun reason_code :: "admission_rejection \<Rightarrow> string option" where
  "reason_code FormatExecutionUnavailable = Some ''format_execution_unavailable''"
| "reason_code FormatRunnerReplaced = Some ''format_runner_replaced''"
| "reason_code _ = None"

fun failure_kind :: "admission_rejection \<Rightarrow> string" where
  "failure_kind (Pending (UnknownRunner _)) = ''agent_offline''"
| "failure_kind (Pending (RunnerOffline _)) = ''agent_offline''"
| "failure_kind (Pending (InvalidOperation _)) = ''invalid_arguments''"
| "failure_kind (InvalidRequest _) = ''invalid_arguments''"
| "failure_kind (CapabilityUnavailable _) = ''capability_unavailable''"
| "failure_kind (AsyncJobsUnavailable _) = ''capability_unavailable''"
| "failure_kind (PermissionDenied _) = ''permission_denied''"
| "failure_kind (IdempotencyConflict _) = ''idempotency_conflict''"
| "failure_kind (IdempotencyRecoveryRequired _) = ''idempotency_recovery_required''"
| "failure_kind (Pending (QueueFull _ _)) = ''runtime_error''"
| "failure_kind (Pending Maintenance) = ''runtime_error''"
| "failure_kind (TargetChanged _) = ''runtime_error''"
| "failure_kind (Unavailable _) = ''runtime_error''"
| "failure_kind FormatExecutionUnavailable = ''runtime_error''"
| "failure_kind FormatRunnerReplaced = ''runtime_error''"

fun recovery_job_id :: "admission_rejection \<Rightarrow> string option" where
  "recovery_job_id (IdempotencyRecoveryRequired jid) = Some jid"
| "recovery_job_id _ = None"

fun is_idempotency_conflict :: "admission_rejection \<Rightarrow> bool" where
  "is_idempotency_conflict (IdempotencyConflict _) = True"
| "is_idempotency_conflict _ = False"

fun admission_display :: "admission_rejection \<Rightarrow> string" where
  "admission_display (Pending e) = enqueue_error_display e"
| "admission_display (InvalidRequest message) = message"
| "admission_display (CapabilityUnavailable message) = message"
| "admission_display (AsyncJobsUnavailable message) = message"
| "admission_display (PermissionDenied message) = message"
| "admission_display (TargetChanged message) = message"
| "admission_display (Unavailable message) = message"
| "admission_display FormatExecutionUnavailable = ''format_execution_unavailable''"
| "admission_display FormatRunnerReplaced = ''format_runner_replaced''"
| "admission_display (IdempotencyConflict message) = ''detached_idempotency_conflict: '' @ message"
| "admission_display (IdempotencyRecoveryRequired jid) = ''detached_idempotency_recovery_required:'' @ jid"

section \<open>Access\<close>

definition non_blank :: "string option \<Rightarrow> string option" where
  "non_blank s = (case s of None \<Rightarrow> None | Some t \<Rightarrow> if is_blank t then None else Some t)"

definition assert_runner_owner ::
    "runner_access option \<Rightarrow> string \<Rightarrow> string option \<Rightarrow> (unit, string) result" where
  "assert_runner_owner access cid own =
     (if (case access of None \<Rightarrow> False | Some a \<Rightarrow> owner_bypass a) then Ok ()
      else (case non_blank own of
          None \<Rightarrow> Err (''runner '' @ cid @ '' has no owner'')
        | Some o' \<Rightarrow>
            let user = non_blank (Option.bind access username) in
            if user = Some o' then Ok ()
            else Err (''runner '' @ cid @ '' is owned by '' @ o' @ ''; current api key belongs to ''
                      @ (case user of None \<Rightarrow> ''anonymous'' | Some u \<Rightarrow> u))))"

definition lightweight_group_matches ::
    "runner_access option \<Rightarrow> runner_access_group option \<Rightarrow> bool" where
  "lightweight_group_matches access grp =
     (case grp of
        Some g \<Rightarrow> Option.bind access access_group = Some g
      | None \<Rightarrow> Option.bind access access_group = None)"

definition runner_visible_to_access :: "runner_access option \<Rightarrow> runner_record \<Rightarrow> bool" where
  "runner_visible_to_access access r =
     (case access of
        None \<Rightarrow> True
      | Some a \<Rightarrow>
          if global_visibility a then True
          else if \<not> lightweight_group_matches (Some a) (rr_auth_group r) then False
          else if rr_auth_group r \<noteq> None then True
          else
            let user = non_blank (username a); own = non_blank (rr_owner r)
            in user \<noteq> None \<and> user = own)"

definition assert_runner_access_typed ::
    "runner_access option \<Rightarrow> runner_record \<Rightarrow> (unit, admission_rejection) result" where
  "assert_runner_access_typed access r =
     (if \<not> runner_visible_to_access access r then Err (unknown_runner (rr_client_id r))
      else if rr_auth_group r \<noteq> None then Ok ()
      else (case assert_runner_owner access (rr_client_id r) (rr_owner r) of
          Inl e \<Rightarrow> Err (PermissionDenied e)
        | Inr _ \<Rightarrow> Ok ()))"

definition assert_runner_access ::
    "runner_access option \<Rightarrow> runner_record \<Rightarrow> (unit, string) result" where
  "assert_runner_access access r =
     (case assert_runner_access_typed access r of Inl e \<Rightarrow> Err (admission_display e) | Inr _ \<Rightarrow> Ok ())"

definition job_visible_to_access :: "int \<Rightarrow> runner_access option \<Rightarrow> shell_job_record \<Rightarrow> bool" where
  "job_visible_to_access now access job =
     (if (case receipt_expires_at (observation job) of None \<Rightarrow> False | Some t \<Rightarrow> t \<le> now) then False
      else (case access of
          None \<Rightarrow> True
        | Some a \<Rightarrow>
            if global_visibility a then True
            else (case auth_group job of
                Some g \<Rightarrow> lightweight_group_matches (Some a) (Some g)
              | None \<Rightarrow>
                  access_group a = None
                  \<and> (case username a of None \<Rightarrow> False
                       | Some u \<Rightarrow> \<not> is_blank u \<and> owner_at_admission job = Some u))))"

section \<open>Isolation\<close>

lemma non_blank_Some_iff: "non_blank s = Some t \<longleftrightarrow> s = Some t \<and> \<not> is_blank t"
  by (auto simp: non_blank_def split: option.splits)

text \<open>
  Runner isolation: a caller without global visibility may use a Runner exactly when the Runner
  belongs to an isolation group and the caller is in that same group, or the Runner has no group, the
  caller has none either, and the caller's non-blank user name is the Runner's owner. In particular a
  grouped caller reaches neither another group's Runner nor an owned one, and owner bypass gives no
  access across groups.
\<close>

theorem runner_access_isolation:
  assumes "\<not> global_visibility a"
  shows "assert_runner_access_typed (Some a) r = Ok () \<longleftrightarrow>
    (case rr_auth_group r of
       Some g \<Rightarrow> access_group a = Some g
     | None \<Rightarrow> access_group a = None
         \<and> (\<exists>u. username a = Some u \<and> \<not> is_blank u \<and> rr_owner r = Some u))"
proof (cases "rr_auth_group r")
  case None
  show ?thesis
  proof (cases "runner_visible_to_access (Some a) r")
    case True
    then have "\<exists>u. non_blank (username a) = Some u \<and> non_blank (rr_owner r) = Some u \<and> access_group a = None"
      using assms None
      by (cases "non_blank (username a)"; cases "non_blank (rr_owner r)")
        (auto simp: runner_visible_to_access_def lightweight_group_matches_def split: if_splits)
    then obtain u where u: "non_blank (username a) = Some u" "non_blank (rr_owner r) = Some u"
      "access_group a = None" by blast
    then have "assert_runner_owner (Some a) (rr_client_id r) (rr_owner r) = Ok ()"
      by (simp add: assert_runner_owner_def)
    then show ?thesis
      using True None u by (auto simp: assert_runner_access_typed_def non_blank_Some_iff)
  next
    case False
    then show ?thesis
      using assms None
      by (auto simp: assert_runner_access_typed_def runner_visible_to_access_def
          lightweight_group_matches_def Let_def non_blank_def)
  qed
next
  case (Some g)
  then show ?thesis
    using assms
    by (auto simp: assert_runner_access_typed_def runner_visible_to_access_def lightweight_group_matches_def)
qed

definition sample_runner :: runner_record where
  "sample_runner = \<lparr>rr_client_id = ''c'', rr_runner_instance_id = ''i'', rr_owner = Some ''ada'',
     rr_features = [], last_seen = 100, rr_auth_group = None, rr_connection_id = None, rr_projects = [],
     rr_inventory = pending_inventory_state 0, rr_transport = TransportPolling, rr_policy = None, rr_registered_at = 0, rr_disconnected_at = None,
     rr_computer_session_availability = None, rr_computer_control_epoch = None, rr_job_concurrency_limit = None,
     rr_job_capacity_generation = 0, rr_coding_agent_providers = [], suppressions = []\<rparr>"

definition sample_access :: "string \<Rightarrow> runner_access" where
  "sample_access user = \<lparr>global_visibility = False, owner_bypass = False, username = Some user,
     access_group = None\<rparr>"

theorem runner_access_isolation_witness:
  "assert_runner_access_typed (Some (sample_access ''ada'')) sample_runner = Ok ()
   \<and> assert_runner_access_typed (Some (sample_access ''eve'')) sample_runner \<noteq> Ok ()"
proof -
  have "\<not> is_blank ''ada''" by code_simp
  then show ?thesis
    using runner_access_isolation [of "sample_access ''ada''" sample_runner]
      runner_access_isolation [of "sample_access ''eve''" sample_runner]
    by (simp add: sample_access_def sample_runner_def)
qed

text \<open>
  Concealment: a caller who cannot see a Runner gets exactly the rejection, in its typed form and its
  text, that dispatch gives for a Runner that is not registered at all; so a rejection never reveals that
  the Runner exists or who owns it.
\<close>

theorem invisible_runner_is_unknown:
  assumes "\<not> runner_visible_to_access access r"
    "map_of (runners inner) (rr_client_id r) = None" "maintenance inner = None"
    "ensure_dispatch_supported_locked now inner (rr_client_id r) = Err e"
  shows "assert_runner_access_typed access r = Err (Pending e)
    \<and> assert_runner_access access r = Err (enqueue_error_display e)"
  using assms
  by (simp add: assert_runner_access_def assert_runner_access_typed_def unknown_runner_def
      ensure_dispatch_supported_locked_def)

theorem invisible_runner_is_unknown_witness:
  "assert_runner_access (Some (sample_access ''eve'')) sample_runner = Err ''unknown shell client: c''"
proof -
  have inv: "\<not> runner_visible_to_access (Some (sample_access ''eve'')) sample_runner" by code_simp
  have "map_of (runners empty_inner) (rr_client_id sample_runner) = None" "maintenance empty_inner = None"
    "ensure_dispatch_supported_locked 0 empty_inner (rr_client_id sample_runner) = Err (UnknownRunner ''c'')"
    by (simp_all add: empty_inner_def ensure_dispatch_supported_locked_def sample_runner_def)
  from invisible_runner_is_unknown [OF inv this] show ?thesis by simp
qed

text \<open>
  A Job keeps the partition of the Runner it was admitted on: while its receipt has not expired, a Job
  that captured its Runner's isolation group and owner is visible to exactly the callers that can see that
  Runner, so that later changes of the Runner's registration cannot widen or narrow who sees the Job.
\<close>

theorem job_visibility_follows_admission:
  assumes "auth_group job = rr_auth_group r" "owner_at_admission job = rr_owner r"
    "\<forall>t. receipt_expires_at (observation job) = Some t \<longrightarrow> now < t"
  shows "job_visible_to_access now access job = runner_visible_to_access access r"
proof -
  have "\<not> (case receipt_expires_at (observation job) of None \<Rightarrow> False | Some t \<Rightarrow> t \<le> now)"
    using assms(3) by (auto split: option.splits)
  then show ?thesis
    using assms(1,2)
    by (auto simp: job_visible_to_access_def runner_visible_to_access_def lightweight_group_matches_def
        Let_def non_blank_def split: option.splits if_splits)
qed

theorem job_visibility_follows_admission_witness:
  "job_visible_to_access 50 (Some (sample_access ''ada'')) (sample_job ''j'' ''c'' ''i'' Running)
     = runner_visible_to_access (Some (sample_access ''ada'')) sample_runner"
  by (rule job_visibility_follows_admission) (simp_all add: sample_defs sample_runner_def)

end
