(* ===== verification/Maintenance.thy ===== *)
theory Maintenance
  imports Access_Control
begin

text \<open>
  The maintenance fence of \<^verbatim>\<open>webcodex-runner-registry/src/maintenance.rs\<close>: one lease at a time, held by an
  owner, that closes admission for one Runner or for all runtimes while a managed runtime is upgraded. The
  lease is persisted before it takes effect and cleared on disk before it is released.

  The environment of a call (clocks, fresh bearer token, outcome of the store) is its argument. The store is
  optional; \<open>Some None\<close> is an attached, empty store. Instants are milliseconds.
\<close>

section \<open>State and environment\<close>

definition MAINTENANCE_LEASE_SECS :: nat where
  "MAINTENANCE_LEASE_SECS = 90"

record saved_maintenance_lease =
  schema_version :: nat
  saved_scope :: maintenance_scope
  saved_owner :: string
  saved_nonce :: string
  saved_token :: string
  saved_runner_instance_id :: "string option"
  saved_expires_at_unix_ms :: nat

record maintenance_registry =
  inner :: registry_inner
  maintenance_store :: "saved_maintenance_lease option option"
  observation_epoch :: string

record call_env =
  instant :: nat
  clock_secs :: int
  unix_millis :: "(nat, string) result"
  store_ok :: bool
  fresh_token :: string

record maintenance_grant =
  grant_token :: string
  server_epoch :: string
  ttl_secs :: nat

definition saved_lease :: "maintenance_lease_state \<Rightarrow> saved_maintenance_lease" where
  "saved_lease l =
     \<lparr>schema_version = 1, saved_scope = scope l, saved_owner = lease_owner l, saved_nonce = nonce l,
      saved_token = token l, saved_runner_instance_id = lease_runner_instance_id l,
      saved_expires_at_unix_ms = expires_at_unix_ms l\<rparr>"

definition hex_64 :: "string \<Rightarrow> bool" where
  "hex_64 s \<longleftrightarrow> length s = 64 \<and> list_all is_ascii_hexdigit s"

definition scope_id_bad :: "maintenance_scope \<Rightarrow> bool" where
  "scope_id_bad s = (case s of AllRuntimes \<Rightarrow> False | RunnerScope cid \<Rightarrow> cid = [] \<or> 160 < length cid)"

definition saved_lease_bad :: "saved_maintenance_lease \<Rightarrow> bool" where
  "saved_lease_bad s \<longleftrightarrow> schema_version s \<noteq> 1 \<or> saved_owner s = [] \<or> 256 < length (saved_owner s)
     \<or> \<not> hex_64 (saved_nonce s) \<or> \<not> hex_64 (saved_token s) \<or> scope_id_bad (saved_scope s)"

section \<open>Operations\<close>

text \<open>Startup: \<open>loaded\<close> is what the store's \<^verbatim>\<open>load\<close> returned.\<close>

definition attach_maintenance_store ::
    "call_env \<Rightarrow> (saved_maintenance_lease option, string) result \<Rightarrow> maintenance_registry
     \<Rightarrow> (maintenance_registry, string) result" where
  "attach_maintenance_store env loaded reg =
     (if maintenance_store reg \<noteq> None then Err ''maintenance store already attached''
      else and_then loaded (\<lambda>saved.
        if maintenance (inner reg) \<noteq> None
          then Err ''maintenance already active before store attachment''
        else (case saved of
            None \<Rightarrow> Ok (reg\<lparr>maintenance_store := Some None\<rparr>)
          | Some s \<Rightarrow>
              if saved_lease_bad s then Err ''invalid persisted maintenance lease''
              else and_then (unix_millis env) (\<lambda>unix.
                let remaining_ms = saved_expires_at_unix_ms s - unix;
                    lease = \<lparr>scope = saved_scope s, lease_owner = saved_owner s, nonce = saved_nonce s,
                             token = saved_token s,
                             expires = instant env + min remaining_ms (MAINTENANCE_LEASE_SECS * 1000),
                             lease_runner_instance_id = saved_runner_instance_id s,
                             expires_at_unix_ms = saved_expires_at_unix_ms s\<rparr>
                in Ok (reg\<lparr>inner := (inner reg)\<lparr>maintenance := Some lease\<rparr>,
                           maintenance_store := Some (Some s)\<rparr>)))))"

definition persist_maintenance ::
    "call_env \<Rightarrow> maintenance_lease_state \<Rightarrow> maintenance_registry \<Rightarrow> (maintenance_registry, string) result" where
  "persist_maintenance env lease reg =
     (case maintenance_store reg of
        None \<Rightarrow> Ok reg
      | Some _ \<Rightarrow>
          if store_ok env then Ok (reg\<lparr>maintenance_store := Some (Some (saved_lease lease))\<rparr>)
          else Err ''maintenance persistence failed'')"

definition clear_maintenance :: "call_env \<Rightarrow> maintenance_registry \<Rightarrow> (maintenance_registry, string) result" where
  "clear_maintenance env reg =
     (case maintenance_store reg of
        None \<Rightarrow> Ok reg
      | Some _ \<Rightarrow>
          if store_ok env then Ok (reg\<lparr>maintenance_store := Some None\<rparr>)
          else Err ''maintenance persistence failed'')"

definition set_lease :: "maintenance_lease_state option \<Rightarrow> maintenance_registry \<Rightarrow> maintenance_registry" where
  "set_lease l reg = reg\<lparr>inner := (inner reg)\<lparr>maintenance := l\<rparr>\<rparr>"

definition admit_runtime_call :: "maintenance_registry \<Rightarrow> (maintenance_registry, string) result" where
  "admit_runtime_call reg =
     (if (case maintenance (inner reg) of None \<Rightarrow> False | Some l \<Rightarrow> scope l = AllRuntimes)
        then Err ''runtime admission is paused for maintenance''
      else Ok (reg\<lparr>inner := (inner reg)\<lparr>runtime_calls := runtime_calls (inner reg) + 1\<rparr>\<rparr>))"

text \<open>Dropping a \<^verbatim>\<open>RuntimeCallPermit\<close>.\<close>

definition drop_permit :: "maintenance_registry \<Rightarrow> maintenance_registry" where
  "drop_permit reg = reg\<lparr>inner := (inner reg)\<lparr>runtime_calls := runtime_calls (inner reg) - 1\<rparr>\<rparr>"

text \<open>The lease with a new deadline; reading the wall clock may fail.\<close>

definition refreshed_lease :: "call_env \<Rightarrow> maintenance_lease_state \<Rightarrow> (maintenance_lease_state, string) result" where
  "refreshed_lease env l =
     and_then (unix_millis env) (\<lambda>unix.
       Ok (l\<lparr>expires := instant env + MAINTENANCE_LEASE_SECS * 1000,
             expires_at_unix_ms := sat_add unix (MAINTENANCE_LEASE_SECS * 1000)\<rparr>))"

definition grant_of :: "maintenance_registry \<Rightarrow> string \<Rightarrow> maintenance_grant" where
  "grant_of reg tok = \<lparr>grant_token = tok, server_epoch = observation_epoch reg, ttl_secs = MAINTENANCE_LEASE_SECS\<rparr>"

definition lease_target ::
    "call_env \<Rightarrow> maintenance_scope \<Rightarrow> runner_access \<Rightarrow> registry_inner \<Rightarrow> (string option, string) result" where
  "lease_target env s access st =
     (case s of
        AllRuntimes \<Rightarrow> Ok None
      | RunnerScope cid \<Rightarrow>
          if \<not> runner_is_connected_locked (clock_secs env) st cid then Err ''target runner is not online''
          else (case map_of (runners st) cid of
              None \<Rightarrow> Err ''target runner is unknown''
            | Some r \<Rightarrow>
                (case assert_runner_access (Some access) r of
                   Inl _ \<Rightarrow> Err ''target runner is not authorized''
                 | Inr _ \<Rightarrow> Ok (Some (rr_runner_instance_id r)))))"

definition has_pending :: "maintenance_scope \<Rightarrow> registry_inner \<Rightarrow> bool" where
  "has_pending s st \<longleftrightarrow> list_ex (\<lambda>(_, p). covers s (pr_client_id p)) (pending_by_id st)"

definition has_open_jobs :: "maintenance_scope \<Rightarrow> registry_inner \<Rightarrow> bool" where
  "has_open_jobs s st \<longleftrightarrow>
     list_ex (\<lambda>(_, j). covers s (client_id j) \<and> \<not> is_terminal (lifecycle j)) (records (jobs_by_id st))"

definition new_lease ::
    "call_env \<Rightarrow> maintenance_scope \<Rightarrow> string \<Rightarrow> string \<Rightarrow> string option \<Rightarrow> nat \<Rightarrow> maintenance_lease_state" where
  "new_lease env s own n target unix =
     \<lparr>scope = s, lease_owner = own, nonce = n, token = fresh_token env,
      expires = instant env + MAINTENANCE_LEASE_SECS * 1000, lease_runner_instance_id = target,
      expires_at_unix_ms = sat_add unix (MAINTENANCE_LEASE_SECS * 1000)\<rparr>"

definition begin_maintenance ::
    "call_env \<Rightarrow> maintenance_scope \<Rightarrow> string \<Rightarrow> string \<Rightarrow> runner_access \<Rightarrow> maintenance_registry
     \<Rightarrow> (maintenance_registry \<times> maintenance_grant, string) result" where
  "begin_maintenance env s own n access reg =
     (if own = [] \<or> 256 < length own then Err ''invalid maintenance owner''
      else if \<not> hex_64 n then Err ''invalid maintenance nonce''
      else if scope_id_bad s then Err ''invalid runner client_id''
      else (case maintenance (inner reg) of
          Some existing \<Rightarrow>
            if lease_owner existing = own \<and> nonce existing = n \<and> scope existing = s
                \<and> instant env < expires existing then
              and_then (refreshed_lease env existing) (\<lambda>refreshed.
              and_then (persist_maintenance env refreshed reg) (\<lambda>reg.
                Ok (set_lease (Some refreshed) reg, grant_of reg (token refreshed))))
            else Err ''maintenance already in progress; the owner must release or recover the lease''
        | None \<Rightarrow>
            and_then (lease_target env s access (inner reg)) (\<lambda>target.
            if s = AllRuntimes \<and> runtime_calls (inner reg) \<noteq> 0 then Err ''runtime calls are still active''
            else if has_pending s (inner reg) then Err ''runner requests are still active''
            else if has_open_jobs s (inner reg) then Err ''runner jobs are still active''
            else
              and_then (unix_millis env) (\<lambda>unix.
              and_then (persist_maintenance env (new_lease env s own n target unix) reg) (\<lambda>reg.
                Ok (set_lease (Some (new_lease env s own n target unix)) reg,
                    grant_of reg (fresh_token env)))))))"

definition renew_maintenance ::
    "call_env \<Rightarrow> string \<Rightarrow> string \<Rightarrow> maintenance_registry \<Rightarrow> (maintenance_registry \<times> nat, string) result" where
  "renew_maintenance env own tok reg =
     (case maintenance (inner reg) of
        None \<Rightarrow> Err ''maintenance lease is absent''
      | Some l \<Rightarrow>
          if lease_owner l \<noteq> own \<or> token l \<noteq> tok then Err ''maintenance lease owner mismatch''
          else if expires l \<le> instant env
            then Err ''maintenance lease expired; admission remains paused until owner cleanup''
          else
            and_then (refreshed_lease env l) (\<lambda>refreshed.
            and_then (persist_maintenance env refreshed reg) (\<lambda>reg.
              Ok (set_lease (Some refreshed) reg, MAINTENANCE_LEASE_SECS))))"

definition end_maintenance ::
    "call_env \<Rightarrow> string \<Rightarrow> string \<Rightarrow> maintenance_registry \<Rightarrow> (maintenance_registry, string) result" where
  "end_maintenance env own tok reg =
     (case maintenance (inner reg) of
        None \<Rightarrow> Err ''maintenance lease is absent''
      | Some l \<Rightarrow>
          if lease_owner l \<noteq> own \<or> token l \<noteq> tok then Err ''maintenance lease owner mismatch''
          else and_then (clear_maintenance env reg) (\<lambda>reg. Ok (set_lease None reg)))"

definition end_pending_maintenance ::
    "call_env \<Rightarrow> string \<Rightarrow> string \<Rightarrow> maintenance_registry \<Rightarrow> (maintenance_registry, string) result" where
  "end_pending_maintenance env own n reg =
     (case maintenance (inner reg) of
        None \<Rightarrow> Ok reg
      | Some l \<Rightarrow>
          if lease_owner l = own \<and> nonce l = n
            then and_then (clear_maintenance env reg) (\<lambda>reg. Ok (set_lease None reg))
          else Ok reg)"

definition recover_expired_runner_maintenance ::
    "call_env \<Rightarrow> maintenance_registry \<Rightarrow> (maintenance_registry, string) result" where
  "recover_expired_runner_maintenance env reg =
     (case maintenance (inner reg) of
        None \<Rightarrow> Err ''maintenance lease is absent''
      | Some l \<Rightarrow>
          if instant env < expires l then Err ''maintenance lease has not expired''
          else (case scope l of
              AllRuntimes \<Rightarrow>
                Err ''all-runtime lease requires Server restart or original owner cleanup''
            | RunnerScope cid \<Rightarrow>
                if \<not> runner_is_connected_locked (clock_secs env) (inner reg) cid
                  then Err ''target runner is not online''
                else if map_option rr_runner_instance_id (map_of (runners (inner reg)) cid)
                    = lease_runner_instance_id l
                  then Err ''target runner has not registered a replacement process''
                else if has_pending (RunnerScope cid) (inner reg) \<or> has_open_jobs (RunnerScope cid) (inner reg)
                  then Err ''runner work is still active''
                else and_then (clear_maintenance env reg) (\<lambda>reg. Ok (set_lease None reg))))"

section \<open>The fence as a state machine\<close>

text \<open>
  Every way in which the modelled Registry changes while the Server runs: the maintenance calls,
  runtime-call permits, request admission and retirement, Runner registrations and keepalives, and Job
  updates. A fresh token is two simple UUIDs, 64 hexadecimal digits.
\<close>

datatype maintenance_call =
    Begin string string
  | Renew string string
  | End string string
  | EndPending string string
  | Recover nat
  | Other

inductive maintenance_step :: "maintenance_registry \<Rightarrow> maintenance_call \<Rightarrow> maintenance_registry \<Rightarrow> bool" where
  begin_step: "begin_maintenance env s own n access reg = Ok (reg', grant) \<Longrightarrow> hex_64 (fresh_token env) \<Longrightarrow>
     maintenance_step reg (Begin own n) reg'"
| renew_step: "renew_maintenance env own tok reg = Ok (reg', ttl) \<Longrightarrow> maintenance_step reg (Renew own tok) reg'"
| end_step: "end_maintenance env own tok reg = Ok reg' \<Longrightarrow> maintenance_step reg (End own tok) reg'"
| end_pending_step: "end_pending_maintenance env own n reg = Ok reg' \<Longrightarrow>
     maintenance_step reg (EndPending own n) reg'"
| recover_step: "recover_expired_runner_maintenance env reg = Ok reg' \<Longrightarrow>
     maintenance_step reg (Recover (instant env)) reg'"
| admit_step: "admit_runtime_call reg = Ok reg' \<Longrightarrow> maintenance_step reg Other reg'"
| drop_step: "maintenance_step reg Other (drop_permit reg)"
| enqueue_step: "enqueue_pending_request_with_fence_locked now cid rid cid decoded fence jid (inner reg) = Ok st \<Longrightarrow>
     maintenance_step reg Other (reg\<lparr>inner := st\<rparr>)"
| retire_step: "maintenance_step reg Other (reg\<lparr>inner := retire_job_request_locked cid rid (inner reg)\<rparr>)"
| runners_step: "maintenance_step reg Other (reg\<lparr>inner := (inner reg)\<lparr>runners := rs\<rparr>\<rparr>)"
| job_step: "maintenance_step reg Other (reg\<lparr>inner := step_job jid f (inner reg)\<rparr>)"

inductive_cases maintenance_stepE: "maintenance_step reg call reg'"

text \<open>A Server starts without a store, or attaches one before it serves anything.\<close>

inductive reachable_registry :: "maintenance_registry \<Rightarrow> bool" where
  start: "reachable_registry \<lparr>inner = empty_inner, maintenance_store = None, observation_epoch = e\<rparr>"
| start_store: "attach_maintenance_store env (Ok saved)
       \<lparr>inner = empty_inner, maintenance_store = None, observation_epoch = e\<rparr> = Ok reg \<Longrightarrow>
     reachable_registry reg"
| step: "reachable_registry reg \<Longrightarrow> maintenance_step reg call reg' \<Longrightarrow> reachable_registry reg'"

definition lease_valid :: "maintenance_lease_state \<Rightarrow> bool" where
  "lease_valid l \<longleftrightarrow> \<not> saved_lease_bad (saved_lease l)"

definition fence_holds :: "registry_inner \<Rightarrow> bool" where
  "fence_holds st = (case maintenance st of
     None \<Rightarrow> True
   | Some l \<Rightarrow> lease_valid l \<and> \<not> has_pending (scope l) st \<and> (scope l = AllRuntimes \<longrightarrow> runtime_calls st = 0))"

definition store_agrees :: "maintenance_registry \<Rightarrow> bool" where
  "store_agrees reg = (case maintenance_store reg of
     None \<Rightarrow> True | Some saved \<Rightarrow> saved = map_option saved_lease (maintenance (inner reg)))"

lemma set_lease_simps [simp]:
  "maintenance (inner (set_lease l reg)) = l"
  "maintenance_store (set_lease l reg) = maintenance_store reg"
  "pending_by_id (inner (set_lease l reg)) = pending_by_id (inner reg)"
  "runtime_calls (inner (set_lease l reg)) = runtime_calls (inner reg)"
  by (simp_all add: set_lease_def)

lemma persist_Ok:
  "persist_maintenance env lease reg = Ok reg' \<Longrightarrow> inner reg' = inner reg \<and>
     maintenance_store reg' = (case maintenance_store reg of None \<Rightarrow> None | Some _ \<Rightarrow> Some (Some (saved_lease lease)))"
  by (auto simp: persist_maintenance_def split: option.splits if_splits)

lemma clear_Ok:
  "clear_maintenance env reg = Ok reg' \<Longrightarrow> inner reg' = inner reg \<and>
     maintenance_store reg' = (case maintenance_store reg of None \<Rightarrow> None | Some _ \<Rightarrow> Some None)"
  by (auto simp: clear_maintenance_def split: option.splits if_splits)

lemma refreshed_Ok:
  "refreshed_lease env l = Ok l' \<Longrightarrow>
     scope l' = scope l \<and> lease_owner l' = lease_owner l \<and> nonce l' = nonce l \<and> token l' = token l
     \<and> lease_runner_instance_id l' = lease_runner_instance_id l"
  by (auto simp: refreshed_lease_def rust_ok)

lemma refreshed_valid: "refreshed_lease env l = Ok l' \<Longrightarrow> lease_valid l \<Longrightarrow> lease_valid l'"
  by (auto dest!: refreshed_Ok simp: lease_valid_def saved_lease_bad_def saved_lease_def)

lemma has_pending_cong: "pending_by_id st = pending_by_id st' \<Longrightarrow> has_pending s st = has_pending s st'"
  by (simp add: has_pending_def)

text \<open>Replacing a lease by a refreshed one, installing one over a drained registry, and removing one.\<close>

lemma fence_refresh:
  assumes "fence_holds (inner reg)" "maintenance (inner reg) = Some l" "refreshed_lease env l = Ok l'"
    "persist_maintenance env' l' reg = Ok reg1" "store_agrees reg"
  shows "fence_holds (inner (set_lease (Some l') reg1)) \<and> store_agrees (set_lease (Some l') reg1)"
  using assms refreshed_Ok [OF assms(3)] refreshed_valid [OF assms(3)] persist_Ok [OF assms(4)]
    has_pending_cong [of "inner (set_lease (Some l') reg1)" "inner reg" "scope l"]
  by (auto simp: fence_holds_def store_agrees_def split: option.splits)

lemma fence_clear:
  assumes "clear_maintenance env reg = Ok reg1"
  shows "fence_holds (inner (set_lease None reg1)) \<and> store_agrees (set_lease None reg1)"
  using clear_Ok [OF assms] by (auto simp: fence_holds_def store_agrees_def split: option.splits)

lemma begin_fence:
  assumes "begin_maintenance env s own n access reg = Ok (reg', g)" "hex_64 (fresh_token env)"
    "fence_holds (inner reg)" "store_agrees reg"
  shows "fence_holds (inner reg') \<and> store_agrees reg'"
proof (cases "maintenance (inner reg)")
  case (Some l)
  then obtain l' reg1 where "refreshed_lease env l = Ok l'" "persist_maintenance env l' reg = Ok reg1"
    "reg' = set_lease (Some l') reg1"
    using assms(1) by (auto simp: begin_maintenance_def rust_ok split: if_splits)
  then show ?thesis using fence_refresh [OF assms(3) Some] assms(4) by blast
next
  case None
  then obtain target unix reg1 where
    ok: "own \<noteq> []" "length own \<le> 256" "hex_64 n" "\<not> scope_id_bad s"
      "\<not> (s = AllRuntimes \<and> runtime_calls (inner reg) \<noteq> 0)" "\<not> has_pending s (inner reg)"
    and reg1: "persist_maintenance env (new_lease env s own n target unix) reg = Ok reg1"
      "reg' = set_lease (Some (new_lease env s own n target unix)) reg1"
    using assms(1) by (auto simp: begin_maintenance_def rust_ok split: if_splits)
  let ?lease = "new_lease env s own n target unix"
  have "lease_valid ?lease"
    using ok assms(2) by (simp add: lease_valid_def saved_lease_bad_def saved_lease_def new_lease_def)
  then show ?thesis
    using ok persist_Ok [OF reg1(1)] has_pending_cong [of "inner reg'" "inner reg" s]
    by (auto simp: fence_holds_def store_agrees_def reg1(2) new_lease_def split: option.splits)
qed

lemma enqueue_fence:
  assumes "enqueue_pending_request_with_fence_locked now cid rid cid decoded fence jid st = Ok st'" "fence_holds st"
  shows "fence_holds st' \<and> maintenance st' = maintenance st"
proof -
  have m: "maintenance st' = maintenance st" "runtime_calls st' = runtime_calls st"
    and p: "\<exists>p. pr_client_id p = cid \<and> pending_by_id st' = AList.update rid p (pending_by_id st)"
    and ok: "ensure_dispatch_supported_locked now st cid = Ok ()"
    by (rule enqueue_Ok [OF assms(1)]; force)+
  then obtain p where p: "pr_client_id p = cid" "pending_by_id st' = AList.update rid p (pending_by_id st)" by blast
  show ?thesis
  proof (cases "maintenance st")
    case None
    then show ?thesis using m by (simp add: fence_holds_def)
  next
    case (Some l)
    then have "\<not> covers (scope l) cid"
      using ok by (auto simp: ensure_dispatch_supported_locked_def split: if_splits)
    then have "\<not> has_pending (scope l) st'" if "\<not> has_pending (scope l) st"
      using that by (auto simp: has_pending_def p list_ex_iff dest!: subsetD [OF set_AList_update])
    then show ?thesis using m Some assms(2) by (auto simp: fence_holds_def)
  qed
qed

lemma fence_same:
  assumes "maintenance st' = maintenance st" "runtime_calls st' = runtime_calls st"
    "set (pending_by_id st') \<subseteq> set (pending_by_id st)" "fence_holds st"
  shows "fence_holds st'"
  using assms by (auto simp: fence_holds_def has_pending_def list_ex_iff split: option.splits)

lemma retire_frame:
  "maintenance (retire_job_request_locked cid rid st) = maintenance st"
  "runtime_calls (retire_job_request_locked cid rid st) = runtime_calls st"
  "set (pending_by_id (retire_job_request_locked cid rid st)) \<subseteq> set (pending_by_id st)"
  by (auto dest: subsetD [OF set_AList_delete] simp: retire_job_request_locked_def take_pending_request_locked_def
      remove_request_from_runner_queue_locked_def Let_def split: option.splits)

lemma step_job_runtime_calls: "runtime_calls (step_job jid f st) = runtime_calls st"
  by (simp add: step_job_def split: option.splits prod.splits)

lemma step_preserves_fence:
  assumes "maintenance_step reg call reg'" "fence_holds (inner reg)" "store_agrees reg"
  shows "fence_holds (inner reg') \<and> store_agrees reg'"
  using assms
proof (induction rule: maintenance_step.induct)
  case (begin_step env s own n access reg reg' grant)
  then show ?case using begin_fence by simp
next
  case (renew_step env own tok reg reg' ttl)
  then obtain l l' reg1 where "maintenance (inner reg) = Some l" "refreshed_lease env l = Ok l'"
    "persist_maintenance env l' reg = Ok reg1" "reg' = set_lease (Some l') reg1"
    by (auto simp: renew_maintenance_def rust_ok split: option.splits if_splits)
  then show ?case using renew_step fence_refresh by blast
next
  case (end_step env own tok reg reg')
  then show ?case
    by (auto simp: end_maintenance_def rust_ok split: option.splits if_splits dest: fence_clear)
next
  case (end_pending_step env own n reg reg')
  then show ?case
    by (auto simp: end_pending_maintenance_def rust_ok split: option.splits if_splits dest: fence_clear)
next
  case (recover_step env reg reg')
  then show ?case
    by (auto simp: recover_expired_runner_maintenance_def rust_ok dest: fence_clear
        split: option.splits if_splits maintenance_scope.splits)
next
  case (admit_step reg reg')
  then show ?case
    by (auto simp: admit_runtime_call_def fence_holds_def store_agrees_def has_pending_def
        split: option.splits if_splits)
next
  case (drop_step reg)
  then show ?case
    by (auto simp: drop_permit_def fence_holds_def store_agrees_def has_pending_def split: option.splits)
next
  case (enqueue_step now cid rid decoded fence jid reg st)
  then show ?case using enqueue_fence [OF enqueue_step(1)] by (auto simp: store_agrees_def split: option.splits)
next
  case (retire_step reg cid rid)
  then show ?case
    using fence_same [OF retire_frame(1,2,3) retire_step(1)] by (auto simp: store_agrees_def retire_frame split: option.splits)
next
  case (runners_step reg rs)
  then show ?case
    by (auto simp: fence_holds_def store_agrees_def has_pending_def split: option.splits)
next
  case (job_step reg jid f)
  then show ?case
    using fence_same [of "step_job jid f (inner reg)" "inner reg"]
    by (auto simp: store_agrees_def step_job_frame step_job_runtime_calls split: option.splits)
qed

lemma attach_fence:
  assumes "attach_maintenance_store env (Ok saved) reg = Ok reg'"
    "pending_by_id (inner reg) = []" "runtime_calls (inner reg) = 0"
  shows "fence_holds (inner reg') \<and> store_agrees reg'"
proof (cases saved)
  case None
  then show ?thesis using assms
    by (auto simp: attach_maintenance_store_def fence_holds_def store_agrees_def split: if_splits)
next
  case (Some s)
  then show ?thesis using assms
    by (auto simp: attach_maintenance_store_def fence_holds_def store_agrees_def rust_ok Let_def
        lease_valid_def saved_lease_def saved_lease_bad_def has_pending_def split: if_splits)
qed

lemma reachable_fence: "reachable_registry reg \<Longrightarrow> fence_holds (inner reg) \<and> store_agrees reg"
proof (induction rule: reachable_registry.induct)
  case (start e)
  then show ?case by (simp add: fence_holds_def store_agrees_def empty_inner_def)
next
  case (start_store env saved e reg)
  then show ?case by (intro attach_fence) (auto simp: empty_inner_def)
next
  case (step reg call reg')
  then show ?case using step_preserves_fence by blast
qed

section \<open>Properties\<close>


definition sample_env :: call_env where
  "sample_env = \<lparr>instant = 1000, clock_secs = 110, unix_millis = Ok 5000, store_ok = True,
     fresh_token = replicate 64 (CHR ''a'')\<rparr>"

definition sample_registry :: maintenance_registry where
  "sample_registry = \<lparr>inner = empty_inner, maintenance_store = None, observation_epoch = ''e''\<rparr>"

definition sample_held :: maintenance_registry where
  "sample_held = set_lease
     (Some (new_lease sample_env AllRuntimes ''ops'' (replicate 64 (CHR ''b'')) None 5000)) sample_registry"

lemma sample_begin:
  "begin_maintenance sample_env AllRuntimes ''ops'' (replicate 64 (CHR ''b'')) (sample_access ''ada'') sample_registry
     = Ok (sample_held, grant_of sample_registry (fresh_token sample_env))"
proof -
  have "hex_64 (replicate 64 (CHR ''b''))" by code_simp
  then show ?thesis
    by (simp add: begin_maintenance_def sample_held_def sample_registry_def sample_env_def empty_inner_def
        scope_id_bad_def lease_target_def has_pending_def has_open_jobs_def empty_records_def
        persist_maintenance_def)
qed

lemma sample_held_reachable: "reachable_registry sample_held"
proof -
  have "hex_64 (fresh_token sample_env)" by code_simp
  then have "maintenance_step sample_registry (Begin ''ops'' (replicate 64 (CHR ''b''))) sample_held"
    using sample_begin by (rule begin_step [rotated])
  then show ?thesis
    using reachable_registry.start [of "''e''"] by (auto simp: sample_registry_def intro: reachable_registry.step)
qed





definition sample_stored :: maintenance_registry where
  "sample_stored = sample_registry\<lparr>maintenance_store := Some None\<rparr>"


end
