(* ===== verification/Project_Inventory.thy ===== *)
theory Project_Inventory
  imports Registry_State "HOL-Library.Sublist"
begin

text \<open>
  Synchronising the projects of a Runner (\<^verbatim>\<open>webcodex-runner-registry/src/project_inventory.rs\<close>, and the dynamic
  changes of \<^verbatim>\<open>projects.rs\<close>): a Runner reports its projects in bounded pages; the pages of one generation are staged
  and replace the published projects in one step when the last page arrives.
\<close>

section \<open>Changes of one Runner's synchronisation state\<close>

definition clear_staging :: "string option \<Rightarrow> int \<Rightarrow> runner_record \<Rightarrow> runner_record" where
  "clear_staging error_code now r =
     (let iv = drop_staging (rr_inventory r) in
      r\<lparr>rr_inventory :=
          (case error_code of
             None \<Rightarrow> iv
           | Some code \<Rightarrow>
               iv\<lparr>pi_status := inventory_status ''degraded'' (st_generation (pi_status iv))
                     (st_total_reported (pi_status iv)) (length (rr_projects r)) (Some code)
                     (or_else (last_sync_at (pi_status iv)) (Some now))\<rparr>)\<rparr>)"

definition reconcile_dynamic_projection :: "int \<Rightarrow> runner_record \<Rightarrow> runner_record" where
  "reconcile_dynamic_projection now r =
     (let r = clear_staging None now r;
          iv = (case st_generation (pi_status (rr_inventory r)) of
                   None \<Rightarrow> rr_inventory r | Some previous \<Rightarrow> retire_generation previous (rr_inventory r)) in
      r\<lparr>rr_inventory := iv\<lparr>pi_status := inventory_status ''complete'' None (Some (length (rr_projects r)))
          (length (rr_projects r)) None (Some now)\<rparr>\<rparr>)"

definition expire_staging :: "int \<Rightarrow> runner_record \<Rightarrow> runner_record" where
  "expire_staging now r =
     (if (case staging (rr_inventory r) of None \<Rightarrow> False
            | Some s \<Rightarrow> PROJECT_INVENTORY_STAGING_TTL_SECS < sat_sub_i64 now (sg_started_at s))
        then clear_staging (Some ''project_inventory_sync_timeout'') now r else r)"

definition note_nonfatal_error :: "string \<Rightarrow> runner_record \<Rightarrow> runner_record" where
  "note_nonfatal_error code r =
     r\<lparr>rr_inventory := (rr_inventory r)\<lparr>pi_status := (pi_status (rr_inventory r))\<lparr>last_error_code := Some code\<rparr>\<rparr>\<rparr>"

definition fail_current_staging :: "string \<Rightarrow> int \<Rightarrow> runner_record \<Rightarrow> runner_record" where
  "fail_current_staging code now r = clear_staging (Some code) now r"

section \<open>Pages\<close>

definition staging_matches_page :: "project_inventory_page \<Rightarrow> project_inventory_state \<Rightarrow> bool" where
  "staging_matches_page page iv =
     (case staging iv of None \<Rightarrow> False
      | Some s \<Rightarrow> sg_generation s = pg_generation page \<and> sg_snapshot_sequence s = pg_snapshot_sequence page)"

definition completed_generation_matches_page :: "project_inventory_page \<Rightarrow> project_inventory_state \<Rightarrow> bool" where
  "completed_generation_matches_page page iv \<longleftrightarrow>
     staging iv = None \<and> sync_state (pi_status iv) = ''complete''
     \<and> st_generation (pi_status iv) = Some (pg_generation page)"

definition exact_last_page_replay :: "project_inventory_page \<Rightarrow> string \<Rightarrow> project_inventory_state \<Rightarrow> bool" where
  "exact_last_page_replay page digest iv \<longleftrightarrow>
     last_page_generation iv = Some (pg_generation page) \<and> last_page_index iv = Some (page_index page)
     \<and> last_page_digest iv = Some digest"

text \<open>A fresh first page: the published and the staged generation are retired and an empty staging begins.\<close>

definition begin_staging :: "int \<Rightarrow> project_inventory_page \<Rightarrow> project_inventory_state \<Rightarrow> project_inventory_state" where
  "begin_staging now page iv =
     (let iv = iv\<lparr>highest_snapshot_sequence := pg_snapshot_sequence page\<rparr>;
          iv = (if sync_state (pi_status iv) = ''complete'' then
                   (case st_generation (pi_status iv) of
                      None \<Rightarrow> iv
                    | Some previous \<Rightarrow>
                        if previous \<noteq> pg_generation page then retire_generation previous iv else iv)
                 else iv);
          iv = drop_staging iv in
      iv\<lparr>staging := Some
        \<lparr>sg_generation = pg_generation page, sg_snapshot_sequence = pg_snapshot_sequence page,
         sg_total_reported = pg_total_reported page, next_page_index = 0, sg_projects = [], seen_ids = {},
         serialized_bytes = 0, sg_started_at = now\<rparr>\<rparr>)"

text \<open>The page is appended to its staging; the last page publishes the staged projects, sorted by identifier.\<close>

definition store_page ::
    "int \<Rightarrow> project_inventory_page \<Rightarrow> nat \<Rightarrow> string \<Rightarrow> project_inventory_staging \<Rightarrow> runner_record \<Rightarrow> runner_record" where
  "store_page now page next_bytes digest s r =
     (let s = s\<lparr>seen_ids := seen_ids s \<union> ps_id ` set (pg_projects page),
                sg_projects := sg_projects s @ pg_projects page, serialized_bytes := next_bytes,
                next_page_index := min (2 ^ 32 - 1) (next_page_index s + 1)\<rparr>;
          iv = (rr_inventory r)\<lparr>staging := Some s, last_page_generation := Some (pg_generation page),
                last_page_index := Some (page_index page), last_page_digest := Some digest\<rparr> in
      if pg_complete page then
        (let published = sort_key ps_id (sg_projects s) in
         r\<lparr>rr_projects := published,
           rr_inventory := iv\<lparr>staging := None,
             pi_status := inventory_status ''complete'' (Some (pg_generation page)) (Some (length published))
               (length published) None (Some now)\<rparr>\<rparr>)
      else
        r\<lparr>rr_inventory := iv\<lparr>pi_status := inventory_status ''in_progress'' (Some (pg_generation page))
            (Some (pg_total_reported page)) (length (sg_projects s)) None (last_sync_at (pi_status iv))\<rparr>\<rparr>)"

definition extend_staging ::
    "int \<Rightarrow> project_inventory_page \<Rightarrow> nat \<Rightarrow> string \<Rightarrow> project_inventory_staging \<Rightarrow> runner_record \<Rightarrow> runner_record" where
  "extend_staging now page page_bytes digest s r =
     (if sg_generation s \<noteq> pg_generation page \<or> sg_snapshot_sequence s \<noteq> pg_snapshot_sequence page
        then note_nonfatal_error ''project_inventory_stale_generation'' r
      else if next_page_index s \<noteq> page_index page
        then fail_current_staging ''project_inventory_page_out_of_order'' now r
      else if sg_total_reported s \<noteq> pg_total_reported page
        then fail_current_staging ''project_inventory_total_changed'' now r
      else if list_ex (\<lambda>p. ps_id p \<in> seen_ids s) (pg_projects page)
        then fail_current_staging ''project_inventory_duplicate_project_id'' now r
      else
        let next_total = sat_add (length (sg_projects s)) (length (pg_projects page));
            next_bytes = sat_add (serialized_bytes s) page_bytes in
        if sg_total_reported s < next_total
           \<or> pg_complete page \<and> next_total \<noteq> sg_total_reported s
           \<or> \<not> pg_complete page \<and> sg_total_reported s \<le> next_total
          then fail_current_staging ''project_inventory_completion_mismatch'' now r
        else if PROJECT_INVENTORY_SNAPSHOT_MAX_SERIALIZED_BYTES < next_bytes
          then fail_current_staging ''project_inventory_snapshot_too_large'' now r
        else store_page now page next_bytes digest s r)"

text \<open>The \<^verbatim>\<open>unreachable!\<close> for a missing staging is the identity here; \<open>stage_page_staged\<close> shows it is not taken.\<close>

definition stage_page ::
    "int \<Rightarrow> project_inventory_page \<Rightarrow> nat \<Rightarrow> string \<Rightarrow> runner_record \<Rightarrow> runner_record" where
  "stage_page now page page_bytes digest r =
     (case staging (rr_inventory r) of None \<Rightarrow> r | Some s \<Rightarrow> extend_staging now page page_bytes digest s r)"

definition apply_valid_page ::
    "int \<Rightarrow> nat \<Rightarrow> project_inventory_page \<Rightarrow> nat \<Rightarrow> string \<Rightarrow> runner_record \<Rightarrow> runner_record" where
  "apply_valid_page now concurrent_staging page page_bytes digest r =
     (let iv = rr_inventory r; matches = staging_matches_page page iv in
      if exact_last_page_replay page digest iv \<and> (matches \<or> completed_generation_matches_page page iv) then r
      else if pg_snapshot_sequence page < highest_snapshot_sequence iv
          \<or> pg_snapshot_sequence page = highest_snapshot_sequence iv \<and> \<not> matches
        then note_nonfatal_error ''project_inventory_stale_generation'' r
      else if List.member (retired_generations iv) (pg_generation page) \<or> completed_generation_matches_page page iv
        then note_nonfatal_error ''project_inventory_stale_generation'' r
      else if matches then stage_page now page page_bytes digest r
      else if page_index page \<noteq> 0
        then note_nonfatal_error ''project_inventory_missing_or_stale_generation'' r
      else if staging iv = None \<and> PROJECT_INVENTORY_MAX_CONCURRENT_SYNCS \<le> concurrent_staging
        then r\<lparr>rr_inventory := iv\<lparr>pi_status := inventory_status ''degraded'' (st_generation (pi_status iv))
               (st_total_reported (pi_status iv)) (length (rr_projects r))
               (Some ''project_inventory_staging_capacity'') (last_sync_at (pi_status iv))\<rparr>\<rparr>
      else if pg_snapshot_sequence page \<le> highest_snapshot_sequence iv
        then note_nonfatal_error ''project_inventory_stale_generation'' r
      else stage_page now page page_bytes digest (r\<lparr>rr_inventory := begin_staging now page iv\<rparr>))"

definition apply_page ::
    "inventory_codec \<Rightarrow> int \<Rightarrow> nat \<Rightarrow> project_inventory_page \<Rightarrow> runner_record \<Rightarrow> runner_record" where
  "apply_page codec now concurrent_staging page r =
     (case validate_page codec page of
        Inl code \<Rightarrow> fail_current_staging code now r
      | Inr (page_bytes, digest) \<Rightarrow> apply_valid_page now concurrent_staging page page_bytes digest r)"

text \<open>What an admitted page does to the record of its Runner.\<close>

definition receive_page ::
    "inventory_codec \<Rightarrow> int \<Rightarrow> nat \<Rightarrow> project_inventory_page \<Rightarrow> runner_record \<Rightarrow> runner_record" where
  "receive_page codec now concurrent_staging page r =
     apply_page codec now concurrent_staging page (expire_staging now (r\<lparr>last_seen := now\<rparr>))"

section \<open>The Registry's operations\<close>

definition concurrent_stagings :: "(string \<times> runner_record) list \<Rightarrow> nat" where
  "concurrent_stagings rs = length (filter (\<lambda>(_, r). staging (rr_inventory r) \<noteq> None) rs)"

definition stale_instance :: "string \<Rightarrow> string" where
  "stale_instance cid = ''runner '' @ cid @ '' is no longer the active instance (stale or replaced)''"

definition apply_project_inventory_page_checked ::
    "inventory_codec \<Rightarrow> int \<Rightarrow> string \<Rightarrow> string \<Rightarrow> string option \<Rightarrow> project_inventory_page \<Rightarrow> registry_inner
     \<Rightarrow> registry_inner \<times> (project_inventory_status, string) result" where
  "apply_project_inventory_page_checked codec now cid iid expected_connection page inner =
     (case validate_runner_instance_id iid of
        Inl e \<Rightarrow> (inner, Err e)
      | Inr _ \<Rightarrow>
          let inner = inner\<lparr>runners := map (\<lambda>(k, r). (k, expire_staging now r)) (runners inner)\<rparr>;
              concurrent = concurrent_stagings (runners inner) in
          (case map_of (runners inner) cid of
             None \<Rightarrow> (inner, Err (''unknown shell client: '' @ cid))
           | Some r \<Rightarrow>
               if rr_runner_instance_id r \<noteq> iid then (inner, Err (stale_instance cid))
               else if expected_connection \<noteq> None \<and> rr_connection_id r \<noteq> expected_connection
                 then (inner, Err (''runner '' @ cid @ '' transport connection is no longer active''))
               else
                 let r = receive_page codec now concurrent page r in
                 (inner\<lparr>runners := AList.update cid r (runners inner)\<rparr>, Ok (pi_status (rr_inventory r)))))"

text \<open>\<^verbatim>\<open>dedup_by\<close> removes all but the first of consecutive summaries with one identifier.\<close>

fun dedup_by_id :: "runner_project_summary list \<Rightarrow> runner_project_summary list" where
  "dedup_by_id (p # q # ps) = (if ps_id p = ps_id q then dedup_by_id (p # ps) else p # dedup_by_id (q # ps))"
| "dedup_by_id ps = ps"

definition upsert_project_summary ::
    "runner_project_summary \<Rightarrow> runner_project_summary list \<Rightarrow> runner_project_summary list" where
  "upsert_project_summary p ps =
     (if list_ex (\<lambda>q. ps_id q = ps_id p) ps
      then (let i = length (takeWhile (\<lambda>q. ps_id q \<noteq> ps_id p) ps) in ps[i := p])
      else dedup_by_id (sort_key ps_id (ps @ [p])))"

definition with_instance ::
    "string \<Rightarrow> string \<Rightarrow> registry_inner \<Rightarrow> (runner_record \<Rightarrow> runner_record \<times> 'a)
     \<Rightarrow> registry_inner \<times> ('a, string) result" where
  "with_instance cid iid inner f =
     (case map_of (runners inner) cid of
        None \<Rightarrow> (inner, Err (''unknown shell client: '' @ cid))
      | Some r \<Rightarrow>
          if rr_runner_instance_id r \<noteq> iid then (inner, Err (stale_instance cid))
          else (let (r, a) = f r in (inner\<lparr>runners := AList.update cid r (runners inner)\<rparr>, Ok a)))"

definition upsert_runner_project_for_instance ::
    "inventory_codec \<Rightarrow> int \<Rightarrow> string \<Rightarrow> string \<Rightarrow> runner_project_summary \<Rightarrow> registry_inner
     \<Rightarrow> registry_inner \<times> (unit, string) result" where
  "upsert_runner_project_for_instance codec now cid iid project inner =
     (case validate_project_summary (uuid_ok codec) project of
        Inl e \<Rightarrow> (inner, Err e)
      | Inr _ \<Rightarrow> with_instance cid iid inner (\<lambda>r.
          (reconcile_dynamic_projection now (r\<lparr>rr_projects := upsert_project_summary project (rr_projects r)\<rparr>), ())))"

definition remove_runner_project_for_instance ::
    "int \<Rightarrow> string \<Rightarrow> string \<Rightarrow> string \<Rightarrow> registry_inner \<Rightarrow> registry_inner \<times> (bool, string) result" where
  "remove_runner_project_for_instance now cid iid pid inner =
     with_instance cid iid inner (\<lambda>r.
       let kept = filter (\<lambda>p. ps_id p \<noteq> pid) (rr_projects r) in
       (reconcile_dynamic_projection now (r\<lparr>rr_projects := kept\<rparr>), length kept \<noteq> length (rr_projects r)))"

section \<open>One page\<close>

text \<open>Steps that publish nothing and stage nothing.\<close>

definition quiet :: "runner_record \<Rightarrow> runner_record \<Rightarrow> bool" where
  "quiet r r' \<longleftrightarrow> rr_projects r' = rr_projects r
     \<and> highest_snapshot_sequence (rr_inventory r) \<le> highest_snapshot_sequence (rr_inventory r')
     \<and> (staging (rr_inventory r') = None
        \<or> staging (rr_inventory r') = staging (rr_inventory r)
          \<and> highest_snapshot_sequence (rr_inventory r') = highest_snapshot_sequence (rr_inventory r))"

lemma retire_generation_fields [simp]:
  "highest_snapshot_sequence (retire_generation g st) = highest_snapshot_sequence st"
  "staging (retire_generation g st) = staging st" "pi_status (retire_generation g st) = pi_status st"
  by (simp_all add: retire_generation_def)

lemma drop_staging_fields [simp]:
  "highest_snapshot_sequence (drop_staging st) = highest_snapshot_sequence st"
  "staging (drop_staging st) = None" "pi_status (drop_staging st) = pi_status st"
  by (simp_all add: drop_staging_def split: option.splits)

lemma clear_staging_fields [simp]:
  "rr_projects (clear_staging e now r) = rr_projects r"
  "highest_snapshot_sequence (rr_inventory (clear_staging e now r)) = highest_snapshot_sequence (rr_inventory r)"
  "staging (rr_inventory (clear_staging e now r)) = None"
  by (simp_all add: clear_staging_def Let_def split: option.splits)

lemma dynamic_projection_fields [simp]:
  "rr_projects (reconcile_dynamic_projection now r) = rr_projects r"
  "highest_snapshot_sequence (rr_inventory (reconcile_dynamic_projection now r)) = highest_snapshot_sequence (rr_inventory r)"
  "staging (rr_inventory (reconcile_dynamic_projection now r)) = None"
  by (simp_all add: reconcile_dynamic_projection_def Let_def split: option.splits)

lemma begin_staging_fields [simp]:
  "highest_snapshot_sequence (begin_staging now page iv) = pg_snapshot_sequence page"
  "staging (begin_staging now page iv) = Some
     \<lparr>sg_generation = pg_generation page, sg_snapshot_sequence = pg_snapshot_sequence page,
      sg_total_reported = pg_total_reported page, next_page_index = 0, sg_projects = [], seen_ids = {},
      serialized_bytes = 0, sg_started_at = now\<rparr>"
  by (simp_all add: begin_staging_def Let_def split: option.splits)

text \<open>Pages are only stored while there is a staging.\<close>

lemma stage_page_staged:
  "staging_matches_page page iv \<Longrightarrow> staging iv \<noteq> None" "staging (begin_staging now page iv) \<noteq> None"
  by (auto simp: staging_matches_page_def split: option.splits)

lemma quiet_refl [simp]: "quiet r r"
  by (simp add: quiet_def)

lemma quiet_steps [simp]:
  "quiet r (note_nonfatal_error code r)" "quiet r (fail_current_staging code now r)" "quiet r (clear_staging e now r)"
  "quiet r (expire_staging now r)" "quiet r (r\<lparr>last_seen := now\<rparr>)"
  "quiet r (r\<lparr>rr_inventory := (rr_inventory r)\<lparr>pi_status := st\<rparr>\<rparr>)"
  by (simp_all add: quiet_def note_nonfatal_error_def fail_current_staging_def expire_staging_def)

lemma quiet_trans:
  assumes "quiet r r'" "quiet r' r''"
  shows "quiet r r''"
  using assms by (auto simp: quiet_def)

text \<open>A page that is stored fits its staging: next in order, with new identifiers and within the announced total.\<close>

definition page_fits :: "project_inventory_page \<Rightarrow> project_inventory_staging \<Rightarrow> bool" where
  "page_fits page s \<longleftrightarrow>
     pg_generation page = sg_generation s \<and> pg_snapshot_sequence page = sg_snapshot_sequence s
     \<and> pg_total_reported page = sg_total_reported s \<and> page_index page = next_page_index s
     \<and> (\<forall>p \<in> set (pg_projects page). ps_id p \<notin> seen_ids s)
     \<and> (if pg_complete page then sat_add (length (sg_projects s)) (length (pg_projects page)) = sg_total_reported s
        else sat_add (length (sg_projects s)) (length (pg_projects page)) < sg_total_reported s)"

lemma extend_staging_cases:
  obtains (quiet) "quiet r (extend_staging now page b d s r)"
      "staging (rr_inventory r) = Some s \<and> page_fits page s \<longrightarrow>
         PROJECT_INVENTORY_SNAPSHOT_MAX_SERIALIZED_BYTES < sat_add (serialized_bytes s) b"
      "page_fits page s \<longrightarrow> staging (rr_inventory (extend_staging now page b d s r)) = None"
    | (stored) "page_fits page s" "sat_add (serialized_bytes s) b \<le> PROJECT_INVENTORY_SNAPSHOT_MAX_SERIALIZED_BYTES"
      "extend_staging now page b d s r = store_page now page (sat_add (serialized_bytes s) b) d s r"
proof (cases "page_fits page s")
  case True
  then have e: "extend_staging now page b d s r =
      (if PROJECT_INVENTORY_SNAPSHOT_MAX_SERIALIZED_BYTES < sat_add (serialized_bytes s) b
       then fail_current_staging ''project_inventory_snapshot_too_large'' now r
       else store_page now page (sat_add (serialized_bytes s) b) d s r)"
    by (auto simp: extend_staging_def page_fits_def Let_def list_ex_iff)
  show thesis
  proof (cases "PROJECT_INVENTORY_SNAPSHOT_MAX_SERIALIZED_BYTES < sat_add (serialized_bytes s) b")
    case long: True
    then show thesis using e quiet by (simp add: fail_current_staging_def)
  next
    case False
    then show thesis using e True stored by simp
  qed
next
  case False
  then have "quiet r (extend_staging now page b d s r)"
    by (auto simp: extend_staging_def page_fits_def Let_def list_ex_iff)
  then show thesis using False quiet by blast
qed

lemma fresh_page_unfit:
  assumes "staging (begin_staging now page iv) = Some s" "page_index page = 0" "\<not> page_fits page s"
  shows "quiet r (extend_staging now page b d s (r\<lparr>rr_inventory := begin_staging now page (rr_inventory r)\<rparr>))
    \<or> pg_snapshot_sequence page < highest_snapshot_sequence (rr_inventory r)"
proof -
  have s: "sg_generation s = pg_generation page" "sg_snapshot_sequence s = pg_snapshot_sequence page"
    "sg_total_reported s = pg_total_reported page" "next_page_index s = 0" "sg_projects s = []" "seen_ids s = {}"
    using assms(1) by auto
  have "extend_staging now page b d s r' = fail_current_staging ''project_inventory_completion_mismatch'' now r'" for r'
    using assms(2,3) by (auto simp: extend_staging_def page_fits_def Let_def list_ex_iff s)
  then show ?thesis by (auto simp: quiet_def fail_current_staging_def)
qed

lemma apply_valid_page_split:
  assumes "a = apply_valid_page now conc page b d r"
  shows "quiet r a \<or> staging_matches_page page (rr_inventory r) \<and> a = stage_page now page b d r
    \<or> page_index page = 0 \<and> highest_snapshot_sequence (rr_inventory r) < pg_snapshot_sequence page
      \<and> (staging (rr_inventory r) \<noteq> None \<or> conc < PROJECT_INVENTORY_MAX_CONCURRENT_SYNCS)
      \<and> a = stage_page now page b d (r\<lparr>rr_inventory := begin_staging now page (rr_inventory r)\<rparr>)"
  unfolding assms apply_valid_page_def Let_def by (auto simp: not_le)

lemma apply_valid_page_cases:
  obtains (quiet) "quiet r (apply_valid_page now conc page b d r)"
    | (stored) s r1 where "staging (rr_inventory r1) = Some s" "page_fits page s"
      "r1 = r \<or> r1 = r\<lparr>rr_inventory := begin_staging now page (rr_inventory r)\<rparr> \<and> page_index page = 0
         \<and> highest_snapshot_sequence (rr_inventory r) < pg_snapshot_sequence page
         \<and> (staging (rr_inventory r) \<noteq> None \<or> conc < PROJECT_INVENTORY_MAX_CONCURRENT_SYNCS)"
      "sat_add (serialized_bytes s) b \<le> PROJECT_INVENTORY_SNAPSHOT_MAX_SERIALIZED_BYTES"
      "apply_valid_page now conc page b d r = store_page now page (sat_add (serialized_bytes s) b) d s r1"
proof -
  let ?iv = "rr_inventory r" and ?a = "apply_valid_page now conc page b d r"
  let ?r1 = "r\<lparr>rr_inventory := begin_staging now page ?iv\<rparr>"
  consider "quiet r ?a" | "staging_matches_page page ?iv" "?a = stage_page now page b d r"
    | "page_index page = 0" "highest_snapshot_sequence ?iv < pg_snapshot_sequence page"
      "staging ?iv \<noteq> None \<or> conc < PROJECT_INVENTORY_MAX_CONCURRENT_SYNCS" "?a = stage_page now page b d ?r1"
    using apply_valid_page_split [OF refl, of r now conc page b d] by argo
  then show thesis
  proof cases
    case 1
    then show thesis by (rule quiet)
  next
    case 2
    then obtain s where s: "staging ?iv = Some s" "?a = extend_staging now page b d s r"
      by (auto simp: staging_matches_page_def stage_page_def split: option.splits)
    show thesis
      by (cases rule: extend_staging_cases [of r now page b d s]) (use quiet stored s in auto)
  next
    case 3
    let ?s = "the (staging (begin_staging now page ?iv))"
    have s: "staging (rr_inventory ?r1) = Some ?s" "?a = extend_staging now page b d ?s ?r1"
      using 3 by (simp_all add: stage_page_def)
    show thesis
    proof (cases rule: extend_staging_cases [of ?r1 now page b d ?s])
      case quiet': quiet
      show thesis
      proof (cases "page_fits page ?s")
        case True
        then have "staging (rr_inventory ?a) = None" using quiet'(3) s by simp
        then have "quiet r ?a" using quiet'(1) 3(2) unfolding s(2) by (simp add: quiet_def)
        then show thesis by (rule quiet)
      next
        case False
        from fresh_page_unfit [OF _ 3(1) this, of now "?iv" r b d] have "quiet r ?a"
          using 3(2) s(2) by auto
        then show thesis by (rule quiet)
      qed
    next
      case stored': stored
      then show thesis using stored [OF s(1)] 3 s(2) by simp
    qed
  qed
qed

section \<open>Publication is atomic\<close>

text \<open>Pages of one generation, in order from the first one, none of them the last.\<close>

definition same_snapshot :: "string \<Rightarrow> nat \<Rightarrow> nat \<Rightarrow> project_inventory_page list \<Rightarrow> bool" where
  "same_snapshot gen sq total_count ps \<longleftrightarrow>
     list_all (\<lambda>p. pg_generation p = gen \<and> pg_snapshot_sequence p = sq \<and> pg_total_reported p = total_count) ps
     \<and> map page_index ps = map (min (2 ^ 32 - 1)) [0 ..< length ps]"

definition staged_pages :: "project_inventory_page list \<Rightarrow> project_inventory_staging \<Rightarrow> bool" where
  "staged_pages ps s \<longleftrightarrow>
     same_snapshot (sg_generation s) (sg_snapshot_sequence s) (sg_total_reported s) ps
     \<and> list_all (\<lambda>p. \<not> pg_complete p) ps \<and> next_page_index s = min (2 ^ 32 - 1) (length ps)
     \<and> sg_projects s = concat (map pg_projects ps) \<and> seen_ids s = ps_id ` set (sg_projects s)
     \<and> distinct (map ps_id (sg_projects s))"

text \<open>A whole snapshot and what it publishes.\<close>

definition snapshot_of :: "project_inventory_page list \<Rightarrow> runner_project_summary list \<Rightarrow> bool" where
  "snapshot_of ps published \<longleftrightarrow>
     (\<exists>gen sq total_count. same_snapshot gen sq total_count ps \<and> length published = total_count)
     \<and> ps \<noteq> [] \<and> list_all (\<lambda>p. \<not> pg_complete p) (butlast ps) \<and> pg_complete (last ps)
     \<and> published = sort_key ps_id (concat (map pg_projects ps)) \<and> distinct (map ps_id published)"

lemma same_snapshot_snoc:
  assumes "same_snapshot gen sq n ps" "pg_generation p = gen" "pg_snapshot_sequence p = sq" "pg_total_reported p = n"
    "page_index p = min (2 ^ 32 - 1) (length ps)"
  shows "same_snapshot gen sq n (ps @ [p])"
  using assms by (simp add: same_snapshot_def)

lemma distinct_append_ids:
  assumes "distinct (map ps_id xs)" "distinct (map ps_id ys)" "\<forall>p \<in> set ys. ps_id p \<notin> ps_id ` set xs"
  shows "distinct (map ps_id (xs @ ys))"
  using assms by (force simp: image_iff)

lemma validated_ids:
  assumes "validate_page codec page = Ok (b, d)"
  shows "distinct (map ps_id (pg_projects page))"
  using assms card_distinct [of "map ps_id (pg_projects page)"]
  by (auto simp: validate_page_def validate_project_summary_batch_def rust_ok split: if_splits option.splits)

lemma staged_distinct:
  assumes "staged_pages ps s" "page_fits page s" "distinct (map ps_id (pg_projects page))"
  shows "distinct (map ps_id (sg_projects s @ pg_projects page))"
proof (rule distinct_append_ids)
  have "seen_ids s = ps_id ` set (sg_projects s)" using assms(1) unfolding staged_pages_def by blast
  then show "\<forall>p \<in> set (pg_projects page). ps_id p \<notin> ps_id ` set (sg_projects s)"
    using assms(2) unfolding page_fits_def by simp
  show "distinct (map ps_id (sg_projects s))" using assms(1) unfolding staged_pages_def by blast
qed (rule assms(3))

lemma store_page_last:
  assumes "staged_pages ps s" "page_fits page s" "distinct (map ps_id (pg_projects page))" "pg_complete page"
    "pg_total_reported page < u64_max"
  shows "snapshot_of (ps @ [page]) (rr_projects (store_page now page n d s r))"
proof -
  have p: "rr_projects (store_page now page n d s r) = sort_key ps_id (concat (map pg_projects (ps @ [page])))"
    using assms(1,4) by (simp add: store_page_def Let_def staged_pages_def)
  have all: "concat (map pg_projects (ps @ [page])) = sg_projects s @ pg_projects page"
    using assms(1) by (simp add: staged_pages_def)
  have "distinct (map ps_id (concat (map pg_projects (ps @ [page]))))"
    unfolding all by (rule staged_distinct [OF assms(1-3)])
  then have "distinct (map ps_id (sort_key ps_id (concat (map pg_projects (ps @ [page])))))"
    by (metis distinct_map distinct_sort set_sort)
  moreover have "length (concat (map pg_projects (ps @ [page]))) = sg_total_reported s"
    using assms by (auto simp: page_fits_def staged_pages_def sat_add_def min_def split: if_splits)
  moreover have "same_snapshot (sg_generation s) (sg_snapshot_sequence s) (sg_total_reported s) (ps @ [page])"
    using assms(1,2) by (intro same_snapshot_snoc) (auto simp: staged_pages_def page_fits_def)
  ultimately show ?thesis using assms(1,4) unfolding snapshot_of_def p staged_pages_def by auto
qed

text \<open>
  What happens to the record of one Runner process from \<open>r0\<close> on: pages, dynamic changes of its projects,
  reconnects of the same process, expiry of an abandoned staging, and operations that do not touch
  its projects. The list holds the pages received, in order.
\<close>

inductive inventory_steps :: "inventory_codec \<Rightarrow> runner_record \<Rightarrow> project_inventory_page list \<Rightarrow> runner_record \<Rightarrow> bool"
  for codec r0 where
  start: "inventory_steps codec r0 [] r0"
| page: "inventory_steps codec r0 received r \<Longrightarrow>
     inventory_steps codec r0 (received @ [page]) (receive_page codec now conc page r)"
| upsert: "inventory_steps codec r0 received r \<Longrightarrow>
     inventory_steps codec r0 received
       (reconcile_dynamic_projection now (r\<lparr>rr_projects := upsert_project_summary p (rr_projects r)\<rparr>))"
| remove: "inventory_steps codec r0 received r \<Longrightarrow>
     inventory_steps codec r0 received
       (reconcile_dynamic_projection now (r\<lparr>rr_projects := filter (\<lambda>p. ps_id p \<noteq> pid) (rr_projects r)\<rparr>))"
| reconnect: "inventory_steps codec r0 received r \<Longrightarrow>
     inventory_steps codec r0 received
       (r\<lparr>rr_inventory := preserve_authoritative_pending (rr_inventory r) (length (rr_projects r))\<rparr>)"
| expire: "inventory_steps codec r0 received r \<Longrightarrow> inventory_steps codec r0 received (expire_staging now r)"
| other: "inventory_steps codec r0 received r \<Longrightarrow> rr_projects r' = rr_projects r \<Longrightarrow> rr_inventory r' = rr_inventory r \<Longrightarrow>
     inventory_steps codec r0 received r'"

definition staging_inv :: "nat \<Rightarrow> project_inventory_page list \<Rightarrow> runner_record \<Rightarrow> bool" where
  "staging_inv h0 received r \<longleftrightarrow>
     h0 \<le> highest_snapshot_sequence (rr_inventory r)
     \<and> (\<forall>s. staging (rr_inventory r) = Some s \<longrightarrow>
          sg_snapshot_sequence s = highest_snapshot_sequence (rr_inventory r)
          \<and> h0 < sg_snapshot_sequence s
          \<and> serialized_bytes s \<le> PROJECT_INVENTORY_SNAPSHOT_MAX_SERIALIZED_BYTES
          \<and> (\<exists>ps. subseq ps received \<and> staged_pages ps s))"

lemma staging_inv_quiet:
  assumes "staging_inv h0 received r" "quiet r r'"
  shows "staging_inv h0 received r'"
  using assms by (auto simp: staging_inv_def quiet_def)

lemma staging_inv_more:
  assumes "staging_inv h0 received r"
  shows "staging_inv h0 (received @ further) r"
proof -
  have "subseq ps (received @ further)" if "subseq ps received" for ps
    using list_emb_append_mono [OF that, of "[]" further] by simp
  then show ?thesis using assms unfolding staging_inv_def by blast
qed

lemma staging_inv_cleared:
  "staging_inv h0 received r \<Longrightarrow> staging (rr_inventory r') = None \<Longrightarrow>
     highest_snapshot_sequence (rr_inventory r') = highest_snapshot_sequence (rr_inventory r) \<Longrightarrow> staging_inv h0 received r'"
  by (simp add: staging_inv_def)

lemma staging_inv_begin:
  assumes "staging_inv h0 received r" "highest_snapshot_sequence (rr_inventory r) < pg_snapshot_sequence page"
  shows "staging_inv h0 received (r\<lparr>rr_inventory := begin_staging now page (rr_inventory r)\<rparr>)"
  using assms by (auto simp: staging_inv_def staged_pages_def same_snapshot_def intro!: exI [of _ "[]"])

lemma staged_pages_store:
  assumes "staged_pages ps s" "page_fits page s" "distinct (map ps_id (pg_projects page))" "\<not> pg_complete page"
  shows "staged_pages (ps @ [page])
    (s\<lparr>seen_ids := seen_ids s \<union> ps_id ` set (pg_projects page), sg_projects := sg_projects s @ pg_projects page,
       serialized_bytes := n, next_page_index := min (2 ^ 32 - 1) (next_page_index s + 1)\<rparr>)"
proof -
  have "same_snapshot (sg_generation s) (sg_snapshot_sequence s) (sg_total_reported s) (ps @ [page])"
    using assms(1,2) by (intro same_snapshot_snoc) (auto simp: staged_pages_def page_fits_def)
  then show ?thesis
    using assms staged_distinct [OF assms(1-3)] by (auto simp: staged_pages_def image_Un)
qed

lemma staging_inv_store:
  assumes "staging_inv h0 received r" "staging (rr_inventory r) = Some s" "page_fits page s"
    "distinct (map ps_id (pg_projects page))" "n \<le> PROJECT_INVENTORY_SNAPSHOT_MAX_SERIALIZED_BYTES"
  shows "staging_inv h0 (received @ [page]) (store_page now page n d s r)"
proof (cases "pg_complete page")
  case True
  then show ?thesis using assms(1) by (simp add: staging_inv_def store_page_def Let_def)
next
  case False
  obtain ps where ps: "subseq ps received" "staged_pages ps s"
    using assms(1,2) by (auto simp: staging_inv_def)
  have "subseq (ps @ [page]) (received @ [page])" using ps(1) by simp
  then have "\<exists>ps. subseq ps (received @ [page]) \<and> staged_pages ps
      (s\<lparr>seen_ids := seen_ids s \<union> ps_id ` set (pg_projects page), sg_projects := sg_projects s @ pg_projects page,
         serialized_bytes := n, next_page_index := min (2 ^ 32 - 1) (next_page_index s + 1)\<rparr>)"
    using staged_pages_store [OF ps(2) assms(3,4) False, of n] by blast
  then show ?thesis
    using assms(1,2,5) False by (simp add: staging_inv_def store_page_def Let_def)
qed

text \<open>One received page: the projects stay, or they become a whole snapshot.\<close>

lemma receive_page_inv:
  assumes "staging_inv h0 received r" "pg_total_reported page < u64_max"
  shows "staging_inv h0 (received @ [page]) (receive_page codec now conc page r)
    \<and> (rr_projects (receive_page codec now conc page r) = rr_projects r
       \<or> h0 < pg_snapshot_sequence page
         \<and> (\<exists>ps. subseq ps (received @ [page]) \<and> snapshot_of ps (rr_projects (receive_page codec now conc page r))))"
proof -
  let ?e = "expire_staging now (r\<lparr>last_seen := now\<rparr>)"
  have q: "quiet r ?e" by (rule quiet_trans [OF quiet_steps(5) quiet_steps(4)])
  note inv_e = staging_inv_quiet [OF assms(1) q]
  have pr: "rr_projects ?e = rr_projects r" using q by (simp add: quiet_def)
  show ?thesis
  proof (cases "validate_page codec page")
    case (Inl code)
    then have "quiet r (receive_page codec now conc page r)"
      using quiet_trans [OF q] by (simp add: receive_page_def apply_page_def)
    then show ?thesis using staging_inv_more [OF staging_inv_quiet [OF assms(1)]] by (auto simp: quiet_def)
  next
    case (Inr v)
    then obtain b d where v: "validate_page codec page = Ok (b, d)" by (cases v) auto
    then have rp: "receive_page codec now conc page r = apply_valid_page now conc page b d ?e"
      by (simp add: receive_page_def apply_page_def)
    show ?thesis
    proof (cases rule: apply_valid_page_cases [of ?e now conc page b d])
      case quiet
      then show ?thesis
        using staging_inv_more [OF staging_inv_quiet [OF inv_e]] pr unfolding rp by (auto simp: quiet_def)
    next
      case (stored s r1)
      have inv_1: "staging_inv h0 received r1"
        using stored(3) inv_e staging_inv_begin [OF inv_e] by auto
      have "staging_inv h0 (received @ [page]) (receive_page codec now conc page r)"
        unfolding rp stored(5) by (rule staging_inv_store [OF inv_1 stored(1,2) validated_ids [OF v] stored(4)])
      moreover have "rr_projects (receive_page codec now conc page r) = rr_projects r" if "\<not> pg_complete page"
        using that stored(3) pr unfolding rp stored(5) by (auto simp: store_page_def Let_def)
      moreover have "h0 < pg_snapshot_sequence page
          \<and> (\<exists>ps. subseq ps (received @ [page]) \<and> snapshot_of ps (rr_projects (receive_page codec now conc page r)))"
        if "pg_complete page"
      proof -
        obtain ps where ps: "subseq ps received" "staged_pages ps s"
          using inv_1 stored(1) by (auto simp: staging_inv_def)
        have "subseq (ps @ [page]) (received @ [page])" using ps(1) by simp
        moreover have "h0 < pg_snapshot_sequence page"
          using inv_1 stored(1,2) by (auto simp: staging_inv_def page_fits_def)
        ultimately show ?thesis
          unfolding rp stored(5) using store_page_last [OF ps(2) stored(2) validated_ids [OF v] that assms(2)] by blast
      qed
      ultimately show ?thesis by blast
    qed
  qed
qed

lemma inventory_steps_inv:
  assumes "inventory_steps codec r0 received r" "staging (rr_inventory r0) = None"
    "list_all (\<lambda>p. pg_total_reported p < u64_max) received"
  shows "staging_inv (highest_snapshot_sequence (rr_inventory r0)) received r"
  using assms
proof (induction rule: inventory_steps.induct)
  case (reconnect received r)
  then show ?case by (auto simp: preserve_authoritative_pending_def Let_def intro: staging_inv_cleared)
next
  case (other received r r')
  then show ?case by (auto simp: staging_inv_def)
qed (auto simp: staging_inv_def [of _ "[]"] receive_page_inv intro: staging_inv_quiet staging_inv_cleared)

text \<open>
  C14. Publication is atomic. Whatever pages, dynamic changes, timeouts and reconnects a Runner process has gone through since
  a moment when nothing was staged, a page that changes the published projects completes a whole snapshot: pages
  of one generation and sequence, received in order from the first to the last, whose projects have distinct
  identifiers and the announced number; what is published is exactly these projects in the order of
  their identifiers. The snapshot is newer than every sequence accepted before that moment, so an old snapshot
  never replaces a newer one.
\<close>

theorem inventory_publication_atomic:
  assumes "staging (rr_inventory r0) = None" "inventory_steps codec r0 received r"
    "list_all (\<lambda>p. pg_total_reported p < u64_max) (received @ [page])"
    "rr_projects (receive_page codec now conc page r) \<noteq> rr_projects r"
  shows "highest_snapshot_sequence (rr_inventory r0) < pg_snapshot_sequence page
    \<and> (\<exists>ps. subseq ps (received @ [page]) \<and> snapshot_of ps (rr_projects (receive_page codec now conc page r)))"
proof -
  have "staging_inv (highest_snapshot_sequence (rr_inventory r0)) received r"
    using assms(3) by (intro inventory_steps_inv [OF assms(2,1)]) simp
  from receive_page_inv [OF this, of page codec now conc] show ?thesis using assms(3,4) by simp
qed

section \<open>Snapshots get through\<close>

definition page_bytes :: "inventory_codec \<Rightarrow> project_inventory_page \<Rightarrow> nat" where
  "page_bytes codec p = (case validate_page codec p of Inl _ \<Rightarrow> 0 | Inr (b, _) \<Rightarrow> b)"

definition snapshot_bytes :: "inventory_codec \<Rightarrow> project_inventory_page list \<Rightarrow> nat" where
  "snapshot_bytes codec ps = sum_list (map (page_bytes codec) ps)"

text \<open>The pages a Runner sends for its projects: in order, each of them valid.\<close>

definition announces :: "inventory_codec \<Rightarrow> string \<Rightarrow> nat \<Rightarrow> project_inventory_page list \<Rightarrow> bool" where
  "announces codec gen sq ps \<longleftrightarrow>
     ps \<noteq> [] \<and> length ps < 2 ^ 32 \<and> same_snapshot gen sq (length (concat (map pg_projects ps))) ps
     \<and> list_all (\<lambda>p. is_ok (validate_page codec p)) ps
     \<and> distinct (map ps_id (concat (map pg_projects ps))) \<and> length (concat (map pg_projects ps)) < u64_max
     \<and> list_all (\<lambda>p. \<not> pg_complete p) (butlast ps) \<and> pg_complete (last ps)
     \<and> snapshot_bytes codec ps \<le> PROJECT_INVENTORY_SNAPSHOT_MAX_SERIALIZED_BYTES"

definition within_ttl :: "int \<Rightarrow> int \<Rightarrow> bool" where
  "within_ttl t0 now \<longleftrightarrow> sat_sub_i64 now t0 \<le> PROJECT_INVENTORY_STAGING_TTL_SECS"

text \<open>The state between two pages.\<close>

definition synced_upto :: "inventory_codec \<Rightarrow> int \<Rightarrow> project_inventory_page list \<Rightarrow> string \<Rightarrow> nat \<Rightarrow> nat \<Rightarrow> runner_record \<Rightarrow> bool" where
  "synced_upto codec t0 ps gen sq n r \<longleftrightarrow> (\<exists>s. staging (rr_inventory r) = Some s \<and> staged_pages ps s \<and> sg_started_at s = t0
     \<and> sg_generation s = gen \<and> sg_snapshot_sequence s = sq \<and> sg_total_reported s = n \<and> ps \<noteq> []
     \<and> serialized_bytes s = snapshot_bytes codec ps
     \<and> highest_snapshot_sequence (rr_inventory r) = sq \<and> gen \<notin> set (retired_generations (rr_inventory r))
     \<and> last_page_index (rr_inventory r) = Some (page_index (last ps)))"

lemma receive_next:
  assumes "staging (rr_inventory r) = Some s" "page_fits page s" "validate_page codec page = Ok (b, d)"
    "serialized_bytes s + b \<le> PROJECT_INVENTORY_SNAPSHOT_MAX_SERIALIZED_BYTES"
    "highest_snapshot_sequence (rr_inventory r) = sg_snapshot_sequence s"
    "sg_generation s \<notin> set (retired_generations (rr_inventory r))"
    "last_page_index (rr_inventory r) \<noteq> Some (page_index page)" "within_ttl (sg_started_at s) now"
  shows "receive_page codec now conc page r = store_page now page (serialized_bytes s + b) d s (r\<lparr>last_seen := now\<rparr>)"
proof -
  have max: "PROJECT_INVENTORY_SNAPSHOT_MAX_SERIALIZED_BYTES \<le> u64_max"
    by (simp add: PROJECT_INVENTORY_SNAPSHOT_MAX_SERIALIZED_BYTES_def u64_max_def)
  then have b: "sat_add (serialized_bytes s) b = serialized_bytes s + b" using assms(4) by (simp add: sat_add_eq)
  have e: "expire_staging now (r\<lparr>last_seen := now\<rparr>) = r\<lparr>last_seen := now\<rparr>"
    using assms(1,8) by (simp add: expire_staging_def within_ttl_def)
  have "extend_staging now page b d s (r\<lparr>last_seen := now\<rparr>) = store_page now page (serialized_bytes s + b) d s (r\<lparr>last_seen := now\<rparr>)"
    using assms(2,4) by (auto simp: extend_staging_def page_fits_def Let_def list_ex_iff b split: if_splits)
  then show ?thesis
    using assms(1-3,5-7)
    by (auto simp: receive_page_def apply_page_def apply_valid_page_def e Let_def staging_matches_page_def page_fits_def
        exact_last_page_replay_def completed_generation_matches_page_def stage_page_def)
qed

lemma store_progress:
  assumes "staging (rr_inventory r) = Some s" "staged_pages ps s" "page_fits page s" "validate_page codec page = Ok (b, d)"
    "serialized_bytes s = snapshot_bytes codec ps"
    "highest_snapshot_sequence (rr_inventory r) = sg_snapshot_sequence s"
    "sg_generation s \<notin> set (retired_generations (rr_inventory r))"
  shows "if pg_complete page
    then rr_projects (store_page now page (serialized_bytes s + b) d s r) = sort_key ps_id (concat (map pg_projects (ps @ [page])))
      \<and> sync_state (pi_status (rr_inventory (store_page now page (serialized_bytes s + b) d s r))) = ''complete''
    else synced_upto codec (sg_started_at s) (ps @ [page]) (sg_generation s) (sg_snapshot_sequence s) (sg_total_reported s)
      (store_page now page (serialized_bytes s + b) d s r)"
proof (cases "pg_complete page")
  case True
  then show ?thesis using assms(2) by (simp add: store_page_def Let_def staged_pages_def inventory_status_def)
next
  case False
  note staged_pages_store [OF assms(2,3) validated_ids [OF assms(4)] False, of "serialized_bytes s + b"]
  moreover have "snapshot_bytes codec (ps @ [page]) = serialized_bytes s + b"
    using assms(4,5) by (simp add: snapshot_bytes_def page_bytes_def)
  ultimately show ?thesis
    using False assms(6,7) by (simp add: synced_upto_def store_page_def Let_def)
qed

definition receive_pages ::
    "inventory_codec \<Rightarrow> (int \<times> nat \<times> project_inventory_page) list \<Rightarrow> runner_record \<Rightarrow> runner_record" where
  "receive_pages codec evs = fold (\<lambda>(now, conc, page). receive_page codec now conc page) evs"

abbreviation event_page :: "int \<times> nat \<times> project_inventory_page \<Rightarrow> project_inventory_page" where
  "event_page e \<equiv> snd (snd e)"

lemma nonempty_pages:
  assumes "is_ok (validate_page codec p)" "pg_total_reported p \<noteq> 0"
  shows "pg_projects p \<noteq> []"
  using assms by (auto simp: validate_page_def is_ok_iff rust_ok)

lemma total_not_zero:
  assumes "is_ok (validate_page codec p)" "\<not> pg_complete p"
  shows "pg_total_reported p \<noteq> 0"
  using assms by (auto simp: validate_page_def is_ok_iff rust_ok split: if_splits)

text \<open>The next page of an announced snapshot fits.\<close>

lemma announced_page_fits:
  assumes "announces codec gen sq (ps @ page # rest)" "staged_pages ps s" "sg_generation s = gen"
    "sg_snapshot_sequence s = sq" "sg_total_reported s = length (concat (map pg_projects (ps @ page # rest)))"
  shows "page_fits page s"
proof -
  let ?all = "ps @ page # rest"
  have page: "pg_generation page = gen" "pg_snapshot_sequence page = sq"
      "pg_total_reported page = length (concat (map pg_projects ?all))" "is_ok (validate_page codec page)"
    using assms(1) by (simp_all add: announces_def same_snapshot_def)
  have idx: "map page_index ?all ! length ps = map (min (2 ^ 32 - 1)) [0 ..< length ?all] ! length ps"
    using assms(1) unfolding announces_def same_snapshot_def by presburger
  have len: "length ps < 2 ^ 32 - 1 + 1" using assms(1) by (simp add: announces_def)
  have "page_index page = min (2 ^ 32 - 1) (length ps)"
    using idx by (simp add: nth_append del: upt_Suc)
  then have index: "page_index page = next_page_index s"
    using assms(2) unfolding staged_pages_def by simp
  have staged: "sg_projects s = concat (map pg_projects ps)" "seen_ids s = ps_id ` set (concat (map pg_projects ps))"
    using assms(2) unfolding staged_pages_def by auto
  have "distinct (map ps_id (concat (map pg_projects ps)) @ map ps_id (pg_projects page @ concat (map pg_projects rest)))"
    using assms(1) by (simp add: announces_def)
  then have "ps_id ` set (concat (map pg_projects ps)) \<inter> ps_id ` set (pg_projects page) = {}"
    unfolding distinct_append by (simp add: Int_Un_distrib)
  then have fresh: "\<forall>p \<in> set (pg_projects page). ps_id p \<notin> seen_ids s"
    unfolding staged by blast
  have small: "length (concat (map pg_projects ?all)) < u64_max" using assms(1) by (simp add: announces_def)
  then have sat: "sat_add (length (sg_projects s)) (length (pg_projects page)) = length (sg_projects s) + length (pg_projects page)"
    by (simp add: staged sat_add_eq)
  have "if pg_complete page then rest = [] else 0 < length (concat (map pg_projects rest))"
  proof (cases "pg_complete page")
    case True
    then show ?thesis using assms(1) by (cases rest) (auto simp: announces_def butlast_append)
  next
    case False
    then obtain q qs where rest: "rest = q # qs" using assms(1) by (cases rest) (auto simp: announces_def)
    have "is_ok (validate_page codec q)" "pg_total_reported q = pg_total_reported page"
      using assms(1) page(3) by (simp_all add: announces_def same_snapshot_def rest)
    then have "pg_projects q \<noteq> []" using nonempty_pages total_not_zero [OF page(4) False] by metis
    then show ?thesis using False by (simp add: rest)
  qed
  then have "if pg_complete page then length (sg_projects s) + length (pg_projects page) = sg_total_reported s
      else length (sg_projects s) + length (pg_projects page) < sg_total_reported s"
    unfolding assms(5) staged by (cases "pg_complete page") simp_all
  then show ?thesis using page index fresh assms(3-5) unfolding page_fits_def sat by simp
qed

lemma announced_bytes:
  assumes "announces codec gen sq (ps @ page # rest)" "validate_page codec page = Ok (b, d)"
  shows "snapshot_bytes codec ps + b \<le> PROJECT_INVENTORY_SNAPSHOT_MAX_SERIALIZED_BYTES"
  using assms by (simp add: announces_def snapshot_bytes_def page_bytes_def)

lemma announced_index:
  assumes "announces codec gen sq (ps @ page # rest)" "ps \<noteq> []"
  shows "page_index (last ps) \<noteq> page_index page"
proof -
  let ?all = "ps @ page # rest"
  have idx: "map page_index ?all ! i = map (min (2 ^ 32 - 1)) [0 ..< length ?all] ! i" for i
    using assms(1) unfolding announces_def same_snapshot_def by presburger
  have len: "length ps < 2 ^ 32" using assms(1) by (simp add: announces_def)
  have "page_index page = min (2 ^ 32 - 1) (length ps)"
    using idx [of "length ps"] by (simp add: nth_append del: upt_Suc)
  moreover have "page_index (last ps) = min (2 ^ 32 - 1) (length ps - 1)"
    using idx [of "length ps - 1"] assms(2) by (simp add: nth_append last_conv_nth del: upt_Suc)
  ultimately show ?thesis using len assms(2) by (cases ps rule: rev_cases) auto
qed

lemma receive_rest:
  assumes "announces codec gen sq (ps @ map event_page evs)" "evs \<noteq> []"
    "synced_upto codec t0 ps gen sq (length (concat (map pg_projects (ps @ map event_page evs)))) r"
    "list_all (\<lambda>e. within_ttl t0 (fst e)) evs"
  shows "rr_projects (receive_pages codec evs r) = sort_key ps_id (concat (map pg_projects (ps @ map event_page evs)))
    \<and> sync_state (pi_status (rr_inventory (receive_pages codec evs r))) = ''complete''"
  using assms
proof (induction evs arbitrary: ps r)
  case (Cons e evs)
  obtain now conc page where e: "e = (now, conc, page)" by (cases e) auto
  let ?all = "ps @ page # map event_page evs"
  have all: "announces codec gen sq ?all" using Cons.prems(1) by (simp add: e)
  obtain b d where v: "validate_page codec page = Ok (b, d)" using all by (auto simp: announces_def is_ok_iff)
  obtain s where s: "staging (rr_inventory r) = Some s" "staged_pages ps s" "sg_started_at s = t0" "sg_generation s = gen"
      "sg_snapshot_sequence s = sq" "sg_total_reported s = length (concat (map pg_projects ?all))" "ps \<noteq> []"
      "serialized_bytes s = snapshot_bytes codec ps" "highest_snapshot_sequence (rr_inventory r) = sq"
      "gen \<notin> set (retired_generations (rr_inventory r))" "last_page_index (rr_inventory r) = Some (page_index (last ps))"
    using Cons.prems(3) by (auto simp: synced_upto_def e)
  have fits: "page_fits page s" by (rule announced_page_fits [OF all s(2,4,5,6)])
  have step: "receive_page codec now conc page r = store_page now page (serialized_bytes s + b) d s (r\<lparr>last_seen := now\<rparr>)"
    using announced_bytes [OF all v] announced_index [OF all s(7)] Cons.prems(4) s
    by (intro receive_next [OF s(1) fits v]) (simp_all add: e)
  have s': "staging (rr_inventory (r\<lparr>last_seen := now\<rparr>)) = Some s" using s(1) by simp
  note progress = store_progress [OF s' s(2) fits v s(8), of now]
  have rc: "receive_pages codec (e # evs) r = receive_pages codec evs (receive_page codec now conc page r)"
    by (simp add: receive_pages_def e)
  show ?case
  proof (cases "evs = []")
    case True
    then have "pg_complete page" using all by (simp add: announces_def)
    then show ?thesis using progress True s unfolding rc step by (simp add: receive_pages_def e)
  next
    case False
    then have "\<not> pg_complete page" using all by (simp add: announces_def butlast_append)
    then have "synced_upto codec t0 (ps @ [page]) gen sq (length (concat (map pg_projects ?all))) (receive_page codec now conc page r)"
      using progress s unfolding step by simp
    then show ?thesis
      using Cons.IH [of "ps @ [page]" "receive_page codec now conc page r"] all False Cons.prems(4) unfolding rc by (simp add: e)
  qed
qed simp

text \<open>A generation the Runner record has not heard of.\<close>

definition new_generation :: "string \<Rightarrow> project_inventory_state \<Rightarrow> bool" where
  "new_generation gen iv \<longleftrightarrow> gen \<notin> set (retired_generations iv) \<and> st_generation (pi_status iv) \<noteq> Some gen
     \<and> (\<forall>s. staging iv = Some s \<longrightarrow> sg_generation s \<noteq> gen)"

lemma retire_other: "gen \<notin> set (retired_generations iv) \<Longrightarrow> g \<noteq> gen \<Longrightarrow> gen \<notin> set (retired_generations (retire_generation g iv))"
  by (auto simp: retire_generation_def pop_front_to_def dest: in_set_dropD)

lemma drop_other: "new_generation gen iv \<Longrightarrow> gen \<notin> set (retired_generations (drop_staging iv))"
  by (auto simp: new_generation_def drop_staging_def retire_other split: option.splits)

lemma new_generation_expire: "new_generation gen (rr_inventory r) \<Longrightarrow> new_generation gen (rr_inventory (expire_staging now r))"
  using drop_other [of gen "rr_inventory r"]
  by (auto simp: expire_staging_def clear_staging_def Let_def new_generation_def inventory_status_def split: option.splits)

lemma begin_retired:
  assumes "new_generation gen iv" "pg_generation page = gen"
  shows "gen \<notin> set (retired_generations (begin_staging now page iv))"
proof -
  let ?h = "iv\<lparr>highest_snapshot_sequence := pg_snapshot_sequence page\<rparr>"
  define k where "k = (if sync_state (pi_status ?h) = ''complete'' then
      (case st_generation (pi_status ?h) of None \<Rightarrow> ?h
       | Some previous \<Rightarrow> if previous \<noteq> pg_generation page then retire_generation previous ?h else ?h) else ?h)"
  have "new_generation gen k"
    using assms(1) by (auto simp: k_def new_generation_def retire_other split: option.splits)
  then show ?thesis using drop_other [of gen k] by (simp add: begin_staging_def Let_def k_def)
qed

lemma receive_first:
  assumes "new_generation gen (rr_inventory r)" "pg_generation page = gen"
    "highest_snapshot_sequence (rr_inventory r) < pg_snapshot_sequence page" "page_index page = 0"
    "staging (rr_inventory (expire_staging now r)) \<noteq> None \<or> conc < PROJECT_INVENTORY_MAX_CONCURRENT_SYNCS"
    "validate_page codec page = Ok (b, d)"
  shows "receive_page codec now conc page r =
    (let e = expire_staging now (r\<lparr>last_seen := now\<rparr>) in
     stage_page now page b d (e\<lparr>rr_inventory := begin_staging now page (rr_inventory e)\<rparr>))"
proof -
  let ?e = "expire_staging now (r\<lparr>last_seen := now\<rparr>)"
  have "new_generation gen (rr_inventory (r\<lparr>last_seen := now\<rparr>))" using assms(1) by simp
  from new_generation_expire [OF this, of now] have n: "new_generation gen (rr_inventory ?e)" .
  have "highest_snapshot_sequence (rr_inventory ?e) = highest_snapshot_sequence (rr_inventory r)"
    by (simp add: expire_staging_def)
  moreover have "staging (rr_inventory ?e) = staging (rr_inventory (expire_staging now r))"
    by (simp add: expire_staging_def)
  moreover have "\<not> staging_matches_page page (rr_inventory ?e)" "\<not> completed_generation_matches_page page (rr_inventory ?e)"
    using n assms(2) by (auto simp: staging_matches_page_def completed_generation_matches_page_def new_generation_def split: option.splits)
  ultimately show ?thesis
    using assms n by (auto simp: receive_page_def apply_page_def apply_valid_page_def Let_def new_generation_def)
qed

lemma first_page_progress:
  assumes all: "announces codec gen sq (page # rest)" and "new_generation gen (rr_inventory r)"
    "highest_snapshot_sequence (rr_inventory r) < sq"
    "staging (rr_inventory (expire_staging t0 r)) \<noteq> None \<or> conc < PROJECT_INVENTORY_MAX_CONCURRENT_SYNCS"
  shows "if pg_complete page
    then rr_projects (receive_page codec t0 conc page r) = sort_key ps_id (pg_projects page)
      \<and> sync_state (pi_status (rr_inventory (receive_page codec t0 conc page r))) = ''complete''
    else synced_upto codec t0 [page] gen sq (length (concat (map pg_projects (page # rest)))) (receive_page codec t0 conc page r)"
proof -
  let ?e = "expire_staging t0 (r\<lparr>last_seen := t0\<rparr>)"
  let ?r1 = "?e\<lparr>rr_inventory := begin_staging t0 page (rr_inventory ?e)\<rparr>"
  let ?s = "the (staging (rr_inventory ?r1))"
  let ?all = "[] @ page # rest"
  have all: "announces codec gen sq ?all" using assms(1) by simp
  have page: "pg_generation page = gen" "pg_snapshot_sequence page = sq" "page_index page = 0"
      "pg_total_reported page = length (concat (map pg_projects ?all))"
    using all by (auto simp: announces_def same_snapshot_def upt_conv_Cons simp del: upt_Suc)
  obtain b d where v: "validate_page codec page = Ok (b, d)" using all by (auto simp: announces_def is_ok_iff)
  have s: "staging (rr_inventory ?r1) = Some ?s" "sg_generation ?s = gen" "sg_snapshot_sequence ?s = sq"
      "sg_total_reported ?s = length (concat (map pg_projects ?all))" "serialized_bytes ?s = snapshot_bytes codec []"
      "sg_started_at ?s = t0" "highest_snapshot_sequence (rr_inventory ?r1) = sg_snapshot_sequence ?s"
    using page by (simp_all add: snapshot_bytes_def)
  have staged: "staged_pages [] ?s" by (simp add: staged_pages_def same_snapshot_def)
  have fits: "page_fits page ?s" by (rule announced_page_fits [OF all staged s(2,3,4)])
  have fr: "sg_generation ?s \<notin> set (retired_generations (rr_inventory ?r1))"
    using begin_retired [OF new_generation_expire page(1)] assms(2) s(2) by simp
  have "sat_add 0 b \<le> PROJECT_INVENTORY_SNAPSHOT_MAX_SERIALIZED_BYTES" "sat_add 0 b = b"
    using announced_bytes [OF all v]
    by (simp_all add: snapshot_bytes_def sat_add_def PROJECT_INVENTORY_SNAPSHOT_MAX_SERIALIZED_BYTES_def u64_max_def)
  then have "extend_staging t0 page b d ?s ?r1 = store_page t0 page (serialized_bytes ?s + b) d ?s ?r1"
    using fits by (cases rule: extend_staging_cases [of ?r1 t0 page b d ?s]) (auto simp: extend_staging_def page_fits_def)
  then have step: "receive_page codec t0 conc page r = store_page t0 page (serialized_bytes ?s + b) d ?s ?r1"
    using receive_first [OF assms(2) page(1) _ page(3) assms(4) v] assms(3) page(2) s(1)
    by (simp add: Let_def stage_page_def)
  show ?thesis using store_progress [OF s(1) staged fits v s(5,7) fr, of t0, folded step] unfolding s(2-4,6) by (simp split: if_splits)
qed

text \<open>
  C15. Snapshots get through. When a Runner announces its projects as a new generation with a new sequence, in valid pages that
  arrive in order within the staging time, and a staging slot is free for the first of them, then after
  the last page exactly the announced projects are published, sorted by identifier, and the status is
  complete, whatever the Runner had published or staged before.
\<close>

theorem inventory_snapshot_published:
  assumes "announces codec gen sq (map event_page evs)" "new_generation gen (rr_inventory r)"
    "highest_snapshot_sequence (rr_inventory r) < sq"
    "staging (rr_inventory (expire_staging t0 r)) \<noteq> None \<or> conc < PROJECT_INVENTORY_MAX_CONCURRENT_SYNCS"
    "evs = (t0, conc, page) # rest" "list_all (\<lambda>e. within_ttl t0 (fst e)) rest"
  shows "rr_projects (receive_pages codec evs r) = sort_key ps_id (concat (map (pg_projects \<circ> event_page) evs))
    \<and> sync_state (pi_status (rr_inventory (receive_pages codec evs r))) = ''complete''"
proof -
  have all: "announces codec gen sq (page # map event_page rest)" using assms(1,5) by simp
  note progress = first_page_progress [OF all assms(2-4)]
  have rc: "receive_pages codec evs r = receive_pages codec rest (receive_page codec t0 conc page r)"
    by (simp add: receive_pages_def assms(5))
  show ?thesis
  proof (cases "rest = []")
    case True
    then have "pg_complete page" using all by (simp add: announces_def)
    then show ?thesis using progress True unfolding rc by (simp add: receive_pages_def assms(5))
  next
    case False
    then have "\<not> pg_complete page" using all by (simp add: announces_def)
    then have "synced_upto codec t0 [page] gen sq (length (concat (map pg_projects ([page] @ map event_page rest)))) (receive_page codec t0 conc page r)"
      using progress by simp
    from receive_rest [OF _ False this assms(6)] all show ?thesis unfolding rc by (simp add: comp_def assms(5))
  qed
qed

section \<open>Stagings are bounded\<close>

lemma concurrent_update:
  assumes "distinct (map fst rs)" "map_of rs k = Some r"
  shows "concurrent_stagings (AList.update k r' rs) + (if staging (rr_inventory r) \<noteq> None then 1 else 0)
    = concurrent_stagings rs + (if staging (rr_inventory r') \<noteq> None then 1 else 0)"
  using assms
proof (induction rs)
  case (Cons a rs)
  obtain k0 r0 where a: "a = (k0, r0)" by fastforce
  show ?case
  proof (cases "k0 = k")
    case True
    then show ?thesis using Cons.prems by (simp add: a concurrent_stagings_def)
  next
    case False
    then show ?thesis using Cons by (simp add: a concurrent_stagings_def)
  qed
qed simp

lemma concurrent_expire: "concurrent_stagings (map (\<lambda>(k, r). (k, expire_staging now r)) rs) \<le> concurrent_stagings rs"
  by (induction rs) (auto simp: concurrent_stagings_def expire_staging_def split: option.splits)

lemma expire_expire: "staging (rr_inventory (expire_staging now ((expire_staging now r)\<lparr>last_seen := t\<rparr>)))
    = staging (rr_inventory (expire_staging now r))"
  by (simp add: expire_staging_def split: option.splits)

lemma receive_page_slot:
  assumes "staging (rr_inventory (receive_page codec now conc page (expire_staging now r))) \<noteq> None"
  shows "staging (rr_inventory (expire_staging now r)) \<noteq> None \<or> conc < PROJECT_INVENTORY_MAX_CONCURRENT_SYNCS"
proof -
  let ?e = "expire_staging now ((expire_staging now r)\<lparr>last_seen := now\<rparr>)"
  have quiet_some: "staging (rr_inventory ?e) \<noteq> None" if "quiet ?e r'" "staging (rr_inventory r') \<noteq> None" for r'
    using that by (auto simp: quiet_def)
  have "staging (rr_inventory ?e) \<noteq> None \<or> conc < PROJECT_INVENTORY_MAX_CONCURRENT_SYNCS"
  proof (cases "validate_page codec page")
    case (Inl c)
    then show ?thesis
      using assms quiet_some [OF quiet_steps(2)] by (simp add: receive_page_def apply_page_def)
  next
    case (Inr v)
    then obtain b d where v: "validate_page codec page = Ok (b, d)" by (cases v) auto
    show ?thesis
      by (cases rule: apply_valid_page_cases [of ?e now conc page b d])
        (use assms quiet_some v in \<open>auto simp: receive_page_def apply_page_def\<close>)
  qed
  then show ?thesis by (simp add: expire_expire)
qed

lemma apply_checked_runners:
  assumes "apply_project_inventory_page_checked codec now cid iid conn page inner = (inner', res)"
  defines "rs \<equiv> map (\<lambda>(k, r). (k, expire_staging now r)) (runners inner)"
  shows "runners inner' = runners inner \<or> runners inner' = rs
    \<or> (\<exists>r. map_of (runners inner) cid = Some r
        \<and> runners inner' = AList.update cid (receive_page codec now (concurrent_stagings rs) page (expire_staging now r)) rs)"
proof (cases "validate_runner_instance_id iid")
  case (Inr u)
  have m: "map_of rs cid = map_option (expire_staging now) (map_of (runners inner) cid)"
    by (simp add: rs_def map_of_map)
  show ?thesis
  proof (cases "map_of (runners inner) cid")
    case None
    then show ?thesis using assms(1) Inr m
      by (auto simp: apply_project_inventory_page_checked_def Let_def simp flip: rs_def)
  next
    case (Some r)
    then show ?thesis using assms(1) Inr m
      by (auto simp: apply_project_inventory_page_checked_def Let_def simp flip: rs_def split: if_splits)
  qed
qed (use assms(1) in \<open>simp add: apply_project_inventory_page_checked_def\<close>)

text \<open>
  At most eight stagings exist at a time. When the Registry holds at most eight of them, it holds at most eight
  after any page of any Runner, whatever the page and whether it is accepted; and no call on one Runner
  changes the projects of another.
\<close>

theorem inventory_stagings_bounded:
  assumes "distinct (map fst (runners inner))" "concurrent_stagings (runners inner) \<le> PROJECT_INVENTORY_MAX_CONCURRENT_SYNCS"
    "apply_project_inventory_page_checked codec now cid iid conn page inner = (inner', res)"
  shows "concurrent_stagings (runners inner') \<le> PROJECT_INVENTORY_MAX_CONCURRENT_SYNCS
    \<and> (\<forall>k. k \<noteq> cid \<longrightarrow> map_option rr_projects (map_of (runners inner') k) = map_option rr_projects (map_of (runners inner) k))"
proof -
  let ?rs = "map (\<lambda>(k, r). (k, expire_staging now r)) (runners inner)"
  let ?n = "concurrent_stagings ?rs"
  have n: "?n \<le> PROJECT_INVENTORY_MAX_CONCURRENT_SYNCS" using concurrent_expire [of now "runners inner"] assms(2) by simp
  have d: "distinct (map fst ?rs)" using assms(1) by (simp add: comp_def split_beta)
  have m: "map_of ?rs k = map_option (expire_staging now) (map_of (runners inner) k)" for k by (simp add: map_of_map)
  have pr: "rr_projects (expire_staging now r) = rr_projects r" for r by (simp add: expire_staging_def)
  have other: "map_option rr_projects (map_of ?rs k) = map_option rr_projects (map_of (runners inner) k)" for k
    unfolding m by (simp add: option.map_comp comp_def pr)
  consider "runners inner' = runners inner" | "runners inner' = ?rs"
    | r where "map_of (runners inner) cid = Some r"
        "runners inner' = AList.update cid (receive_page codec now ?n page (expire_staging now r)) ?rs"
    using apply_checked_runners [OF assms(3)] by blast
  then show ?thesis
  proof cases
    case 3
    let ?r' = "receive_page codec now ?n page (expire_staging now r)"
    have "map_of ?rs cid = Some (expire_staging now r)" using 3 by (simp add: m)
    from concurrent_update [OF d this, of ?r'] receive_page_slot [of codec now ?n page r]
    have "concurrent_stagings (AList.update cid ?r' ?rs) \<le> PROJECT_INVENTORY_MAX_CONCURRENT_SYNCS"
      using n by (auto split: if_splits)
    moreover have "map_of (AList.update cid ?r' ?rs) k = map_of ?rs k" if "k \<noteq> cid" for k
      using that by (simp add: update_conv')
    ultimately show ?thesis using 3(2) other by simp
  qed (use assms(2) n other in auto)
qed

section \<open>A sample snapshot\<close>

definition sample_codec :: inventory_codec where
  "sample_codec = \<lparr>projects_json = (\<lambda>ps. Some (concat (map ps_id ps))), page_json = (\<lambda>p. Some (pg_generation p)),
     sha256_hex = (\<lambda>s. s), uuid_ok = (\<lambda>_. True)\<rparr>"

definition sample_project :: "string \<Rightarrow> runner_project_summary" where
  "sample_project pid =
     \<lparr>ps_id = pid, ps_name = None, ps_path = ''/p'', ps_allow_patch = True, ps_kind = None, ps_registration_source = None,
      ps_description = None, ps_hooks = [], ps_disabled = False, ps_revision = None, ps_registration_incarnation = None,
      ps_root_fingerprint = None, ps_lineage = None, ps_git_branch = None, ps_git_head = None, ps_git_dirty = None,
      ps_updated_at = 1, ps_shell_profile = None\<rparr>"

definition sample_page :: "nat \<Rightarrow> bool \<Rightarrow> string list \<Rightarrow> project_inventory_page" where
  "sample_page i complete pids =
     \<lparr>pg_generation = ''g1'', pg_snapshot_sequence = 1, page_index = i, pg_total_reported = 3, pg_complete = complete,
      pg_projects = map sample_project pids\<rparr>"

definition sample_pages :: "(int \<times> nat \<times> project_inventory_page) list" where
  "sample_pages = [(100, 0, sample_page 0 False [''b'', ''c'']), (110, 1, sample_page 1 True [''a''])]"

definition sample_syncing :: runner_record where
  "sample_syncing =
     \<lparr>rr_client_id = ''c1'', rr_runner_instance_id = ''i1'', rr_owner = None, rr_features = [], last_seen = 90,
      rr_auth_group = None, rr_connection_id = None, rr_projects = [], rr_inventory = pending_inventory_state 0,
      rr_transport = TransportPolling, rr_policy = None, rr_registered_at = 0, rr_disconnected_at = None,
     rr_computer_session_availability = None, rr_computer_control_epoch = None, rr_job_concurrency_limit = None,
     rr_job_capacity_generation = 0, rr_coding_agent_providers = [], suppressions = []\<rparr>"

lemma sample_announced: "announces sample_codec ''g1'' 1 (map event_page sample_pages)"
  by code_simp

lemma sample_new_generation: "new_generation ''g1'' (rr_inventory sample_syncing)"
  by (simp add: new_generation_def sample_syncing_def pending_inventory_state_def pending_status_def inventory_status_def)

theorem inventory_snapshot_published_witness:
  "map ps_id (rr_projects (receive_pages sample_codec sample_pages sample_syncing)) = [''a'', ''b'', ''c'']"
proof -
  have ev: "sample_pages = (100, 0, sample_page 0 False [''b'', ''c'']) # [(110, 1, sample_page 1 True [''a''])]"
    by (simp add: sample_pages_def)
  have "rr_projects (receive_pages sample_codec sample_pages sample_syncing)
      = sort_key ps_id (concat (map (pg_projects \<circ> event_page) sample_pages))"
    using inventory_snapshot_published [OF sample_announced sample_new_generation _ _ ev]
    by (simp add: sample_syncing_def pending_inventory_state_def PROJECT_INVENTORY_MAX_CONCURRENT_SYNCS_def
        within_ttl_def sat_sub_i64_def i64_min_def i64_max_def PROJECT_INVENTORY_STAGING_TTL_SECS_def)
  also have "map ps_id \<dots> = [''a'', ''b'', ''c'']" by code_simp
  finally show ?thesis .
qed

theorem inventory_publication_atomic_witness:
  "\<exists>ps. subseq ps (map event_page sample_pages)
     \<and> snapshot_of ps (rr_projects (receive_pages sample_codec sample_pages sample_syncing))"
proof -
  let ?p0 = "sample_page 0 False [''b'', ''c'']" and ?p1 = "sample_page 1 True [''a'']"
  let ?r = "receive_page sample_codec 100 0 ?p0 sample_syncing"
  have steps: "inventory_steps sample_codec sample_syncing ([] @ [?p0]) ?r"
    by (intro inventory_steps.page inventory_steps.start)
  have totals: "list_all (\<lambda>p. pg_total_reported p < u64_max) (([] @ [?p0]) @ [?p1])" by code_simp
  have none: "staging (rr_inventory sample_syncing) = None"
    by (simp add: sample_syncing_def pending_inventory_state_def)
  have "length (rr_projects (receive_page sample_codec 110 1 ?p1 ?r)) = 3" "length (rr_projects ?r) = 0" by code_simp+
  then have "rr_projects (receive_page sample_codec 110 1 ?p1 ?r) \<noteq> rr_projects ?r" by auto
  from inventory_publication_atomic [OF none steps totals this]
  show ?thesis by (simp add: sample_pages_def receive_pages_def)
qed

theorem inventory_stagings_bounded_witness:
  "\<exists>inner' res. apply_project_inventory_page_checked sample_codec 100 ''c1'' ''i1'' None (sample_page 0 False [''b''])
       (empty_inner\<lparr>runners := [(''c1'', sample_syncing)]\<rparr>) = (inner', res)
     \<and> concurrent_stagings (runners inner') \<le> PROJECT_INVENTORY_MAX_CONCURRENT_SYNCS"
proof -
  let ?inner = "empty_inner\<lparr>runners := [(''c1'', sample_syncing)]\<rparr>"
  obtain inner' res where a: "apply_project_inventory_page_checked sample_codec 100 ''c1'' ''i1'' None
      (sample_page 0 False [''b'']) ?inner = (inner', res)" by fastforce
  have "concurrent_stagings (runners ?inner) \<le> PROJECT_INVENTORY_MAX_CONCURRENT_SYNCS"
    by (simp add: concurrent_stagings_def sample_syncing_def pending_inventory_state_def)
  with inventory_stagings_bounded [OF _ this a] a show ?thesis by simp
qed

end
