(* ===== verification/Job_Observation.thy ===== *)
theory Job_Observation
  imports Job_Log "HOL-Library.Word" "HOL-Library.Multiset"
begin

text \<open>
  Observing a Job (\<^verbatim>\<open>webcodex-core/src/job_observation.rs\<close>, \<^verbatim>\<open>compact.rs\<close>): the continuation token with its
  canonical base-36 numbers, the registry of short observation references, and the selection of a bounded
  range of lines from a retained log (baseline, delta, page, reset).

  The digest of a Job and epoch and the base-64 codec are parameters: \<open>hash\<close> gives the 32 bytes of the
  digest, \<open>enc\<close> and \<open>dec\<close> are the unpadded URL-safe codec.
\<close>

section \<open>Compact encodings\<close>

definition compact_decode ::
    "(string \<Rightarrow> string) \<Rightarrow> (string \<Rightarrow> string option) \<Rightarrow> nat \<Rightarrow> string \<Rightarrow> string option" where
  "compact_decode enc dec n v =
     (case dec v of
        None \<Rightarrow> None
      | Some bytes \<Rightarrow> if enc bytes \<noteq> v then None else if length bytes = n then Some bytes else None)"

definition base36_digit :: "nat \<Rightarrow> char" where
  "base36_digit d = (if d < 10 then char_of (48 + d) else char_of (97 + d - 10))"

text \<open>The digits are written backwards into a buffer of thirteen bytes.\<close>

function base36_loop :: "nat \<Rightarrow> string \<Rightarrow> string" where
  "base36_loop v buf = (if 0 < v then base36_loop (v div 36) (base36_digit (v mod 36) # buf) else buf)"
  by pat_completeness auto
termination by (relation "measure fst") auto

declare base36_loop.simps [simp del]

definition encode_base36 :: "nat \<Rightarrow> string" where
  "encode_base36 v = (if v = 0 then ''0'' else base36_loop v [])"

definition base36_value :: "char \<Rightarrow> nat option" where
  "base36_value c =
     (if is_ascii_digit c then Some (of_char c - 48)
      else if is_ascii_lowercase c then Some (of_char c - 97 + 10)
      else None)"

fun base36_fold :: "nat \<Rightarrow> string \<Rightarrow> nat option" where
  "base36_fold acc [] = Some acc"
| "base36_fold acc (c # cs) =
     (case base36_value c of
        None \<Rightarrow> None
      | Some d \<Rightarrow>
          if u64_max < acc * 36 then None
          else if u64_max < acc * 36 + d then None
          else base36_fold (acc * 36 + d) cs)"

datatype token_error = Malformed | Oversized

definition parse_base36 :: "string \<Rightarrow> (nat, token_error) result" where
  "parse_base36 v =
     (if v = [] \<or> 1 < length v \<and> starts_with v ''0'' then Err Malformed
      else (case base36_fold 0 v of None \<Rightarrow> Err Malformed | Some n \<Rightarrow> Ok n))"

section \<open>Tokens\<close>

definition TOKEN_PREFIX :: string where
  "TOKEN_PREFIX = ''wj3_''"

definition MAX_JOB_OBSERVATION_TOKEN_LEN :: nat where
  "MAX_JOB_OBSERVATION_TOKEN_LEN = 62"

record job_observation_token =
  binding :: string
  tok_revision :: nat
  stdout_cursor :: "nat option"
  stderr_cursor :: "nat option"

text \<open>The big-endian bytes of a length.\<close>

definition be_bytes :: "nat \<Rightarrow> string" where
  "be_bytes n = map (\<lambda>i. char_of (n div 256 ^ (7 - i))) [0..<8]"

definition observation_binding :: "(string \<Rightarrow> string) \<Rightarrow> (string \<Rightarrow> string) \<Rightarrow> string \<Rightarrow> string \<Rightarrow> string" where
  "observation_binding hash enc jid ep =
     enc (take 12 (hash (''webcodex/job-observation-binding/v3'' @ [CHR 0x00] @ be_bytes (length ep) @ ep @ jid)))"

definition token_new ::
    "(string \<Rightarrow> string) \<Rightarrow> (string \<Rightarrow> string) \<Rightarrow> string \<Rightarrow> string \<Rightarrow> nat \<Rightarrow> nat \<Rightarrow> nat
     \<Rightarrow> (job_observation_token, token_error) result" where
  "token_new hash enc jid ep rv out err =
     (if out = 0 \<or> err = 0 then Err Malformed
      else Ok \<lparr>binding = observation_binding hash enc jid ep, tok_revision = rv,
               stdout_cursor = Some out, stderr_cursor = Some err\<rparr>)"

definition token_new_baseline ::
    "(string \<Rightarrow> string) \<Rightarrow> (string \<Rightarrow> string) \<Rightarrow> string \<Rightarrow> string \<Rightarrow> nat \<Rightarrow> (job_observation_token, token_error) result" where
  "token_new_baseline hash enc jid ep rv =
     Ok \<lparr>binding = observation_binding hash enc jid ep, tok_revision = rv,
         stdout_cursor = None, stderr_cursor = None\<rparr>"

definition matches_parent :: "(string \<Rightarrow> string) \<Rightarrow> (string \<Rightarrow> string) \<Rightarrow> string \<Rightarrow> string \<Rightarrow> job_observation_token \<Rightarrow> bool" where
  "matches_parent hash enc jid ep t \<longleftrightarrow> binding t = observation_binding hash enc jid ep"

definition requires_baseline :: "job_observation_token \<Rightarrow> bool" where
  "requires_baseline t \<longleftrightarrow> stdout_cursor t = None"

definition non_zero :: "nat \<Rightarrow> nat option" where
  "non_zero n = (if n \<noteq> 0 then Some n else None)"

definition token_parse ::
    "(string \<Rightarrow> string) \<Rightarrow> (string \<Rightarrow> string option) \<Rightarrow> string \<Rightarrow> (job_observation_token, token_error) result" where
  "token_parse enc dec v =
     (if MAX_JOB_OBSERVATION_TOKEN_LEN < length v then Err Oversized
      else (case strip_prefix TOKEN_PREFIX v of
          None \<Rightarrow> Err Malformed
        | Some rest \<Rightarrow>
            (case split_on (CHR ''.'') rest of
               [] \<Rightarrow> Err Malformed
             | b # parts \<Rightarrow>
                 if compact_decode enc dec 12 b = None then Err Malformed
                 else (case parts of
                     [] \<Rightarrow> Err Malformed
                   | r # parts \<Rightarrow>
                       and_then (parse_base36 r) (\<lambda>rv.
                       case parts of
                         [] \<Rightarrow> Err Malformed
                       | s1 # parts \<Rightarrow>
                           and_then (parse_base36 s1) (\<lambda>out.
                           case parts of
                             [] \<Rightarrow> Err Malformed
                           | s2 # parts \<Rightarrow>
                               and_then (parse_base36 s2) (\<lambda>err.
                               if parts \<noteq> [] \<or> (out = 0) \<noteq> (err = 0) then Err Malformed
                               else Ok \<lparr>binding = b, tok_revision = rv, stdout_cursor = non_zero out,
                                       stderr_cursor = non_zero err\<rparr>)))))))"

definition token_encode :: "job_observation_token \<Rightarrow> string" where
  "token_encode t =
     TOKEN_PREFIX @ binding t @ ''.'' @ encode_base36 (tok_revision t)
     @ ''.'' @ encode_base36 (case stdout_cursor t of None \<Rightarrow> 0 | Some c \<Rightarrow> c)
     @ ''.'' @ encode_base36 (case stderr_cursor t of None \<Rightarrow> 0 | Some c \<Rightarrow> c)"

section \<open>Base-36 numbers\<close>

lemma base36_digit_value: "d < 36 \<Longrightarrow> base36_value (base36_digit d) = Some d"
  by (cases "d < 10")
    (auto simp: base36_value_def base36_digit_def is_ascii_digit_def is_ascii_lowercase_def)

lemma base36_value_digit: "base36_value c = Some d \<Longrightarrow> d < 36 \<and> base36_digit d = c"
  by (auto simp: base36_value_def base36_digit_def is_ascii_digit_def is_ascii_lowercase_def Let_def split: if_splits)

lemma base36_value_zero: "base36_value c = Some 0 \<longleftrightarrow> c = CHR ''0''"
proof
  assume "base36_value c = Some 0"
  then have "c = base36_digit 0" using base36_value_digit by blast
  also have "\<dots> = CHR ''0''" by code_simp
  finally show "c = CHR ''0''" .
next
  show "c = CHR ''0'' \<Longrightarrow> base36_value c = Some 0" by (simp only:) code_simp
qed

lemma base36_loop_append: "base36_loop v buf = base36_loop v [] @ buf"
proof (induction v arbitrary: buf rule: less_induct)
  case (less v)
  show ?case
  proof (cases "v = 0")
    case False
    then have "v div 36 < v" by simp
    note IH = less [OF this]
    have step: "base36_loop v b = base36_loop (v div 36) [] @ base36_digit (v mod 36) # b" for b
      using False IH [of "base36_digit (v mod 36) # b"] by (subst base36_loop.simps) simp
    show ?thesis using step [of "[]"] step [of buf] by simp
  qed (simp add: base36_loop.simps)
qed

lemma base36_loop_step: "0 < v \<Longrightarrow> base36_loop v [] = base36_loop (v div 36) [] @ [base36_digit (v mod 36)]"
  by (subst base36_loop.simps) (simp add: base36_loop_append [of "v div 36" "[_]"])

lemma base36_loop_length: "v < 36 ^ n \<Longrightarrow> length (base36_loop v []) \<le> n"
proof (induction n arbitrary: v)
  case (Suc n)
  then have "v div 36 < 36 ^ n" by (simp add: less_mult_imp_div_less mult.commute)
  then show ?case using Suc.IH by (cases "v = 0") (simp_all add: base36_loop_step base36_loop.simps [of 0])
qed (simp add: base36_loop.simps)

text \<open>The buffer of thirteen bytes never overflows.\<close>

lemma encode_base36_length: "v \<le> u64_max \<Longrightarrow> length (encode_base36 v) \<le> 13"
  using base36_loop_length [of v 13] by (simp add: encode_base36_def u64_max_def)

lemma base36_fold_append:
  "base36_fold acc (s @ [c]) = Option.bind (base36_fold acc s) (\<lambda>a. base36_fold a [c])"
  by (induction acc s rule: base36_fold.induct) (auto split: option.splits)

lemma base36_fold_loop: "v \<le> u64_max \<Longrightarrow> base36_fold 0 (base36_loop v []) = Some v"
proof (induction v rule: less_induct)
  case (less v)
  show ?case
  proof (cases "v = 0")
    case False
    then have "base36_fold 0 (base36_loop (v div 36) []) = Some (v div 36)"
      using less.IH [of "v div 36"] less.prems by simp
    moreover have "v div 36 * 36 + v mod 36 = v" "v div 36 * 36 \<le> v" by simp_all
    ultimately show ?thesis
      using less.prems False
      by (simp add: base36_loop_step base36_fold_append base36_digit_value)
  qed (simp add: base36_loop.simps)
qed

lemma base36_loop_head: "0 < v \<Longrightarrow> base36_loop v [] \<noteq> [] \<and> hd (base36_loop v []) \<noteq> CHR ''0''"
proof (induction v rule: less_induct)
  case (less v)
  show ?case
  proof (cases "v div 36 = 0")
    case True
    then have "v < 36" by (simp add: div_eq_0_iff)
    then show ?thesis
      using less.prems base36_value_zero [of "base36_digit v"] base36_digit_value [of v]
      by (auto simp: base36_loop_step base36_loop.simps [of 0])
  next
    case False
    moreover have "v div 36 < v" using less.prems by simp
    ultimately show ?thesis using less.IH [of "v div 36"] base36_loop_step [OF less.prems] by simp
  qed
qed

lemma parse_encode_base36: "v \<le> u64_max \<Longrightarrow> parse_base36 (encode_base36 v) = Ok v"
proof (cases "v = 0")
  case True
  then show ?thesis by (simp add: encode_base36_def parse_base36_def base36_value_def is_ascii_digit_def)
next
  case False
  assume "v \<le> u64_max"
  then show ?thesis
    using False base36_loop_head [of v] base36_fold_loop [of v]
    by (cases "base36_loop v []") (auto simp: encode_base36_def parse_base36_def starts_with_iff)
qed

lemma base36_fold_bound: "base36_fold acc s = Some n \<Longrightarrow> acc \<le> u64_max \<Longrightarrow> n \<le> u64_max"
  by (induction acc s rule: base36_fold.induct) (auto split: option.splits if_splits)

lemma base36_loop_fold:
  "base36_fold 0 s = Some n \<Longrightarrow> s = [] \<or> hd s \<noteq> CHR ''0'' \<Longrightarrow> base36_loop n [] = s"
proof (induction s arbitrary: n rule: rev_induct)
  case (snoc c t)
  obtain a d where a: "base36_fold 0 t = Some a" "base36_value c = Some d" "n = a * 36 + d"
    using snoc.prems(1) by (auto simp: base36_fold_append bind_eq_Some_conv split: option.splits if_splits)
  have d: "d < 36" "base36_digit d = c" using base36_value_digit [OF a(2)] by auto
  have t: "base36_loop a [] = t" using snoc.IH [OF a(1)] snoc.prems(2) by (cases t) auto
  have "0 < n"
  proof (cases "t = []")
    case True
    then show ?thesis using snoc.prems(2) a(2,3) base36_value_zero [of c] by (cases "d = 0") auto
  next
    case False
    then have "a \<noteq> 0" using t base36_loop.simps [of 0 "[]"] by (cases a) auto
    then show ?thesis using a(3) by simp
  qed
  then show ?case using base36_loop_step [of n] a(3) d t by simp
qed (simp add: base36_loop.simps)

lemma parse_base36_canonical: "parse_base36 v = Ok n \<Longrightarrow> encode_base36 n = v \<and> n \<le> u64_max"
proof -
  assume p: "parse_base36 v = Ok n"
  then have f: "base36_fold 0 v = Some n" "v \<noteq> []" "\<not> (1 < length v \<and> starts_with v ''0'')"
    by (auto simp: parse_base36_def split: if_splits option.splits)
  have "encode_base36 n = v"
  proof (cases "hd v = CHR ''0''")
    case True
    then have v: "v = ''0''" using f(2,3) by (cases v; cases "List.tl v") (auto simp: starts_with_iff)
    moreover have "base36_fold 0 ''0'' = Some 0" by code_simp
    ultimately have "n = 0" using f(1) by simp
    then show ?thesis using v by (simp add: encode_base36_def)
  next
    case False
    then have "base36_loop n [] = v" using base36_loop_fold [OF f(1)] by simp
    then show ?thesis using f(2) by (auto simp: encode_base36_def base36_loop.simps [of 0])
  qed
  then show ?thesis using base36_fold_bound [OF f(1)] by (simp add: u64_max_def)
qed

lemma base36_fold_digits: "base36_fold acc s = Some n \<Longrightarrow> c \<in> set s \<Longrightarrow> base36_value c \<noteq> None"
  by (induction acc s rule: base36_fold.induct) (auto split: option.splits if_splits)

lemma encode_base36_no_dot: "v \<le> u64_max \<Longrightarrow> CHR ''.'' \<notin> set (encode_base36 v)"
proof -
  assume "v \<le> u64_max"
  then have "base36_fold 0 (encode_base36 v) = Some v"
    using parse_encode_base36 [of v] by (auto simp: parse_base36_def split: if_splits option.splits)
  moreover have "base36_value (CHR ''.'') = None" by code_simp
  ultimately show ?thesis using base36_fold_digits by blast
qed

section \<open>Token round trip\<close>

definition cursors_ok :: "job_observation_token \<Rightarrow> bool" where
  "cursors_ok t =
     (case (stdout_cursor t, stderr_cursor t) of
        (Some a, Some b) \<Rightarrow> 0 < a \<and> a \<le> u64_max \<and> 0 < b \<and> b \<le> u64_max
      | (None, None) \<Rightarrow> True
      | _ \<Rightarrow> False)"

lemma token_parse_encode:
  assumes "compact_decode enc dec 12 (binding t) \<noteq> None" "length (binding t) = 16" "CHR ''.'' \<notin> set (binding t)"
    "tok_revision t \<le> u64_max" "cursors_ok t"
  shows "token_parse enc dec (token_encode t) = Ok t \<and> length (token_encode t) \<le> MAX_JOB_OBSERVATION_TOKEN_LEN"
proof -
  define a b where "a = (case stdout_cursor t of None \<Rightarrow> 0 | Some c \<Rightarrow> c)"
    and "b = (case stderr_cursor t of None \<Rightarrow> 0 | Some c \<Rightarrow> c)"
  have ab: "a \<le> u64_max" "b \<le> u64_max" "(a = 0) = (b = 0)" "non_zero a = stdout_cursor t" "non_zero b = stderr_cursor t"
    using assms(5) by (auto simp: cursors_ok_def a_def b_def non_zero_def split: option.splits)
  have e: "token_encode t = TOKEN_PREFIX @ binding t @ CHR ''.'' # encode_base36 (tok_revision t)
      @ CHR ''.'' # encode_base36 a @ CHR ''.'' # encode_base36 b"
    by (simp add: token_encode_def a_def b_def)
  have len: "length (token_encode t) \<le> 62"
    using encode_base36_length [OF assms(4)] encode_base36_length [OF ab(1)] encode_base36_length [OF ab(2)] assms(2)
    by (simp add: e TOKEN_PREFIX_def)
  have "split_on (CHR ''.'') (binding t @ CHR ''.'' # encode_base36 (tok_revision t)
      @ CHR ''.'' # encode_base36 a @ CHR ''.'' # encode_base36 b) =
      [binding t, encode_base36 (tok_revision t), encode_base36 a, encode_base36 b]"
    using encode_base36_no_dot assms(3,4) ab(1,2) by (simp add: split_on_append_sep split_on_single)
  then show ?thesis
    using len assms(1,4) ab
    by (simp add: token_parse_def e MAX_JOB_OBSERVATION_TOKEN_LEN_def parse_encode_base36)
qed

lemma list_cases5:
  "xs = [] \<or> (\<exists>a. xs = [a]) \<or> (\<exists>a b. xs = [a, b]) \<or> (\<exists>a b c. xs = [a, b, c]) \<or> (\<exists>a b c d. xs = [a, b, c, d])
     \<or> (\<exists>a b c d e ys. xs = a # b # c # d # e # ys)"
  by (metis list.exhaust)

lemma token_encode_parse:
  assumes "token_parse enc dec v = Ok t"
  shows "token_encode t = v"
proof -
  obtain b r s1 s2 out err where v: "strip_prefix TOKEN_PREFIX v = Some (join ''.'' [b, r, s1, s2])"
    and p: "parse_base36 r = Ok (tok_revision t)" "parse_base36 s1 = Ok out" "parse_base36 s2 = Ok err"
    and t: "binding t = b" "stdout_cursor t = non_zero out" "stderr_cursor t = non_zero err"
  proof -
    obtain rest where rest: "strip_prefix TOKEN_PREFIX v = Some rest"
      using assms by (auto simp: token_parse_def split: if_splits option.splits)
    then obtain b r s1 s2 out err where q: "split_on (CHR ''.'') rest = [b, r, s1, s2]"
        "parse_base36 r = Ok (tok_revision t)" "parse_base36 s1 = Ok out" "parse_base36 s2 = Ok err"
        "binding t = b" "stdout_cursor t = non_zero out" "stderr_cursor t = non_zero err"
      using assms list_cases5 [of "split_on (CHR ''.'') rest"]
      by (auto simp: token_parse_def rust_ok split: if_splits)
    have "join ''.'' (split_on (CHR ''.'') rest) = rest" by simp
    then show thesis using that rest q by metis
  qed
  have "(case non_zero n of None \<Rightarrow> 0 | Some c \<Rightarrow> c) = n" for n by (simp add: non_zero_def)
  then show ?thesis
    using v [unfolded strip_prefix_Some_iff] t parse_base36_canonical [OF p(1)] parse_base36_canonical [OF p(2)]
      parse_base36_canonical [OF p(3)]
    by (simp add: token_encode_def)
qed

text \<open>
  C33. An observation token survives the wire and has one spelling. Every token minted for a Job and
  epoch, with any 64-bit revision and cursors, fits the length bound, parses back to itself and matches its parent;
  and any string that parses at all is the one encoding of the token it denotes.
\<close>

theorem observation_token_roundtrip:
  assumes "compact_decode enc dec 12 (observation_binding hash enc jid ep) \<noteq> None"
    "length (observation_binding hash enc jid ep) = 16" "CHR ''.'' \<notin> set (observation_binding hash enc jid ep)"
    "rv \<le> u64_max" "out \<le> u64_max" "err \<le> u64_max"
    "token_new hash enc jid ep rv out err = Ok t \<or> token_new_baseline hash enc jid ep rv = Ok t"
  shows "token_parse enc dec (token_encode t) = Ok t \<and> length (token_encode t) \<le> MAX_JOB_OBSERVATION_TOKEN_LEN
    \<and> matches_parent hash enc jid ep t
    \<and> (\<forall>v t'. token_parse enc dec v = Ok t' \<longrightarrow> token_encode t' = v)"
proof -
  have "binding t = observation_binding hash enc jid ep" "tok_revision t = rv" "cursors_ok t"
    using assms(5-7) by (auto simp: token_new_def token_new_baseline_def cursors_ok_def split: if_splits)
  then show ?thesis
    using token_parse_encode [of enc dec t] token_encode_parse [of enc dec] assms(1-4) by (simp add: matches_parent_def)
qed

theorem observation_token_roundtrip_witness:
  "let enc = (\<lambda>bs. bs @ ''AAAA''); dec = (\<lambda>s. Some (take 12 s)); hash = (\<lambda>_. replicate 32 (CHR ''h'')) in
   \<exists>t. token_new hash enc ''job'' ''epoch'' 7 1 (2 ^ 64 - 1) = Ok t
     \<and> token_encode t = ''wj3_hhhhhhhhhhhhAAAA.7.1.3w5e11264sgsf'' \<and> token_parse enc dec (token_encode t) = Ok t"
proof -
  define enc :: "string \<Rightarrow> string" where "enc = (\<lambda>bs. bs @ ''AAAA'')"
  define dec :: "string \<Rightarrow> string option" where "dec = (\<lambda>s. Some (take 12 s))"
  define hash :: "string \<Rightarrow> string" where "hash = (\<lambda>_. replicate 32 (CHR ''h''))"
  have b: "observation_binding hash enc ''job'' ''epoch'' = ''hhhhhhhhhhhhAAAA''"
    unfolding enc_def hash_def by code_simp
  let ?t = "\<lparr>binding = ''hhhhhhhhhhhhAAAA'', tok_revision = 7, stdout_cursor = Some 1,
             stderr_cursor = Some (2 ^ 64 - 1)\<rparr>"
  have n: "token_new hash enc ''job'' ''epoch'' 7 1 (2 ^ 64 - 1) = Ok ?t"
    by (simp add: token_new_def b)
  have c: "compact_decode enc dec 12 ''hhhhhhhhhhhhAAAA'' \<noteq> None"
    by (simp add: compact_decode_def enc_def dec_def)
  have "token_parse enc dec (token_encode ?t) = Ok ?t"
    using observation_token_roundtrip [of enc dec hash "''job''" "''epoch''" 7 1 "2 ^ 64 - 1" ?t] n c b
    by (simp add: u64_max_def)
  moreover have "token_encode ?t = ''wj3_hhhhhhhhhhhhAAAA.7.1.3w5e11264sgsf''" by code_simp
  ultimately show ?thesis using n unfolding Let_def enc_def dec_def hash_def by auto
qed

section \<open>Observation references\<close>

definition OBSERVATION_REF_PREFIX :: string where
  "OBSERVATION_REF_PREFIX = ''~j''"

definition OBSERVATION_REF_REGISTRY_CAPACITY :: nat where
  "OBSERVATION_REF_REGISTRY_CAPACITY = 512"

definition MAX_OBSERVATION_REF_LEN :: nat where
  "MAX_OBSERVATION_REF_LEN = 22"

record observation_ref_entry =
  ref_str :: string
  principal_id :: string
  ref_job_id :: string
  ref_token :: string

record observation_ref_registry =
  ref_entries :: "observation_ref_entry list"
  ref_counter :: "64 word"

definition empty_refs :: observation_ref_registry where
  "empty_refs = \<lparr>ref_entries = [], ref_counter = 0\<rparr>"

definition mint_ref ::
    "string \<Rightarrow> string \<Rightarrow> string \<Rightarrow> observation_ref_registry \<Rightarrow> string \<times> observation_ref_registry" where
  "mint_ref who jid tok reg =
     (let r = OBSERVATION_REF_PREFIX @ show_nat (unat (ref_counter reg));
          entry = \<lparr>ref_str = r, principal_id = who, ref_job_id = jid, ref_token = tok\<rparr>;
          es = (if OBSERVATION_REF_REGISTRY_CAPACITY \<le> length (ref_entries reg)
                then List.tl (ref_entries reg) else ref_entries reg)
      in (r, \<lparr>ref_entries = es @ [entry], ref_counter = ref_counter reg + 1\<rparr>))"

fun position :: "('a \<Rightarrow> bool) \<Rightarrow> 'a list \<Rightarrow> nat option" where
  "position P [] = None"
| "position P (x # xs) = (if P x then Some 0 else map_option Suc (position P xs))"

definition resolve_ref ::
    "string \<Rightarrow> string \<Rightarrow> observation_ref_registry \<Rightarrow> (string \<times> string) option \<times> observation_ref_registry" where
  "resolve_ref who r reg =
     (case position (\<lambda>e. ref_str e = r \<and> principal_id e = who) (ref_entries reg) of
        None \<Rightarrow> (None, reg)
      | Some i \<Rightarrow>
          let entry = ref_entries reg ! i in
          (Some (ref_job_id entry, ref_token entry),
           reg\<lparr>ref_entries := take i (ref_entries reg) @ drop (i + 1) (ref_entries reg) @ [entry]\<rparr>))"

definition is_ref_syntax :: "string \<Rightarrow> bool" where
  "is_ref_syntax v \<longleftrightarrow> length v \<le> MAX_OBSERVATION_REF_LEN
     \<and> (case strip_prefix OBSERVATION_REF_PREFIX v of
          None \<Rightarrow> False | Some suffix \<Rightarrow> suffix \<noteq> [] \<and> list_all is_ascii_digit suffix)"

section \<open>References stay with their principal\<close>

datatype ref_op = MintRef string string string | ResolveRef string string

fun run_ref :: "ref_op \<Rightarrow> observation_ref_registry \<Rightarrow> observation_ref_registry" where
  "run_ref (MintRef p j t) reg = snd (mint_ref p j t reg)"
| "run_ref (ResolveRef p r) reg = snd (resolve_ref p r reg)"

fun mints :: "ref_op list \<Rightarrow> nat" where
  "mints [] = 0"
| "mints (MintRef p j t # ops) = Suc (mints ops)"
| "mints (ResolveRef p r # ops) = mints ops"

lemma mints_append [simp]: "mints (xs @ ys) = mints xs + mints ys"
  by (induction xs rule: mints.induct) auto

definition decimal_value :: "string \<Rightarrow> nat" where
  "decimal_value s = foldl (\<lambda>a c. 10 * a + (of_char c - 48)) 0 s"

lemma decimal_value_show: "decimal_value (show_nat n) = n"
proof (induction n rule: show_nat.induct)
  case (1 n)
  show ?case
  proof (cases "n < 10")
    case False
    then show ?thesis using 1 by (subst show_nat.simps) (simp add: decimal_value_def)
  qed (subst show_nat.simps, simp add: decimal_value_def)
qed

lemma show_nat_inject [simp]: "show_nat m = show_nat n \<longleftrightarrow> m = n"
  by (metis decimal_value_show)

definition ref_name :: "nat \<Rightarrow> string" where
  "ref_name k = OBSERVATION_REF_PREFIX @ show_nat k"

lemma ref_name_inject [simp]: "ref_name a = ref_name b \<longleftrightarrow> a = b"
  by (simp add: ref_name_def)

lemma position_Some:
  "position P xs = Some i \<Longrightarrow> i < length xs \<and> P (xs ! i) \<and> (\<forall>k < i. \<not> P (xs ! k))"
  by (induction xs arbitrary: i) (auto split: if_splits simp: nth_Cons split: nat.splits)

lemma position_None: "position P xs = None \<longleftrightarrow> (\<forall>x \<in> set xs. \<not> P x)"
  by (induction xs) auto

text \<open>Every entry was minted for its principal, under a name no other entry has.\<close>

definition refs_inv :: "ref_op list \<Rightarrow> observation_ref_registry \<Rightarrow> bool" where
  "refs_inv ops reg \<longleftrightarrow>
     ref_counter reg = of_nat (mints ops) \<and> length (ref_entries reg) \<le> OBSERVATION_REF_REGISTRY_CAPACITY
     \<and> distinct (map ref_str (ref_entries reg))
     \<and> (\<forall>e \<in> set (ref_entries reg). MintRef (principal_id e) (ref_job_id e) (ref_token e) \<in> set ops
          \<and> (\<exists>k < mints ops. ref_str e = ref_name k))"

lemma refs_inv_resolve:
  assumes "refs_inv ops reg"
  shows "refs_inv (ops @ [ResolveRef p r]) (snd (resolve_ref p r reg))"
proof (cases "position (\<lambda>e. ref_str e = r \<and> principal_id e = p) (ref_entries reg)")
  case None
  then show ?thesis using assms by (auto simp: resolve_ref_def refs_inv_def)
next
  case (Some i)
  let ?es = "ref_entries reg"
  have i: "i < length ?es" using position_Some [OF Some] by simp
  have "mset (take i ?es @ drop (i + 1) ?es @ [?es ! i]) = mset (take i ?es @ ?es ! i # drop (Suc i) ?es)" by simp
  also have "\<dots> = mset ?es" by (rule arg_cong [OF id_take_nth_drop [OF i, symmetric]])
  finally have m: "mset (map ref_str (take i ?es @ drop (i + 1) ?es @ [?es ! i])) = mset (map ref_str ?es)"
      "set (take i ?es @ drop (i + 1) ?es @ [?es ! i]) = set ?es"
      "length (take i ?es @ drop (i + 1) ?es @ [?es ! i]) = length ?es"
    by (metis mset_map, metis set_mset_mset, metis size_mset)
  define es where "es = take i ?es @ drop (i + 1) ?es @ [?es ! i]"
  have "distinct (map ref_str es) = distinct (map ref_str ?es)" "set es = set ?es" "length es = length ?es"
    using m mset_eq_imp_distinct_iff unfolding es_def by blast+
  moreover have "snd (resolve_ref p r reg) = reg\<lparr>ref_entries := es\<rparr>"
    using Some by (simp add: resolve_ref_def Let_def es_def)
  ultimately show ?thesis
    using assms by (simp add: refs_inv_def)
qed

lemma refs_inv_mint:
  assumes "refs_inv ops reg" "mints ops < 2 ^ 64"
  shows "refs_inv (ops @ [MintRef p j t]) (snd (mint_ref p j t reg))" "fst (mint_ref p j t reg) = ref_name (mints ops)"
proof -
  have u: "unat (of_nat (mints ops) :: 64 word) = mints ops"
    using assms(2) by (simp add: unat_of_nat take_bit_nat_eq_self)
  then have c: "unat (ref_counter reg) = mints ops" using assms(1) by (simp add: refs_inv_def)
  show "fst (mint_ref p j t reg) = ref_name (mints ops)"
    by (simp add: mint_ref_def Let_def ref_name_def c)
  define es where "es = (if OBSERVATION_REF_REGISTRY_CAPACITY \<le> length (ref_entries reg)
      then List.tl (ref_entries reg) else ref_entries reg)"
  have es: "length es < OBSERVATION_REF_REGISTRY_CAPACITY" "set es \<subseteq> set (ref_entries reg)" "distinct (map ref_str es)"
    using assms(1) by (auto simp: es_def refs_inv_def OBSERVATION_REF_REGISTRY_CAPACITY_def map_tl distinct_tl
        dest: list.set_sel(2) [rotated])
  have old: "ref_name (mints ops) \<noteq> ref_str e" if "e \<in> set es" for e
    using assms(1) es(2) that by (fastforce simp: refs_inv_def)
  have "\<exists>k < Suc (mints ops). ref_str e = ref_name k" if "e \<in> set es" for e
    using assms(1) es(2) that unfolding refs_inv_def by (meson less_Suc_eq subsetD)
  then show "refs_inv (ops @ [MintRef p j t]) (snd (mint_ref p j t reg))"
    using assms(1) es old
    by (auto simp: mint_ref_def Let_def refs_inv_def u ref_name_def [symmetric] es_def [symmetric])
qed

lemma refs_inv_reachable: "mints ops \<le> 2 ^ 64 \<Longrightarrow> refs_inv ops (fold run_ref ops empty_refs)"
proof (induction ops rule: rev_induct)
  case (snoc x ops)
  then show ?case
    by (cases x) (simp_all add: refs_inv_mint(1) refs_inv_resolve)
qed (simp add: refs_inv_def empty_refs_def)

lemma resolve_name:
  assumes "refs_inv ops reg" "e \<in> set (ref_entries reg)" "ref_str e = r"
  shows "fst (resolve_ref p r reg) = (if principal_id e = p then Some (ref_job_id e, ref_token e) else None)"
proof (cases "position (\<lambda>e. ref_str e = r \<and> principal_id e = p) (ref_entries reg)")
  case None
  moreover from None have "principal_id e \<noteq> p" using assms(2,3) by (auto simp: position_None)
  ultimately show ?thesis by (simp add: resolve_ref_def)
next
  case (Some i)
  then have i: "i < length (ref_entries reg)" "ref_str (ref_entries reg ! i) = r" "principal_id (ref_entries reg ! i) = p"
    using position_Some by fastforce+
  have "ref_entries reg ! i = e"
    using assms i nth_mem [OF i(1)] by (auto simp: refs_inv_def distinct_map inj_on_def)
  then show ?thesis using Some i by (simp add: resolve_ref_def)
qed

text \<open>
  An observation reference is a bounded, private handle. After any sequence of mints and resolutions
  (fewer than $2^{64}$ mints), at most 512 references are kept; a reference resolves only for a principal
  that minted exactly that Job and token; a new reference has the syntax of one, resolves at once
  for its principal, and for nobody else.
\<close>

theorem observation_refs_private:
  assumes "mints ops < 2 ^ 64" "reg = fold run_ref ops empty_refs" "mint_ref p j t reg = (r, reg')"
  shows "length (ref_entries reg') \<le> OBSERVATION_REF_REGISTRY_CAPACITY
    \<and> (fst (resolve_ref q s reg) = Some (j', t') \<longrightarrow> MintRef q j' t' \<in> set ops)
    \<and> is_ref_syntax r \<and> fst (resolve_ref q r reg') = (if q = p then Some (j, t) else None)"
proof -
  have inv: "refs_inv ops reg" using refs_inv_reachable assms(1,2) by simp
  have inv': "refs_inv (ops @ [MintRef p j t]) reg'" and r: "r = ref_name (mints ops)"
    using refs_inv_mint [OF inv assms(1), of p j t] assms(3) by simp_all
  have A: "MintRef q j' t' \<in> set ops" if "fst (resolve_ref q s reg) = Some (j', t')"
    using that inv position_Some
    by (fastforce simp: resolve_ref_def refs_inv_def Let_def split: option.splits)
  have "\<lparr>ref_str = r, principal_id = p, ref_job_id = j, ref_token = t\<rparr> \<in> set (ref_entries reg')"
    using assms(3) by (auto simp: mint_ref_def Let_def)
  from resolve_name [OF inv' this, of r q] have B: "fst (resolve_ref q r reg') = (if q = p then Some (j, t) else None)"
    by simp
  have "length (show_nat (mints ops)) \<le> 20"
    using length_show_nat [of "mints ops" 19] assms(1) by simp
  then have "is_ref_syntax r"
    using show_nat_digits by (simp add: r ref_name_def is_ref_syntax_def OBSERVATION_REF_PREFIX_def MAX_OBSERVATION_REF_LEN_def)
  then show ?thesis using A B inv' by (simp add: refs_inv_def)
qed

theorem observation_refs_private_witness:
  "fst (resolve_ref ''bob'' ''~j1'' (snd (mint_ref ''bob'' ''job2'' ''tok2'' (fold run_ref [MintRef ''ada'' ''job1'' ''tok1''] empty_refs))))
     = Some (''job2'', ''tok2'')
   \<and> fst (resolve_ref ''ada'' ''~j1'' (snd (mint_ref ''bob'' ''job2'' ''tok2'' (fold run_ref [MintRef ''ada'' ''job1'' ''tok1''] empty_refs))))
     = None"
proof -
  let ?ops = "[MintRef ''ada'' ''job1'' ''tok1'']"
  let ?reg = "fold run_ref ?ops empty_refs"
  have "fst (mint_ref ''bob'' ''job2'' ''tok2'' ?reg) = ''~j1''" by code_simp
  then have m: "mint_ref ''bob'' ''job2'' ''tok2'' ?reg = (''~j1'', snd (mint_ref ''bob'' ''job2'' ''tok2'' ?reg))"
    by (metis prod.collapse)
  have n: "mints ?ops < 2 ^ 64" by simp
  show ?thesis
    using observation_refs_private [OF n refl m, of "''bob''"] observation_refs_private [OF n refl m, of "''ada''"]
    by simp
qed

end
