(* ===== verification/Log_Projection.thy ===== *)
theory Log_Projection
  imports Job_Observation
begin

text \<open>
  The bounded model-facing view of one retained log stream (\<^verbatim>\<open>project_log_stream\<close> and
  \<^verbatim>\<open>combined_delta_status\<close> of \<^verbatim>\<open>webcodex-core/src/job_observation.rs\<close>): baseline and reset views, delta reads from an
  absolute cursor, and forward pages. \<^verbatim>\<open>usize\<close> has 64 bits.
\<close>

section \<open>Selecting a range\<close>

datatype log_delta_status = DeltaBaseline | DeltaDelta | DeltaUnchanged | DeltaReset

fun delta_status_as_str :: "log_delta_status \<Rightarrow> string" where
  "delta_status_as_str DeltaBaseline = ''baseline''"
| "delta_status_as_str DeltaDelta = ''delta''"
| "delta_status_as_str DeltaUnchanged = ''unchanged''"
| "delta_status_as_str DeltaReset = ''reset''"

datatype log_selection_mode = SelectBaseline | SelectDelta nat | SelectPage nat | SelectReset

fun mode_cursor :: "log_selection_mode \<Rightarrow> nat option" where
  "mode_cursor (SelectDelta c) = Some c"
| "mode_cursor (SelectPage c) = Some c"
| "mode_cursor _ = None"

fun is_page :: "log_selection_mode \<Rightarrow> bool" where
  "is_page (SelectPage c) = True"
| "is_page _ = False"

record log_stream_projection =
  proj_text :: string
  proj_next_line :: nat
  proj_total_lines :: nat
  proj_returned_lines :: nat
  proj_first_retained_line :: nat
  proj_truncated :: bool
  proj_delta_reset :: bool
  proj_has_more :: bool

text \<open>The start of the selection and whether the client must forget what it has.\<close>

definition selection_start ::
    "log_selection_mode \<Rightarrow> nat option \<Rightarrow> nat \<Rightarrow> nat \<Rightarrow> bool \<Rightarrow> nat \<Rightarrow> nat \<times> bool" where
  "selection_start mode tail_bound n first consistent observed_next =
     (let baseline_start = (case tail_bound of None \<Rightarrow> 0 | Some b \<Rightarrow> n - b) in
      case mode_cursor mode of
        None \<Rightarrow> (baseline_start, mode = SelectReset)
      | Some cursor \<Rightarrow>
          if \<not> (consistent \<and> first \<le> cursor \<and> cursor \<le> observed_next) then (baseline_start, True)
          else
            let delta_start = min (cursor - first) n in
            if is_page mode then (delta_start, False)
            else let start = max baseline_start delta_start in (start, delta_start < start))"

definition project_log_stream ::
    "string \<Rightarrow> nat \<Rightarrow> nat \<Rightarrow> bool \<Rightarrow> nat option \<Rightarrow> log_selection_mode \<Rightarrow> bool \<Rightarrow> log_stream_projection" where
  "project_log_stream retained first next storage_truncated tail_lines mode keep_newline =
     (let ls = str_lines retained;
          first = max first 1;
          expected_next = sat_add first (length ls);
          observed_next = max next 1;
          consistent = (observed_next = expected_next);
          next = (if consistent \<and> retained \<noteq> [] \<and> last retained \<noteq> LF
                  then max (observed_next - 1) first else observed_next);
          tail_bound = positive tail_lines;
          (start, reset) = selection_start mode tail_bound (length ls) first consistent observed_next;
          stop = (if is_page mode \<and> \<not> reset
                  then (case tail_bound of None \<Rightarrow> length ls | Some b \<Rightarrow> min (sat_add start b) (length ls))
                  else length ls);
          next = (if stop < length ls then sat_add first stop else next);
          selected = join [LF] (Wcx_Prelude.slice ls start stop);
          txt = (if keep_newline \<and> selected \<noteq> [] then selected @ [LF] else selected);
          baseline_or_reset = (mode_cursor mode = None)
      in \<lparr>proj_text = txt, proj_next_line = next, proj_total_lines = observed_next - 1,
          proj_returned_lines = stop - start, proj_first_retained_line = first,
          proj_truncated = (stop < length ls
             \<or> ((baseline_or_reset \<or> reset) \<and> (storage_truncated \<or> 1 < first \<or> 0 < start))),
          proj_delta_reset = reset, proj_has_more = (stop < length ls)\<rparr>)"

definition combined_delta_status ::
    "log_selection_mode \<Rightarrow> log_stream_projection \<Rightarrow> log_stream_projection \<Rightarrow> log_delta_status" where
  "combined_delta_status mode out err =
     (case mode of
        SelectBaseline \<Rightarrow> DeltaBaseline
      | SelectReset \<Rightarrow> DeltaReset
      | _ \<Rightarrow>
          if proj_delta_reset out \<or> proj_delta_reset err then DeltaReset
          else if proj_text out = [] \<and> proj_text err = [] then DeltaUnchanged
          else DeltaDelta)"

definition project_log :: "shell_job_log_state \<Rightarrow> nat option \<Rightarrow> log_selection_mode \<Rightarrow> bool \<Rightarrow> log_stream_projection" where
  "project_log log = project_log_stream (tail log) (first_retained_line log) (next_line log) (truncated log)"

section \<open>Following a stream\<close>

lemma slice_all: "Wcx_Prelude.slice xs i (length xs) = drop i xs"
  by (simp add: Wcx_Prelude.slice_def)

lemma slice_lines: "Wcx_Prelude.slice (str_lines s) i (length (split_inclusive s)) = drop i (str_lines s)"
  using slice_all [of "str_lines s"] by simp

lemma log_shows_consistent:
  assumes "log_shows S d log" "length S < 2 ^ 63"
  shows "sat_add (max (first_retained_line log) 1) (length (str_lines (tail log))) = next_line log"
    "max (next_line log) 1 = next_line log" "max (first_retained_line log) 1 = first_retained_line log"
    "1 + count_lf S = (if tail log \<noteq> [] \<and> last (tail log) \<noteq> LF then max (next_line log - 1) (first_retained_line log)
        else next_line log)"
    "first_retained_line log \<le> 1 + count_lf S" "1 + count_lf S \<le> next_line log"
proof -
  have inv: "d \<le> length S" "tail log = drop d S" "drop d S = [] \<longrightarrow> S = [] \<or> last S = LF"
    "first_retained_line log = 1 + count_lf (take d S)" "next_line log = 1 + retained_line_count S"
    using assms(1) by (auto simp: log_shows_def)
  have total: "1 + count_lf (take d S) + retained_line_count (drop d S) = 1 + retained_line_count S"
    by (rule line_number_total [OF inv(3)])
  then have "sat_add (1 + count_lf (take d S)) (retained_line_count (drop d S)) = 1 + retained_line_count S"
    using assms(2) retained_line_count_le [of S] by (simp add: sat_add_def u64_max_def)
  then show "sat_add (max (first_retained_line log) 1) (length (str_lines (tail log))) = next_line log"
    using inv by (simp add: retained_line_count_def)
  show "max (next_line log) 1 = next_line log" "max (first_retained_line log) 1 = first_retained_line log"
    using inv by simp_all
  have le: "count_lf (take d S) \<le> count_lf S" by (metis append_take_drop_id count_lf_append le_add1)
  then show "first_retained_line log \<le> 1 + count_lf S" using inv by simp
  have last: "tail log \<noteq> [] \<Longrightarrow> last (tail log) = last S" using inv(2) by (simp add: last_drop)
  have cnt: "retained_line_count S = count_lf S + (if S = [] \<or> last S = LF then 0 else 1)"
    by (simp add: retained_line_count_eq)
  show "1 + count_lf S \<le> next_line log" using cnt inv by simp
  show "1 + count_lf S = (if tail log \<noteq> [] \<and> last (tail log) \<noteq> LF then max (next_line log - 1) (first_retained_line log)
        else next_line log)"
    using cnt inv le last by (cases "tail log = []") (auto split: if_splits)
qed

text \<open>A view that is not a page always hands out the number of the line after the last complete one.\<close>

lemma project_next_line:
  assumes "log_shows S d log" "length S < 2 ^ 63" "\<not> is_page mode"
  shows "proj_next_line (project_log log bound mode keep) = 1 + count_lf S"
  using log_shows_consistent [OF assms(1,2)] assms(3)
  by (simp add: project_log_def project_log_stream_def Let_def split: prod.splits)

lemma complete_lines_fixed: "take (count_lf S) (str_lines (S @ T)) = take (count_lf S) (str_lines S)"
proof -
  obtain p q where pq: "S = p @ q" "p = [] \<or> last p = LF" "LF \<notin> set q" using last_line_split by blast
  have c: "count_lf S = length (split_inclusive p)"
    using pq(2,3) by (auto simp: pq(1) count_lf_no_lf split_inclusive_line_count)
  have "take (count_lf S) (split_inclusive (S @ U)) = split_inclusive p" for U
    using split_inclusive_append_line [OF pq(2), of "q @ U"] pq(1) c by simp
  from this [of T] this [of "[]"] show ?thesis by (simp add: str_lines_def take_map)
qed

lemma delta_read:
  assumes "log_shows S d log" "length S < 2 ^ 63" "c \<le> 1 + retained_line_count S"
    "first_retained_line log < c \<or> first_retained_line log = c \<and> (d = 0 \<or> S ! (d - 1) = LF)"
  shows "proj_text (project_log log None (SelectDelta c) keep) =
      (let ls = drop (c - 1) (str_lines S) in if keep then terminated ls else join [LF] ls)"
    "\<not> proj_delta_reset (project_log log None (SelectDelta c) keep)"
proof -
  have inv: "d \<le> length S" "tail log = drop d S" "drop d S = [] \<longrightarrow> S = [] \<or> last S = LF"
    "first_retained_line log = 1 + count_lf (take d S)" "next_line log = 1 + retained_line_count S"
    using assms(1) by (auto simp: log_shows_def)
  let ?n = "c - first_retained_line log" and ?ls = "str_lines (tail log)"
  have sel: "selection_start (SelectDelta c) None (length ?ls) (first_retained_line log) True (next_line log)
      = (min ?n (length ?ls), False)"
    using assms(3,4) inv(5) by (auto simp: selection_start_def Let_def)
  have "drop (min ?n (length ?ls)) ?ls = drop ?n ?ls" by (simp add: min_def)
  also have "\<dots> = drop (c - 1) (str_lines S)"
    using retained_lines [OF inv(1,3), of ?n] assms(4) inv(2,4) by (auto simp: add.commute)
  finally show "proj_text (project_log log None (SelectDelta c) keep) =
      (let ls = drop (c - 1) (str_lines S) in if keep then terminated ls else join [LF] ls)"
    "\<not> proj_delta_reset (project_log log None (SelectDelta c) keep)"
    using log_shows_consistent(1-3) [OF assms(1,2)] sel
    by (simp_all add: project_log_def project_log_stream_def Let_def positive_def slice_lines terminated_def)
qed

text \<open>
  Following a Job log by delta reads loses nothing. A client that has read a log of stream \<open>S\<close> (in any way
  but paging) holds a cursor behind the complete lines of \<open>S\<close>. When the stream has grown to \<open>S @ T\<close>, a delta
  read from that cursor returns exactly the lines behind them, an unfinished last line included again
  in full, and the new cursor stands behind the complete lines of \<open>S @ T\<close>. The lines the client already has
  are unchanged. If they have been dropped from the retained log meanwhile, the read says that it resets.
\<close>

theorem log_follow_exact:
  assumes "log_shows S d log" "log_shows (S @ T) d' log'" "length (S @ T) < 2 ^ 63" "\<not> is_page mode"
    "c = proj_next_line (project_log log bound mode keep)" "p = project_log log' None (SelectDelta c) False"
  shows "proj_next_line p = 1 + count_lf (S @ T)
    \<and> take (count_lf S) (str_lines (S @ T)) = take (count_lf S) (str_lines S)
    \<and> (first_retained_line log' < c \<or> first_retained_line log' = c \<and> (d' = 0 \<or> (S @ T) ! (d' - 1) = LF) \<longrightarrow>
         \<not> proj_delta_reset p \<and> proj_text p = join [LF] (drop (count_lf S) (str_lines (S @ T))))
    \<and> (c < first_retained_line log' \<longrightarrow> proj_delta_reset p)"
proof -
  have c: "c = 1 + count_lf S" using project_next_line [OF assms(1) _ assms(4)] assms(3,5) by simp
  have "count_lf S \<le> retained_line_count (S @ T)" by (simp add: retained_line_count_eq)
  then have A: "proj_text p = join [LF] (drop (count_lf S) (str_lines (S @ T)))" "\<not> proj_delta_reset p"
    if "first_retained_line log' < c \<or> first_retained_line log' = c \<and> (d' = 0 \<or> (S @ T) ! (d' - 1) = LF)"
    using delta_read [OF assms(2,3) _ that, of False] c assms(6) by simp_all
  have B: "proj_delta_reset p" if "c < first_retained_line log'"
    using that log_shows_consistent(1-3) [OF assms(2,3)] assms(6)
    by (simp add: project_log_def project_log_stream_def selection_start_def Let_def positive_def split: prod.splits)
  show ?thesis
    using A B project_next_line [OF assms(2,3)] assms(6) complete_lines_fixed by auto
qed

theorem log_follow_exact_witness:
  "proj_text (project_log (fold (\<lambda>chunk log. append_log_limited log (Some chunk)) [''a'' @ [LF], ''b'', ''c'' @ [LF]] default_log)
     None (SelectDelta 2) False) = ''bc''"
proof -
  let ?feed = "\<lambda>chunks. fold (\<lambda>chunk log. append_log_limited log (Some chunk)) chunks default_log"
  let ?log = "?feed [''a'' @ [LF], ''b'']" and ?log' = "?feed [''a'' @ [LF], ''b'', ''c'' @ [LF]]"
  have l: "?log = \<lparr>tail = ''a'' @ [LF] @ ''b'', first_retained_line = 1, next_line = 3, truncated = False\<rparr>"
    "?log' = \<lparr>tail = ''a'' @ [LF] @ ''bc'' @ [LF], first_retained_line = 1, next_line = 3, truncated = False\<rparr>"
    by (simp_all add: append_log_limited_def default_log_def retained_line_count_eq Let_def
        LIVE_JOB_STREAM_RETENTION_BYTES_def sat_add_def u64_max_def)
  have s: "log_shows (''a'' @ [LF] @ ''b'') 0 ?log" "log_shows ((''a'' @ [LF] @ ''b'') @ (''c'' @ [LF])) 0 ?log'"
    unfolding l by (simp_all add: log_shows_def retained_line_count_eq LIVE_JOB_STREAM_RETENTION_BYTES_def)
  have c: "2 = proj_next_line (project_log ?log None SelectBaseline False)"
    using project_next_line [OF s(1)] by simp
  have first: "first_retained_line ?log' < 2" unfolding l by simp
  have "proj_text (project_log ?log' None (SelectDelta 2) False) =
      join [LF] (drop (count_lf (''a'' @ [LF] @ ''b'')) (str_lines ((''a'' @ [LF] @ ''b'') @ (''c'' @ [LF]))))"
    using log_follow_exact [OF s _ _ c refl] first by simp
  also have "\<dots> = ''bc''" by code_simp
  finally show ?thesis .
qed

section \<open>Paging through a stream\<close>

text \<open>The loop of a client that reads forward pages until there are no more.\<close>

fun read_pages :: "nat \<Rightarrow> shell_job_log_state \<Rightarrow> nat \<Rightarrow> nat \<Rightarrow> string list option" where
  "read_pages 0 log b c = None"
| "read_pages (Suc fuel) log b c =
     (let p = project_log log (Some b) (SelectPage c) False in
      if proj_delta_reset p then None
      else if proj_has_more p then map_option ((#) (proj_text p)) (read_pages fuel log b (proj_next_line p))
      else Some [proj_text p])"

lemma one_page:
  assumes "log_shows S d log" "length S < 2 ^ 63" "0 < b" "k \<le> length (str_lines (tail log))"
  defines "p \<equiv> project_log log (Some b) (SelectPage (first_retained_line log + k)) False"
  shows "\<not> proj_delta_reset p" "proj_text p = join [LF] (take b (drop k (str_lines (tail log))))"
    "proj_has_more p \<longleftrightarrow> k + b < length (str_lines (tail log))"
    "proj_has_more p \<Longrightarrow> proj_next_line p = first_retained_line log + (k + b)"
proof -
  let ?ls = "str_lines (tail log)" and ?f = "first_retained_line log"
  note con = log_shows_consistent [OF assms(1,2)]
  have "length S \<le> u64_max" using assms(2) by (simp add: u64_max_def)
  moreover have "next_line log \<le> 1 + length S"
    using assms(1) retained_line_count_le [of S] by (simp add: log_shows_def)
  ultimately have nl: "?f + length ?ls = next_line log"
    using con(1,3) assms(2) by (auto simp: sat_add_def min_def u64_max_def split: if_splits)
  have n: "length ?ls < 2 ^ 63" "?f + length ?ls \<le> 2 ^ 63"
    using assms(1,2) \<open>next_line log \<le> 1 + length S\<close> nl by (auto simp: log_shows_def)
  have sel: "selection_start (SelectPage (?f + k)) (Some b) (length ?ls) ?f True (next_line log) = (k, False)"
    using assms(4) nl by (simp add: selection_start_def Let_def)
  have stop: "min (sat_add k b) (length ?ls) = min (k + b) (length ?ls)"
    using n(1) assms(4) by (auto simp: sat_add_def u64_max_def min_def)
  have first: "sat_add ?f (k + b) = ?f + (k + b)" if "k + b < length ?ls"
    using n(2) that by (auto simp: sat_add_def u64_max_def min_def)
  have s: "Wcx_Prelude.slice ?ls k (min (k + b) (length ?ls)) = take b (drop k ?ls)"
    by (simp add: Wcx_Prelude.slice_def take_drop add.commute min_def)
  show "\<not> proj_delta_reset p" "proj_text p = join [LF] (take b (drop k ?ls))"
    "proj_has_more p \<longleftrightarrow> k + b < length ?ls" "proj_has_more p \<Longrightarrow> proj_next_line p = ?f + (k + b)"
    using con(1-3) sel stop s first assms(3)
    by (simp_all add: p_def project_log_def project_log_stream_def Let_def positive_def min_less_iff_disj)
qed

lemma read_pages_complete:
  assumes "log_shows S d log" "length S < 2 ^ 63" "0 < b"
  shows "k \<le> length (str_lines (tail log)) \<Longrightarrow> length (str_lines (tail log)) < k + fuel \<Longrightarrow>
    \<exists>pages. read_pages fuel log b (first_retained_line log + k) = Some (map (join [LF]) pages)
      \<and> concat pages = drop k (str_lines (tail log)) \<and> list_all (\<lambda>page. length page \<le> b) pages"
proof (induction fuel arbitrary: k)
  case (Suc fuel)
  let ?ls = "str_lines (tail log)"
  note page = one_page [OF assms Suc.prems(1)]
  show ?case
  proof (cases "k + b < length ?ls")
    case True
    then obtain pages where "read_pages fuel log b (first_retained_line log + (k + b)) = Some (map (join [LF]) pages)"
        "concat pages = drop (k + b) ?ls" "list_all (\<lambda>page. length page \<le> b) pages"
      using Suc.IH [of "k + b"] Suc.prems assms(3) by auto
    moreover have "take b (drop k ?ls) @ drop (k + b) ?ls = drop k ?ls"
      by (metis add.commute append_take_drop_id drop_drop)
    ultimately show ?thesis
      using page True by (intro exI [of _ "take b (drop k ?ls) # pages"]) (simp add: Let_def)
  next
    case False
    then show ?thesis
      using page by (intro exI [of _ "[take b (drop k ?ls)]"]) (simp add: Let_def)
  qed
qed simp

text \<open>
  C32. Reading a log page by page ends, and reads every retained line exactly once and in order: with at most one
  page per retained line, no page longer than the bound, and no page that asks the client to start over.
\<close>

theorem log_paging_complete:
  assumes "log_shows S d log" "length S < 2 ^ 63" "0 < b"
  shows "\<exists>pages. read_pages (Suc (length (str_lines (tail log)))) log b (first_retained_line log) = Some (map (join [LF]) pages)
    \<and> concat pages = str_lines (tail log) \<and> list_all (\<lambda>page. length page \<le> b) pages"
  using read_pages_complete [OF assms, of 0 "Suc (length (str_lines (tail log)))"] by simp

theorem log_paging_complete_witness:
  "\<exists>pages. read_pages 3 (append_log_limited default_log (Some (''a'' @ [LF] @ ''b'' @ [LF]))) 1 1 = Some (map (join [LF]) pages)
    \<and> concat pages = [''a'', ''b'']"
proof -
  let ?S = "''a'' @ [LF] @ ''b'' @ [LF]"
  let ?log = "append_log_limited default_log (Some ?S)"
  have l: "?log = \<lparr>tail = ?S, first_retained_line = 1, next_line = 3, truncated = False\<rparr>"
    by (simp add: append_log_limited_def default_log_def retained_line_count_eq Let_def
        LIVE_JOB_STREAM_RETENTION_BYTES_def sat_add_def u64_max_def)
  have v: "log_shows ?S 0 ?log"
    unfolding l by (simp add: log_shows_def retained_line_count_eq LIVE_JOB_STREAM_RETENTION_BYTES_def)
  have t: "str_lines (tail ?log) = [''a'', ''b'']" "first_retained_line ?log = 1"
    unfolding l by (simp_all add: str_lines_def strip_line_end_def)
  have "\<exists>pages. read_pages (Suc (length (str_lines (tail ?log)))) ?log 1 (first_retained_line ?log) = Some (map (join [LF]) pages)
    \<and> concat pages = str_lines (tail ?log) \<and> list_all (\<lambda>page. length page \<le> 1) pages"
    by (rule log_paging_complete [OF v]) simp_all
  then show ?thesis unfolding t by (auto simp: numeral_3_eq_3)
qed

end
