(* ===== verification/Job_View.thy ===== *)
theory Job_View
  imports Log_Projection Access_Control
begin

text \<open>
  What a client sees of a Job: the public view of a record (\<^verbatim>\<open>job_view\<close> of \<^verbatim>\<open>webcodex-runner-registry/src/jobs.rs\<close>,
  \<^verbatim>\<open>ShellJobInfo\<close> of \<^verbatim>\<open>webcodex-core/src/runner_protocol/job.rs\<close>), and the observation of its log with an optional
  bounded wait (\<^verbatim>\<open>observation_change_flags\<close>, \<^verbatim>\<open>frozen_shell_job_log_projection\<close> and \<^verbatim>\<open>job_log_with_paging_for_auth\<close> of
  \<^verbatim>\<open>job_updates.rs\<close>).

  A waiting call releases the Registry lock and takes it again; the states it finds are arguments, in
  order, so the theorems hold for every interleaving with other calls.
\<close>

section \<open>The public view\<close>

record shell_job_result =
  res_cwd :: "string option"
  res_command_preview :: string
  res_exit_code :: "int option"
  res_duration_ms :: "nat option"
  res_error :: "string option"

record shell_job_info =
  info_job_id :: string
  info_request_id :: "string option"
  info_client_id :: string
  info_kind :: string
  info_project_id :: "string option"
  info_session_id :: "string option"
  info_ssh_resource :: "string option"
  info_cwd :: "string option"
  info_project_cwd :: "string option"
  info_purpose :: "string option"
  info_shell :: "string option"
  info_command_preview :: string
  info_status :: string
  info_created_at :: int
  info_started_at :: "int option"
  info_ended_at :: "int option"
  info_exit_code :: "int option"
  info_duration_ms :: "nat option"
  elapsed_secs :: "nat option"
  info_error :: "string option"
  info_command_execution_state :: "shell_command_execution_state option"
  info_structured_execution :: "structured_execution_metadata option"
  info_codex :: "wire_json option"
  info_result :: "shell_job_result option"
  info_validation_progress :: "validation_progress_state option"
  info_test_count_evidence :: "test_count_evidence option"
  info_format_mutation :: "format_mutation_report option"
  info_build_artifacts :: "build_artifact list option"
  info_activity :: "shell_job_activity option"
  info_validation :: "validation_metadata option"
  recovery_state :: "string option"
  info_recovered_after_server_restart :: bool
  info_reconciled_at :: "int option"
  recovery_reason_code :: "string option"
  observation_token :: "string option"
  info_last_update_seq :: "nat option"
  stdout_retained_from_line :: "nat option"
  stderr_retained_from_line :: "nat option"
  stdout_log_truncated :: bool
  stderr_log_truncated :: bool

text \<open>The cast of a signed difference to an unsigned number wraps.\<close>

definition i64_as_u64 :: "int \<Rightarrow> nat" where
  "i64_as_u64 i = nat (i mod 2 ^ 64)"

definition job_elapsed_secs :: "int \<Rightarrow> shell_job_record \<Rightarrow> nat option" where
  "job_elapsed_secs now job =
     (case duration_ms job of
        Some ms \<Rightarrow> Some (ms div 1000)
      | None \<Rightarrow> map_option (\<lambda>start. i64_as_u64 (sat_sub_i64 (case ended_at job of None \<Rightarrow> now | Some e \<Rightarrow> e) start))
                  (started_at job))"

definition encoded :: "(job_observation_token, token_error) result \<Rightarrow> string option" where
  "encoded r = (case r of Inl _ \<Rightarrow> None | Inr t \<Rightarrow> Some (token_encode t))"

definition baseline_token :: "(string \<Rightarrow> string) \<Rightarrow> (string \<Rightarrow> string) \<Rightarrow> shell_job_record \<Rightarrow> string option" where
  "baseline_token hash enc job =
     encoded (token_new_baseline hash enc (job_id job) (epoch (observation job)) (unat (revision (observation job))))"

definition job_view :: "(string \<Rightarrow> string) \<Rightarrow> (string \<Rightarrow> string) \<Rightarrow> int \<Rightarrow> shell_job_record \<Rightarrow> shell_job_info" where
  "job_view hash enc now job =
     \<lparr>info_job_id = job_id job, info_request_id = request_id job, info_client_id = client_id job,
      info_kind = kind job, info_project_id = project_id job, info_session_id = session_id job,
      info_ssh_resource = ssh_resource job, info_cwd = cwd job, info_project_cwd = project_cwd job,
      info_purpose = purpose job, info_shell = shell job, info_command_preview = command_preview job,
      info_status = public_status job, info_created_at = created_at job, info_started_at = started_at job,
      info_ended_at = ended_at job, info_exit_code = exit_code job, info_duration_ms = duration_ms job,
      elapsed_secs = job_elapsed_secs now job, info_error = error job,
      info_command_execution_state = command_execution_state job,
      info_structured_execution = structured_execution job, info_codex = codex job,
      info_result = (if is_terminal (lifecycle job) then
          Some \<lparr>res_cwd = cwd job, res_command_preview = command_preview job, res_exit_code = exit_code job,
                res_duration_ms = duration_ms job, res_error = error job\<rparr> else None),
      info_validation_progress = validation_progress job, info_test_count_evidence = test_count_evidence job,
      info_format_mutation = (if kind job = ''project_format'' \<and> \<not> receipt_persisted (observation job)
          then Some FmUnknown else format_mutation job),
      info_build_artifacts = build_artifacts job, info_activity = activity job, info_validation = validation job,
      recovery_state = public_state (recovery job),
      info_recovered_after_server_restart = recovered_after_server_restart (recovery job),
      info_reconciled_at = reconciled_at (recovery job), recovery_reason_code = public_reason (recovery job),
      observation_token = baseline_token hash enc job, info_last_update_seq = Some (last_update_seq job),
      stdout_retained_from_line = Some (first_retained_line (stdout job)),
      stderr_retained_from_line = Some (first_retained_line (stderr job)),
      stdout_log_truncated = truncated (stdout job), stderr_log_truncated = truncated (stderr job)\<rparr>"

section \<open>Observing the log\<close>

definition observation_change_flags ::
    "(string \<Rightarrow> string) \<Rightarrow> (string \<Rightarrow> string) \<Rightarrow> shell_job_record \<Rightarrow> job_observation_token option \<Rightarrow> bool \<times> bool \<times> bool" where
  "observation_change_flags hash enc job after =
     (case after of
        None \<Rightarrow> (False, False, False)
      | Some t \<Rightarrow>
          let parent_changed = (\<not> matches_parent hash enc (job_id job) (epoch (observation job)) t);
              changed = (parent_changed \<or> tok_revision t \<noteq> unat (revision (observation job)));
              meaningful = (changed
                \<and> (parent_changed \<or> tok_revision t < unat (last_meaningful_revision (observation job))))
          in (changed, meaningful, changed \<and> \<not> meaningful))"

datatype wait_outcome = Immediate | Updated | TerminalOutcome | TimeoutOutcome

fun wait_outcome_as_str :: "wait_outcome \<Rightarrow> string" where
  "wait_outcome_as_str Immediate = ''immediate''"
| "wait_outcome_as_str Updated = ''updated''"
| "wait_outcome_as_str TerminalOutcome = ''terminal''"
| "wait_outcome_as_str TimeoutOutcome = ''timeout''"

record job_log_wait =
  outcome :: wait_outcome
  waited_ms :: nat
  changed :: bool
  meaningful_changed :: bool
  heartbeat_changed :: bool
  terminal :: bool

record log_observation =
  wait :: job_log_wait
  log_delta_status :: log_delta_status
  stdout_delta_reset :: bool
  stderr_delta_reset :: bool
  stdout_truncated :: bool
  stderr_truncated :: bool
  stdout_returned_lines :: nat
  stderr_returned_lines :: nat
  stdout_total_lines :: nat
  stderr_total_lines :: nat
  has_more_log_pages :: bool
  analysis_stdout :: string
  analysis_stderr :: string
  analysis_truncated :: bool

record job_log_page =
  page_job :: shell_job_info
  page_stdout :: "string option"
  page_stderr :: "string option"
  page_next_stdout :: nat
  page_next_stderr :: nat
  page_observation :: log_observation

definition text_or_empty :: "string option \<Rightarrow> string" where
  "text_or_empty t = (case t of None \<Rightarrow> [] | Some s \<Rightarrow> s)"

text \<open>The mode of one stream; \<open>cursor\<close> picks the stream's cursor of the token.\<close>

definition stream_mode ::
    "(string \<Rightarrow> string) \<Rightarrow> (string \<Rightarrow> string) \<Rightarrow> shell_job_record \<Rightarrow> job_observation_token option
     \<Rightarrow> (job_observation_token \<Rightarrow> nat option) \<Rightarrow> bool \<Rightarrow> log_selection_mode" where
  "stream_mode hash enc job after cursor page =
     (case after of
        None \<Rightarrow> SelectBaseline
      | Some t \<Rightarrow>
          if \<not> matches_parent hash enc (job_id job) (epoch (observation job)) t then SelectReset
          else if requires_baseline t then SelectBaseline
          else if page then SelectPage (case cursor t of None \<Rightarrow> 0 | Some c \<Rightarrow> c)
          else SelectDelta (case cursor t of None \<Rightarrow> 0 | Some c \<Rightarrow> c))"

definition frozen_shell_job_log_projection ::
    "(string \<Rightarrow> string) \<Rightarrow> (string \<Rightarrow> string) \<Rightarrow> int \<Rightarrow> shell_job_record \<Rightarrow> job_observation_token option
     \<Rightarrow> nat option \<Rightarrow> nat option \<Rightarrow> nat option \<Rightarrow> job_log_wait \<Rightarrow> bool \<Rightarrow> job_log_page" where
  "frozen_shell_job_log_projection hash enc now job after since_out since_err tail_lines w page =
     (let (a_out, _, _, a_out_tr) = select_log_lines (stdout job) None None;
          (a_err, _, _, a_err_tr) = select_log_lines (stderr job) None None;
          a_tr = (a_out_tr \<or> a_err_tr \<or> 1 < first_retained_line (stdout job) \<or> 1 < first_retained_line (stderr job))
      in if since_out \<noteq> None \<or> since_err \<noteq> None then
           let (out, next_out, _, out_tr) = select_log_lines (stdout job) since_out tail_lines;
               (err, next_err, _, err_tr) = select_log_lines (stderr job) since_err tail_lines
           in \<lparr>page_job = job_view hash enc now job, page_stdout = out, page_stderr = err,
               page_next_stdout = next_out, page_next_stderr = next_err,
               page_observation =
                 \<lparr>wait = w, log_delta_status = DeltaBaseline, stdout_delta_reset = False, stderr_delta_reset = False,
                  stdout_truncated = out_tr, stderr_truncated = err_tr,
                  stdout_returned_lines = length (str_lines (text_or_empty out)),
                  stderr_returned_lines = length (str_lines (text_or_empty err)),
                  stdout_total_lines = next_line (stdout job) - 1, stderr_total_lines = next_line (stderr job) - 1,
                  has_more_log_pages = False, analysis_stdout = text_or_empty a_out,
                  analysis_stderr = text_or_empty a_err, analysis_truncated = a_tr\<rparr>\<rparr>
         else
           let mode = stream_mode hash enc job after stdout_cursor page;
               out = project_log (stdout job) tail_lines mode True;
               err = project_log (stderr job) tail_lines (stream_mode hash enc job after stderr_cursor page) True
           in \<lparr>page_job = (job_view hash enc now job)\<lparr>observation_token :=
                 encoded (token_new hash enc (job_id job) (epoch (observation job)) (unat (revision (observation job)))
                   (proj_next_line out) (proj_next_line err))\<rparr>,
               page_stdout = Some (proj_text out), page_stderr = Some (proj_text err),
               page_next_stdout = proj_next_line out, page_next_stderr = proj_next_line err,
               page_observation =
                 \<lparr>wait = w, log_delta_status = combined_delta_status mode out err,
                  stdout_delta_reset = proj_delta_reset out, stderr_delta_reset = proj_delta_reset err,
                  stdout_truncated = proj_truncated out, stderr_truncated = proj_truncated err,
                  stdout_returned_lines = proj_returned_lines out, stderr_returned_lines = proj_returned_lines err,
                  stdout_total_lines = proj_total_lines out, stderr_total_lines = proj_total_lines err,
                  has_more_log_pages = (proj_has_more out \<or> proj_has_more err), analysis_stdout = text_or_empty a_out,
                  analysis_stderr = text_or_empty a_err, analysis_truncated = a_tr\<rparr>\<rparr>)"

section \<open>Waiting for a change\<close>

record job_log_query =
  q_auth :: "runner_access option"
  q_job_id :: string
  q_since_stdout :: "nat option"
  q_since_stderr :: "nat option"
  q_tail_lines :: "nat option"
  q_after :: "job_observation_token option"
  q_wait_secs :: "nat option"
  q_page :: bool

text \<open>A Registry state and the time at which the lock was taken.\<close>

type_synonym locked = "int \<times> registry_inner"

text \<open>
  One wait: the state found when the lock is taken again after subscribing, whether the notification came before
  the deadline, the milliseconds waited, and the state found afterwards.
\<close>

record wait_round =
  recheck :: locked
  woken :: bool
  elapsed_ms :: nat
  afterwards :: locked

definition unknown_shell_job :: "string \<Rightarrow> string" where
  "unknown_shell_job jid = ''unknown shell job: '' @ jid"

text \<open>The Job a call may show, after the refresh of its status.\<close>

definition observable_job :: "int \<Rightarrow> runner_access option \<Rightarrow> string \<Rightarrow> locked \<Rightarrow> (shell_job_record, string) result" where
  "observable_job grace auth jid l =
     (case get_job (jobs_by_id (refresh_job_status_locked (fst l) grace jid (snd l))) jid of
        None \<Rightarrow> Err (unknown_shell_job jid)
      | Some job \<Rightarrow>
          if visibility job \<noteq> Public \<or> \<not> job_visible_to_access (fst l) auth job then Err (unknown_shell_job jid)
          else Ok job)"

definition wait_report :: "wait_outcome \<Rightarrow> nat \<Rightarrow> bool \<times> bool \<times> bool \<Rightarrow> bool \<Rightarrow> job_log_wait" where
  "wait_report o' ms flags term =
     \<lparr>outcome = o', waited_ms = ms, changed = fst flags, meaningful_changed = fst (snd flags),
      heartbeat_changed = snd (snd flags), terminal = term\<rparr>"

definition answer ::
    "(string \<Rightarrow> string) \<Rightarrow> (string \<Rightarrow> string) \<Rightarrow> job_log_query \<Rightarrow> int \<Rightarrow> shell_job_record \<Rightarrow> job_log_wait \<Rightarrow> job_log_page" where
  "answer hash enc q now job w =
     frozen_shell_job_log_projection hash enc now job (q_after q) (q_since_stdout q) (q_since_stderr q)
       (q_tail_lines q) w (q_page q)"

text \<open>The loop; \<^const>\<open>None\<close> is a call that is still waiting when the given rounds are over.\<close>

fun job_log_loop ::
    "(string \<Rightarrow> string) \<Rightarrow> (string \<Rightarrow> string) \<Rightarrow> int \<Rightarrow> job_log_query \<Rightarrow> locked \<Rightarrow> bool \<Rightarrow> nat \<Rightarrow> wait_round list
     \<Rightarrow> (job_log_page option, string) result" where
  "job_log_loop hash enc grace q l waited ms rounds =
     and_then (observable_job grace (q_auth q) (q_job_id q) l) (\<lambda>job.
       let flags = observation_change_flags hash enc job (q_after q); term = is_terminal (lifecycle job) in
       if q_wait_secs q = None \<or> q_after q = None \<or> fst flags \<or> term then
         Ok (Some (answer hash enc q (fst l) job
           (wait_report (if fst flags then (if waited then Updated else Immediate)
                         else if term then TerminalOutcome else Immediate) ms flags term)))
       else (case rounds of
           [] \<Rightarrow> Ok None
         | r # rest \<Rightarrow>
             and_then (observable_job grace (q_auth q) (q_job_id q) (recheck r)) (\<lambda>job.
               let flags = observation_change_flags hash enc job (q_after q); term = is_terminal (lifecycle job) in
               if fst flags \<or> term then
                 Ok (Some (answer hash enc q (fst (recheck r)) job
                   (wait_report (if term then TerminalOutcome else Updated) ms flags term)))
               else
                 let ms = sat_add ms (elapsed_ms r) in
                 if \<not> woken r then
                   and_then (observable_job grace (q_auth q) (q_job_id q) (afterwards r)) (\<lambda>job.
                     let flags = observation_change_flags hash enc job (q_after q);
                         term = is_terminal (lifecycle job) in
                     Ok (Some (answer hash enc q (fst (afterwards r)) job
                       (wait_report (if term then TerminalOutcome else if fst flags then Updated else TimeoutOutcome)
                          ms flags term))))
                 else job_log_loop hash enc grace q (afterwards r) True ms rest)))"

declare job_log_loop.simps [simp del]

fun token_error_display :: "token_error \<Rightarrow> string" where
  "token_error_display Malformed = ''invalid after_observation_token: malformed opaque Job token''"
| "token_error_display Oversized = ''invalid after_observation_token: token exceeds 62 bytes''"

definition job_log_with_paging_for_auth ::
    "(string \<Rightarrow> string) \<Rightarrow> (string \<Rightarrow> string) \<Rightarrow> (string \<Rightarrow> string option) \<Rightarrow> int \<Rightarrow> job_log_query \<Rightarrow> string option
     \<Rightarrow> locked \<Rightarrow> wait_round list \<Rightarrow> (job_log_page option, string) result" where
  "job_log_with_paging_for_auth hash enc dec grace q raw l rounds =
     and_then (validate_id (q_job_id q) ''job_id'') (\<lambda>_.
     and_then (case raw of None \<Rightarrow> Ok None
         | Some v \<Rightarrow> map_err token_error_display (and_then (token_parse enc dec v) (\<lambda>t. Ok (Some t)))) (\<lambda>after.
       job_log_loop hash enc grace (q\<lparr>q_after := after\<rparr>) l False 0 rounds))"

section \<open>Waits end and tell the truth\<close>

lemma answer_wait [simp]: "wait (page_observation (answer hash enc q now job w)) = w"
  by (simp add: answer_def frozen_shell_job_log_projection_def Let_def split: prod.splits)

text \<open>What an answer says is true of the state it was taken from.\<close>

definition truthful ::
    "(string \<Rightarrow> string) \<Rightarrow> (string \<Rightarrow> string) \<Rightarrow> int \<Rightarrow> job_log_query \<Rightarrow> locked set \<Rightarrow> bool \<Rightarrow> job_log_page \<Rightarrow> bool" where
  "truthful hash enc grace q ls expired page \<longleftrightarrow>
     (\<exists>l \<in> ls. \<exists>job w. observable_job grace (q_auth q) (q_job_id q) l = Ok job \<and> page = answer hash enc q (fst l) job w
       \<and> (changed w, meaningful_changed w, heartbeat_changed w) = observation_change_flags hash enc job (q_after q)
       \<and> terminal w = is_terminal (lifecycle job)
       \<and> (outcome w = TimeoutOutcome \<longrightarrow> expired \<and> \<not> changed w \<and> \<not> terminal w)
       \<and> (outcome w = TerminalOutcome \<longrightarrow> terminal w) \<and> (outcome w = Updated \<longrightarrow> changed w))"

lemma truthful_answer:
  assumes "observable_job grace (q_auth q) (q_job_id q) l = Ok job" "l \<in> ls"
    "flags = observation_change_flags hash enc job (q_after q)"
    "o' = TimeoutOutcome \<Longrightarrow> expired \<and> \<not> fst flags \<and> \<not> is_terminal (lifecycle job)"
    "o' = TerminalOutcome \<Longrightarrow> is_terminal (lifecycle job)" "o' = Updated \<Longrightarrow> fst flags"
  shows "truthful hash enc grace q ls expired (answer hash enc q (fst l) job (wait_report o' ms flags (is_terminal (lifecycle job))))"
  unfolding truthful_def
  using assms by (intro bexI [of _ l] exI [of _ job] exI [of _ "wait_report o' ms flags (is_terminal (lifecycle job))"])
    (auto simp: wait_report_def)

lemma truthful_mono:
  "truthful hash enc grace q ls ex page \<Longrightarrow> ls \<subseteq> ls' \<Longrightarrow> (ex \<Longrightarrow> ex') \<Longrightarrow> truthful hash enc grace q ls' ex' page"
  unfolding truthful_def by fast

definition seen :: "locked \<Rightarrow> wait_round list \<Rightarrow> locked set" where
  "seen l rounds = insert l (recheck ` set rounds \<union> afterwards ` set rounds)"

lemma job_log_loop_at_once:
  assumes "job_log_loop hash enc grace q l waited ms rounds = Ok (Some page)"
    "observable_job grace (q_auth q) (q_job_id q) l = Ok job"
    "q_wait_secs q = None \<or> q_after q = None \<or> fst (observation_change_flags hash enc job (q_after q))
       \<or> is_terminal (lifecycle job)"
  shows "truthful hash enc grace q (seen l rounds) expired page"
proof -
  let ?flags = "observation_change_flags hash enc job (q_after q)"
  have "page = answer hash enc q (fst l) job
      (wait_report (if fst ?flags then (if waited then Updated else Immediate)
         else if is_terminal (lifecycle job) then TerminalOutcome else Immediate) ms ?flags (is_terminal (lifecycle job)))"
    using assms by (subst (asm) job_log_loop.simps) (auto simp: Let_def)
  then show ?thesis
    by (simp only:) (rule truthful_answer [OF assms(2) _ refl], auto simp: seen_def split: if_splits)
qed

lemma job_log_loop_truthful:
  "job_log_loop hash enc grace q l waited ms rounds = Ok (Some page) \<Longrightarrow>
     truthful hash enc grace q (seen l rounds) (list_ex (\<lambda>r. \<not> woken r) rounds) page"
proof (induction rounds arbitrary: l waited ms)
  case Nil
  then obtain job where "observable_job grace (q_auth q) (q_job_id q) l = Ok job"
      "q_wait_secs q = None \<or> q_after q = None \<or> fst (observation_change_flags hash enc job (q_after q))
       \<or> is_terminal (lifecycle job)"
    by (subst (asm) job_log_loop.simps) (auto simp: rust_ok Let_def split: if_splits)
  from job_log_loop_at_once [OF Nil this] show ?case .
next
  case (Cons r rest)
  let ?flags = "\<lambda>job. observation_change_flags hash enc job (q_after q)"
  obtain job where job: "observable_job grace (q_auth q) (q_job_id q) l = Ok job"
    using Cons.prems by (subst (asm) job_log_loop.simps) (auto simp: rust_ok)
  show ?case
  proof (cases "q_wait_secs q = None \<or> q_after q = None \<or> fst (?flags job) \<or> is_terminal (lifecycle job)")
    case True
    then show ?thesis by (rule job_log_loop_at_once [OF Cons.prems job])
  next
    case False
    then obtain job' where job': "observable_job grace (q_auth q) (q_job_id q) (recheck r) = Ok job'"
      using Cons.prems by (subst (asm) job_log_loop.simps) (auto simp: job rust_ok)
    note step = Cons.prems [unfolded job_log_loop.simps [of hash enc grace q l waited ms "r # rest"] job job' and_then_simps Let_def list.case]
    show ?thesis
    proof (cases "fst (?flags job') \<or> is_terminal (lifecycle job')")
      case True
      with step False have page: "page = answer hash enc q (fst (recheck r)) job'
          (wait_report (if is_terminal (lifecycle job') then TerminalOutcome else Updated) ms (?flags job') (is_terminal (lifecycle job')))"
        by simp
      show ?thesis
        unfolding page by (rule truthful_answer [OF job' _ refl]) (use True in \<open>auto simp: seen_def split: if_splits\<close>)
    next
      case quiet: False
      show ?thesis
      proof (cases "woken r")
        case True
        with step False quiet have "job_log_loop hash enc grace q (afterwards r) True (sat_add ms (elapsed_ms r)) rest = Ok (Some page)"
          by simp
        from Cons.IH [OF this] show ?thesis by (rule truthful_mono) (auto simp: seen_def)
      next
        case late: False
        with step False quiet obtain job'' where job'': "observable_job grace (q_auth q) (q_job_id q) (afterwards r) = Ok job''"
            "page = answer hash enc q (fst (afterwards r)) job''
               (wait_report (if is_terminal (lifecycle job'') then TerminalOutcome
                  else if fst (?flags job'') then Updated else TimeoutOutcome) (sat_add ms (elapsed_ms r)) (?flags job'')
                  (is_terminal (lifecycle job'')))"
          by (auto simp: rust_ok)
        show ?thesis
          unfolding job''(2) by (rule truthful_answer [OF job''(1) _ refl]) (use late in \<open>auto simp: seen_def split: if_splits\<close>)
      qed
    qed
  qed
qed

lemma job_log_loop_returns:
  "list_ex (\<lambda>r. \<not> woken r) rounds \<Longrightarrow> job_log_loop hash enc grace q l waited ms rounds \<noteq> Ok None"
proof (induction rounds arbitrary: l waited ms)
  case (Cons r rest)
  show ?case
  proof
    assume "job_log_loop hash enc grace q l waited ms (r # rest) = Ok None"
    then have "woken r \<and> (\<exists>ms'. job_log_loop hash enc grace q (afterwards r) True ms' rest = Ok None)"
      by (subst (asm) job_log_loop.simps) (auto simp: rust_ok Let_def split: if_splits)
    then show False using Cons by auto
  qed
qed simp


definition sample_query :: job_log_query where
  "sample_query = \<lparr>q_auth = None, q_job_id = ''a'', q_since_stdout = None, q_since_stderr = None, q_tail_lines = None,
     q_after = None, q_wait_secs = Some 5, q_page = False\<rparr>"

definition sample_done :: locked where
  "sample_done = (100, empty_inner\<lparr>jobs_by_id := insert_job ''a'' (sample_job ''a'' ''c1'' ''i1'' Completed) empty_records\<rparr>)"

lemma sample_observable: "observable_job 120 None ''a'' sample_done = Ok (sample_job ''a'' ''c1'' ''i1'' Completed)"
  by (simp add: observable_job_def sample_done_def refresh_job_status_locked_def get_job_def insert_job_def empty_records_def
      sample_defs job_visible_to_access_def)


section \<open>Observations resume where they stopped\<close>

definition codec_ok :: "(string \<Rightarrow> string) \<Rightarrow> (string \<Rightarrow> string) \<Rightarrow> (string \<Rightarrow> string option) \<Rightarrow> string \<Rightarrow> string \<Rightarrow> bool" where
  "codec_ok hash enc dec jid ep \<longleftrightarrow> compact_decode enc dec 12 (observation_binding hash enc jid ep) \<noteq> None
     \<and> length (observation_binding hash enc jid ep) = 16 \<and> CHR ''.'' \<notin> set (observation_binding hash enc jid ep)"

lemma frozen_token:
  "observation_token (page_job (frozen_shell_job_log_projection hash enc now job after None None bound w page)) =
     encoded (token_new hash enc (job_id job) (epoch (observation job)) (unat (revision (observation job)))
       (proj_next_line (project_log (stdout job) bound (stream_mode hash enc job after stdout_cursor page) True))
       (proj_next_line (project_log (stderr job) bound (stream_mode hash enc job after stderr_cursor page) True)))"
  by (simp add: frozen_shell_job_log_projection_def Let_def split: prod.splits)


definition sample_codec :: "string \<Rightarrow> string" where
  "sample_codec bs = bs @ ''AAAA''"

definition sample_observed :: "string \<Rightarrow> shell_job_record" where
  "sample_observed chunk = (sample_job ''a'' ''c1'' ''i1'' Running)\<lparr>stdout := append_log_limited default_log (Some chunk)\<rparr>"


section \<open>Elapsed time\<close>

text \<open>The elapsed time of a running Job whose start time lies ahead of the server's clock wraps around.\<close>

lemma elapsed_wraps:
  "duration_ms job = None \<Longrightarrow> ended_at job = None \<Longrightarrow> started_at job = Some (now + 1) \<Longrightarrow>
     i64_min < now \<Longrightarrow> now < i64_max \<Longrightarrow> job_elapsed_secs now job = Some (2 ^ 64 - 1)"
  by (simp add: job_elapsed_secs_def i64_as_u64_def sat_sub_i64_def i64_min_def i64_max_def)

end
