(* ===== verification/Reconciliation.thy ===== *)
theory Reconciliation
  imports Registry_State
begin

text \<open>
  Reconciling the Registry's Jobs with a Runner's authoritative inventory, and the sweeps that end Jobs whose
  Runner does not come back: \<^verbatim>\<open>webcodex-runner-registry/src/reconciliation.rs\<close>. The \<^verbatim>\<open>expect\<close> on a validated
  lifecycle is an error value here, so that its unreachability is part of the theorems.
\<close>

section \<open>Request bookkeeping\<close>

definition remove_job_request_mapping :: "string \<Rightarrow> string option \<Rightarrow> registry_inner \<Rightarrow> registry_inner" where
  "remove_job_request_mapping cid rid st =
     (case rid of
        None \<Rightarrow> st
      | Some r \<Rightarrow>
          (let st = retire_job_request_locked cid r st
           in st\<lparr>persistent_waiters := removeAll r (persistent_waiters st)\<rparr>))"

definition remove_job_control_requests :: "string \<Rightarrow> string list \<Rightarrow> registry_inner \<Rightarrow> registry_inner" where
  "remove_job_control_requests cid job_ids st =
     (let rids = map fst (filter (\<lambda>(_, p). pr_client_id p = cid \<and>
            (case pr_job_id p of None \<Rightarrow> False | Some jid \<Rightarrow> List.member job_ids jid)) (pending_by_id st))
      in fold (\<lambda>rid. remove_job_request_mapping cid (Some rid)) rids st)"

definition remove_cleanup_terminal_jobs_locked :: "registry_inner \<Rightarrow> registry_inner" where
  "remove_cleanup_terminal_jobs_locked st =
     (let removable = map fst (filter (\<lambda>(_, job). visibility job = CleanupPending \<and> is_terminal (lifecycle job))
                                 (records (jobs_by_id st)))
      in st\<lparr>jobs_by_id := fold remove_job removable (jobs_by_id st)\<rparr>)"

definition prune_projected_structured_terminal_suppressions_locked :: "int \<Rightarrow> registry_inner \<Rightarrow> registry_inner" where
  "prune_projected_structured_terminal_suppressions_locked now st =
     st\<lparr>runners := map (\<lambda>(cid, r). (cid, prune_suppressions now r)) (runners st)\<rparr>"

section \<open>Snapshots and records\<close>

definition same_context :: "shell_job_record \<Rightarrow> shell_job_snapshot \<Rightarrow> bool" where
  "same_context job snapshot \<longleftrightarrow>
     (let ctx = snap_context snapshot in
      request_id job = Some (snap_request_id snapshot)
      \<and> project_id job = runtime_project_id ctx
      \<and> session_id job = workflow_session_id ctx
      \<and> ssh_resource job = ctx_ssh_resource ctx
      \<and> cwd job = ctx_cwd ctx
      \<and> project_cwd job = ctx_project_cwd ctx
      \<and> purpose job = ctx_purpose ctx
      \<and> shell job = ctx_shell ctx
      \<and> command_preview job = ctx_command_preview ctx
      \<and> validation_steps job = ctx_validation_steps ctx
      \<and> validation job = ctx_validation ctx
      \<and> structured_execution job = ctx_structured_execution ctx)"

definition receipt_terminal_validation_enrichment_matches ::
    "shell_job_record \<Rightarrow> string \<Rightarrow> shell_job_snapshot \<Rightarrow> bool" where
  "receipt_terminal_validation_enrichment_matches job iid snapshot \<longleftrightarrow>
     (let ctx = snap_context snapshot in
      is_terminal (lifecycle job)
      \<and> receipt_expires_at (observation job) \<noteq> None
      \<and> runner_instance_id job = iid
      \<and> from_wire (snap_status snapshot) = Ok (lifecycle job)
      \<and> update_seq snapshot = last_update_seq job
      \<and> request_id job = Some (snap_request_id snapshot)
      \<and> project_id job = runtime_project_id ctx
      \<and> session_id job = workflow_session_id ctx
      \<and> ssh_resource job = ctx_ssh_resource ctx
      \<and> cwd job = ctx_cwd ctx
      \<and> project_cwd job = ctx_project_cwd ctx
      \<and> purpose job = ctx_purpose ctx
      \<and> shell job = ctx_shell ctx
      \<and> command_preview job = ctx_command_preview ctx
      \<and> validation_steps job = ctx_validation_steps ctx
      \<and> structured_execution job = ctx_structured_execution ctx
      \<and> started_at job = snap_started_at snapshot
      \<and> ended_at job = snap_ended_at snapshot
      \<and> exit_code job = snap_exit_code snapshot
      \<and> duration_ms job = snap_duration_ms snapshot
      \<and> error job = snap_error snapshot
      \<and> command_execution_state job = snap_command_execution_state snapshot
      \<and> validation_progress job = snap_validation_progress snapshot
      \<and> validation job = None
      \<and> test_count_evidence job = None
      \<and> ctx_validation ctx \<noteq> None)"

definition is_detached_source :: "structured_execution_metadata option \<Rightarrow> bool" where
  "is_detached_source md = (case md of None \<Rightarrow> False | Some s \<Rightarrow> execution_source s = ''run_detached_process'')"

definition detached_instance_transfer_allowed :: "shell_job_record \<Rightarrow> shell_job_snapshot \<Rightarrow> bool" where
  "detached_instance_transfer_allowed job snapshot \<longleftrightarrow>
     kind job = ''run_detached_process''
     \<and> is_detached_source (structured_execution job)
     \<and> is_detached_source (ctx_structured_execution (snap_context snapshot))
     \<and> same_context job snapshot"

definition progress_completed :: "validation_progress_state option \<Rightarrow> nat" where
  "progress_completed p = (case p of None \<Rightarrow> 0 | Some q \<Rightarrow> completed q)"

definition preflight_snapshot ::
    "registry_inner \<Rightarrow> string \<Rightarrow> string \<Rightarrow> shell_job_snapshot \<Rightarrow> (unit, string) result" where
  "preflight_snapshot st cid iid snapshot =
     (if (case map_of (request_to_job st) (snap_request_id snapshot) of None \<Rightarrow> False
            | Some jid \<Rightarrow> jid \<noteq> snap_job_id snapshot)
        then Err (''job inventory request_id '' @ snap_request_id snapshot @ '' belongs to a different job'')
      else (case get_job (jobs_by_id st) (snap_job_id snapshot) of
          None \<Rightarrow> Ok ()
        | Some existing \<Rightarrow>
            if client_id existing \<noteq> cid
              then Err (''job inventory job_id '' @ snap_job_id snapshot @ '' belongs to a different runner'')
            else if is_terminal (lifecycle existing) \<and> receipt_expires_at (observation existing) \<noteq> None
              then Ok ()
            else
              let transfer = runner_instance_id existing \<noteq> iid
                             \<and> detached_instance_transfer_allowed existing snapshot in
              if runner_instance_id existing \<noteq> iid \<and> \<not> transfer
                then Err (''job inventory job_id '' @ snap_job_id snapshot
                          @ '' belongs to a replaced runner instance'')
              else if \<not> same_context existing snapshot
                then Err (''job inventory job_id '' @ snap_job_id snapshot
                          @ '' has inconsistent ownership context'')
              else if transfer \<and> \<not> is_terminal (lifecycle existing)
                  \<and> update_seq snapshot < last_update_seq existing
                then Err (''job inventory job_id '' @ snap_job_id snapshot
                          @ '' regresses update sequence across detached runner replacement'')
              else
                let would_apply = last_update_seq existing < update_seq snapshot
                      \<or> update_seq snapshot = last_update_seq existing \<and> recovery_active existing in
                if \<not> is_terminal (lifecycle existing) \<and> would_apply then
                  (if progress_completed (snap_validation_progress snapshot)
                        < progress_completed (validation_progress existing)
                     then Err (''job inventory job_id '' @ snap_job_id snapshot
                               @ '' regresses validation progress'')
                   else if ss_next_line (snap_stdout snapshot) < next_line (stdout existing)
                       \<or> ss_next_line (snap_stderr snapshot) < next_line (stderr existing)
                     then Err (''job inventory job_id '' @ snap_job_id snapshot
                               @ '' regresses an absolute log cursor'')
                   else Ok ())
                else Ok ()))"

fun preflight_snapshots ::
    "registry_inner \<Rightarrow> string \<Rightarrow> string \<Rightarrow> shell_job_snapshot list \<Rightarrow> (unit, string) result" where
  "preflight_snapshots st cid iid [] = Ok ()"
| "preflight_snapshots st cid iid (s # ss) =
     and_then (preflight_snapshot st cid iid s) (\<lambda>_. preflight_snapshots st cid iid ss)"

definition preflight_inventory_locked ::
    "registry_inner \<Rightarrow> string \<Rightarrow> string \<Rightarrow> shell_job_inventory \<Rightarrow> (unit, string) result" where
  "preflight_inventory_locked st cid iid inventory = preflight_snapshots st cid iid (inv_jobs inventory)"

definition expected_lifecycle :: "shell_job_snapshot \<Rightarrow> (runner_job_lifecycle, string) result" where
  "expected_lifecycle snapshot =
     (case from_wire (snap_status snapshot) of
        Inl _ \<Rightarrow> Err ''validated job inventory lifecycle''
      | Inr l \<Rightarrow> Ok l)"

definition record_from_snapshot ::
    "string \<Rightarrow> string \<Rightarrow> runner_access_group option \<Rightarrow> string \<Rightarrow> bool \<Rightarrow> bool \<Rightarrow> shell_job_snapshot \<Rightarrow> int
     \<Rightarrow> (shell_job_record \<times> job_effect list, string) result" where
  "record_from_snapshot cid iid grp obs_epoch receipt_cands terminal_cands snapshot now =
     and_then (expected_lifecycle snapshot) (\<lambda>l.
       let ctx = snap_context snapshot in
       Ok (observe_job_terminal now
         \<lparr>job_id = snap_job_id snapshot, request_id = Some (snap_request_id snapshot), client_id = cid,
          auth_group = grp, owner_at_admission = None, runner_instance_id = iid,
          kind = (case ctx_structured_execution ctx of None \<Rightarrow> ''shell'' | Some m \<Rightarrow> execution_source m),
          project_id = runtime_project_id ctx, session_id = workflow_session_id ctx,
          ssh_resource = ctx_ssh_resource ctx, cwd = ctx_cwd ctx, project_cwd = ctx_project_cwd ctx,
          purpose = ctx_purpose ctx, shell = ctx_shell ctx, command_preview = ctx_command_preview ctx,
          detached_idempotency_intent = None, lifecycle = l, created_at = snap_created_at snapshot,
          started_at = snap_started_at snapshot, ended_at = snap_ended_at snapshot,
          exit_code = snap_exit_code snapshot, duration_ms = snap_duration_ms snapshot,
          stdout = default_log, stderr = default_log, error = snap_error snapshot,
          command_execution_state = snap_command_execution_state snapshot,
          structured_execution = ctx_structured_execution ctx, codex = None,
          validation_steps = ctx_validation_steps ctx, validation = ctx_validation ctx,
          validation_progress = snap_validation_progress snapshot,
          test_count_evidence = snap_test_count_evidence snapshot,
          format_mutation = snap_format_mutation snapshot, build_artifacts = snap_build_artifacts snapshot,
          activity = snap_activity snapshot, visibility = Public, last_update_seq = update_seq snapshot,
          recovery = \<lparr>phase = Some Reconciled, recovered_after_server_restart = True,
                      reconciled_at = Some now, reason = Some ServerRestartReconciliation,
                      recovering_since = None\<rparr>,
          observation = (new_observation obs_epoch)
            \<lparr>has_receipt_candidates := receipt_cands, has_terminal_event_candidates := terminal_cands\<rparr>\<rparr>))"

definition apply_snapshot ::
    "shell_job_snapshot \<Rightarrow> int \<Rightarrow> job_recovery_reason \<Rightarrow> runner_job_lifecycle \<Rightarrow> job_step" where
  "apply_snapshot snapshot now why l job =
     then_step (observe_job_terminal now)
       (\<lambda>job. notify_job_update
          (job\<lparr>started_at := snap_started_at snapshot, ended_at := snap_ended_at snapshot,
               exit_code := snap_exit_code snapshot, duration_ms := snap_duration_ms snapshot,
               error := snap_error snapshot,
               command_execution_state := snap_command_execution_state snapshot,
               structured_execution := ctx_structured_execution (snap_context snapshot),
               validation_progress := snap_validation_progress snapshot,
               test_count_evidence := snap_test_count_evidence snapshot,
               format_mutation := snap_format_mutation snapshot,
               build_artifacts := snap_build_artifacts snapshot, activity := snap_activity snapshot,
               validation := ctx_validation (snap_context snapshot),
               stdout := replace_log_from_snapshot (stdout job) (snap_stdout snapshot),
               stderr := replace_log_from_snapshot (stderr job) (snap_stderr snapshot),
               last_update_seq := update_seq snapshot,
               recovery := (recovery job)\<lparr>phase := Some Reconciled, reconciled_at := Some now,
                                          reason := Some why, recovering_since := None\<rparr>\<rparr>))
       (job\<lparr>lifecycle := l\<rparr>)"

section \<open>Sweeps\<close>

definition RECOVERY_SWEEP_PASS_CAP :: nat where
  "RECOVERY_SWEEP_PASS_CAP = 64"

definition recovery_expired :: "string option \<Rightarrow> int \<Rightarrow> int \<Rightarrow> shell_job_record \<Rightarrow> bool" where
  "recovery_expired client_filter now grace job \<longleftrightarrow>
     recovery_active job
     \<and> (case client_filter of None \<Rightarrow> True | Some cid \<Rightarrow> client_id job = cid)
     \<and> (case recovering_since (recovery job) of None \<Rightarrow> False | Some since \<Rightarrow> grace \<le> sat_sub_i64 now since)"

definition lose_if_recovering :: "int \<Rightarrow> job_step" where
  "lose_if_recovering now job =
     (if recovery_active job then
        mark_job_lost now RunnerRecoveryDeadlineExceeded
          ''runner did not reconcile the job before the recovery deadline'' job
      else (job, []))"

definition expire_recovering_jobs_locked ::
    "string option \<Rightarrow> int \<Rightarrow> int \<Rightarrow> nat \<Rightarrow> registry_inner \<Rightarrow> registry_inner \<times> nat" where
  "expire_recovering_jobs_locked client_filter now grace pass_cap st =
     (let expired = take pass_cap (map (\<lambda>(jid, job). (jid, client_id job, request_id job))
                      (filter (\<lambda>(_, job). recovery_expired client_filter now grace job)
                         (records (jobs_by_id st))))
      in if expired = [] then (st, 0)
         else
           let st = fold (\<lambda>(jid, _, _). step_job jid (lose_if_recovering now)) expired st;
               st = fold (\<lambda>(_, cid, rid). remove_job_request_mapping cid rid) expired st;
               st = fold (\<lambda>cid. remove_job_control_requests cid (map fst expired))
                      (remdups (map (fst \<circ> snd) expired)) st
           in (remove_cleanup_terminal_jobs_locked st, length expired))"

datatype terminal_sweep_action = Observe string | RemoveJob string string "string option"

definition terminal_sweep_action_of ::
    "int \<Rightarrow> string \<times> shell_job_record \<Rightarrow> terminal_sweep_action option" where
  "terminal_sweep_action_of now e =
     (case e of (jid, job) \<Rightarrow>
        if visibility job \<noteq> Public \<or> \<not> is_terminal (lifecycle job) then None
        else (case terminal_observed_at (observation job) of
            None \<Rightarrow> Some (Observe jid)
          | Some observed \<Rightarrow>
              if JOB_TERMINAL_RETENTION_SECS \<le> sat_sub_i64 now observed
                then Some (RemoveJob jid (client_id job) (request_id job)) else None))"

definition sweep_observe :: "int \<Rightarrow> terminal_sweep_action \<Rightarrow> registry_inner \<Rightarrow> registry_inner" where
  "sweep_observe now a st =
     (case a of Observe jid \<Rightarrow> step_job jid (observe_job_terminal now) st | RemoveJob _ _ _ \<Rightarrow> st)"

definition sweep_expired :: "terminal_sweep_action list \<Rightarrow> (string \<times> string \<times> string option) list" where
  "sweep_expired actions =
     List.map_filter (\<lambda>a. case a of Observe _ \<Rightarrow> None | RemoveJob jid cid rid \<Rightarrow> Some (jid, cid, rid)) actions"

text \<open>\<open>intents\<close> are the registry's cleanup intents by Job.\<close>

definition prune_expired_terminal_jobs_locked ::
    "int \<Rightarrow> registry_inner \<Rightarrow> (string \<times> 'i) list \<Rightarrow> registry_inner \<times> (string \<times> 'i) list \<times> nat" where
  "prune_expired_terminal_jobs_locked now st intents =
     (let actions = take RECOVERY_SWEEP_PASS_CAP
                      (List.map_filter (terminal_sweep_action_of now) (records (jobs_by_id st)));
          st = fold (sweep_observe now) actions st;
          expired = sweep_expired actions;
          ids = map fst expired
      in if expired = [] then (st, intents, 0)
         else
           let st = fold (\<lambda>(_, cid, rid). remove_job_request_mapping cid rid) expired st;
               st = fold (\<lambda>cid. remove_job_control_requests cid ids) (remdups (map (fst \<circ> snd) expired)) st;
               st = st\<lparr>request_to_job := filter (\<lambda>(_, jid). \<not> List.member ids jid) (request_to_job st)\<rparr>;
               st = st\<lparr>jobs_by_id := fold remove_job (remdups ids) (jobs_by_id st)\<rparr>
           in (st, filter (\<lambda>(jid, _). \<not> List.member ids jid) intents, length expired))"

section \<open>Reconciliation\<close>

record reconciliation_summary =
  inventory_active :: nat
  inventory_terminal :: nat
  reconstructed :: nat
  updated :: nat
  missing :: nat
  suppressed_terminal :: nat

text \<open>What the Registry passes down with an inventory: the connection it came from and the shared sinks.\<close>

record inventory_source =
  src_client_id :: string
  src_runner_instance_id :: string
  src_auth_group :: "runner_access_group option"
  src_observation_epoch :: string
  src_receipt_candidates :: bool
  src_terminal_event_candidates :: bool

definition enrich_terminal :: "shell_job_snapshot \<Rightarrow> job_step" where
  "enrich_terminal snapshot job =
     notify_job_update (job\<lparr>validation := ctx_validation (snap_context snapshot),
                            test_count_evidence := snap_test_count_evidence snapshot,
                            format_mutation := snap_format_mutation snapshot,
                            build_artifacts := snap_build_artifacts snapshot\<rparr>)"

definition reconstruct_job ::
    "inventory_source \<Rightarrow> registry_inner \<Rightarrow> shell_job_snapshot \<Rightarrow> int
     \<Rightarrow> (shell_job_record \<times> job_effect list, string) result" where
  "reconstruct_job src st snapshot now =
     and_then (record_from_snapshot (src_client_id src) (src_runner_instance_id src) (src_auth_group src)
                 (src_observation_epoch src) (src_receipt_candidates src) (src_terminal_event_candidates src)
                 snapshot now) (\<lambda>(job, es).
       let job = job\<lparr>owner_at_admission :=
                       Option.bind (map_of (runners st) (src_client_id src)) rr_owner\<rparr>;
           job = job\<lparr>stdout := replace_log_from_snapshot (stdout job) (snap_stdout snapshot)\<rparr>;
           job = job\<lparr>stderr := replace_log_from_snapshot (stderr job) (snap_stderr snapshot)\<rparr>
       in Ok (case notify_job_update job of (job, es') \<Rightarrow> (job, es @ es')))"

text \<open>
  The body of the snapshot loop. A \<^verbatim>\<open>continue\<close> leaves the request mapping alone; the other branches end
  in \<open>settle_snapshot\<close>.
\<close>

definition settle_snapshot :: "string \<Rightarrow> shell_job_snapshot \<Rightarrow> registry_inner \<Rightarrow> registry_inner" where
  "settle_snapshot cid snapshot st =
     (if is_final_job_status (snap_status snapshot)
      then remove_job_request_mapping cid (Some (snap_request_id snapshot)) st else st)"

definition suppress_unknown_terminal ::
    "inventory_source \<Rightarrow> registry_inner \<Rightarrow> shell_job_snapshot \<Rightarrow> int \<Rightarrow> bool" where
  "suppress_unknown_terminal src st snapshot now \<longleftrightarrow>
     is_final_job_status (snap_status snapshot)
     \<and> (case map_of (runners st) (src_client_id src) of None \<Rightarrow> False
          | Some r \<Rightarrow> suppresses_projected_structured_terminal r (src_client_id src)
                        (src_runner_instance_id src) (snap_job_id snapshot) (snap_request_id snapshot) now)"

definition reconcile_existing ::
    "inventory_source \<Rightarrow> shell_job_snapshot \<Rightarrow> int \<Rightarrow> shell_job_record
     \<Rightarrow> (job_step option \<times> bool, string) result" where
  "reconcile_existing src snapshot now existing =
     (if is_terminal (lifecycle existing) then
        Ok (if receipt_terminal_validation_enrichment_matches existing (src_runner_instance_id src) snapshot
            then Some (enrich_terminal snapshot) else None, False)
      else
        let transfer = runner_instance_id existing \<noteq> src_runner_instance_id src
                       \<and> detached_instance_transfer_allowed existing snapshot in
        if update_seq snapshot < last_update_seq existing then Ok (None, False)
        else if update_seq snapshot = last_update_seq existing \<and> \<not> recovery_active existing \<and> \<not> transfer
          then Ok (None, False)
        else and_then (expected_lifecycle snapshot) (\<lambda>l.
          Ok (Some (\<lambda>job. apply_snapshot snapshot now
                      (if transfer then DetachedInstanceTransfer else SameInstanceReconciliation) l
                      (if transfer then job\<lparr>runner_instance_id := src_runner_instance_id src\<rparr> else job)), True)))"

definition reconcile_snapshot ::
    "inventory_source \<Rightarrow> int \<Rightarrow> shell_job_snapshot \<Rightarrow> registry_inner \<times> reconciliation_summary
     \<Rightarrow> (registry_inner \<times> reconciliation_summary, string) result" where
  "reconcile_snapshot src now snapshot acc =
     (case acc of (st, sm) \<Rightarrow>
        (case get_job (jobs_by_id st) (snap_job_id snapshot) of
           Some existing \<Rightarrow>
             and_then (reconcile_existing src snapshot now existing) (\<lambda>(change, settles).
               case change of
                 None \<Rightarrow> Ok (st, sm)
               | Some step \<Rightarrow>
                   let st = step_job (snap_job_id snapshot) step st;
                       sm = sm\<lparr>updated := updated sm + 1\<rparr>
                   in Ok (if settles then settle_snapshot (src_client_id src) snapshot st else st, sm))
         | None \<Rightarrow>
             if suppress_unknown_terminal src st snapshot now
               then Ok (st, sm\<lparr>suppressed_terminal := suppressed_terminal sm + 1\<rparr>)
             else and_then (reconstruct_job src st snapshot now) (\<lambda>(job, es).
               let st = st\<lparr>jobs_by_id := insert_job (snap_job_id snapshot) job (jobs_by_id st),
                           candidate_sinks := candidate_sinks st @ es\<rparr>
               in Ok (settle_snapshot (src_client_id src) snapshot st,
                      sm\<lparr>reconstructed := reconstructed sm + 1\<rparr>))))"

fun reconcile_snapshots ::
    "inventory_source \<Rightarrow> int \<Rightarrow> shell_job_snapshot list \<Rightarrow> registry_inner \<times> reconciliation_summary
     \<Rightarrow> (registry_inner \<times> reconciliation_summary, string) result" where
  "reconcile_snapshots src now [] acc = Ok acc"
| "reconcile_snapshots src now (s # ss) acc =
     and_then (reconcile_snapshot src now s acc) (reconcile_snapshots src now ss)"

definition missing_jobs ::
    "string \<Rightarrow> string \<Rightarrow> shell_job_inventory \<Rightarrow> registry_inner \<Rightarrow> (string \<times> string option) list" where
  "missing_jobs cid iid inventory st =
     map (\<lambda>(jid, job). (jid, request_id job))
       (filter (\<lambda>(jid, job). client_id job = cid \<and> runner_instance_id job = iid
            \<and> is_runner_active (lifecycle job)
            \<and> \<not> List.member (map snap_job_id (inv_jobs inventory)) jid) (records (jobs_by_id st)))"

definition lose_job ::
    "string \<Rightarrow> int \<Rightarrow> job_recovery_reason \<Rightarrow> string \<Rightarrow> string \<times> string option \<Rightarrow> registry_inner \<Rightarrow> registry_inner" where
  "lose_job cid now why message e st =
     (case e of (jid, rid) \<Rightarrow>
        remove_job_request_mapping cid rid (step_job jid (mark_job_lost now why message) st))"

definition lose_missing_jobs ::
    "string \<Rightarrow> int \<Rightarrow> (string \<times> string option) list \<Rightarrow> registry_inner \<Rightarrow> registry_inner" where
  "lose_missing_jobs cid now gone st =
     (let st = fold (lose_job cid now RunnerInventoryMissing
                       ''runner complete active inventory did not contain this job'') gone st
      in remove_job_control_requests cid (map fst gone) st)"

definition reconcile_inventory_locked ::
    "inventory_source \<Rightarrow> int \<Rightarrow> int \<Rightarrow> shell_job_inventory \<Rightarrow> registry_inner
     \<Rightarrow> (registry_inner \<times> reconciliation_summary, string) result" where
  "reconcile_inventory_locked src grace now inventory st =
     (let cid = src_client_id src;
          st = prune_projected_structured_terminal_suppressions_locked now st;
          st = fst (expire_recovering_jobs_locked (Some cid) now grace RECOVERY_SWEEP_PASS_CAP st);
          gone = missing_jobs cid (src_runner_instance_id src) inventory st;
          st = lose_missing_jobs cid now gone st;
          sm = \<lparr>inventory_active = length (filter (\<lambda>s. is_runner_active_job_status (snap_status s)) (inv_jobs inventory)),
                inventory_terminal = length (filter (\<lambda>s. is_final_job_status (snap_status s)) (inv_jobs inventory)),
                reconstructed = 0, updated = 0, missing = length gone, suppressed_terminal = 0\<rparr>
      in and_then (reconcile_snapshots src now (inv_jobs inventory) (st, sm)) (\<lambda>(st, sm).
           Ok (remove_cleanup_terminal_jobs_locked st, sm)))"

definition replaced_jobs ::
    "string \<Rightarrow> string \<Rightarrow> shell_job_inventory option \<Rightarrow> registry_inner \<Rightarrow> (string \<times> string option) list" where
  "replaced_jobs cid iid replacement st =
     map (\<lambda>(jid, job). (jid, request_id job))
       (filter (\<lambda>(_, job). client_id job = cid \<and> runner_instance_id job = iid
            \<and> (lifecycle job = Queued \<or> is_runner_active (lifecycle job))
            \<and> \<not> (case replacement of None \<Rightarrow> False
                  | Some inventory \<Rightarrow> list_ex (\<lambda>s. snap_job_id s = job_id job
                                       \<and> detached_instance_transfer_allowed job s) (inv_jobs inventory)))
         (records (jobs_by_id st)))"

definition terminate_instance_jobs_locked ::
    "string \<Rightarrow> string \<Rightarrow> shell_job_inventory option \<Rightarrow> int \<Rightarrow> registry_inner \<Rightarrow> registry_inner" where
  "terminate_instance_jobs_locked cid iid replacement now st =
     (let jobs = replaced_jobs cid iid replacement st;
          st = fold (lose_job cid now RunnerInstanceReplaced
                       ''runner instance was replaced before the job completed or reconciled'') jobs st;
          st = remove_job_control_requests cid (map fst jobs) st
      in remove_cleanup_terminal_jobs_locked st)"

section \<open>What leaves the Jobs alone\<close>

named_theorems jobs_frame \<open>operations that do not touch the Job records\<close>

lemma jobs_by_id_requests [jobs_frame]:
  "jobs_by_id (remove_request_from_runner_queue_locked cid rid st) = jobs_by_id st"
  "jobs_by_id (take_pending_request_locked rid st) = jobs_by_id st"
  "jobs_by_id (retire_job_request_locked cid rid st) = jobs_by_id st"
  "jobs_by_id (remove_job_request_mapping cid r st) = jobs_by_id st"
  "jobs_by_id (prune_projected_structured_terminal_suppressions_locked now st) = jobs_by_id st"
  "jobs_by_id (settle_snapshot cid snapshot st) = jobs_by_id st"
  by (simp_all add: remove_request_from_runner_queue_locked_def take_pending_request_locked_def
      retire_job_request_locked_def remove_job_request_mapping_def settle_snapshot_def Let_def
      prune_projected_structured_terminal_suppressions_locked_def split: option.splits)

lemma jobs_by_id_fold [jobs_frame]:
  "(\<And>x st. jobs_by_id (f x st) = jobs_by_id st) \<Longrightarrow> jobs_by_id (fold f xs st) = jobs_by_id st"
  by (induction xs arbitrary: st) simp_all

lemma jobs_by_id_control_requests [jobs_frame]:
  "jobs_by_id (remove_job_control_requests cid ids st) = jobs_by_id st"
  by (simp add: remove_job_control_requests_def jobs_frame)

definition jobs :: "registry_inner \<Rightarrow> string \<Rightarrow> shell_job_record option" where
  "jobs st = get_job (jobs_by_id st)"

definition keyed :: "registry_inner \<Rightarrow> bool" where
  "keyed st \<longleftrightarrow> distinct (map fst (records (jobs_by_id st)))"

lemma jobs_cong: "jobs_by_id st' = jobs_by_id st \<Longrightarrow> jobs st' = jobs st \<and> keyed st' = keyed st"
  by (simp add: jobs_def keyed_def)

lemma jobs_step_job: "jobs (step_job jid f st) = (jobs st)(jid := map_option (fst \<circ> f) (jobs st jid))"
  by (simp add: jobs_def get_step_job)

lemma keyed_step_job [simp]: "keyed st \<Longrightarrow> keyed (step_job jid f st)"
  by (simp add: keyed_def step_job_def modify_job_def distinct_update split: option.splits prod.splits)

lemma records_jobs: "keyed st \<Longrightarrow> (jid, job) \<in> set (records (jobs_by_id st)) \<longleftrightarrow> jobs st jid = Some job"
  by (simp add: keyed_def jobs_def get_job_def)

lemma fold_remove_jobs:
  "get_job (fold remove_job ids js) jid = (if jid \<in> set ids then None else get_job js jid)"
  by (induction ids arbitrary: js) (auto simp: get_job_def remove_job_def delete_conv')

lemma fold_remove_distinct:
  "distinct (map fst (records js)) \<Longrightarrow> distinct (map fst (records (fold remove_job ids js)))"
  by (induction ids arbitrary: js) (simp_all add: remove_job_def distinct_delete)

lemma jobs_cleanup:
  assumes "keyed st"
  shows "keyed (remove_cleanup_terminal_jobs_locked st)"
    "jobs (remove_cleanup_terminal_jobs_locked st) jid =
       (case jobs st jid of None \<Rightarrow> None
          | Some job \<Rightarrow> if visibility job = CleanupPending \<and> is_terminal (lifecycle job) then None else Some job)"
proof -
  show "keyed (remove_cleanup_terminal_jobs_locked st)"
    using assms by (simp add: keyed_def remove_cleanup_terminal_jobs_locked_def fold_remove_distinct)
  have "jid \<in> fst ` set (filter (\<lambda>(_, job). visibility job = CleanupPending \<and> is_terminal (lifecycle job))
           (records (jobs_by_id st))) \<longleftrightarrow>
      (\<exists>job. jobs st jid = Some job \<and> visibility job = CleanupPending \<and> is_terminal (lifecycle job))"
    using records_jobs [OF assms, of jid] by force
  then show "jobs (remove_cleanup_terminal_jobs_locked st) jid =
       (case jobs st jid of None \<Rightarrow> None
          | Some job \<Rightarrow> if visibility job = CleanupPending \<and> is_terminal (lifecycle job) then None else Some job)"
    by (auto simp: remove_cleanup_terminal_jobs_locked_def fold_remove_jobs jobs_def split: option.splits)
qed

section \<open>What a snapshot becomes\<close>

lemma observe_more:
  "runner_instance_id (fst (observe_job_terminal now job)) = runner_instance_id job"
  by (simp add: observe_job_terminal_def)

lemma expected_lifecycle_Ok: "expected_lifecycle s = Inr l \<longleftrightarrow> from_wire (snap_status s) = Ok l"
  by (simp add: expected_lifecycle_def split: sum.splits)

lemma record_from_snapshot_fields:
  assumes "record_from_snapshot cid iid grp e rc tc snapshot now = Ok r"
  shows "client_id (fst r) = cid" "visibility (fst r) = Public" "last_update_seq (fst r) = update_seq snapshot"
    "from_wire (snap_status snapshot) = Ok (lifecycle (fst r))" "\<not> recovering (recovery (fst r))"
    "job_id (fst r) = snap_job_id snapshot" "runner_instance_id (fst r) = iid"
proof -
  obtain l where l: "expected_lifecycle snapshot = Inr l"
    using assms by (auto simp: record_from_snapshot_def rust_ok)
  note r = assms [unfolded record_from_snapshot_def l and_then_simps Let_def, THEN sum.inject(2) [THEN iffD1], symmetric]
  show "client_id (fst r) = cid" "visibility (fst r) = Public" "last_update_seq (fst r) = update_seq snapshot"
    "from_wire (snap_status snapshot) = Ok (lifecycle (fst r))" "\<not> recovering (recovery (fst r))"
    "job_id (fst r) = snap_job_id snapshot" "runner_instance_id (fst r) = iid"
    unfolding r using l
    by (simp_all add: observe_job_terminal_fields observe_job_terminal_fields(3) [unfolded same_identity_def]
       observe_more recovering_def expected_lifecycle_Ok)
qed

lemma reconstruct_job_fields:
  assumes "reconstruct_job src st snapshot now = Ok r"
  shows "client_id (fst r) = src_client_id src" "visibility (fst r) = Public"
    "last_update_seq (fst r) = update_seq snapshot"
    "from_wire (snap_status snapshot) = Ok (lifecycle (fst r))" "\<not> recovering (recovery (fst r))"
    "job_id (fst r) = snap_job_id snapshot" "runner_instance_id (fst r) = src_runner_instance_id src"
proof -
  obtain job es where j: "record_from_snapshot (src_client_id src) (src_runner_instance_id src) (src_auth_group src)
                 (src_observation_epoch src) (src_receipt_candidates src) (src_terminal_event_candidates src)
                 snapshot now = Ok (job, es)"
    using assms by (auto simp: reconstruct_job_def rust_ok)
  note f = record_from_snapshot_fields [OF j, unfolded fst_conv]
  show "client_id (fst r) = src_client_id src" "visibility (fst r) = Public"
    "last_update_seq (fst r) = update_seq snapshot"
    "from_wire (snap_status snapshot) = Ok (lifecycle (fst r))" "\<not> recovering (recovery (fst r))"
    "job_id (fst r) = snap_job_id snapshot" "runner_instance_id (fst r) = src_runner_instance_id src"
    using assms f by (auto simp: reconstruct_job_def j notify_job_update_def notify_job_observation_def Let_def)
qed
section \<open>Relations that reconciliation keeps\<close>

text \<open>
  The interface of the sweeps and of reconciliation: a preorder on Job records that losing a Job of this
  Runner and applying one of its snapshots respect. Whatever respects it holds between each record and its
  successor; only records marked for cleanup may disappear.
\<close>

locale job_preorder =
  fixes R :: "shell_job_record \<Rightarrow> shell_job_record \<Rightarrow> bool"
    and src :: inventory_source
  assumes refl: "R j j"
    and trans: "R i j \<Longrightarrow> R j k \<Longrightarrow> R i k"
    and shape: "R i j \<Longrightarrow> visibility j = visibility i \<and> client_id j = client_id i"
    and lose: "client_id j = src_client_id src \<Longrightarrow> R j (fst (mark_job_lost now why message j))"
    and change: "client_id j = src_client_id src \<Longrightarrow>
      reconcile_existing src snapshot now j = Ok (Some step, settles) \<Longrightarrow> R j (fst (step j))"
begin

definition kept :: "registry_inner \<Rightarrow> registry_inner \<Rightarrow> bool" where
  "kept st st' \<longleftrightarrow> (keyed st \<longrightarrow> keyed st'
     \<and> (\<forall>jid j. jobs st jid = Some j \<longrightarrow> visibility j \<noteq> CleanupPending \<longrightarrow>
          (\<exists>j'. jobs st' jid = Some j' \<and> R j j'))
     \<and> (\<forall>jid j'. jobs st' jid = Some j' \<longrightarrow>
          client_id j' = src_client_id src \<or> (\<exists>j. jobs st jid = Some j \<and> R j j')))"

lemma kept_refl: "kept st st"
  by (auto simp: kept_def refl)

lemma kept_cong: "jobs_by_id st' = jobs_by_id st \<Longrightarrow> kept st st'"
  using kept_refl [of st] jobs_cong [of st' st] by (simp add: kept_def)

lemma kept_trans: "kept a b \<Longrightarrow> kept b c \<Longrightarrow> kept a c"
  unfolding kept_def by (smt (verit) trans shape)

lemma kept_step:
  assumes "\<And>j. jobs st jid = Some j \<Longrightarrow> R j (fst (f j))"
  shows "kept st (step_job jid f st)"
  using assms by (auto simp: kept_def jobs_step_job refl)

lemma kept_cleanup: "kept st (remove_cleanup_terminal_jobs_locked st)"
  by (auto simp: kept_def jobs_cleanup refl split: option.splits if_splits)

lemma kept_lose:
  assumes "\<And>j. jobs st jid = Some j \<Longrightarrow> client_id j = src_client_id src"
  shows "kept st (lose_job cid now why message (jid, rid) st)"
proof -
  have "kept st (step_job jid (mark_job_lost now why message) st)"
    by (rule kept_step) (simp add: assms lose)
  then show ?thesis
    unfolding lose_job_def split
    by (rule kept_trans) (rule kept_cong, simp add: jobs_frame)
qed

definition owned :: "string set \<Rightarrow> registry_inner \<Rightarrow> bool" where
  "owned ids st \<longleftrightarrow> (\<forall>jid \<in> ids. \<forall>j. jobs st jid = Some j \<longrightarrow> client_id j = src_client_id src)"

lemma kept_owned: "kept st st' \<Longrightarrow> keyed st \<Longrightarrow> owned ids st \<Longrightarrow> owned ids st'"
proof -
  assume k: "kept st st'" "keyed st" "owned ids st"
  have "client_id j' = src_client_id src" if jid: "jid \<in> ids" "jobs st' jid = Some j'" for jid j'
  proof (rule ccontr)
    assume ne: "client_id j' \<noteq> src_client_id src"
    then obtain j where "jobs st jid = Some j" "R j j'" using k(1,2) jid(2) unfolding kept_def by blast
    then show False using ne k(3) jid(1) shape [of j j'] by (simp add: owned_def)
  qed
  then show "owned ids st'" by (simp add: owned_def)
qed

lemma kept_keyed: "kept st st' \<Longrightarrow> keyed st \<Longrightarrow> keyed st'"
  by (simp add: kept_def)

lemma kept_fold:
  assumes "\<And>x st. x \<in> set xs \<Longrightarrow> keyed st \<Longrightarrow> owned ids st \<Longrightarrow> kept st (f x st)" "owned ids st"
  shows "kept st (fold f xs st)"
  using assms
proof (induction xs arbitrary: st)
  case Nil
  then show ?case by (simp add: kept_refl)
next
  case (Cons x xs)
  show ?case
  proof (cases "keyed st")
    case True
    then have k: "kept st (f x st)" using Cons.prems by simp
    have "kept (f x st) (fold f xs (f x st))"
      by (rule Cons.IH [OF Cons.prems(1) kept_owned [OF k True Cons.prems(2)]]) simp_all
    then show ?thesis using kept_trans [OF k] by simp
  qed (simp add: kept_def)
qed

lemma kept_expire:
  "kept st (fst (expire_recovering_jobs_locked (Some (src_client_id src)) now grace cap st))"
proof (cases "keyed st")
  case True
  define expired where "expired = take cap (map (\<lambda>(jid, job). (jid, client_id job, request_id job))
      (filter (\<lambda>(_, job). recovery_expired (Some (src_client_id src)) now grace job) (records (jobs_by_id st))))"
  have own: "owned (fst ` set expired) st"
    using True by (auto simp: owned_def expired_def recovery_expired_def records_jobs dest!: in_set_takeD)
  have "kept st (fold (\<lambda>(jid, _, _). step_job jid (lose_if_recovering now)) expired st)"
  proof (rule kept_fold [OF _ own])
    fix x st
    assume x: "x \<in> set expired" "owned (fst ` set expired) st"
    have "kept st (step_job (fst x) (lose_if_recovering now) st)"
      by (rule kept_step) (use x in \<open>simp add: owned_def lose_if_recovering_def lose refl\<close>)
    then show "kept st ((case x of (jid, _, _) \<Rightarrow> step_job jid (lose_if_recovering now)) st)"
      by (simp add: split_beta)
  qed
  then show ?thesis
    unfolding expire_recovering_jobs_locked_def expired_def [symmetric] Let_def
    by (auto intro!: kept_trans [OF _ kept_cleanup] intro: kept_refl elim!: kept_trans
        intro: kept_cong simp: jobs_frame split_beta)
qed (simp add: kept_def)

lemma kept_lose_all:
  assumes "owned (fst ` set es) st"
  shows "kept st (fold (lose_job cid now why message) es st)"
  by (rule kept_fold [OF _ assms]) (force simp: owned_def intro: kept_lose)

lemma owned_missing:
  "keyed st \<Longrightarrow> owned (fst ` set (missing_jobs (src_client_id src) iid inventory st)) st"
  by (auto simp: owned_def missing_jobs_def records_jobs)

lemma kept_missing:
  "kept st (lose_missing_jobs cid now (missing_jobs (src_client_id src) iid inventory st) st)"
proof (cases "keyed st")
  case True
  show ?thesis
    unfolding lose_missing_jobs_def Let_def
    by (rule kept_trans [OF kept_lose_all [OF owned_missing [OF True]]]) (rule kept_cong, simp add: jobs_frame)
qed (simp add: kept_def)

lemma kept_terminate: "kept st (terminate_instance_jobs_locked (src_client_id src) iid replacement now st)"
proof (cases "keyed st")
  case True
  have own: "owned (fst ` set (replaced_jobs (src_client_id src) iid replacement st)) st"
    using True by (auto simp: owned_def replaced_jobs_def records_jobs)
  show ?thesis
    unfolding terminate_instance_jobs_locked_def Let_def
    by (rule kept_trans [OF kept_trans [OF kept_lose_all [OF own]] kept_cleanup])
      (rule kept_cong, simp add: jobs_frame)
qed (simp add: kept_def)

lemma kept_reconcile_snapshot:
  assumes "owned {snap_job_id snapshot} st" "reconcile_snapshot src now snapshot (st, sm) = Ok (st', sm')"
  shows "kept st st'"
proof (cases "jobs st (snap_job_id snapshot)")
  case (Some j)
  then have cid: "client_id j = src_client_id src" using assms(1) by (simp add: owned_def)
  from assms(2) Some obtain stp settles where r: "reconcile_existing src snapshot now j = Ok (stp, settles)"
    by (auto simp: reconcile_snapshot_def jobs_def rust_ok)
  show ?thesis
  proof (cases stp)
    case None
    then show ?thesis using assms(2) Some r by (simp add: reconcile_snapshot_def jobs_def kept_refl)
  next
    case step: (Some step)
    have k: "kept st (step_job (snap_job_id snapshot) step st)"
      by (rule kept_step) (use Some r cid step change in auto)
    have "st' = step_job (snap_job_id snapshot) step st
        \<or> st' = settle_snapshot (src_client_id src) snapshot (step_job (snap_job_id snapshot) step st)"
      using assms(2) Some r step by (auto simp: reconcile_snapshot_def jobs_def Let_def split: if_splits)
    then have "jobs_by_id st' = jobs_by_id (step_job (snap_job_id snapshot) step st)"
      by (auto simp: jobs_frame)
    then show ?thesis by (rule kept_trans [OF k kept_cong])
  qed
next
  case None
  show ?thesis
    using assms(2) None reconstruct_job_fields(1)
    by (auto simp: reconcile_snapshot_def rust_ok Let_def kept_def jobs_def keyed_def jobs_frame insert_job_def
        get_job_def update_conv' distinct_update refl split: if_splits)
qed

lemma kept_reconcile_snapshots:
  assumes "owned (snap_job_id ` set ss) st" "reconcile_snapshots src now ss (st, sm) = Ok (st', sm')"
  shows "kept st st'"
  using assms
proof (induction ss arbitrary: st sm)
  case Nil
  then show ?case by (simp add: kept_refl)
next
  case (Cons s ss)
  then obtain st1 sm1 where 1: "reconcile_snapshot src now s (st, sm) = Ok (st1, sm1)"
      "reconcile_snapshots src now ss (st1, sm1) = Ok (st', sm')"
    by (auto simp: rust_ok)
  have k: "kept st st1" using Cons.prems(1) by (intro kept_reconcile_snapshot [OF _ 1(1)]) (simp add: owned_def)
  show ?case
  proof (cases "keyed st")
    case True
    have "owned (snap_job_id ` set (s # ss)) st1"
      by (rule kept_owned [OF k True Cons.prems(1)])
    then have "owned (snap_job_id ` set ss) st1" by (simp add: owned_def)
    then show ?thesis using kept_trans [OF k Cons.IH] 1(2) by simp
  qed (simp add: kept_def)
qed

lemma kept_reconcile:
  assumes "owned (snap_job_id ` set (inv_jobs inventory)) st"
    "reconcile_inventory_locked src grace now inventory st = Ok (st', sm)"
  shows "kept st st'"
proof (cases "keyed st")
  case True
  define st1 where "st1 = prune_projected_structured_terminal_suppressions_locked now st"
  define st2 where
    "st2 = fst (expire_recovering_jobs_locked (Some (src_client_id src)) now grace RECOVERY_SWEEP_PASS_CAP st1)"
  define st3 where "st3 = lose_missing_jobs (src_client_id src) now
      (missing_jobs (src_client_id src) (src_runner_instance_id src) inventory st2) st2"
  have "kept st st1" by (simp add: st1_def kept_cong jobs_frame)
  then have k3: "kept st st3"
    using kept_trans kept_expire kept_missing unfolding st2_def st3_def by blast
  obtain st4 sm3 where 4: "reconcile_snapshots src now (inv_jobs inventory) (st3, sm3) = Ok (st4, sm)"
      "st' = remove_cleanup_terminal_jobs_locked st4"
    using assms(2)
    by (auto simp: reconcile_inventory_locked_def Let_def rust_ok st1_def [symmetric] st2_def [symmetric]
        st3_def [symmetric])
  have "kept st3 st4"
    using kept_reconcile_snapshots [OF kept_owned [OF k3 True assms(1)] 4(1)] .
  then show ?thesis using kept_trans k3 kept_cleanup 4(2) by blast
qed (simp add: kept_def)

end

section \<open>Reconciliation never rewrites history\<close>

text \<open>
  One Job record evolves into another: its identity and admission are fixed, its update sequence does not go
  back, and once it is terminal nothing about its execution changes.
\<close>

definition job_evolves :: "shell_job_record \<Rightarrow> shell_job_record \<Rightarrow> bool" where
  "job_evolves i j \<longleftrightarrow>
     job_id j = job_id i \<and> request_id j = request_id i \<and> client_id j = client_id i
     \<and> auth_group j = auth_group i \<and> owner_at_admission j = owner_at_admission i \<and> kind j = kind i
     \<and> created_at j = created_at i \<and> visibility j = visibility i
     \<and> last_update_seq i \<le> last_update_seq j
     \<and> (is_terminal (lifecycle i) \<longrightarrow>
          lifecycle j = lifecycle i \<and> runner_instance_id j = runner_instance_id i
          \<and> started_at j = started_at i \<and> ended_at j = ended_at i \<and> exit_code j = exit_code i
          \<and> duration_ms j = duration_ms i \<and> error j = error i
          \<and> command_execution_state j = command_execution_state i
          \<and> stdout j = stdout i \<and> stderr j = stderr i \<and> recovery j = recovery i
          \<and> last_update_seq j = last_update_seq i)"

text \<open>Records of other Runners do not change at all.\<close>

definition foreign_unchanged :: "string \<Rightarrow> shell_job_record \<Rightarrow> shell_job_record \<Rightarrow> bool" where
  "foreign_unchanged cid i j \<longleftrightarrow> client_id j = client_id i \<and> visibility j = visibility i
     \<and> (client_id i \<noteq> cid \<longrightarrow> j = i)"

lemmas job_step_defs = mark_job_lost_def apply_snapshot_def enrich_terminal_def then_step_def
  observe_job_terminal_def notify_job_update_def notify_job_observation_def Let_def

lemma reconcile_existing_cases:
  assumes "reconcile_existing src snapshot now j = Ok (Some step, settles)"
  obtains (enrich) "is_terminal (lifecycle j)" "step = enrich_terminal snapshot" "\<not> settles"
      "receipt_terminal_validation_enrichment_matches j (src_runner_instance_id src) snapshot"
  | (replace) l transfer where "\<not> is_terminal (lifecycle j)" "last_update_seq j \<le> update_seq snapshot"
      "from_wire (snap_status snapshot) = Ok l" "settles"
      "transfer \<longleftrightarrow> runner_instance_id j \<noteq> src_runner_instance_id src
         \<and> detached_instance_transfer_allowed j snapshot"
      "step = (\<lambda>job. apply_snapshot snapshot now
                 (if transfer then DetachedInstanceTransfer else SameInstanceReconciliation) l
                 (if transfer then job\<lparr>runner_instance_id := src_runner_instance_id src\<rparr> else job))"
  using assms
  by (auto simp: reconcile_existing_def expected_lifecycle_def Let_def rust_ok split: if_splits sum.splits)

lemma apply_snapshot_fields:
  "lifecycle (fst (apply_snapshot snapshot now why l job)) = l"
  "last_update_seq (fst (apply_snapshot snapshot now why l job)) = update_seq snapshot"
  "\<not> recovering (recovery (fst (apply_snapshot snapshot now why l job)))"
  "client_id (fst (apply_snapshot snapshot now why l job)) = client_id job"
  "visibility (fst (apply_snapshot snapshot now why l job)) = visibility job"
  by (simp_all add: job_step_defs recovering_def)

interpretation evolution: job_preorder job_evolves src
proof unfold_locales
  fix i j k now why message snapshot step settles
  show "job_evolves j j" by (simp add: job_evolves_def)
  show "job_evolves i j \<Longrightarrow> job_evolves j k \<Longrightarrow> job_evolves i k" by (auto simp: job_evolves_def)
  show "job_evolves i j \<Longrightarrow> visibility j = visibility i \<and> client_id j = client_id i"
    by (simp add: job_evolves_def)
  show "job_evolves j (fst (mark_job_lost now why message j))"
    by (simp add: job_step_defs job_evolves_def)
  assume "reconcile_existing src snapshot now j = Ok (Some step, settles)"
  then show "job_evolves j (fst (step j))"
    by (cases rule: reconcile_existing_cases) (simp_all add: job_step_defs job_evolves_def)
qed

interpretation isolation: job_preorder "foreign_unchanged (src_client_id src)" src
proof unfold_locales
  fix i j k now why message snapshot step settles
  let ?R = "foreign_unchanged (src_client_id src)"
  show "?R j j" by (simp add: foreign_unchanged_def)
  show "?R i j \<Longrightarrow> ?R j k \<Longrightarrow> ?R i k" by (auto simp: foreign_unchanged_def)
  show "?R i j \<Longrightarrow> visibility j = visibility i \<and> client_id j = client_id i"
    by (simp add: foreign_unchanged_def)
  show "client_id j = src_client_id src \<Longrightarrow> ?R j (fst (mark_job_lost now why message j))"
    by (simp add: job_step_defs foreign_unchanged_def)
  assume "client_id j = src_client_id src" "reconcile_existing src snapshot now j = Ok (Some step, settles)"
  from this(2,1) show "?R j (fst (step j))"
    by (cases rule: reconcile_existing_cases) (simp_all add: job_step_defs foreign_unchanged_def)
qed

lemma preflight_snapshots_Ok:
  "preflight_snapshots st cid iid ss = Ok () \<Longrightarrow> s \<in> set ss \<Longrightarrow> preflight_snapshot st cid iid s = Ok ()"
  by (induction ss) (auto simp: rust_ok)

lemma preflight_owned:
  assumes "preflight_inventory_locked st (src_client_id src) iid inventory = Ok ()"
    "s \<in> set (inv_jobs inventory)" "jobs st (snap_job_id s) = Some j"
  shows "client_id j = src_client_id src"
  using preflight_snapshots_Ok [OF assms(1) [unfolded preflight_inventory_locked_def] assms(2)] assms(3)
  by (simp add: preflight_snapshot_def jobs_def split: if_splits option.splits)


text \<open>
  C9. An inventory speaks for its own Runner only. After reconciling an accepted inventory every Job of
  another Runner that is not marked for cleanup is exactly what it was, and every Job of another Runner that
  exists afterwards existed before, unchanged: a Runner can neither touch, lose, overwrite nor
  invent a Job of another Runner.
\<close>

theorem reconcile_isolates_runners:
  assumes "keyed st" "preflight_inventory_locked st (src_client_id src) (src_runner_instance_id src) inventory = Ok ()"
    "reconcile_inventory_locked src grace now inventory st = Ok (st', sm)"
    "client_id job \<noteq> src_client_id src" "visibility job \<noteq> CleanupPending"
  shows "get_job (jobs_by_id st') jid = Some job \<longleftrightarrow> get_job (jobs_by_id st) jid = Some job"
proof -
  have "isolation.owned src (snap_job_id ` set (inv_jobs inventory)) st"
    using preflight_owned [OF assms(2)] by (auto simp: isolation.owned_def)
  note k = isolation.kept_reconcile [OF this assms(3), unfolded isolation.kept_def, rule_format, OF assms(1)]
  show ?thesis
  proof
    assume "get_job (jobs_by_id st') jid = Some job"
    then obtain j where "jobs st jid = Some j" "foreign_unchanged (src_client_id src) j job"
      using k assms(4) unfolding jobs_def by blast
    then show "get_job (jobs_by_id st) jid = Some job"
      using assms(4) by (simp add: foreign_unchanged_def jobs_def)
  next
    assume "get_job (jobs_by_id st) jid = Some job"
    then obtain j' where "jobs st' jid = Some j'" "foreign_unchanged (src_client_id src) job j'"
      using k assms(5) unfolding jobs_def by blast
    then show "get_job (jobs_by_id st') jid = Some job"
      using assms(4) by (simp add: foreign_unchanged_def jobs_def)
  qed
qed

section \<open>Completeness of reconciliation\<close>

lemma mark_job_lost_idem:
  "fst (mark_job_lost now why message (fst (mark_job_lost now' why' message' j))) = fst (mark_job_lost now' why' message' j)"
  by (rule mark_job_lost_terminal [THEN arg_cong [of _ _ fst], unfolded fst_conv]) (rule mark_job_lost_fields)

lemma lose_if_recovering_idem: "fst (lose_if_recovering now (fst (lose_if_recovering now j))) = fst (lose_if_recovering now j)"
  using mark_job_lost_idem by (auto simp: lose_if_recovering_def)

lemma jobs_fold_step:
  assumes idem: "\<And>j. fst (f (fst (f j))) = fst (f j)"
    and step: "\<And>x st. jobs (g x st) = (jobs st)(k x := map_option (fst \<circ> f) (jobs st (k x)))"
  shows "jobs (fold g xs st) jid = (if jid \<in> k ` set xs then map_option (fst \<circ> f) (jobs st jid) else jobs st jid)"
proof (induction xs arbitrary: st)
  case (Cons x xs)
  then show ?case by (cases "jobs st jid") (auto simp: step idem)
qed simp

lemma jobs_lose_jobs:
  "jobs (fold (lose_job cid now why message) es st) jid =
     (if jid \<in> fst ` set es then map_option (fst \<circ> mark_job_lost now why message) (jobs st jid) else jobs st jid)"
proof (rule jobs_fold_step [OF mark_job_lost_idem])
  fix e st
  show "jobs (lose_job cid now why message e st) =
      (jobs st)(fst e := map_option (fst \<circ> mark_job_lost now why message) (jobs st (fst e)))"
    using jobs_step_job [of "fst e" "mark_job_lost now why message" st]
    by (cases e) (simp add: lose_job_def jobs_def jobs_frame)
qed

lemma keyed_lose_jobs: "keyed st \<Longrightarrow> keyed (fold (lose_job cid now why message) es st)"
proof (induction es arbitrary: st)
  case (Cons e es)
  have "keyed (lose_job cid now why message e st)"
    using Cons.prems keyed_step_job [of st "fst e" "mark_job_lost now why message"]
    by (cases e) (simp add: lose_job_def keyed_def jobs_frame)
  then show ?case using Cons.IH by simp
qed simp

lemma jobs_lose_missing:
  "jobs (lose_missing_jobs cid now gone st) jid =
     (if jid \<in> fst ` set gone
      then map_option (fst \<circ> mark_job_lost now RunnerInventoryMissing
             ''runner complete active inventory did not contain this job'') (jobs st jid)
      else jobs st jid)"
  unfolding jobs_lose_jobs [where cid = cid, symmetric] by (simp add: lose_missing_jobs_def Let_def jobs_def jobs_frame)

lemma keyed_lose_missing: "keyed st \<Longrightarrow> keyed (lose_missing_jobs cid now gone st)"
  using keyed_lose_jobs by (simp add: lose_missing_jobs_def Let_def keyed_def jobs_frame)

lemma missing_jobs_iff:
  "keyed st \<Longrightarrow> jid \<in> fst ` set (missing_jobs cid iid inventory st) \<longleftrightarrow>
     (\<exists>job. jobs st jid = Some job \<and> client_id job = cid \<and> runner_instance_id job = iid
        \<and> is_runner_active (lifecycle job) \<and> jid \<notin> snap_job_id ` set (inv_jobs inventory))"
  by (force simp: missing_jobs_def records_jobs [symmetric])

lemma no_missing_left:
  assumes "keyed st" "jobs (lose_missing_jobs cid now (missing_jobs cid iid inventory st) st) jid = Some job"
    "client_id job = cid" "runner_instance_id job = iid" "is_runner_active (lifecycle job)"
  shows "jid \<in> snap_job_id ` set (inv_jobs inventory)"
proof (rule ccontr)
  assume out: "jid \<notin> snap_job_id ` set (inv_jobs inventory)"
  show False
  proof (cases "jid \<in> fst ` set (missing_jobs cid iid inventory st)")
    case True
    then obtain i where "job = fst (mark_job_lost now RunnerInventoryMissing
             ''runner complete active inventory did not contain this job'' i)"
      using assms(2) by (auto simp: jobs_lose_missing)
    then have "is_terminal (lifecycle job)" by (simp only: mark_job_lost_fields(3))
    then show False using assms(5) runner_active_not_terminal by blast
  next
    case False
    then have "jobs st jid = Some job" using assms(2) by (simp add: jobs_lose_missing)
    then show False using False out assms by (simp add: missing_jobs_iff)
  qed
qed

text \<open>One snapshot: what it does to its own Job, and that it does nothing to the others.\<close>

definition caught_up :: "shell_job_snapshot \<Rightarrow> shell_job_record \<Rightarrow> bool" where
  "caught_up s job \<longleftrightarrow> is_terminal (lifecycle job) \<or> update_seq s < last_update_seq job
     \<or> update_seq s = last_update_seq job \<and> \<not> recovery_active job"

lemma reconcile_snapshot_frame:
  assumes "reconcile_snapshot src now s (st, sm) = Ok (st', sm')"
  shows "keyed st \<Longrightarrow> keyed st'" "jid \<noteq> snap_job_id s \<Longrightarrow> jobs st' jid = jobs st jid"
  using assms
  by (auto simp: reconcile_snapshot_def rust_ok Let_def keyed_def jobs_def jobs_frame insert_job_def
      distinct_update get_job_def update_conv' keyed_step_job [unfolded keyed_def] get_step_job [unfolded get_job_def]
      split: option.splits if_splits)

lemma reconcile_snapshot_caught_up:
  assumes "reconcile_snapshot src now s (st, sm) = Ok (st', sm')" "jobs st' (snap_job_id s) = Some job"
  shows "caught_up s job"
proof (cases "jobs st (snap_job_id s)")
  case None
  then show ?thesis
    using assms reconstruct_job_fields(3,5)
    by (auto simp: reconcile_snapshot_def rust_ok Let_def jobs_def jobs_frame insert_job_def get_job_def
        update_conv' caught_up_def recovery_active_def split: if_splits)
next
  case (Some j)
  then obtain chg settles where r: "reconcile_existing src s now j = Ok (chg, settles)"
    using assms(1) by (auto simp: reconcile_snapshot_def jobs_def rust_ok)
  show ?thesis
  proof (cases chg)
    case None
    then have "job = j" "caught_up s j"
      using assms Some r by (auto simp: reconcile_snapshot_def jobs_def reconcile_existing_def caught_up_def Let_def
          rust_ok split: if_splits)
    then show ?thesis by simp
  next
    case step: (Some step)
    then have "job = fst (step j)"
      using assms Some r by (auto simp: reconcile_snapshot_def jobs_def jobs_frame Let_def get_step_job split: if_splits)
    moreover have "reconcile_existing src s now j = Ok (Some step, settles)" using r step by simp
    then have "caught_up s (fst (step j))"
      by (cases rule: reconcile_existing_cases)
        (simp_all add: caught_up_def apply_snapshot_fields recovery_active_def,
         simp add: job_step_defs)
    ultimately show ?thesis by simp
  qed
qed

lemma reconcile_snapshot_total:
  assumes "is_ok (from_wire (snap_status s))"
  shows "\<exists>acc'. reconcile_snapshot src now s acc = Ok acc'"
proof -
  obtain l where "from_wire (snap_status s) = Ok l" using assms by (cases "from_wire (snap_status s)") simp_all
  then show ?thesis
    by (cases acc) (auto simp: reconcile_snapshot_def reconcile_existing_def reconstruct_job_def
        record_from_snapshot_def expected_lifecycle_def Let_def split: option.splits prod.splits)
qed

lemma reconcile_snapshots_total:
  "list_all (\<lambda>s. is_ok (from_wire (snap_status s))) ss \<Longrightarrow> \<exists>acc'. reconcile_snapshots src now ss acc = Ok acc'"
proof (induction ss arbitrary: acc)
  case (Cons s ss)
  then show ?case using reconcile_snapshot_total [of s src now acc] by auto
qed simp

lemma reconcile_snapshots_frame:
  assumes "reconcile_snapshots src now ss (st, sm) = Ok (st', sm')"
  shows "keyed st \<Longrightarrow> keyed st'" "jid \<notin> snap_job_id ` set ss \<Longrightarrow> jobs st' jid = jobs st jid"
proof -
  have "(keyed st \<longrightarrow> keyed st') \<and> (jid \<notin> snap_job_id ` set ss \<longrightarrow> jobs st' jid = jobs st jid)"
    using assms
  proof (induction ss arbitrary: st sm)
    case (Cons s ss)
    then obtain st1 sm1 where "reconcile_snapshot src now s (st, sm) = Ok (st1, sm1)"
        "reconcile_snapshots src now ss (st1, sm1) = Ok (st', sm')"
      by (auto simp: rust_ok)
    then show ?case using Cons.IH reconcile_snapshot_frame [of src now s st sm st1 sm1] by auto
  qed simp
  then show "keyed st \<Longrightarrow> keyed st'" "jid \<notin> snap_job_id ` set ss \<Longrightarrow> jobs st' jid = jobs st jid"
    by blast+
qed

lemma reconcile_snapshots_caught_up:
  assumes "distinct (map snap_job_id ss)" "reconcile_snapshots src now ss (st, sm) = Ok (st', sm')"
    "s \<in> set ss" "jobs st' (snap_job_id s) = Some job"
  shows "caught_up s job"
  using assms
proof (induction ss arbitrary: st sm)
  case (Cons x ss)
  then obtain st1 sm1 where 1: "reconcile_snapshot src now x (st, sm) = Ok (st1, sm1)"
      "reconcile_snapshots src now ss (st1, sm1) = Ok (st', sm')"
    by (auto simp: rust_ok)
  show ?case
  proof (cases "s = x")
    case True
    then have "jobs st1 (snap_job_id s) = Some job"
      using reconcile_snapshots_frame(2) [OF 1(2), of "snap_job_id s"] Cons.prems(1,4) by auto
    then show ?thesis using reconcile_snapshot_caught_up [OF 1(1)] True by simp
  next
    case False
    then show ?thesis using Cons.IH [OF _ 1(2)] Cons.prems by simp
  qed
qed simp

lemma keyed_expire:
  fixes src :: inventory_source
  shows "keyed st \<Longrightarrow> keyed (fst (expire_recovering_jobs_locked (Some (src_client_id src)) now grace cap st))"
  by (rule evolution.kept_keyed [OF evolution.kept_expire])

text \<open>
  Reconciliation is total and complete. For a valid inventory it returns normally (the \<^verbatim>\<open>expect\<close> on
  validated statuses is never hit), and in the resulting Registry every Job that is still Runner-active on
  the reporting connection is in the inventory: a Job the Runner no longer knows does not stay
  running. Every reported Job that the Registry holds has caught up with its snapshot: it is terminal, or
  its update sequence is at least the snapshot's and, when they are equal, it is no longer recovering.
\<close>

theorem reconcile_complete:
  assumes "keyed st" "list_all (\<lambda>s. is_ok (from_wire (snap_status s))) (inv_jobs inventory)"
    "distinct (map snap_job_id (inv_jobs inventory))"
  shows "\<exists>st' sm. reconcile_inventory_locked src grace now inventory st = Ok (st', sm)
    \<and> (\<forall>jid job. get_job (jobs_by_id st') jid = Some job \<and> client_id job = src_client_id src
          \<and> runner_instance_id job = src_runner_instance_id src \<and> is_runner_active (lifecycle job)
          \<longrightarrow> jid \<in> snap_job_id ` set (inv_jobs inventory))
    \<and> (\<forall>s job. s \<in> set (inv_jobs inventory) \<and> get_job (jobs_by_id st') (snap_job_id s) = Some job
          \<longrightarrow> caught_up s job)"
proof -
  define st1 where "st1 = prune_projected_structured_terminal_suppressions_locked now st"
  define st2 where
    "st2 = fst (expire_recovering_jobs_locked (Some (src_client_id src)) now grace RECOVERY_SWEEP_PASS_CAP st1)"
  define st3 where "st3 = lose_missing_jobs (src_client_id src) now
      (missing_jobs (src_client_id src) (src_runner_instance_id src) inventory st2) st2"
  have k1: "keyed st1" using assms(1) by (simp add: keyed_def st1_def jobs_frame)
  then have k2: "keyed st2" unfolding st2_def by (rule keyed_expire)
  then have k3: "keyed st3" unfolding st3_def by (rule keyed_lose_missing)
  obtain sm3 where r: "reconcile_inventory_locked src grace now inventory st =
      and_then (reconcile_snapshots src now (inv_jobs inventory) (st3, sm3)) (\<lambda>(st, sm).
           Ok (remove_cleanup_terminal_jobs_locked st, sm))"
    by (simp add: reconcile_inventory_locked_def Let_def st1_def [symmetric] st2_def [symmetric] st3_def [symmetric])
  obtain st4 sm4 where 4: "reconcile_snapshots src now (inv_jobs inventory) (st3, sm3) = Ok (st4, sm4)"
    using reconcile_snapshots_total [OF assms(2), of src now "(st3, sm3)"] by auto
  note k4 = reconcile_snapshots_frame(1) [OF 4 k3]
  let ?st' = "remove_cleanup_terminal_jobs_locked st4"
  have from_final: "jobs st4 jid = Some job" if "get_job (jobs_by_id ?st') jid = Some job" for jid job
    using that jobs_cleanup(2) [OF k4, of jid] unfolding jobs_def by (auto split: option.splits if_splits)
  have "jid \<in> snap_job_id ` set (inv_jobs inventory)"
    if j: "get_job (jobs_by_id ?st') jid = Some job" "client_id job = src_client_id src"
      "runner_instance_id job = src_runner_instance_id src" "is_runner_active (lifecycle job)" for jid job
  proof (rule ccontr)
    assume out: "jid \<notin> snap_job_id ` set (inv_jobs inventory)"
    then have "jobs st3 jid = Some job"
      using from_final [OF j(1)] reconcile_snapshots_frame(2) [OF 4] by simp
    then show False using no_missing_left [OF k2] out j(2-4) unfolding st3_def by blast
  qed
  moreover have "caught_up s job"
    if "s \<in> set (inv_jobs inventory)" "get_job (jobs_by_id ?st') (snap_job_id s) = Some job" for s job
    using reconcile_snapshots_caught_up [OF assms(3) 4 that(1) from_final [OF that(2)]] .
  moreover have "reconcile_inventory_locked src grace now inventory st = Ok (?st', sm4)"
    by (simp add: r 4)
  ultimately show ?thesis by blast
qed

lemma replaced_jobs_iff:
  assumes "keyed st"
  shows "jid \<in> fst ` set (replaced_jobs cid iid replacement st) \<longleftrightarrow>
    (\<exists>j. jobs st jid = Some j \<and> client_id j = cid \<and> runner_instance_id j = iid
      \<and> (lifecycle j = Queued \<or> is_runner_active (lifecycle j))
      \<and> \<not> (\<exists>inventory s. replacement = Some inventory \<and> s \<in> set (inv_jobs inventory)
             \<and> snap_job_id s = job_id j \<and> detached_instance_transfer_allowed j s))"
proof -
  have ex: "(case replacement of None \<Rightarrow> False
      | Some inventory \<Rightarrow> list_ex (\<lambda>s. snap_job_id s = job_id j \<and> detached_instance_transfer_allowed j s)
          (inv_jobs inventory)) \<longleftrightarrow>
    (\<exists>inventory s. replacement = Some inventory \<and> s \<in> set (inv_jobs inventory)
             \<and> snap_job_id s = job_id j \<and> detached_instance_transfer_allowed j s)" for j
    by (auto simp: list_ex_iff split: option.splits)
  show ?thesis
    unfolding replaced_jobs_def ex records_jobs [OF assms, symmetric] by (simp add: image_iff split_beta)
qed


section \<open>The sweeps\<close>

lemma jobs_expire:
  fixes filt now grace cap
  assumes "keyed st"
  defines "expired \<equiv> take cap (filter (\<lambda>(_, job). recovery_expired filt now grace job) (records (jobs_by_id st)))"
  shows "jobs (fst (expire_recovering_jobs_locked filt now grace cap st)) jid =
     (if expired = [] then jobs st jid
      else case (if jid \<in> fst ` set expired then map_option (fst \<circ> lose_if_recovering now) (jobs st jid) else jobs st jid) of
          None \<Rightarrow> None
        | Some job \<Rightarrow> if visibility job = CleanupPending \<and> is_terminal (lifecycle job) then None else Some job)"
    "snd (expire_recovering_jobs_locked filt now grace cap st) = length expired"
proof -
  let ?ex = "map (\<lambda>(jid, job). (jid, client_id job, request_id job)) expired"
  have ex: "take cap (map (\<lambda>(jid, job). (jid, client_id job, request_id job))
      (filter (\<lambda>(_, job). recovery_expired filt now grace job) (records (jobs_by_id st)))) = ?ex"
    by (simp add: expired_def take_map)
  show "snd (expire_recovering_jobs_locked filt now grace cap st) = length expired"
    by (simp add: expire_recovering_jobs_locked_def ex Let_def del: map_map)
  define st1 where "st1 = fold (\<lambda>(jid, _, _). step_job jid (lose_if_recovering now)) ?ex st"
  have j1: "jobs st1 k = (if k \<in> fst ` set ?ex then map_option (fst \<circ> lose_if_recovering now) (jobs st k) else jobs st k)" for k
    unfolding st1_def by (rule jobs_fold_step [OF lose_if_recovering_idem]) (simp add: split_beta jobs_step_job)
  have "keyed (fold (\<lambda>(jid, _, _). step_job jid (lose_if_recovering now)) xs st)" for xs :: "(string \<times> 'x \<times> 'y) list"
    using assms(1) by (induction xs arbitrary: st) (simp_all add: split_beta)
  then have k1: "keyed st1" by (simp add: st1_def)
  obtain st2 where st2: "jobs_by_id st2 = jobs_by_id st1"
    "expired \<noteq> [] \<Longrightarrow> fst (expire_recovering_jobs_locked filt now grace cap st) = remove_cleanup_terminal_jobs_locked st2"
    "expired = [] \<Longrightarrow> fst (expire_recovering_jobs_locked filt now grace cap st) = st"
    by (rule that [of "fold (\<lambda>cid. remove_job_control_requests cid (map fst ?ex)) (remdups (map (fst \<circ> snd) ?ex))
          (fold (\<lambda>(_, cid, rid). remove_job_request_mapping cid rid) ?ex st1)"])
      (simp_all add: expire_recovering_jobs_locked_def ex Let_def st1_def jobs_frame split_beta del: map_map)
  have ids: "fst ` set ?ex = fst ` set expired" by force
  have 2: "jobs st2 = jobs st1" "keyed st2" using st2(1) k1 by (simp_all add: jobs_def keyed_def)
  show "jobs (fst (expire_recovering_jobs_locked filt now grace cap st)) jid =
     (if expired = [] then jobs st jid
      else case (if jid \<in> fst ` set expired then map_option (fst \<circ> lose_if_recovering now) (jobs st jid) else jobs st jid) of
          None \<Rightarrow> None
        | Some job \<Rightarrow> if visibility job = CleanupPending \<and> is_terminal (lifecycle job) then None else Some job)"
    using st2(2,3) jobs_cleanup(2) [OF 2(2), of jid] unfolding 2(1) j1 ids by (cases "expired = []") simp_all
qed


lemma jobs_sweep_observe:
  "jobs (fold (sweep_observe now) as st) jid =
     (if Observe jid \<in> set as then map_option (fst \<circ> observe_job_terminal now) (jobs st jid) else jobs st jid)"
proof (induction as arbitrary: st)
  case (Cons a as)
  have idem: "fst (observe_job_terminal now (fst (observe_job_terminal now j))) = fst (observe_job_terminal now j)" for j
    by (simp add: observe_job_terminal_def)
  show ?case
    unfolding fold_Cons o_apply Cons
    by (cases a; cases "jobs st jid") (auto simp: sweep_observe_def jobs_step_job idem)
qed simp

text \<open>
  The retention sweep never drops work that is still needed. It removes at most a bounded number of
  Jobs per pass, and only public Jobs that are terminal and were observed terminal at least the retention
  period ago; every other Job survives unchanged, apart from the first recording of its terminal observation.
\<close>

theorem terminal_sweep_respects_retention:
  assumes "keyed st" "prune_expired_terminal_jobs_locked now st intents = (st', intents', n)"
    "get_job (jobs_by_id st) jid = Some job"
  shows "n \<le> RECOVERY_SWEEP_PASS_CAP
    \<and> (get_job (jobs_by_id st') jid = Some job
       \<or> terminal_observed_at (observation job) = None
         \<and> get_job (jobs_by_id st') jid = Some (fst (observe_job_terminal now job))
       \<or> get_job (jobs_by_id st') jid = None \<and> visibility job = Public \<and> is_terminal (lifecycle job)
         \<and> (\<exists>t. terminal_observed_at (observation job) = Some t
              \<and> JOB_TERMINAL_RETENTION_SECS \<le> sat_sub_i64 now t))"
proof -
  define actions where "actions = take RECOVERY_SWEEP_PASS_CAP
      (List.map_filter (terminal_sweep_action_of now) (records (jobs_by_id st)))"
  have act: "\<exists>e \<in> set (records (jobs_by_id st)). terminal_sweep_action_of now e = Some a" if "a \<in> set actions" for a
    using that by (auto simp: actions_def List.map_filter_def dest!: in_set_takeD) force
  have obs: "terminal_observed_at (observation job) = None" if "Observe jid \<in> set actions"
    using act [OF that] assms(1,3)
    by (auto simp: terminal_sweep_action_of_def records_jobs jobs_def split: if_splits option.splits)
  have rem: "visibility job = Public \<and> is_terminal (lifecycle job)
      \<and> (\<exists>t. terminal_observed_at (observation job) = Some t \<and> JOB_TERMINAL_RETENTION_SECS \<le> sat_sub_i64 now t)"
    if "RemoveJob jid c r \<in> set actions" for c r
    using act [OF that] assms(1,3)
    by (auto simp: terminal_sweep_action_of_def records_jobs jobs_def split: if_splits option.splits)
  have ids: "jid \<in> fst ` set (sweep_expired actions) \<Longrightarrow> \<exists>c r. RemoveJob jid c r \<in> set actions"
    by (auto simp: sweep_expired_def List.map_filter_def split: terminal_sweep_action.splits) blast
  have "length (sweep_expired actions) \<le> length actions"
    by (simp add: sweep_expired_def List.map_filter_def)
  then have len: "length (sweep_expired actions) \<le> RECOVERY_SWEEP_PASS_CAP"
    by (simp add: actions_def)
  have j': "jobs st' jid = (if jid \<in> fst ` set (sweep_expired actions) then None
      else jobs (fold (sweep_observe now) actions st) jid)" and n: "n = length (sweep_expired actions)"
    using assms(2) unfolding prune_expired_terminal_jobs_locked_def actions_def [symmetric] Let_def
    by (cases "sweep_expired actions = []"; force simp: jobs_def jobs_frame fold_remove_jobs split_beta)+
  show ?thesis
    using j' jobs_sweep_observe [of now actions st jid] obs rem ids assms(3) len n
    by (auto simp: jobs_def split: if_splits)
qed

section \<open>Concrete instances\<close>

text \<open>
  A Registry with three Jobs: \<open>a\<close> runs and is reported completed, \<open>b\<close> runs on the same Runner and
  is not reported, \<open>c\<close> belongs to another Runner.
\<close>

definition sample_stream :: shell_job_stream_snapshot where
  "sample_stream = \<lparr>ss_tail = [], ss_first_retained_line = 1, ss_next_line = 1, ss_truncated = False\<rparr>"

definition sample_snapshot :: "string \<Rightarrow> string \<Rightarrow> nat \<Rightarrow> shell_job_snapshot" where
  "sample_snapshot jid status seq =
     \<lparr>snap_job_id = jid, snap_request_id = ''req-'' @ jid, snap_status = status, update_seq = seq,
      snap_created_at = 10, snap_started_at = Some 11, snap_ended_at = Some 20, snap_exit_code = Some 0,
      snap_duration_ms = Some 9000, snap_error = None, snap_command_execution_state = None,
      snap_context = \<lparr>runtime_project_id = None, workflow_session_id = None, ctx_ssh_resource = None,
        ctx_project_cwd = None, ctx_cwd = None, ctx_purpose = None, ctx_shell = None,
        ctx_command_preview = ''make'', ctx_validation_steps = [], ctx_validation = None,
        ctx_structured_execution = None\<rparr>,
      snap_stdout = sample_stream, snap_stderr = sample_stream, snap_validation_progress = None,
      snap_test_count_evidence = None, snap_format_mutation = None, snap_build_artifacts = None,
      snap_activity = None\<rparr>"

definition sample_source :: inventory_source where
  "sample_source = \<lparr>src_client_id = ''c1'', src_runner_instance_id = ''i1'', src_auth_group = None,
     src_observation_epoch = ''e'', src_receipt_candidates = False, src_terminal_event_candidates = False\<rparr>"

definition sample_inventory :: shell_job_inventory where
  "sample_inventory = \<lparr>active_complete = True, inv_jobs = [sample_snapshot ''a'' ''completed'' 5]\<rparr>"

definition sample_inner :: registry_inner where
  "sample_inner = empty_inner\<lparr>jobs_by_id :=
     insert_job ''a'' (sample_job ''a'' ''c1'' ''i1'' Running)
       (insert_job ''b'' (sample_job ''b'' ''c1'' ''i1'' Running)
          (insert_job ''c'' (sample_job ''c'' ''c2'' ''i2'' Running) empty_records))\<rparr>"

lemma sample_inner_jobs:
  "get_job (jobs_by_id sample_inner) ''a'' = Some (sample_job ''a'' ''c1'' ''i1'' Running)"
  "get_job (jobs_by_id sample_inner) ''b'' = Some (sample_job ''b'' ''c1'' ''i1'' Running)"
  "get_job (jobs_by_id sample_inner) ''c'' = Some (sample_job ''c'' ''c2'' ''i2'' Running)"
  "keyed sample_inner" "request_to_job sample_inner = []"
  by (simp_all add: sample_inner_def empty_inner_def get_job_def insert_job_def empty_records_def keyed_def)

lemma sample_preflight:
  "preflight_inventory_locked sample_inner (src_client_id sample_source) (src_runner_instance_id sample_source)
     sample_inventory = Ok ()"
proof -
  have id: "snap_job_id (sample_snapshot ''a'' ''completed'' 5) = ''a''" by (simp add: sample_snapshot_def)
  show ?thesis
    by (simp add: preflight_inventory_locked_def sample_inventory_def preflight_snapshot_def id sample_inner_jobs)
      (simp add: sample_snapshot_def sample_source_def sample_defs same_context_def progress_completed_def
        sample_stream_def)
qed

lemma sample_inventory_valid:
  "list_all (\<lambda>s. is_ok (from_wire (snap_status s))) (inv_jobs sample_inventory)"
  "distinct (map snap_job_id (inv_jobs sample_inventory))"
  by (simp_all add: sample_inventory_def sample_snapshot_def from_wire_def)

lemma sample_reconciles:
  "\<exists>st' sm. reconcile_inventory_locked sample_source 120 100 sample_inventory sample_inner = Ok (st', sm)"
proof -
  show ?thesis
    using reconcile_snapshots_total [OF sample_inventory_valid(1)]
    by (auto simp: reconcile_inventory_locked_def Let_def rust_ok split_beta) (metis surj_pair)
qed


theorem reconcile_isolates_runners_witness:
  "\<exists>st' sm. reconcile_inventory_locked sample_source 120 100 sample_inventory sample_inner = Ok (st', sm)
     \<and> get_job (jobs_by_id st') ''c'' = Some (sample_job ''c'' ''c2'' ''i2'' Running)"
proof -
  obtain st' sm where r: "reconcile_inventory_locked sample_source 120 100 sample_inventory sample_inner = Ok (st', sm)"
    using sample_reconciles by blast
  have "client_id (sample_job ''c'' ''c2'' ''i2'' Running) \<noteq> src_client_id sample_source"
    "visibility (sample_job ''c'' ''c2'' ''i2'' Running) \<noteq> CleanupPending"
    by (simp_all add: sample_job_def sample_source_def)
  from reconcile_isolates_runners [OF sample_inner_jobs(4) sample_preflight r this, of "''c''"] r
  show ?thesis using sample_inner_jobs(3) by blast
qed

theorem reconcile_complete_witness:
  "\<exists>st' sm. reconcile_inventory_locked sample_source 120 100 sample_inventory sample_inner = Ok (st', sm)
     \<and> \<not> (\<exists>job. get_job (jobs_by_id st') ''b'' = Some job \<and> client_id job = ''c1''
            \<and> runner_instance_id job = ''i1'' \<and> is_runner_active (lifecycle job))"
proof -
  from reconcile_complete [OF sample_inner_jobs(4) sample_inventory_valid, of sample_source 120 100]
  obtain st' sm where r: "reconcile_inventory_locked sample_source 120 100 sample_inventory sample_inner = Ok (st', sm)"
    "\<And>jid job. get_job (jobs_by_id st') jid = Some job \<and> client_id job = src_client_id sample_source
          \<and> runner_instance_id job = src_runner_instance_id sample_source \<and> is_runner_active (lifecycle job)
          \<Longrightarrow> jid \<in> snap_job_id ` set (inv_jobs sample_inventory)"
    by blast
  have "''b'' \<notin> snap_job_id ` set (inv_jobs sample_inventory)"
    by (simp add: sample_inventory_def sample_snapshot_def)
  with r show ?thesis by (auto simp: sample_source_def)
qed

lemma sample_terminate_b:
  "jobs (terminate_instance_jobs_locked ''c1'' ''i1'' None 100 sample_inner) ''b''
     = Some (fst (mark_job_lost 100 RunnerInstanceReplaced
         ''runner instance was replaced before the job completed or reconciled''
         (sample_job ''b'' ''c1'' ''i1'' Running)))"
proof -
  let ?lost = "fold (lose_job ''c1'' 100 RunnerInstanceReplaced
      ''runner instance was replaced before the job completed or reconciled'')
      (replaced_jobs ''c1'' ''i1'' None sample_inner) sample_inner"
  have "''b'' \<in> fst ` set (replaced_jobs ''c1'' ''i1'' None sample_inner)"
    by (simp add: replaced_jobs_iff [OF sample_inner_jobs(4)] jobs_def sample_inner_jobs)
      (simp add: sample_job_def)
  then have l: "jobs ?lost ''b'' = Some (fst (mark_job_lost 100 RunnerInstanceReplaced
         ''runner instance was replaced before the job completed or reconciled''
         (sample_job ''b'' ''c1'' ''i1'' Running)))"
    by (simp add: jobs_lose_jobs) (simp add: jobs_def sample_inner_jobs)
  have k: "keyed (remove_job_control_requests ''c1'' ids ?lost)" for ids
    using keyed_lose_jobs [OF sample_inner_jobs(4)] by (simp add: keyed_def jobs_frame)
  have j: "jobs (remove_job_control_requests ''c1'' ids ?lost) = jobs ?lost" for ids
    by (simp add: jobs_def jobs_frame)
  have "visibility (fst (mark_job_lost 100 RunnerInstanceReplaced
         ''runner instance was replaced before the job completed or reconciled''
         (sample_job ''b'' ''c1'' ''i1'' Running))) = Public"
    using mark_job_lost_fields(1) [unfolded same_identity_def] by (simp add: sample_job_def)
  then show ?thesis
    unfolding terminate_instance_jobs_locked_def Let_def jobs_cleanup(2) [OF k] j l by simp
qed


definition sample_recovering :: shell_job_record where
  "sample_recovering = (sample_job ''a'' ''c1'' ''i1'' Running)
     \<lparr>recovery := sample_recovery\<lparr>phase := Some Recovering, recovering_since := Some 100\<rparr>\<rparr>"


definition sample_finished :: shell_job_record where
  "sample_finished = (sample_job ''a'' ''c1'' ''i1'' Completed)
     \<lparr>observation := (new_observation ''e'')\<lparr>terminal_observed_at := Some 100\<rparr>\<rparr>"

theorem terminal_sweep_respects_retention_witness:
  "\<exists>st' intents' n. prune_expired_terminal_jobs_locked 200
        (sample_inner\<lparr>jobs_by_id := insert_job ''a'' sample_finished empty_records\<rparr>) [(''a'', ())]
       = (st', intents', n)
     \<and> n \<le> 64 \<and> get_job (jobs_by_id st') ''a'' = Some sample_finished"
proof -
  let ?st = "sample_inner\<lparr>jobs_by_id := insert_job ''a'' sample_finished empty_records\<rparr>"
  have k: "keyed ?st" by (simp add: keyed_def insert_job_def empty_records_def)
  have g: "get_job (jobs_by_id ?st) ''a'' = Some sample_finished"
    by (simp add: get_job_def insert_job_def empty_records_def)
  obtain st' intents' n where r: "prune_expired_terminal_jobs_locked 200 ?st [(''a'', ())] = (st', intents', n)"
    using prod_cases3 by blast
  have "terminal_observed_at (observation sample_finished) = Some 100" by (simp add: sample_finished_def)
  moreover have "\<not> JOB_TERMINAL_RETENTION_SECS \<le> sat_sub_i64 200 100"
    by (simp add: JOB_TERMINAL_RETENTION_SECS_def sat_sub_i64_def i64_max_def i64_min_def)
  ultimately show ?thesis
    using terminal_sweep_respects_retention [OF k r g] r by (auto simp: RECOVERY_SWEEP_PASS_CAP_def)
qed

end
