(* ===== verification/Job_Update.thy ===== *)
theory Job_Update
  imports Job_View Reconciliation
begin

text \<open>
  A Runner's update of one of its Jobs and a client's request to stop one: \<^verbatim>\<open>update_job_checked\<close> with the
  validators of what an update reports, and \<^verbatim>\<open>stop_job_for_auth\<close>
  (\<^verbatim>\<open>webcodex-runner-registry/src/job_updates.rs\<close>, \<^verbatim>\<open>validation.rs\<close>; \<^verbatim>\<open>RunnerJobUpdateRequest\<close> of
  \<^verbatim>\<open>webcodex-core/src/runner_protocol/job.rs\<close>). Telemetry calls are not state of the model.
\<close>

section \<open>Requests\<close>

record log_snapshot_pair =
  pair_stdout :: shell_job_stream_snapshot
  pair_stderr :: shell_job_stream_snapshot

record runner_job_update_request =
  up_client_id :: string
  up_runner_instance_id :: string
  up_job_id :: string
  up_request_id :: "string option"
  up_update_seq :: "nat option"
  up_status :: string
  stdout_chunk :: "string option"
  stderr_chunk :: "string option"
  log_snapshot :: "log_snapshot_pair option"
  up_exit_code :: "int option"
  up_duration_ms :: "nat option"
  up_error :: "string option"
  up_command_execution_state :: "shell_command_execution_state option"
  up_validation_progress :: "validation_progress_state option"
  up_test_count_evidence :: "test_count_evidence option"
  up_format_mutation :: "format_mutation_report option"
  up_build_artifacts :: "build_artifact list option"
  up_activity :: "shell_job_activity option"
  finished :: bool

section \<open>What an update reports\<close>

definition invalid_progress :: "string \<Rightarrow> (unit, string) result" where
  "invalid_progress code = Err code"

definition cancelling :: "runner_job_lifecycle \<Rightarrow> bool" where
  "cancelling l \<longleftrightarrow> List.member [Stopped, Cancelled, Timeout, TimedOut, Lost] l"

definition nth_step :: "string list \<Rightarrow> nat \<Rightarrow> string option" where
  "nth_step xs i = (if i < length xs then Some (xs ! i) else None)"

definition infrastructure_failure :: "runner_job_update_request \<Rightarrow> runner_job_lifecycle \<Rightarrow> bool" where
  "infrastructure_failure u l \<longleftrightarrow> l = Failed \<and> finished u \<and> up_exit_code u = None
     \<and> Option.bind (up_error u) validation_infrastructure_failure_code \<noteq> None"

definition progress_shape_valid ::
    "shell_job_record \<Rightarrow> runner_job_update_request \<Rightarrow> runner_job_lifecycle \<Rightarrow> validation_progress_state \<Rightarrow> bool" where
  "progress_shape_valid job u l p =
     (let no_active_step = (current_step p = None \<and> failed_step p = None);
          steps = validation_steps job in
      if cancelling l then no_active_step
      else if infrastructure_failure u l then completed p < length steps \<and> no_active_step
      else if \<not> is_terminal l then nth_step steps (completed p) = current_step p \<and> failed_step p = None
      else if l = Completed \<and> up_exit_code u = Some 0 then completed p = length steps \<and> no_active_step
      else if l = Failed then nth_step steps (completed p) = failed_step p \<and> current_step p = None
      else False)"

definition validate_validation_progress ::
    "shell_job_record \<Rightarrow> runner_job_update_request \<Rightarrow> runner_job_lifecycle \<Rightarrow> (unit, string) result" where
  "validate_validation_progress job u l =
     (if validation_steps job = [] then
        (if up_validation_progress u = None then Ok () else invalid_progress ''validation_progress_unexpected'')
      else if card (set (validation_steps job)) \<noteq> length (validation_steps job)
        then invalid_progress ''validation_plan_invalid''
      else if finished u \<and> \<not> is_terminal l then invalid_progress ''validation_progress_invalid''
      else (case up_validation_progress u of
          None \<Rightarrow>
            if l = Queued \<or> l = RunnerQueued \<or> cancelling l then Ok ()
            else invalid_progress ''validation_progress_missing''
        | Some p \<Rightarrow>
            if l = Queued \<or> l = RunnerQueued \<or> length (validation_steps job) < completed p
              then invalid_progress ''validation_progress_invalid''
            else
              let previous = (case validation_progress job of None \<Rightarrow> 0 | Some p \<Rightarrow> completed p) in
              if completed p < previous \<or> sat_add previous 1 < completed p
                then invalid_progress ''validation_progress_invalid''
              else if progress_shape_valid job u l p then Ok ()
              else if l = Completed \<and> up_exit_code u = Some 0
                then invalid_progress ''validation_progress_incomplete''
              else invalid_progress ''validation_progress_invalid''))"

definition counts_tests :: "validation_metadata \<Rightarrow> bool" where
  "counts_tests m \<longleftrightarrow> List.member [''cargo_test'', ''node:vitest:test'', ''node:jest:test''] (vm_adapter m)
     \<and> vm_kind m = ''test'' \<and> no_run m \<noteq> Some True"

definition validate_test_count_evidence ::
    "shell_job_record \<Rightarrow> runner_job_update_request \<Rightarrow> runner_job_lifecycle \<Rightarrow> (unit, string) result" where
  "validate_test_count_evidence job u l =
     (case up_test_count_evidence u of
        None \<Rightarrow> Ok ()
      | Some ev \<Rightarrow>
          if \<not> (case validation job of None \<Rightarrow> False | Some m \<Rightarrow> counts_tests m)
             \<or> \<not> is_terminal l \<or> \<not> finished u \<or> \<not> evidence_is_valid ev
            then invalid_progress ''test_count_evidence_invalid''
          else Ok ())"

definition validation_activity_phase :: "string \<Rightarrow> activity_phase option" where
  "validation_activity_phase step =
     (if step = ''format'' then Some ValidationFormat
      else if step = ''check'' \<or> step = ''lint'' then Some ValidationCheck
      else if step = ''test'' then Some ValidationTest
      else None)"

definition cargo_step_at :: "validation_metadata \<Rightarrow> nat \<Rightarrow> bool" where
  "cargo_step_at m i \<longleftrightarrow> i < length (steps m)
     \<and> (let s = steps m ! i in
        program s = ''cargo'' \<and> (is_canonical s \<or> metadata_is_valid m \<and> is_project_workspace_cargo s))"

definition validate_job_activity ::
    "shell_job_record \<Rightarrow> runner_job_update_request \<Rightarrow> runner_job_lifecycle \<Rightarrow> (unit, string) result" where
  "validate_job_activity job u l =
     (case up_activity u of
        None \<Rightarrow> Ok ()
      | Some a \<Rightarrow>
          if \<not> activity_is_canonical a \<or> \<not> (l = Running \<or> l = StopRequested)
            then invalid_progress ''job_activity_invalid''
          else (case act_source a of
              RunnerExecution \<Rightarrow>
                if validation_steps job \<noteq> [] \<or> act_phase a \<noteq> ProcessRunning
                  then invalid_progress ''job_activity_invalid'' else Ok ()
            | ValidationPlan \<Rightarrow>
                (case Option.bind (up_validation_progress u) current_step of
                   None \<Rightarrow> invalid_progress ''job_activity_invalid''
                 | Some step \<Rightarrow>
                     if validation_activity_phase step \<noteq> Some (act_phase a)
                       then invalid_progress ''job_activity_invalid'' else Ok ())
            | CargoOutput \<Rightarrow>
                (case up_validation_progress u of
                   None \<Rightarrow> invalid_progress ''job_activity_invalid''
                 | Some p \<Rightarrow>
                     if current_step p = None \<or> validation_steps job = []
                       then invalid_progress ''job_activity_invalid''
                     else (case validation job of
                         None \<Rightarrow> Ok ()
                       | Some m \<Rightarrow>
                           if \<not> cargo_step_at m (completed p) then invalid_progress ''job_activity_invalid'' else Ok ()))))"

fun execution_state_fits :: "shell_job_record \<Rightarrow> runner_job_lifecycle \<Rightarrow> shell_command_execution_state \<Rightarrow> bool" where
  "execution_state_fits job l CesNotStarted \<longleftrightarrow> List.member [Failed, Stopped, Cancelled, Lost] l \<and> started_at job = None"
| "execution_state_fits job l CesOutcomeUnknown \<longleftrightarrow> List.member [Failed, Lost] l"
| "execution_state_fits job l CesTimedOut \<longleftrightarrow> is_timed_out l"
| "execution_state_fits job l CesCompleted \<longleftrightarrow> List.member [Completed, Failed, Stopped, Cancelled] l"

definition validate_command_execution_state ::
    "shell_job_record \<Rightarrow> runner_job_update_request \<Rightarrow> runner_job_lifecycle \<Rightarrow> (unit, string) result" where
  "validate_command_execution_state job u l =
     (if \<not> is_terminal l \<and> up_command_execution_state u \<noteq> None
        then invalid_progress ''command_execution_state_on_active_job''
      else if structured_execution job \<noteq> None \<and> is_terminal l \<and> up_command_execution_state u = None
        then invalid_progress ''structured_job_lifecycle_missing''
      else (case up_command_execution_state u of
          None \<Rightarrow> Ok ()
        | Some st \<Rightarrow>
            if execution_state_fits job l st then Ok () else invalid_progress ''structured_job_lifecycle_invalid''))"

definition validate_report ::
    "shell_job_record \<Rightarrow> runner_job_update_request \<Rightarrow> runner_job_lifecycle \<Rightarrow> (unit, string) result" where
  "validate_report job u l =
     and_then (validate_validation_progress job u l) (\<lambda>_.
     and_then (validate_test_count_evidence job u l) (\<lambda>_.
     and_then (map_err (\<lambda>_. ''format_mutation_invalid'')
       (validate_mutation_report (kind job) (as_wire l) (up_exit_code u) (up_command_execution_state u)
          (up_format_mutation u) (up_error u))) (\<lambda>_.
     and_then (validate_build_artifact_report (kind job) (as_wire l) (up_exit_code u) (up_command_execution_state u)
          (up_build_artifacts u)) (\<lambda>_.
     and_then (validate_command_execution_state job u l) (\<lambda>_.
       validate_job_activity job u l)))))"

section \<open>Applying an update\<close>

record job_public_mutation_signature =
  sig_lifecycle :: runner_job_lifecycle
  sig_recovery :: job_recovery_state
  sig_last_update_seq :: nat
  sig_stdout :: shell_job_log_state
  sig_stderr :: shell_job_log_state
  sig_error :: "string option"
  sig_started_at :: "int option"
  sig_ended_at :: "int option"
  sig_exit_code :: "int option"
  sig_duration_ms :: "nat option"
  sig_command_execution_state :: "shell_command_execution_state option"
  sig_validation_progress :: "validation_progress_state option"
  sig_test_count_evidence :: "test_count_evidence option"
  sig_format_mutation :: "format_mutation_report option"
  sig_build_artifacts :: "build_artifact list option"
  sig_activity :: "shell_job_activity option"
  sig_recovered_after_server_restart :: bool
  sig_reconciled_at :: "int option"

definition public_mutation_signature :: "shell_job_record \<Rightarrow> job_public_mutation_signature" where
  "public_mutation_signature job =
     \<lparr>sig_lifecycle = lifecycle job, sig_recovery = recovery job, sig_last_update_seq = last_update_seq job,
      sig_stdout = stdout job, sig_stderr = stderr job, sig_error = error job, sig_started_at = started_at job,
      sig_ended_at = ended_at job, sig_exit_code = exit_code job, sig_duration_ms = duration_ms job,
      sig_command_execution_state = command_execution_state job, sig_validation_progress = validation_progress job,
      sig_test_count_evidence = test_count_evidence job, sig_format_mutation = format_mutation job,
      sig_build_artifacts = build_artifacts job, sig_activity = activity job,
      sig_recovered_after_server_restart = recovered_after_server_restart (recovery job),
      sig_reconciled_at = reconciled_at (recovery job)\<rparr>"

text \<open>The Job of a Runner whose report violates the protocol fails.\<close>

definition protocol_violation :: "int \<Rightarrow> runner_job_update_request \<Rightarrow> string \<Rightarrow> job_step" where
  "protocol_violation now u code job =
     (case observe_job_terminal now (job\<lparr>lifecycle := Failed\<rparr>) of (job, es) \<Rightarrow>
        (job\<lparr>ended_at := Some now, exit_code := up_exit_code u, duration_ms := up_duration_ms u,
             error := Some (''executor protocol violation: '' @ code), activity := None,
             command_execution_state :=
               (if structured_execution job \<noteq> None
                then Some (if started_at job \<noteq> None then CesOutcomeUnknown else CesNotStarted)
                else command_execution_state job)\<rparr>, es))"

definition update_logs :: "runner_job_update_request \<Rightarrow> shell_job_record \<Rightarrow> shell_job_record" where
  "update_logs u job =
     (case log_snapshot u of
        Some s \<Rightarrow> job\<lparr>stdout := replace_log_from_snapshot (stdout job) (pair_stdout s),
                      stderr := replace_log_from_snapshot (stderr job) (pair_stderr s)\<rparr>
      | None \<Rightarrow> job\<lparr>stdout := append_log_limited (stdout job) (stdout_chunk u),
                    stderr := append_log_limited (stderr job) (stderr_chunk u)\<rparr>)"

definition update_reports :: "runner_job_update_request \<Rightarrow> shell_job_record \<Rightarrow> shell_job_record" where
  "update_reports u job =
     job\<lparr>validation_progress := or_else (up_validation_progress u) (validation_progress job),
         build_artifacts := or_else (up_build_artifacts u) (build_artifacts job),
         format_mutation := or_else (up_format_mutation u) (format_mutation job),
         test_count_evidence := or_else (up_test_count_evidence u) (test_count_evidence job),
         activity := or_else (up_activity u) (activity job)\<rparr>"

definition update_start :: "int \<Rightarrow> runner_job_update_request \<Rightarrow> runner_job_lifecycle \<Rightarrow> shell_job_record \<Rightarrow> shell_job_record" where
  "update_start now u l job =
     (if started_at job = None \<and> up_command_execution_state u \<noteq> Some CesNotStarted
         \<and> List.member [Running, Completed, Failed, Stopped, Timeout] l
      then job\<lparr>started_at := Some now\<rparr> else job)"

definition update_terminal :: "int \<Rightarrow> runner_job_update_request \<Rightarrow> runner_job_lifecycle \<Rightarrow> bool \<Rightarrow> job_step" where
  "update_terminal now u l was_recovering job =
     (case observe_job_terminal now (job\<lparr>lifecycle := l\<rparr>) of (job, es) \<Rightarrow>
        (job\<lparr>ended_at := Some now, exit_code := up_exit_code u, duration_ms := up_duration_ms u, error := up_error u,
             command_execution_state := up_command_execution_state u, activity := None,
             recovery := (recovery job)
               \<lparr>phase := (if was_recovering then phase (recovery job)
                          else map_option (\<lambda>_. Reconciled) (reconciled_at (recovery job))),
                recovering_since := None\<rparr>\<rparr>, es))"

definition finish_untyped :: "int \<Rightarrow> job_step" where
  "finish_untyped now job =
     (case observe_job_terminal now
             (job\<lparr>lifecycle := (if error job = None \<and> exit_code job = Some 0 then Completed else Failed)\<rparr>) of (job, es) \<Rightarrow>
        (job\<lparr>ended_at := Some now, activity := None\<rparr>, es))"

definition accept_update :: "int \<Rightarrow> runner_job_update_request \<Rightarrow> runner_job_lifecycle \<Rightarrow> job_step" where
  "accept_update now u l job =
     (let was_recovering = recovery_active job;
          job = update_start now u l (update_reports u (update_logs u job));
          job = (if \<not> is_terminal (lifecycle job) then
                   job\<lparr>lifecycle := (if l = Queued \<and> started_at job \<noteq> None then RunnerQueued else l)\<rparr> else job);
          (job, es) = (if is_terminal l then update_terminal now u l was_recovering job
                       else (job\<lparr>error := or_else (up_error u) (error job)\<rparr>, []));
          (job, es') = (if finished u \<and> \<not> is_terminal (lifecycle job) then finish_untyped now job else (job, []));
          job = (if was_recovering then
                   job\<lparr>recovery := (recovery job)
                     \<lparr>phase := Some Reconciled, reconciled_at := Some now,
                      reason := Some SameInstanceUpdateReconciliation, recovering_since := None\<rparr>\<rparr> else job)
      in (job, es @ es'))"

definition notify_if_changed :: "job_public_mutation_signature \<Rightarrow> job_step" where
  "notify_if_changed before job =
     (let after = public_mutation_signature job in
      if after \<noteq> before then
        (if after\<lparr>sig_last_update_seq := sig_last_update_seq before\<rparr> = before
         then notify_job_heartbeat job else notify_job_update job)
      else (job, []))"

definition update_step ::
    "int \<Rightarrow> runner_job_update_request \<Rightarrow> runner_job_lifecycle \<Rightarrow> nat option \<Rightarrow> job_step" where
  "update_step now u l incoming job =
     then_step
       (\<lambda>job. case validate_report job u l of
          Inl code \<Rightarrow> protocol_violation now u code job | Inr _ \<Rightarrow> accept_update now u l job)
       (\<lambda>job'. notify_if_changed (public_mutation_signature job)
          (case incoming of None \<Rightarrow> job' | Some n \<Rightarrow> job'\<lparr>last_update_seq := n\<rparr>)) job"

section \<open>The handler\<close>

definition validate_update_request :: "runner_job_update_request \<Rightarrow> (unit, string) result" where
  "validate_update_request u =
     and_then (validate_id (up_client_id u) ''client_id'') (\<lambda>_.
     and_then (validate_id (up_job_id u) ''job_id'') (\<lambda>_.
     and_then (validate_runner_instance_id (up_runner_instance_id u)) (\<lambda>_.
       case log_snapshot u of
         None \<Rightarrow> Ok ()
       | Some s \<Rightarrow>
           and_then (validate_stream_snapshot (pair_stdout s) ''job update stdout snapshot'') (\<lambda>_.
           and_then (validate_stream_snapshot (pair_stderr s) ''job update stderr snapshot'') (\<lambda>_.
           guard_err (stdout_chunk u \<noteq> None \<or> stderr_chunk u \<noteq> None)
             ''job update log_snapshot cannot be combined with chunk fields'')))))"

definition runner_sequenced :: "registry_inner \<Rightarrow> string \<Rightarrow> bool" where
  "runner_sequenced inner cid =
     (case map_of (runners inner) cid of None \<Rightarrow> False
        | Some r \<Rightarrow> List.member (rr_features r) ''job_state_reconciliation'')"

definition incoming_sequence :: "bool \<Rightarrow> nat option \<Rightarrow> (nat option, string) result" where
  "incoming_sequence sequenced n =
     (if sequenced then
        (case n of
           Some k \<Rightarrow> if 0 < k then Ok (Some k) else Err ''job_state_reconciliation update requires update_seq''
         | None \<Rightarrow> Err ''job_state_reconciliation update requires update_seq'')
      else Ok n)"

definition incoming_lifecycle :: "bool \<Rightarrow> runner_job_update_request \<Rightarrow> (runner_job_lifecycle, string) result" where
  "incoming_lifecycle sequenced u =
     (let status = trim (up_status u);
          bad = (\<lambda>what. Err (what @ quoted status @ '' is invalid'')) in
      if sequenced \<and> up_status u \<noteq> status
        then Err ''job_state_reconciliation update status must be canonical without surrounding whitespace''
      else (case from_wire status of
          Inl _ \<Rightarrow> if sequenced then bad ''job_state_reconciliation update status '' else bad ''job update status ''
        | Inr l \<Rightarrow>
            if sequenced \<and> \<not> (is_runner_active l \<or> is_terminal l) then bad ''job_state_reconciliation update status ''
            else if sequenced \<and> finished u \<noteq> is_terminal l
              then Err ''job_state_reconciliation update has inconsistent finished/status''
            else if sequenced \<and> \<not> is_terminal l \<and> (up_exit_code u \<noteq> None \<or> up_duration_ms u \<noteq> None)
              then Err ''active job_state_reconciliation update contains terminal result fields''
            else if sequenced \<and> l = Completed \<and> up_exit_code u \<noteq> Some 0
              then Err ''completed job_state_reconciliation update requires exit_code=0''
            else Ok l))"

definition refresh_liveness :: "int \<Rightarrow> string \<Rightarrow> string option \<Rightarrow> registry_inner \<Rightarrow> registry_inner" where
  "refresh_liveness now cid conn inner =
     (case map_of (runners inner) cid of
        None \<Rightarrow> inner
      | Some r \<Rightarrow>
          if conn = None \<or> rr_connection_id r = conn
          then inner\<lparr>runners := AList.update cid (r\<lparr>last_seen := now\<rparr>) (runners inner)\<rparr> else inner)"

definition check_job_for_update ::
    "bool \<Rightarrow> runner_job_update_request \<Rightarrow> shell_job_record \<Rightarrow> (unit, string) result" where
  "check_job_for_update sequenced u job =
     (if client_id job \<noteq> up_client_id u then Err ''job_id does not belong to client_id''
      else if runner_instance_id job \<noteq> up_runner_instance_id u then Err ''job_id belongs to a replaced runner instance''
      else if up_request_id u \<noteq> None \<and> request_id job \<noteq> up_request_id u
        then Err ''job update request_id does not match job_id''
      else if log_snapshot u \<noteq> None \<and> \<not> sequenced
        then Err ''job update log_snapshot requires job_state_reconciliation capability''
      else if recovery_active job \<and> sequenced \<and> log_snapshot u = None
        then Err ''recovering job update requires an authoritative log_snapshot or register inventory''
      else Ok ())"

definition replayed :: "bool \<Rightarrow> nat option \<Rightarrow> shell_job_record \<Rightarrow> bool" where
  "replayed sequenced incoming job \<longleftrightarrow>
     sequenced \<and> (case incoming of None \<Rightarrow> False | Some n \<Rightarrow> n \<le> last_update_seq job)"

definition cursor_regresses :: "runner_job_update_request \<Rightarrow> shell_job_record \<Rightarrow> bool" where
  "cursor_regresses u job =
     (case log_snapshot u of None \<Rightarrow> False
        | Some s \<Rightarrow> ss_next_line (pair_stdout s) < next_line (stdout job)
            \<or> ss_next_line (pair_stderr s) < next_line (stderr job))"

text \<open>Every end of a Job releases its request; a Job whose result nobody waits for disappears with its end.\<close>

definition settle_update :: "string \<Rightarrow> shell_job_record \<Rightarrow> registry_inner \<Rightarrow> registry_inner" where
  "settle_update jid job inner =
     (let inner =
            (case request_id job of
               Some rid \<Rightarrow> if is_terminal (lifecycle job) then
                 inner\<lparr>pending_by_id := AList.delete rid (pending_by_id inner),
                       request_to_job := AList.delete rid (request_to_job inner)\<rparr> else inner
             | None \<Rightarrow> inner)
      in if visibility job = CleanupPending \<and> is_terminal (lifecycle job)
         then inner\<lparr>jobs_by_id := remove_job jid (jobs_by_id inner)\<rparr> else inner)"

definition update_job_checked ::
    "(string \<Rightarrow> string) \<Rightarrow> (string \<Rightarrow> string) \<Rightarrow> int \<Rightarrow> runner_job_update_request \<Rightarrow> string option \<Rightarrow> registry_inner
     \<Rightarrow> registry_inner \<times> (shell_job_info, string) result" where
  "update_job_checked hash enc now u conn inner =
     (let jid = up_job_id u; sequenced = runner_sequenced inner (up_client_id u) in
      case and_then (validate_update_request u) (\<lambda>_.
           and_then (assert_active_instance_locked inner (up_client_id u) (up_runner_instance_id u)) (\<lambda>_.
           and_then (incoming_sequence sequenced (up_update_seq u)) (\<lambda>n.
           and_then (incoming_lifecycle sequenced u) (\<lambda>l. Ok (n, l))))) of
        Inl e \<Rightarrow> (inner, Err e)
      | Inr (incoming, l) \<Rightarrow>
          let inner = refresh_liveness now (up_client_id u) conn inner in
          (case get_job (jobs_by_id inner) jid of
             None \<Rightarrow> (inner, Err (unknown_shell_job jid))
           | Some job \<Rightarrow>
               (case check_job_for_update sequenced u job of
                  Inl e \<Rightarrow> (inner, Err e)
                | Inr _ \<Rightarrow>
                    if replayed sequenced incoming job \<or> is_terminal (lifecycle job)
                      then (inner, Ok (job_view hash enc now job))
                    else if cursor_regresses u job
                      then (inner, Err ''job update authoritative log snapshot regresses an absolute cursor'')
                    else
                      let job' = fst (update_step now u l incoming job) in
                      (settle_update jid job' (step_job jid (update_step now u l incoming) inner),
                       Ok (job_view hash enc now job')))))"

definition update_job ::
    "(string \<Rightarrow> string) \<Rightarrow> (string \<Rightarrow> string) \<Rightarrow> int \<Rightarrow> runner_job_update_request \<Rightarrow> registry_inner
     \<Rightarrow> registry_inner \<times> (shell_job_info, string) result" where
  "update_job hash enc now u = update_job_checked hash enc now u None"

definition update_job_for_connection ::
    "(string \<Rightarrow> string) \<Rightarrow> (string \<Rightarrow> string) \<Rightarrow> int \<Rightarrow> runner_job_update_request \<Rightarrow> string \<Rightarrow> registry_inner
     \<Rightarrow> registry_inner \<times> (shell_job_info, string) result" where
  "update_job_for_connection hash enc now u conn = update_job_checked hash enc now u (Some conn)"

section \<open>Stopping a Job\<close>

definition stop_queued :: "int \<Rightarrow> job_step" where
  "stop_queued now job =
     (case observe_job_terminal now (job\<lparr>lifecycle := Stopped\<rparr>) of (job, es) \<Rightarrow>
        (case notify_job_update
           (job\<lparr>ended_at := Some now, error := Some ''job stopped before Runner picked it up'',
                command_execution_state :=
                  (if structured_execution job \<noteq> None then Some CesNotStarted else command_execution_state job)\<rparr>) of
           (job, es') \<Rightarrow> (job, es @ es')))"

definition request_stop :: job_step where
  "request_stop job = notify_job_update (job\<lparr>lifecycle := StopRequested, error := Some ''stop requested''\<rparr>)"

text \<open>\<open>rid\<close> is the fresh request identifier, \<open>built\<close> the outcome of building the stop request and \<open>decoded\<close> that of
  decoding it again when it is queued.\<close>

definition stop_job_for_auth ::
    "(string \<Rightarrow> string) \<Rightarrow> (string \<Rightarrow> string) \<Rightarrow> int \<Rightarrow> int \<Rightarrow> runner_access option \<Rightarrow> string \<Rightarrow> string \<Rightarrow> (unit, string) result
     \<Rightarrow> (runner_operation, string) result \<Rightarrow> registry_inner \<Rightarrow> registry_inner \<times> (shell_job_info, string) result" where
  "stop_job_for_auth hash enc now grace auth jid rid built decoded inner =
     (case validate_id jid ''job_id'' of
        Inl e \<Rightarrow> (inner, Err e)
      | Inr _ \<Rightarrow>
          let inner = refresh_job_status_locked now grace jid inner in
          (case get_job (jobs_by_id inner) jid of
             None \<Rightarrow> (inner, Err (unknown_shell_job jid))
           | Some job \<Rightarrow>
               if visibility job \<noteq> Public \<or> \<not> job_visible_to_access now auth job
                 then (inner, Err (unknown_shell_job jid))
               else if recovery_active job
                 then (inner, Err (''runner_unavailable_recovering: wait for same-instance job reconciliation ''
                                   @ ''before retrying stop_job''))
               else if lifecycle job = Queued then
                 let inner = (case request_id job of None \<Rightarrow> inner
                                | Some r \<Rightarrow> retire_job_request_locked (client_id job) r inner) in
                 (step_job jid (stop_queued now) inner, Ok (job_view hash enc now (fst (stop_queued now job))))
               else if lifecycle job = RunnerQueued \<or> lifecycle job = Running then
                 (case built of
                    Inl e \<Rightarrow> (inner, Err e)
                  | Inr _ \<Rightarrow>
                      (case enqueue_pending_request_with_fence_locked now (client_id job) rid (client_id job) decoded Unfenced (Some jid) inner of
                         Inl e \<Rightarrow> (inner, Err (enqueue_error_display e))
                       | Inr inner \<Rightarrow> (step_job jid request_stop inner, Ok (job_view hash enc now (fst (request_stop job))))))
               else (inner, Ok (job_view hash enc now job))))"

section \<open>Updates keep history\<close>

lemmas update_defs = update_step_def protocol_violation_def accept_update_def update_logs_def update_reports_def
  update_start_def update_terminal_def finish_untyped_def notify_if_changed_def notify_job_heartbeat_def
  notify_job_update_def notify_job_observation_def observe_job_terminal_def then_step_def Let_def

text \<open>The parts of a record that no step touches.\<close>

definition admission :: "shell_job_record \<Rightarrow> _" where
  "admission job = (job_id job, request_id job, client_id job, auth_group job, owner_at_admission job, kind job,
     created_at job, visibility job, runner_instance_id job)"

lemma observe_admission [simp]: "admission (fst (observe_job_terminal now job)) = admission job"
  by (simp add: observe_job_terminal_def admission_def)

lemma notify_if_changed_fields:
  "admission (fst (notify_if_changed b job)) = admission job"
  "lifecycle (fst (notify_if_changed b job)) = lifecycle job"
  "last_update_seq (fst (notify_if_changed b job)) = last_update_seq job"
  "public_mutation_signature (fst (notify_if_changed b job)) = public_mutation_signature job"
  by (simp_all add: notify_if_changed_def notify_job_heartbeat_def notify_job_update_def notify_job_observation_def
      admission_def public_mutation_signature_def Let_def)

lemma violation_fields:
  "admission (fst (protocol_violation now u code job)) = admission job"
  "lifecycle (fst (protocol_violation now u code job)) = Failed"
  "last_update_seq (fst (protocol_violation now u code job)) = last_update_seq job"
  by (simp_all add: protocol_violation_def observe_job_terminal_def admission_def)

lemma update_parts_fields:
  "admission (update_logs u job) = admission job" "lifecycle (update_logs u job) = lifecycle job"
  "last_update_seq (update_logs u job) = last_update_seq job"
  "admission (update_reports u job) = admission job" "lifecycle (update_reports u job) = lifecycle job"
  "last_update_seq (update_reports u job) = last_update_seq job"
  "admission (update_start now u l job) = admission job" "lifecycle (update_start now u l job) = lifecycle job"
  "last_update_seq (update_start now u l job) = last_update_seq job"
  by (simp_all add: update_logs_def update_reports_def update_start_def admission_def split: option.splits)

lemma update_ends_fields:
  "admission (fst (update_terminal now u l w job)) = admission job" "lifecycle (fst (update_terminal now u l w job)) = l"
  "last_update_seq (fst (update_terminal now u l w job)) = last_update_seq job"
  "admission (fst (finish_untyped now job)) = admission job" "is_terminal (lifecycle (fst (finish_untyped now job)))"
  "last_update_seq (fst (finish_untyped now job)) = last_update_seq job"
  by (simp_all add: update_terminal_def finish_untyped_def observe_job_terminal_def admission_def)

lemma admission_updates [simp]:
  "admission (job\<lparr>lifecycle := l\<rparr>) = admission job" "admission (job\<lparr>error := e\<rparr>) = admission job"
  "admission (job\<lparr>recovery := r\<rparr>) = admission job" "admission (job\<lparr>last_update_seq := n\<rparr>) = admission job"
  by (simp_all add: admission_def)

lemma accept_update_fields:
  assumes "\<not> is_terminal (lifecycle job)"
  shows "admission (fst (accept_update now u l job)) = admission job"
    "last_update_seq (fst (accept_update now u l job)) = last_update_seq job"
    "is_terminal l \<Longrightarrow> lifecycle (fst (accept_update now u l job)) = l"
    "is_terminal (lifecycle (fst (accept_update now u l job))) \<longleftrightarrow> is_terminal l \<or> finished u"
proof -
  have "\<not> is_terminal (if l = Queued \<and> x then RunnerQueued else l)" if "\<not> is_terminal l" for x
    using that by simp
  then show "admission (fst (accept_update now u l job)) = admission job"
    "last_update_seq (fst (accept_update now u l job)) = last_update_seq job"
    "is_terminal l \<Longrightarrow> lifecycle (fst (accept_update now u l job)) = l"
    "is_terminal (lifecycle (fst (accept_update now u l job))) \<longleftrightarrow> is_terminal l \<or> finished u"
    using assms
    by (auto simp: accept_update_def Let_def split_beta update_parts_fields update_ends_fields)
qed

lemma update_step_cases:
  assumes "\<not> is_terminal (lifecycle job)"
  shows "admission (fst (update_step now u l n job)) = admission job"
    "last_update_seq (fst (update_step now u l n job)) = (case n of None \<Rightarrow> last_update_seq job | Some k \<Rightarrow> k)"
    "lifecycle (fst (update_step now u l n job)) =
       (case validate_report job u l of Inl _ \<Rightarrow> Failed | Inr _ \<Rightarrow> lifecycle (fst (accept_update now u l job)))"
  using accept_update_fields [OF assms]
  by (simp_all add: update_step_def then_step_def split_beta notify_if_changed_fields violation_fields
      split: sum.splits option.splits)

lemma jobs_refresh_liveness [simp]: "jobs_by_id (refresh_liveness now cid conn inner) = jobs_by_id inner"
  by (simp add: refresh_liveness_def split: option.splits)

lemma jobs_liveness [simp]: "jobs (refresh_liveness now cid conn inner) = jobs inner"
  by (simp add: jobs_def)

lemma jobs_settle_update:
  "jobs (settle_update jid job inner) =
     (if visibility job = CleanupPending \<and> is_terminal (lifecycle job) then (jobs inner)(jid := None) else jobs inner)"
  by (rule ext) (simp add: settle_update_def Let_def jobs_def get_job_def remove_job_def delete_conv' split: option.splits)

text \<open>An update either leaves all Jobs alone or applies one step to the Job it names.\<close>

lemma update_job_cases:
  assumes "update_job_checked hash enc now u conn inner = (inner', r)"
  obtains (same) "jobs_by_id inner' = jobs_by_id inner"
      "is_ok r \<Longrightarrow> \<exists>job n. jobs inner (up_job_id u) = Some job
         \<and> incoming_sequence (runner_sequenced inner (up_client_id u)) (up_update_seq u) = Ok n
         \<and> (replayed (runner_sequenced inner (up_client_id u)) n job \<or> is_terminal (lifecycle job))"
  | (applied) job l n where "jobs inner (up_job_id u) = Some job" "\<not> is_terminal (lifecycle job)"
      "client_id job = up_client_id u" "runner_instance_id job = up_runner_instance_id u"
      "incoming_lifecycle (runner_sequenced inner (up_client_id u)) u = Ok l"
      "incoming_sequence (runner_sequenced inner (up_client_id u)) (up_update_seq u) = Ok n"
      "\<not> replayed (runner_sequenced inner (up_client_id u)) n job"
      "assert_active_instance_locked inner (up_client_id u) (up_runner_instance_id u) = Ok ()"
      "r = Ok (job_view hash enc now (fst (update_step now u l n job)))"
      "inner' = settle_update (up_job_id u) (fst (update_step now u l n job))
         (step_job (up_job_id u) (update_step now u l n) (refresh_liveness now (up_client_id u) conn inner))"
proof -
  let ?seq = "runner_sequenced inner (up_client_id u)"
  let ?pre = "and_then (validate_update_request u) (\<lambda>_.
           and_then (assert_active_instance_locked inner (up_client_id u) (up_runner_instance_id u)) (\<lambda>_.
           and_then (incoming_sequence ?seq (up_update_seq u)) (\<lambda>n.
           and_then (incoming_lifecycle ?seq u) (\<lambda>l. Ok (n, l)))))"
  show thesis
  proof (cases ?pre)
    case (Inl e)
    then show ?thesis using assms same by (auto simp: update_job_checked_def Let_def)
  next
    case (Inr nl)
    then obtain n l where nl: "nl = (n, l)" and pre: "incoming_lifecycle ?seq u = Ok l"
        "incoming_sequence ?seq (up_update_seq u) = Ok n"
        "assert_active_instance_locked inner (up_client_id u) (up_runner_instance_id u) = Ok ()"
      by (auto simp: rust_ok)
    note step = assms [unfolded update_job_checked_def Let_def Inr nl sum.case prod.case jobs_refresh_liveness]
    show ?thesis
    proof (cases "jobs inner (up_job_id u)")
      case None
      then show ?thesis using step same by (auto simp: jobs_def)
    next
      case (Some job)
      show ?thesis
      proof (cases "is_ok (check_job_for_update ?seq u job) \<and> \<not> replayed ?seq n job \<and> \<not> is_terminal (lifecycle job)
          \<and> \<not> cursor_regresses u job")
        case True
        then have "client_id job = up_client_id u" "runner_instance_id job = up_runner_instance_id u"
          by (auto simp: check_job_for_update_def is_ok_iff split: if_splits)
        with True step Some show ?thesis
          using applied [OF Some _ _ _ pre(1,2) _ pre(3)] by (auto simp: jobs_def is_ok_iff)
      next
        case False
        then have "jobs_by_id inner' = jobs_by_id inner"
            "is_ok r \<Longrightarrow> replayed ?seq n job \<or> is_terminal (lifecycle job)"
          using step Some by (auto simp: jobs_def is_ok_iff split: sum.splits if_splits)
        then show ?thesis using same Some pre(2) by blast
      qed
    qed
  qed
qed


section \<open>Replays\<close>

lemma refresh_liveness_sequenced: "runner_sequenced (refresh_liveness now cid conn inner) c = runner_sequenced inner c"
  by (auto simp: refresh_liveness_def runner_sequenced_def update_conv' split: option.splits)

lemma update_runner_sequenced:
  assumes "update_job_checked hash enc now u conn inner = (inner', r)"
  shows "runner_sequenced inner' c = runner_sequenced inner c"
proof -
  have cong: "runners a = runners b \<Longrightarrow> runner_sequenced a c = runner_sequenced b c" for a b
    by (simp add: runner_sequenced_def)
  have frame: "runners (settle_update jid job st) = runners st" for jid job st
    by (simp add: settle_update_def Let_def split: option.splits)
  have "inner' = inner \<or> runners inner' = runners (refresh_liveness now (up_client_id u) conn inner)"
    using assms by (auto simp: update_job_checked_def Let_def frame step_job_frame split: sum.splits option.splits if_splits)
  then show ?thesis using cong refresh_liveness_sequenced by metis
qed

text \<open>
  C6. A repeated update has no effect. Once an update of a Runner that reconciles its Jobs has been processed, sending the same update
  again, over whatever connection and at whatever time, leaves every Job as it is.
\<close>

theorem update_replay_idempotent:
  assumes "update_job_checked hash enc now u conn inner = (inner', Ok v)"
    "runner_sequenced inner (up_client_id u)"
  shows "jobs_by_id (fst (update_job_checked hash enc now' u conn' inner')) = jobs_by_id inner'"
proof -
  obtain inner'' r'' where again: "update_job_checked hash enc now' u conn' inner' = (inner'', r'')" by fastforce
  have seq: "runner_sequenced inner' (up_client_id u)" using update_runner_sequenced [OF assms(1)] assms(2) by simp
  have settled: "is_terminal (lifecycle job) \<or> replayed True n job"
    if "jobs inner' (up_job_id u) = Some job" "incoming_sequence True (up_update_seq u) = Ok n" for job n
    using assms(1)
  proof (cases rule: update_job_cases)
    case same
    then show ?thesis using that assms(2) by (auto simp: jobs_def)
  next
    case (applied j l m)
    have "job = fst (update_step now u l m j)"
      using that(1) applied(1) unfolding applied(10)
      by (auto simp: jobs_settle_update jobs_step_job split: if_splits)
    then show ?thesis
      using update_step_cases(2) [OF applied(2), of now u l m] applied(6) that(2) assms(2)
      by (auto simp: replayed_def incoming_sequence_def split: option.splits if_splits)
  qed
  from again show ?thesis
  proof (cases rule: update_job_cases)
    case same
    then show ?thesis using again by simp
  next
    case (applied j l m)
    then show ?thesis using settled [of j m] seq by simp
  qed
qed

section \<open>Completed validations\<close>

lemma completed_report:
  assumes "\<not> is_terminal (lifecycle job)" "validation_steps job \<noteq> []"
    "lifecycle (fst (update_step now u l n job)) = Completed"
  shows "validate_report job u l = Ok () \<and> l = Completed \<and> up_exit_code u = Some 0
    \<and> (\<exists>p. up_validation_progress u = Some p \<and> completed p = length (validation_steps job)
        \<and> current_step p = None \<and> failed_step p = None
        \<and> completed p \<le> Suc (case validation_progress job of None \<Rightarrow> 0 | Some q \<Rightarrow> completed q))"
proof -
  have ok: "validate_report job u l = Ok ()" and lc: "lifecycle (fst (accept_update now u l job)) = Completed"
    using update_step_cases(3) [OF assms(1), of now u l n] assms(3) by (auto split: sum.splits)
  have v: "validate_validation_progress job u l = Ok ()" using ok by (auto simp: validate_report_def rust_ok)
  have l: "l = Completed"
    using accept_update_fields(3,4) [OF assms(1), where now = now and u = u and l = l] lc v assms(2)
    by (auto simp: validate_validation_progress_def invalid_progress_def split: if_splits)
  from v show ?thesis
    using assms(2) ok unfolding l
    by (auto simp: validate_validation_progress_def invalid_progress_def progress_shape_valid_def cancelling_def
        infrastructure_failure_def Let_def sat_add_def split: if_splits option.splits)
qed


section \<open>Stopping takes effect\<close>


text \<open>Stopping a Job in the legacy state reports success and does nothing.\<close>

lemma stop_started_legacy_ignored:
  assumes "validate_id jid ''job_id'' = Ok ()" "jobs inner jid = Some job" "lifecycle job = StartedLegacy"
    "visibility job = Public" "job_visible_to_access now auth job"
  shows "stop_job_for_auth hash enc now grace auth jid rid built decoded inner = (inner, Ok (job_view hash enc now job))"
  using assms by (simp add: stop_job_for_auth_def refresh_job_status_locked_def jobs_def recovery_active_def)

text \<open>
  An update without a sequence that says only that the Job has finished fails it, whatever exit code it reports: the reported
  code is stored by terminal states only.
\<close>

lemma finished_without_status_fails:
  assumes "\<not> is_terminal (lifecycle job)" "\<not> is_terminal l" "finished u" "exit_code job = None" "validate_report job u l = Ok ()"
  shows "lifecycle (fst (update_step now u l n job)) = Failed"
proof -
  have e: "exit_code (update_logs u j) = exit_code j" "exit_code (update_reports u j) = exit_code j"
      "exit_code (update_start now u l j) = exit_code j" for j
    by (simp_all add: update_logs_def update_reports_def update_start_def split: option.splits)
  show ?thesis
    using assms
    by (simp add: update_step_cases(3) accept_update_def Let_def split_beta update_parts_fields e
        finish_untyped_def observe_job_terminal_def)
qed

section \<open>A sample update\<close>

definition sample_update :: "string \<Rightarrow> nat \<Rightarrow> string \<Rightarrow> runner_job_update_request" where
  "sample_update jid n status =
     \<lparr>up_client_id = ''c1'', up_runner_instance_id = ''i1'', up_job_id = jid, up_request_id = None, up_update_seq = Some n,
      up_status = status, stdout_chunk = Some (''ok'' @ [LF]), stderr_chunk = None, log_snapshot = None, up_exit_code = Some 0,
      up_duration_ms = Some 9000, up_error = None, up_command_execution_state = None, up_validation_progress = None,
      up_test_count_evidence = None, up_format_mutation = None, up_build_artifacts = None, up_activity = None,
      finished = True\<rparr>"

definition sample_reconciler :: runner_record where
  "sample_reconciler = \<lparr>rr_client_id = ''c1'', rr_runner_instance_id = ''i1'', rr_owner = Some ''ada'',
     rr_features = [''job_state_reconciliation''], last_seen = 90, rr_auth_group = None, rr_connection_id = None,
     rr_projects = [], rr_inventory = pending_inventory_state 0,
     rr_transport = TransportPolling, rr_policy = None, rr_registered_at = 0, rr_disconnected_at = None,
     rr_computer_session_availability = None, rr_computer_control_epoch = None, rr_job_concurrency_limit = None,
     rr_job_capacity_generation = 0, rr_coding_agent_providers = [], suppressions = []\<rparr>"

definition sample_validation_job :: shell_job_record where
  "sample_validation_job = (sample_job ''v'' ''c1'' ''i1'' Running)
     \<lparr>validation_steps := [''check''], validation_progress := Some \<lparr>completed = 0, current_step = Some ''check'', failed_step = None\<rparr>\<rparr>"

definition sample_registry_state :: registry_inner where
  "sample_registry_state = empty_inner
     \<lparr>runners := [(''c1'', sample_reconciler)],
      jobs_by_id := insert_job ''a'' (sample_job ''a'' ''c1'' ''i1'' Running)
        (insert_job ''v'' sample_validation_job (insert_job ''c'' (sample_job ''c'' ''c2'' ''i2'' Running) empty_records))\<rparr>"

lemma sample_state_facts:
  "runner_sequenced sample_registry_state ''c1''"
  "jobs sample_registry_state ''a'' = Some (sample_job ''a'' ''c1'' ''i1'' Running)"
  "jobs sample_registry_state ''v'' = Some sample_validation_job"
  "jobs sample_registry_state ''c'' = Some (sample_job ''c'' ''c2'' ''i2'' Running)"
  by (simp_all add: sample_registry_state_def runner_sequenced_def sample_reconciler_def jobs_def get_job_def insert_job_def
      empty_records_def)


lemma sample_update_runs:
  "\<exists>v. snd (update_job_checked (\<lambda>_. []) (\<lambda>b. b) 100 (sample_update ''a'' 4 ''completed'') None sample_registry_state) = Ok v
     \<and> info_status v = ''completed''"
proof -
  have "(case snd (update_job_checked (\<lambda>_. []) (\<lambda>b. b) 100 (sample_update ''a'' 4 ''completed'') None sample_registry_state) of
      Inl _ \<Rightarrow> False | Inr v \<Rightarrow> info_status v = ''completed'')"
    by code_simp
  then show ?thesis by (auto split: sum.splits)
qed

theorem update_replay_idempotent_witness:
  "\<exists>inner' v. update_job_checked (\<lambda>_. []) (\<lambda>b. b) 100 (sample_update ''a'' 4 ''completed'') None sample_registry_state = (inner', Ok v)
     \<and> info_status v = ''completed''
     \<and> jobs_by_id (fst (update_job_checked (\<lambda>_. []) (\<lambda>b. b) 200 (sample_update ''a'' 4 ''completed'') (Some ''k'') inner')) = jobs_by_id inner'"
proof -
  obtain v where v: "snd (update_job_checked (\<lambda>_. []) (\<lambda>b. b) 100 (sample_update ''a'' 4 ''completed'') None sample_registry_state) = Ok v"
      "info_status v = ''completed''"
    using sample_update_runs by blast
  obtain inner' where c: "update_job_checked (\<lambda>_. []) (\<lambda>b. b) 100 (sample_update ''a'' 4 ''completed'') None sample_registry_state = (inner', Ok v)"
    using v(1) by (metis prod.collapse)
  have s: "runner_sequenced sample_registry_state (up_client_id (sample_update ''a'' 4 ''completed''))"
    by (simp add: sample_update_def sample_state_facts)
  from update_replay_idempotent [OF c s] c v(2) show ?thesis by blast
qed

definition sample_validation_update :: runner_job_update_request where
  "sample_validation_update = (sample_update ''v'' 4 ''completed'')
     \<lparr>up_validation_progress := Some \<lparr>completed = 1, current_step = None, failed_step = None\<rparr>\<rparr>"

lemma sample_validation_runs:
  "\<exists>inner' r job'. update_job_checked (\<lambda>_. []) (\<lambda>b. b) 100 sample_validation_update None sample_registry_state = (inner', r)
     \<and> jobs inner' ''v'' = Some job' \<and> lifecycle job' = Completed"
proof -
  have "(case get_job (jobs_by_id (fst (update_job_checked (\<lambda>_. []) (\<lambda>b. b) 100 sample_validation_update None sample_registry_state))) ''v'' of
      None \<Rightarrow> False | Some j \<Rightarrow> lifecycle j = Completed)"
    by code_simp
  then show ?thesis by (simp add: jobs_def split: option.splits) (metis prod.collapse)
qed



end
