(* ===== verification/Audit_Preview.thy ===== *)
theory Audit_Preview
  imports Validation_Metadata
begin

text \<open>
  The bounded one-line summaries of commands that Jobs carry (\<^verbatim>\<open>webcodex-core/src/audit_preview.rs\<close>,
  \<^verbatim>\<open>sensitive_text.rs\<close>, \<^verbatim>\<open>request_preview\<close> of \<^verbatim>\<open>webcodex-runner-registry/src/jobs.rs\<close>). A Job inventory is only
  accepted when its previews are canonical, that is, fixed points of \<^verbatim>\<open>command_preview\<close>.

  Rust's \<^verbatim>\<open>char::is_alphanumeric\<close> is a table of the Unicode standard and a parameter here: \<open>alnum\<close> of the
  bytes of one character.
\<close>

section \<open>Secret-like text\<close>

definition WEBCODEX_SECRET_PREFIXES :: "string list" where
  "WEBCODEX_SECRET_PREFIXES =
     [''wc_pat_'', ''wc_agent_'', ''wc_acct_'', ''wc_oat_'', ''wc_ort_'', ''wc_csec_'', ''wc_pair_'', ''wc_boot_'']"

definition secret_like_value :: "string \<Rightarrow> bool" where
  "secret_like_value v =
     (let lower = map ascii_lower v in
      contains_str lower ''-----begin'' \<or> contains_str lower ''bearer '' \<or> contains_str lower ''api_key''
      \<or> contains_str lower ''token='' \<or> contains_str lower ''id_rsa'' \<or> contains_str lower ''id_ed25519''
      \<or> list_ex (contains_str lower) WEBCODEX_SECRET_PREFIXES)"

section \<open>Previews\<close>

definition COMMAND_PREVIEW_MAX_CHARS :: nat where
  "COMMAND_PREVIEW_MAX_CHARS = 120"

definition ellipsis :: string where
  "ellipsis = [CHR 0xE2, CHR 0x80, CHR 0xA6]"

definition replacement_char :: string where
  "replacement_char = [CHR 0xEF, CHR 0xBF, CHR 0xBD]"

definition command_preview :: "string \<Rightarrow> string" where
  "command_preview command =
     (let first_line = trim (case str_lines command of [] \<Rightarrow> [] | l # _ \<Rightarrow> l) in
      if secret_like_value first_line then ''[redacted]''
      else if length (chars first_line) \<le> COMMAND_PREVIEW_MAX_CHARS then first_line
      else concat (take COMMAND_PREVIEW_MAX_CHARS (chars first_line)) @ ellipsis)"

text \<open>The closure \<^verbatim>\<open>push\<close>: the summary and whether the character was stored. A run of characters stops at
  the first one that does not fit.\<close>

definition push_char :: "string \<Rightarrow> string \<Rightarrow> string \<times> bool" where
  "push_char summary c =
     (if COMMAND_PREVIEW_MAX_CHARS \<le> length (chars summary) then (summary, False) else (summary @ c, True))"

fun push_chars :: "string list \<Rightarrow> string \<Rightarrow> string \<times> bool" where
  "push_chars [] summary = (summary, True)"
| "push_chars (c # cs) summary =
     (case push_char summary c of (summary, True) \<Rightarrow> push_chars cs summary | (summary, False) \<Rightarrow> (summary, False))"

definition simple_value :: "(string \<Rightarrow> bool) \<Rightarrow> string \<Rightarrow> bool" where
  "simple_value alnum v \<longleftrightarrow>
     v \<noteq> [] \<and> list_all (\<lambda>c. alnum c \<or> List.member [''_'', ''-'', ''.'', ''/'', [CHR 0x5C]] c) (chars v)"

text \<open>What one character of a value contributes.\<close>

definition preview_char :: "bool \<Rightarrow> string \<Rightarrow> string list" where
  "preview_char simple c =
     (if c = [CHR 0x22] then [[CHR 0x5C], [CHR 0x22]]
      else if c = [CHR 0x5C] \<and> \<not> simple then [[CHR 0x5C], [CHR 0x5C]]
      else [if is_control c then replacement_char else c])"

text \<open>One value: a separating blank, the opening quote, the characters and the closing quote.\<close>

definition preview_value :: "(string \<Rightarrow> bool) \<Rightarrow> string \<Rightarrow> string \<Rightarrow> string \<times> bool" where
  "preview_value alnum v summary =
     (let simple = simple_value alnum v;
          quote = (if simple then [] else [[CHR 0x22]]) in
      push_chars ((if summary = [] then [] else ['' '']) @ quote @ concat (map (preview_char simple) (chars v)) @ quote)
        summary)"

fun preview_values :: "(string \<Rightarrow> bool) \<Rightarrow> string list \<Rightarrow> string \<Rightarrow> string \<times> bool" where
  "preview_values alnum [] summary = (summary, True)"
| "preview_values alnum (v # vs) summary =
     (case preview_value alnum v summary of
        (summary, True) \<Rightarrow> preview_values alnum vs summary
      | (summary, False) \<Rightarrow> (summary, False))"

definition process_preview :: "(string \<Rightarrow> bool) \<Rightarrow> string \<Rightarrow> string list \<Rightarrow> string" where
  "process_preview alnum exe arguments =
     (let (summary, complete) = preview_values alnum (exe # arguments) [] in
      if secret_like_value summary then ''[redacted]''
      else if \<not> complete then summary @ ellipsis
      else summary)"

fun language_as_str :: "script_language \<Rightarrow> string" where
  "language_as_str Sh = ''sh''"
| "language_as_str Bash = ''bash''"
| "language_as_str Powershell = ''powershell''"
| "language_as_str Python = ''python''"
| "language_as_str Javascript = ''javascript''"
| "language_as_str Typescript = ''typescript''"

definition script_preview :: "string \<Rightarrow> nat \<Rightarrow> nat \<Rightarrow> string" where
  "script_preview language bytes argc =
     language @ '' script ('' @ show_nat bytes @ '' bytes, '' @ show_nat argc @ '' args)''"

text \<open>The part of a request that its preview depends on.\<close>

record script_payload =
  sc_language :: script_language
  sc_script :: string
  sc_args :: "string list"

definition request_preview ::
    "(string \<Rightarrow> bool) \<Rightarrow> script_payload option \<Rightarrow> process_argv option \<Rightarrow> string \<Rightarrow> string" where
  "request_preview alnum script process command =
     (case script of
        Some s \<Rightarrow> script_preview (language_as_str (sc_language s)) (length (sc_script s)) (length (sc_args s))
      | None \<Rightarrow> (case process of
          Some p \<Rightarrow> process_preview alnum (executable p) (argv p)
        | None \<Rightarrow> command_preview command))"

section \<open>Fixed points\<close>

lemma secret_like_value_iff:
  "secret_like_value v \<longleftrightarrow> (\<exists>p \<in> set ([''-----begin'', ''bearer '', ''api_key'', ''token='', ''id_rsa'', ''id_ed25519'']
     @ WEBCODEX_SECRET_PREFIXES). contains_str (map ascii_lower v) p)"
  by (auto simp: secret_like_value_def Let_def list_ex_iff)

lemma needles_ascii:
  "p \<in> set ([''-----begin'', ''bearer '', ''api_key'', ''token='', ''id_rsa'', ''id_ed25519''] @ WEBCODEX_SECRET_PREFIXES)
     \<Longrightarrow> p \<noteq> [] \<and> CHR 0xE2 \<notin> set p \<and> CHR 0x80 \<notin> set p \<and> CHR 0xA6 \<notin> set p"
  by (auto simp: WEBCODEX_SECRET_PREFIXES_def)

lemma contains_append_foreign:
  assumes "contains_str (s @ e) p" "p \<noteq> []" "set p \<inter> set e = {}"
  shows "contains_str s p"
proof -
  obtain a b where ab: "s @ e = a @ p @ b" using assms(1) by (auto simp: contains_str_iff)
  have "length (a @ p) \<le> length s"
  proof (rule ccontr)
    assume long: "\<not> ?thesis"
    obtain q x where p: "p = q @ [x]" using assms(2) by (cases p rule: rev_cases) auto
    let ?i = "length a + length q"
    have "(s @ e) ! ?i = x" unfolding ab p by (simp add: nth_append)
    moreover have "(s @ e) ! ?i \<in> set e"
    proof -
      have "length s \<le> ?i" "?i < length (s @ e)"
        using long arg_cong [OF ab, of length] by (auto simp: p)
      then show ?thesis by (simp add: nth_append)
    qed
    ultimately show False using assms(3) by (auto simp: p)
  qed
  moreover have "s = take (length s) (a @ p @ b)" using arg_cong [OF ab, of "take (length s)"] by simp
  ultimately have "s = a @ p @ take (length s - length (a @ p)) b" by simp
  then show ?thesis unfolding contains_str_iff by blast
qed

lemma secret_prefix: "secret_like_value s \<Longrightarrow> secret_like_value (s @ t)"
  unfolding secret_like_value_iff contains_str_iff by (metis append.assoc map_append)

lemma secret_ellipsis: "secret_like_value (s @ ellipsis) \<longleftrightarrow> secret_like_value s"
proof
  have e: "map ascii_lower ellipsis = ellipsis" by (simp add: ellipsis_def ascii_lower_def is_ascii_uppercase_def)
  assume "secret_like_value (s @ ellipsis)"
  then obtain p where p: "p \<in> set ([''-----begin'', ''bearer '', ''api_key'', ''token='', ''id_rsa'', ''id_ed25519'']
      @ WEBCODEX_SECRET_PREFIXES)" "contains_str (map ascii_lower s @ ellipsis) p"
    unfolding secret_like_value_iff map_append e by blast
  have "contains_str (map ascii_lower s) p"
    using needles_ascii [OF p(1)] by (intro contains_append_foreign [OF p(2)]) (simp_all add: ellipsis_def)
  then show "secret_like_value s" unfolding secret_like_value_iff using p(1) by blast
qed (rule secret_prefix)

definition first_line :: "string \<Rightarrow> string" where
  "first_line s = (case str_lines s of [] \<Rightarrow> [] | l # _ \<Rightarrow> l)"

lemma split_inclusive_no_lf: "LF \<notin> set s \<Longrightarrow> s \<noteq> [] \<Longrightarrow> split_inclusive s = [s]"
proof (induction s)
  case (Cons c s)
  then show ?case by (cases "s = []") auto
qed simp

lemma first_line_id: "LF \<notin> set s \<Longrightarrow> first_line s = s"
proof (cases "s = []")
  case False
  assume n: "LF \<notin> set s"
  then have "last s \<noteq> LF" using False last_in_set by metis
  then show ?thesis using n False by (simp add: first_line_def str_lines_def split_inclusive_no_lf strip_line_end_def)
qed (simp add: first_line_def str_lines_def)

lemma split_inclusive_lf: "l \<in> set (split_inclusive s) \<Longrightarrow> LF \<notin> set (butlast l)"
proof (induction s arbitrary: l)
  case (Cons c s)
  show ?case
  proof (cases "split_inclusive s")
    case Nil
    then show ?thesis using Cons by (auto split: if_splits)
  next
    case (Cons m ms)
    have "m \<noteq> []" using split_inclusive_nonempty_pieces [of m s] Cons by simp
    then show ?thesis using Cons.IH Cons.prems Cons by (auto split: if_splits)
  qed
qed simp

lemma strip_line_end_lf: "LF \<notin> set (butlast l) \<Longrightarrow> LF \<notin> set (strip_line_end l)"
  by (cases l rule: rev_cases) (auto simp: strip_line_end_def Let_def dest: in_set_butlastD)

lemma first_line_no_lf: "LF \<notin> set (first_line s)"
proof (cases "split_inclusive s")
  case (Cons l ls)
  then have "LF \<notin> set (butlast l)" using split_inclusive_lf [of l s] by simp
  then show ?thesis using Cons strip_line_end_lf by (simp add: first_line_def str_lines_def)
qed (simp add: first_line_def str_lines_def)

lemma command_preview_eq:
  "command_preview c =
     (if secret_like_value (trim (first_line c)) then ''[redacted]''
      else if length (chars (trim (first_line c))) \<le> COMMAND_PREVIEW_MAX_CHARS then trim (first_line c)
      else concat (take COMMAND_PREVIEW_MAX_CHARS (chars (trim (first_line c)))) @ ellipsis)"
  by (simp add: command_preview_def first_line_def Let_def)

lemma chars_ellipsis: "chars (s @ ellipsis) = chars s @ [ellipsis]"
  by (subst chars_append) (simp_all add: ellipsis_def is_cont_def)

text \<open>A preview is canonical when it is what \<^verbatim>\<open>command_preview\<close> makes of it, is bounded and is not secret-like.\<close>

definition canonical_preview :: "string \<Rightarrow> bool" where
  "canonical_preview p \<longleftrightarrow> command_preview p = p \<and> length (chars p) \<le> COMMAND_PREVIEW_MAX_CHARS + 1
     \<and> \<not> secret_like_value p"

lemma canonical_short:
  assumes "LF \<notin> set p" "trim p = p" "\<not> secret_like_value p" "length (chars p) \<le> COMMAND_PREVIEW_MAX_CHARS"
  shows "canonical_preview p"
  using assms by (simp add: canonical_preview_def command_preview_eq first_line_id)

lemma canonical_cut:
  assumes "LF \<notin> set s" "\<not> secret_like_value s" "length (chars s) = COMMAND_PREVIEW_MAX_CHARS"
    "\<not> is_whitespace (hd (chars s))"
  shows "canonical_preview (s @ ellipsis)"
proof -
  have ne: "chars s \<noteq> []" using assms(3) by (auto simp: COMMAND_PREVIEW_MAX_CHARS_def)
  have lf: "LF \<notin> set (s @ ellipsis)" using assms(1) by (simp add: ellipsis_def)
  have "\<not> is_whitespace ellipsis" by code_simp
  then have t: "trim (s @ ellipsis) = s @ ellipsis"
    using assms(4) ne unfolding trim_id_iff chars_ellipsis by simp
  show ?thesis
    unfolding canonical_preview_def command_preview_eq first_line_id [OF lf] t chars_ellipsis secret_ellipsis
    using assms(2,3) by simp
qed

lemma canonical_redacted: "canonical_preview ''[redacted]''"
  by code_simp

lemma command_preview_canonical: "canonical_preview (command_preview c)"
proof -
  let ?l = "trim (first_line c)"
  have lf: "LF \<notin> set ?l" using set_trim first_line_no_lf by blast
  show ?thesis
  proof (cases "secret_like_value ?l \<or> length (chars ?l) \<le> COMMAND_PREVIEW_MAX_CHARS")
    case True
    then show ?thesis using canonical_redacted canonical_short [OF lf] by (auto simp: command_preview_eq)
  next
    case False
    let ?gs = "take COMMAND_PREVIEW_MAX_CHARS (chars ?l)"
    have l: "?l = concat ?gs @ concat (drop COMMAND_PREVIEW_MAX_CHARS (chars ?l))"
      by (metis append_take_drop_id concat_append concat_chars)
    have g: "chars (concat ?gs) = ?gs"
      by (metis append_take_drop_id chars_concat_groups wf_groups_append wf_groups_chars)
    have "canonical_preview (concat ?gs @ ellipsis)"
    proof (rule canonical_cut)
      show "LF \<notin> set (concat ?gs)" using lf l by (metis Un_iff set_append)
      show "\<not> secret_like_value (concat ?gs)" using False l secret_prefix by metis
      show "length (chars (concat ?gs)) = COMMAND_PREVIEW_MAX_CHARS" using False unfolding g by simp
      have "?l \<noteq> []" using False by auto
      then show "\<not> is_whitespace (hd (chars (concat ?gs)))"
        using hd_chars_trim [of "first_line c"] unfolding g by (simp add: COMMAND_PREVIEW_MAX_CHARS_def)
    qed
    then show ?thesis using False by (simp add: command_preview_eq)
  qed
qed

section \<open>Process previews\<close>

text \<open>A whole character: an ASCII byte, or a lead byte and its continuations. Every character of a \<^verbatim>\<open>str\<close> is one.\<close>

definition good_group :: "string \<Rightarrow> bool" where
  "good_group g \<longleftrightarrow> g \<noteq> [] \<and> list_all is_cont (tl g)
     \<and> (of_char (hd g) < (128 :: nat) \<and> tl g = [] \<or> 192 \<le> (of_char (hd g) :: nat))"

definition utf8_text :: "string \<Rightarrow> bool" where
  "utf8_text s \<longleftrightarrow> list_all good_group (chars s)"

lemma good_group_facts: "good_group g \<Longrightarrow> chars g = [g] \<and> g \<noteq> [] \<and> \<not> is_cont (hd g)"
  using chars_concat_groups [of "[g]"] by (auto simp: good_group_def wf_groups_def is_cont_def Let_def)

lemma good_group_lf: "good_group g \<Longrightarrow> LF \<in> set g \<longleftrightarrow> g = [LF]"
  by (cases g) (auto simp: good_group_def list_all_iff is_cont_def Let_def)

lemma chars_push: "good_group g \<Longrightarrow> chars (s @ g) = chars s @ [g]"
  using good_group_facts [of g] chars_append [of g s] by simp

lemma push_chars_eq:
  assumes "list_all good_group cs" "length (chars s) \<le> COMMAND_PREVIEW_MAX_CHARS"
  shows "push_chars cs s = (s @ concat (take (COMMAND_PREVIEW_MAX_CHARS - length (chars s)) cs),
           length (chars s) + length cs \<le> COMMAND_PREVIEW_MAX_CHARS)"
  using assms
proof (induction cs arbitrary: s)
  case (Cons c cs)
  show ?case
  proof (cases "COMMAND_PREVIEW_MAX_CHARS \<le> length (chars s)")
    case False
    with Cons.prems Cons.IH [of "s @ c"] show ?thesis
      by (auto simp: push_char_def chars_push take_Cons' Suc_diff_le not_le)
  qed (simp add: push_char_def)
qed simp

lemma chars_push_groups: "list_all good_group cs \<Longrightarrow> chars (s @ concat cs) = chars s @ cs"
proof (induction cs arbitrary: s)
  case (Cons c cs)
  then show ?case using Cons.IH [of "s @ c"] chars_push [of c s] by simp
qed simp

text \<open>What is known of a summary between two values.\<close>

definition preview_so_far :: "string \<Rightarrow> bool" where
  "preview_so_far s \<longleftrightarrow> LF \<notin> set s \<and> length (chars s) \<le> COMMAND_PREVIEW_MAX_CHARS
     \<and> (s \<noteq> [] \<longrightarrow> \<not> is_whitespace (hd (chars s)))"

definition visible :: "string \<Rightarrow> bool" where
  "visible g \<longleftrightarrow> good_group g \<and> g \<noteq> [LF]"

lemma visible_list: "list_all visible cs \<Longrightarrow> list_all good_group cs \<and> LF \<notin> set (concat cs)"
  by (induction cs) (auto simp: visible_def good_group_lf)

lemma push_visible:
  assumes "preview_so_far s" "list_all visible cs" "cs \<noteq> []" "s = [] \<longrightarrow> \<not> is_whitespace (hd cs)"
    "\<not> is_whitespace (last cs)" "push_chars cs s = (s', complete)"
  shows "preview_so_far s' \<and> s' \<noteq> []
    \<and> (if complete then \<not> is_whitespace (last (chars s')) else length (chars s') = COMMAND_PREVIEW_MAX_CHARS)"
proof -
  let ?k = "COMMAND_PREVIEW_MAX_CHARS - length (chars s)"
  note v = visible_list [OF assms(2)]
  have len: "length (chars s) \<le> COMMAND_PREVIEW_MAX_CHARS" using assms(1) by (simp add: preview_so_far_def)
  have s': "s' = s @ concat (take ?k cs)" and
    c: "complete \<longleftrightarrow> length (chars s) + length cs \<le> COMMAND_PREVIEW_MAX_CHARS"
    using push_chars_eq [of cs s] v len assms(6) by auto
  have "list_all good_group (take ?k cs)" using v by (auto simp: list_all_iff dest: in_set_takeD)
  then have chars': "chars s' = chars s @ take ?k cs" unfolding s' by (rule chars_push_groups)
  have ne: "chars s' \<noteq> []" using assms(3) chars' by (cases "s = []") (auto simp: COMMAND_PREVIEW_MAX_CHARS_def)
  have "set (concat (take ?k cs)) \<subseteq> set (concat cs)" by (auto dest: in_set_takeD)
  then have "LF \<notin> set s'" using assms(1) v unfolding s' by (auto simp: preview_so_far_def)
  moreover have "\<not> is_whitespace (hd (chars s'))"
  proof (cases "s = []")
    case True
    then show ?thesis using assms(3,4) chars' by (simp add: COMMAND_PREVIEW_MAX_CHARS_def)
  next
    case False
    then show ?thesis using assms(1) chars' by (simp add: preview_so_far_def)
  qed
  ultimately have so_far: "preview_so_far s'" using len by (auto simp: preview_so_far_def chars')
  have "last (chars s') = last cs" if complete
    using that assms(3) c by (simp add: chars')
  moreover have "length (chars s') = COMMAND_PREVIEW_MAX_CHARS" if "\<not> complete"
    using that c len by (simp add: chars')
  moreover have "s' \<noteq> []" using ne by auto
  ultimately show ?thesis using so_far assms(5) by auto
qed

lemma visible_literals: "list_all visible ['' '', [CHR 0x22], [CHR 0x5C], replacement_char]"
  by code_simp

lemma visible_preview_char: "good_group c \<Longrightarrow> list_all visible (preview_char simple c)"
  using visible_literals by (auto simp: preview_char_def visible_def is_control_def)

lemma preview_char_ends:
  assumes "\<not> is_whitespace c \<or> c = [CHR 0x22]" "\<not> is_control c"
  shows "preview_char simple c \<noteq> [] \<and> \<not> is_whitespace (hd (preview_char simple c))
    \<and> \<not> is_whitespace (last (preview_char simple c))"
proof -
  have "\<not> is_whitespace [CHR 0x22]" "\<not> is_whitespace [CHR 0x5C]" by code_simp+
  with assms show ?thesis by (auto simp: preview_char_def)
qed

lemma simple_chars:
  assumes "\<And>g. alnum g \<Longrightarrow> \<not> is_whitespace g \<and> \<not> is_control g" "simple_value alnum v" "c \<in> set (chars v)"
  shows "\<not> is_whitespace c \<and> \<not> is_control c"
proof -
  have "list_all (\<lambda>g. \<not> is_whitespace g \<and> \<not> is_control g) [''_'', ''-'', ''.'', ''/'', [CHR 0x5C]]" by code_simp
  then show ?thesis using assms by (fastforce simp: simple_value_def list_all_iff)
qed

lemma concat_map_ends:
  assumes "xs \<noteq> []" "\<And>x. x \<in> set xs \<Longrightarrow> f x \<noteq> []"
  shows "concat (map f xs) \<noteq> [] \<and> hd (concat (map f xs)) = hd (f (hd xs)) \<and> last (concat (map f xs)) = last (f (last xs))"
proof -
  obtain x ys where xs: "xs = x # ys" using assms(1) by (cases xs) auto
  obtain zs z where zs: "xs = zs @ [z]" using assms(1) by (cases xs rule: rev_cases) auto
  have "hd (concat (map f xs)) = hd (f x)" "concat (map f xs) \<noteq> []" using assms(2) [of x] by (simp_all add: xs)
  moreover have "last (concat (map f xs)) = last (f z)" using assms(2) [of z] by (simp add: zs)
  moreover have "hd xs = x" by (simp add: xs)
  moreover have "last xs = z" by (simp add: zs)
  ultimately show ?thesis by simp
qed

lemma preview_value_step:
  assumes "preview_so_far s" "utf8_text v" "\<And>g. alnum g \<Longrightarrow> \<not> is_whitespace g \<and> \<not> is_control g"
    "preview_value alnum v s = (s', complete)"
  shows "preview_so_far s' \<and> s' \<noteq> []
    \<and> (if complete then \<not> is_whitespace (last (chars s')) else length (chars s') = COMMAND_PREVIEW_MAX_CHARS)"
proof -
  define simple where "simple = simple_value alnum v"
  define body where "body = concat (map (preview_char simple) (chars v))"
  define quote where "quote = (if simple then [] else [[CHR 0x22 :: char]])"
  define sep where "sep = (if s = [] then [] else ['' ''])"
  have p: "push_chars (sep @ quote @ body @ quote) s = (s', complete)"
    using assms(4) by (simp add: preview_value_def Let_def simple_def body_def quote_def sep_def)
  have "list_all visible body"
    using assms(2) visible_preview_char by (auto simp: body_def utf8_text_def list_all_iff)
  then have vis: "list_all visible (sep @ quote @ body @ quote)"
    using visible_literals by (auto simp: quote_def sep_def)
  have q: "\<not> is_whitespace [CHR 0x22]" by code_simp
  have ends: "body \<noteq> [] \<and> \<not> is_whitespace (hd body) \<and> \<not> is_whitespace (last body)" if simple
  proof -
    have c: "\<not> is_whitespace c \<and> \<not> is_control c" if "c \<in> set (chars v)" for c
      using simple_chars [OF assms(3) _ that] \<open>simple\<close> unfolding simple_def by blast
    have "chars v \<noteq> []" using that by (auto simp: simple_def simple_value_def)
    then show ?thesis
      using concat_map_ends [of "chars v" "preview_char simple"] preview_char_ends c
      unfolding body_def by (metis hd_in_set last_in_set)
  qed
  show ?thesis
  proof (rule push_visible [OF assms(1) vis _ _ _ p])
    show "sep @ quote @ body @ quote \<noteq> []" using ends by (auto simp: quote_def)
    show "s = [] \<longrightarrow> \<not> is_whitespace (hd (sep @ quote @ body @ quote))"
      using ends q by (auto simp: quote_def sep_def)
    show "\<not> is_whitespace (last (sep @ quote @ body @ quote))"
      using ends q by (cases simple) (simp_all add: quote_def)
  qed
qed

lemma preview_values_steps:
  assumes "preview_so_far s" "list_all utf8_text vs" "\<And>g. alnum g \<Longrightarrow> \<not> is_whitespace g \<and> \<not> is_control g"
    "preview_values alnum vs s = (s', complete)" "vs \<noteq> [] \<or> s \<noteq> []" "s \<noteq> [] \<longrightarrow> \<not> is_whitespace (last (chars s))"
  shows "preview_so_far s' \<and> s' \<noteq> []
    \<and> (if complete then \<not> is_whitespace (last (chars s')) else length (chars s') = COMMAND_PREVIEW_MAX_CHARS)"
  using assms(1,2,4-6)
proof (induction vs arbitrary: s)
  case (Cons v vs)
  obtain t c where t: "preview_value alnum v s = (t, c)" by fastforce
  from Cons.prems(2) have v: "utf8_text v" by simp
  note step = preview_value_step [OF Cons.prems(1) v assms(3) t]
  show ?case
  proof (cases c)
    case True
    then show ?thesis using Cons.IH [of t] Cons.prems(2,3) step t by simp
  next
    case False
    then show ?thesis using step Cons.prems(3) t by simp
  qed
qed auto

lemma process_preview_canonical:
  assumes "list_all utf8_text (exe # arguments)" "\<And>g. alnum g \<Longrightarrow> \<not> is_whitespace g \<and> \<not> is_control g"
  shows "canonical_preview (process_preview alnum exe arguments)"
proof -
  obtain s complete where s: "preview_values alnum (exe # arguments) [] = (s, complete)" by fastforce
  have e: "preview_so_far []" by (simp add: preview_so_far_def)
  note r = preview_values_steps [OF e assms s, simplified]
  have p: "process_preview alnum exe arguments =
      (if secret_like_value s then ''[redacted]'' else if \<not> complete then s @ ellipsis else s)"
    unfolding process_preview_def s by simp
  show ?thesis
  proof (cases "secret_like_value s")
    case True
    then show ?thesis using canonical_redacted by (simp add: p)
  next
    case False
    show ?thesis
    proof (cases complete)
      case True
      then have "trim s = s" using r unfolding trim_id_iff preview_so_far_def by simp
      then show ?thesis using canonical_short [of s] r False True by (simp add: p preview_so_far_def)
    next
      case trunc: False
      then show ?thesis using canonical_cut [of s] r False by (simp add: p preview_so_far_def)
    qed
  qed
qed

section \<open>Script previews\<close>

lemma contains_split_foreign:
  assumes "contains_str (a @ d @ b) p" "p \<noteq> []" "d \<noteq> []" "set p \<inter> set d = {}"
  shows "contains_str a p \<or> contains_str b p"
proof -
  obtain x y where eq: "a @ d @ b = x @ p @ y" using assms(1) by (auto simp: contains_str_iff)
  have hd_d: "hd d \<notin> set p" "hd p \<notin> set d" using assms(2-4) by (auto dest: hd_in_set)
  consider u where "a = x @ u" "u @ d @ b = p @ y" | u where "x = a @ u" "d @ b = u @ p @ y"
    using eq unfolding append_eq_append_conv2 [of a] by blast
  then show ?thesis
  proof cases
    case (1 u)
    then consider v where "u = p @ v" | v where "p = u @ v" "d @ b = v @ y"
      unfolding append_eq_append_conv2 [of u] by blast
    then show ?thesis
    proof cases
      case 2
      then have "v = []" using hd_d assms(3) by (cases v; cases d) auto
      then have "a = x @ p @ []" using 1 2 by simp
      then show ?thesis unfolding contains_str_iff by blast
    qed (use 1 in \<open>auto simp: contains_str_iff\<close>)
  next
    case (2 u)
    then consider w where "u = d @ w" "b = w @ p @ y" | w where "d = u @ w" "w @ b = p @ y"
      unfolding append_eq_append_conv2 [of d] by blast
    then show ?thesis
    proof cases
      case 2
      then have "w = []" using hd_d assms(2) by (cases w; cases p) auto
      then have "b = [] @ p @ y" using 2 by simp
      then show ?thesis unfolding contains_str_iff by blast
    qed (auto simp: contains_str_iff)
  qed
qed

lemma digits_lower: "list_all is_ascii_digit s \<Longrightarrow> map ascii_lower s = s"
  by (induction s) (auto simp: ascii_lower_def is_ascii_digit_def is_ascii_uppercase_def Let_def)

lemma digits_disjoint: "list_all is_ascii_digit s \<Longrightarrow> list_all (\<lambda>c. \<not> is_ascii_digit c) p \<Longrightarrow> set p \<inter> set s = {}"
  by (auto simp: list_all_iff)

lemma contains_subset: "contains_str s p \<Longrightarrow> set p \<subseteq> set s"
  by (auto simp: contains_str_iff)

lemma not_contains_script:
  assumes "\<not> contains_str a p" "\<not> contains_str b p" "\<not> contains_str c p" "p \<noteq> []" "list_all (\<lambda>c. \<not> is_ascii_digit c) p"
  shows "\<not> contains_str (a @ show_nat m @ b @ show_nat n @ c) p"
  using contains_split_foreign [of a "show_nat m" "b @ show_nat n @ c" p] contains_split_foreign [of b "show_nat n" c p]
    show_nat_digits [of m] show_nat_digits [of n] digits_disjoint [of "show_nat m" p] digits_disjoint [of "show_nat n" p] assms
  by blast

lemma script_preview_canonical:
  assumes "m \<le> u64_max" "n \<le> u64_max"
  shows "canonical_preview (script_preview (language_as_str l) m n)"
proof -
  define a where "a = language_as_str l @ '' script (''"
  let ?p = "a @ show_nat m @ '' bytes, '' @ show_nat n @ '' args)''"
  have p: "script_preview (language_as_str l) m n = ?p" by (simp add: script_preview_def a_def)
  have lower: "map ascii_lower ?p = ?p"
    using digits_lower show_nat_digits
    by (cases l) (simp_all add: a_def ascii_lower_def is_ascii_uppercase_def)
  have sub: "set ?p \<subseteq> {c. is_ascii_lowercase c \<or> is_ascii_digit c \<or> c \<in> {CHR '' '', CHR ''('', CHR '')'', CHR '',''}}"
    using show_nat_digits [of m] show_nat_digits [of n]
    by (cases l) (auto simp: a_def is_ascii_lowercase_def list_all_iff)
  have out: "c \<notin> set ?p" if "c \<in> {LF, CHR ''_'', CHR ''='', CHR ''-''}" for c
  proof -
    have "\<not> (is_ascii_lowercase c \<or> is_ascii_digit c \<or> c \<in> {CHR '' '', CHR ''('', CHR '')'', CHR '',''})"
      using that by (auto simp: is_ascii_lowercase_def is_ascii_digit_def Let_def)
    then show ?thesis using sub by blast
  qed
  have none: "\<not> contains_str ?p q" if "CHR ''_'' \<in> set q \<or> CHR ''='' \<in> set q \<or> CHR ''-'' \<in> set q" for q
    using contains_subset [of ?p q] out that by blast
  have "\<not> contains_str ?p ''bearer ''"
  proof (rule not_contains_script)
    show "\<not> contains_str a ''bearer ''" unfolding a_def by (cases l) (simp_all, code_simp+)
  qed code_simp+
  then have "\<not> secret_like_value ?p"
    unfolding secret_like_value_def Let_def lower using none by (auto simp: WEBCODEX_SECRET_PREFIXES_def)
  moreover have "LF \<notin> set ?p" using out by blast
  moreover have "length (chars ?p) \<le> COMMAND_PREVIEW_MAX_CHARS"
  proof -
    have "length (show_nat k) \<le> 20" if "k \<le> u64_max" for k
      using length_show_nat [of k 19] that by (simp add: u64_max_def)
    from this [OF assms(1)] this [OF assms(2)]
    have "length (show_nat m) \<le> 20" "length (show_nat n) \<le> 20" .
    moreover have "length a \<le> 19" by (cases l) (simp_all add: a_def)
    ultimately have "length ?p \<le> 80" by simp
    then show ?thesis using length_chars_le [of ?p] by (simp add: COMMAND_PREVIEW_MAX_CHARS_def)
  qed
  moreover have "trim ?p = ?p"
  proof -
    have g: "good_group [CHR '')'']" by code_simp
    have "chars ?p = chars (a @ show_nat m @ '' bytes, '' @ show_nat n @ '' args'') @ ['')'']"
      using chars_push [OF g, of "a @ show_nat m @ '' bytes, '' @ show_nat n @ '' args''"] by simp
    then have "last (chars ?p) = '')''" by simp
    moreover have "\<not> is_whitespace '')''" by code_simp
    moreover have "\<not> is_whitespace (hd (chars ?p))"
    proof
      assume "is_whitespace (hd (chars ?p))"
      moreover have "hd (hd (chars ?p)) = hd ?p" by (rule hd_hd_chars) simp
      ultimately have "hd ?p \<in> set (map hd whitespace_chars)" using whitespace_group_hd [of "hd (chars ?p)"] by metis
      then show False unfolding whitespace_hds by (cases l) (auto simp: a_def)
    qed
    ultimately show ?thesis unfolding trim_id_iff by simp
  qed
  ultimately show ?thesis unfolding p by (intro canonical_short)
qed



definition ascii_alphanumeric_char :: "string \<Rightarrow> bool" where
  "ascii_alphanumeric_char g = (case g of [c] \<Rightarrow> is_ascii_lowercase c \<or> is_ascii_uppercase c \<or> is_ascii_digit c | _ \<Rightarrow> False)"


end
