(* ===== verification/Inventory_Validation.thy ===== *)
theory Inventory_Validation
  imports Job_Update Project_Summary Audit_Preview
begin

text \<open>
  The check of a Runner's Job inventory before it is reconciled (\<^verbatim>\<open>validate_context\<close>, \<^verbatim>\<open>validate_snapshot\<close> and
  \<^verbatim>\<open>validate_job_inventory\<close> of \<^verbatim>\<open>webcodex-runner-registry/src/reconciliation.rs\<close>). A registration whose inventory
  fails the check is refused as a whole.

  The JSON serialiser and the compact codec of session identifiers are parameters.
\<close>

section \<open>The context of a Job\<close>

definition MAX_CONTEXT_FIELD_CHARS :: nat where
  "MAX_CONTEXT_FIELD_CHARS = 1024"

definition MAX_SNAPSHOT_ERROR_CHARS :: nat where
  "MAX_SNAPSHOT_ERROR_CHARS = 4096"

definition valid_bounded_text :: "string \<Rightarrow> nat \<Rightarrow> bool" where
  "valid_bounded_text v max_chars \<longleftrightarrow> \<not> has_nul v \<and> length (chars v) \<le> max_chars"

definition some_invalid :: "('a \<Rightarrow> bool) \<Rightarrow> 'a option \<Rightarrow> bool" where
  "some_invalid ok v = (case v of None \<Rightarrow> False | Some x \<Rightarrow> \<not> ok x)"

definition SESSION_ID_PREFIX :: string where
  "SESSION_ID_PREFIX = ''wc_sess_''"

record compact_codec =
  cc_encode :: "string \<Rightarrow> string"
  cc_decode :: "string \<Rightarrow> string option"

definition is_session_identity_suffix :: "compact_codec \<Rightarrow> string \<Rightarrow> bool" where
  "is_session_identity_suffix cc suffix \<longleftrightarrow>
     compact_decode (cc_encode cc) (cc_decode cc) 12 suffix \<noteq> None
     \<or> length suffix = 32 \<and> list_all is_lower_hexdigit suffix"

definition is_valid_session_id :: "compact_codec \<Rightarrow> string \<Rightarrow> bool" where
  "is_valid_session_id cc v =
     (case strip_prefix SESSION_ID_PREFIX v of None \<Rightarrow> False | Some suffix \<Rightarrow> is_session_identity_suffix cc suffix)"

datatype execution_purpose =
    PurposeValidation | PurposeTest | PurposeBuild | PurposeFormat | PurposeRelease | PurposeDiagnostic
  | PurposeOperation | PurposeOther

definition purpose_parse :: "string \<Rightarrow> execution_purpose option" where
  "purpose_parse v =
     (if v = ''validation'' then Some PurposeValidation
      else if v = ''test'' then Some PurposeTest
      else if v = ''build'' then Some PurposeBuild
      else if v = ''format'' then Some PurposeFormat
      else if v = ''release'' then Some PurposeRelease
      else if v = ''diagnostic'' then Some PurposeDiagnostic
      else if v = ''operation'' then Some PurposeOperation
      else if v = ''other'' then Some PurposeOther
      else None)"

definition validate_runtime_project ::
    "string \<Rightarrow> runner_project_summary list \<Rightarrow> bool \<Rightarrow> string option \<Rightarrow> (unit, string) result" where
  "validate_runtime_project cid projects membership rpid =
     (case rpid of
        None \<Rightarrow> Ok ()
      | Some v \<Rightarrow>
          (case filter_option (\<lambda>p. p \<noteq> []) (strip_prefix (''agent:'' @ cid @ '':'') v) of
             None \<Rightarrow> Err ''job inventory runtime_project_id does not belong to client_id''
           | Some pid \<Rightarrow>
               and_then (validate_id pid ''project_id'') (\<lambda>_.
                 guard_err (membership \<and> \<not> list_ex (\<lambda>p. \<not> ps_disabled p \<and> ps_id p = pid) projects)
                   ''job inventory runtime_project_id is not registered by this runner'')))"

definition validate_context ::
    "compact_codec \<Rightarrow> string \<Rightarrow> runner_project_summary list \<Rightarrow> bool \<Rightarrow> shell_job_snapshot \<Rightarrow> (unit, string) result" where
  "validate_context cc cid projects membership snapshot =
     (let c = snap_context snapshot; bounded = (\<lambda>v. valid_bounded_text v MAX_CONTEXT_FIELD_CHARS) in
      if command_preview (ctx_command_preview c) \<noteq> ctx_command_preview c
         \<or> COMMAND_PREVIEW_MAX_CHARS + 1 < length (chars (ctx_command_preview c))
        then Err ''job inventory command_preview is not canonical and bounded''
      else if some_invalid bounded (ctx_project_cwd c) then Err ''job inventory project_cwd is invalid or oversized''
      else if some_invalid bounded (ctx_cwd c) then Err ''job inventory cwd is invalid or oversized''
      else if some_invalid bounded (ctx_purpose c) then Err ''job inventory purpose is invalid or oversized''
      else if some_invalid bounded (ctx_shell c) then Err ''job inventory shell is invalid or oversized''
      else if some_invalid (\<lambda>p. purpose_parse p \<noteq> None) (ctx_purpose c) then Err ''job inventory purpose is invalid''
      else if some_invalid is_valid_shell (ctx_shell c) then Err ''job inventory shell is invalid''
      else if \<not> validation_steps_are_valid c then Err ''job inventory validation_steps are invalid''
      else if \<not> validation_metadata_is_valid c then Err ''job inventory validation metadata is invalid''
      else if some_invalid execution_is_valid (ctx_structured_execution c)
          \<or> ctx_structured_execution c \<noteq> None \<and> (ctx_validation_steps c \<noteq> [] \<or> ctx_validation c \<noteq> None)
        then Err ''job inventory structured execution metadata is invalid''
      else if some_invalid (\<lambda>s. is_valid_session_id cc s \<and> length (chars s) \<le> 128) (workflow_session_id c)
        then Err ''job inventory workflow_session_id is invalid''
      else if workflow_session_id c \<noteq> None \<and> runtime_project_id c = None
        then Err ''job inventory workflow_session_id requires runtime_project_id''
      else validate_runtime_project cid projects membership (runtime_project_id c))"

section \<open>One snapshot\<close>

definition timestamps_inconsistent :: "shell_job_snapshot \<Rightarrow> bool" where
  "timestamps_inconsistent s \<longleftrightarrow>
     snap_created_at s \<le> 0
     \<or> (case snap_started_at s of None \<Rightarrow> False | Some t \<Rightarrow> t < snap_created_at s)
     \<or> (case snap_ended_at s of None \<Rightarrow> False
        | Some t \<Rightarrow> t < (case snap_started_at s of None \<Rightarrow> snap_created_at s | Some u \<Rightarrow> u))"

fun snapshot_state_consistent ::
    "shell_job_snapshot \<Rightarrow> runner_job_lifecycle \<Rightarrow> shell_command_execution_state \<Rightarrow> bool" where
  "snapshot_state_consistent s l CesNotStarted \<longleftrightarrow>
     snap_started_at s = None \<and> List.member [Failed, Stopped, Cancelled, Lost] l"
| "snapshot_state_consistent s l CesOutcomeUnknown \<longleftrightarrow> List.member [Failed, Lost] l"
| "snapshot_state_consistent s l CesTimedOut \<longleftrightarrow> List.member [Timeout, TimedOut] l"
| "snapshot_state_consistent s l CesCompleted \<longleftrightarrow> List.member [Completed, Failed, Stopped, Cancelled] l"

text \<open>Identity, status, times and result fields.\<close>

definition validate_snapshot_result ::
    "shell_job_snapshot \<Rightarrow> runner_job_lifecycle \<Rightarrow> (unit, string) result" where
  "validate_snapshot_result s l =
     (let active = is_runner_active l; terminal = is_terminal l in
      if timestamps_inconsistent s then Err ''job inventory timestamps are inconsistent''
      else if active \<and> snap_ended_at s \<noteq> None then Err ''active job inventory snapshot must not have ended_at''
      else if active \<and> (snap_exit_code s \<noteq> None \<or> snap_duration_ms s \<noteq> None)
        then Err ''active job inventory snapshot must not contain terminal result fields''
      else if terminal \<and> snap_ended_at s = None then Err ''terminal job inventory snapshot requires ended_at''
      else if l = Completed \<and> snap_exit_code s \<noteq> Some 0
        then Err ''completed job inventory snapshot requires exit_code=0''
      else if (l = Running \<or> l = StopRequested) \<and> snap_started_at s = None
        then Err ''running job inventory snapshot requires started_at''
      else if some_invalid (\<lambda>e. valid_bounded_text e MAX_SNAPSHOT_ERROR_CHARS) (snap_error s)
        then Err ''job inventory error is invalid or oversized''
      else if active \<and> snap_command_execution_state s \<noteq> None
        then Err ''active job inventory snapshot must not contain terminal lifecycle''
      else if ctx_structured_execution (snap_context s) \<noteq> None \<and> terminal \<and> snap_command_execution_state s = None
        then Err ''terminal structured job inventory snapshot requires command_execution_state''
      else if some_invalid (snapshot_state_consistent s l) (snap_command_execution_state s)
        then Err ''job inventory command_execution_state is inconsistent''
      else Ok ())"

definition execution_source_of :: "shell_job_snapshot \<Rightarrow> string" where
  "execution_source_of s =
     (case ctx_structured_execution (snap_context s) of None \<Rightarrow> ''shell'' | Some m \<Rightarrow> execution_source m)"

definition snapshot_counts_tests :: "shell_job_snapshot \<Rightarrow> bool" where
  "snapshot_counts_tests s = (case ctx_validation (snap_context s) of None \<Rightarrow> False | Some m \<Rightarrow> counts_tests m)"

text \<open>The validation progress against the plan and the status.\<close>

definition progress_matches_status :: "shell_job_snapshot \<Rightarrow> runner_job_lifecycle \<Rightarrow> bool" where
  "progress_matches_status s l =
     (let steps = ctx_validation_steps (snap_context s); progress = snap_validation_progress s;
          idle = (\<lambda>p. current_step p = None \<and> failed_step p = None) in
      if l = RunnerQueued then progress = None
      else if l = Running \<or> l = StopRequested then
        (case progress of None \<Rightarrow> False
         | Some p \<Rightarrow> completed p < length steps \<and> current_step p = nth_step steps (completed p) \<and> failed_step p = None)
      else if l = Completed then (case progress of None \<Rightarrow> False | Some p \<Rightarrow> completed p = length steps \<and> idle p)
      else if l = Failed then
        \<not> some_invalid (\<lambda>p. current_step p = None
          \<and> \<not> some_invalid (\<lambda>failed. completed p < length steps \<and> nth_step steps (completed p) = Some failed) (failed_step p)) progress
      else if List.member [Stopped, Timeout, TimedOut, Cancelled, Lost] l then \<not> some_invalid idle progress
      else False)"

definition validate_snapshot_progress ::
    "shell_job_snapshot \<Rightarrow> runner_job_lifecycle \<Rightarrow> (unit, string) result" where
  "validate_snapshot_progress s l =
     (let steps = ctx_validation_steps (snap_context s) in
      if steps = [] \<and> snap_validation_progress s \<noteq> None then Err ''job inventory validation_progress is unexpected''
      else if some_invalid (\<lambda>p. completed p \<le> length steps
          \<and> \<not> some_invalid (List.member steps) (current_step p) \<and> \<not> some_invalid (List.member steps) (failed_step p)
          \<and> \<not> (current_step p \<noteq> None \<and> failed_step p \<noteq> None)) (snap_validation_progress s)
        then Err ''job inventory validation_progress is inconsistent''
      else if steps \<noteq> [] \<and> \<not> progress_matches_status s l
        then Err ''job inventory validation_progress does not match status''
      else Ok ())"

definition inventory_activity_phase :: "string \<Rightarrow> activity_phase option" where
  "inventory_activity_phase step =
     (if step = ''format'' then Some ValidationFormat
      else if step = ''check'' then Some ValidationCheck
      else if step = ''test'' then Some ValidationTest
      else None)"

definition validate_snapshot_activity ::
    "shell_job_snapshot \<Rightarrow> runner_job_lifecycle \<Rightarrow> (unit, string) result" where
  "validate_snapshot_activity s l =
     (case snap_activity s of
        None \<Rightarrow> Ok ()
      | Some a \<Rightarrow>
          if \<not> activity_is_canonical a \<or> \<not> (l = Running \<or> l = StopRequested)
            then Err ''job inventory activity is invalid for status''
          else (case act_source a of
              RunnerExecution \<Rightarrow>
                guard_err (ctx_validation_steps (snap_context s) \<noteq> [] \<or> act_phase a \<noteq> ProcessRunning)
                  ''job inventory activity is inconsistent with execution kind''
            | ValidationPlan \<Rightarrow>
                guard_err (Option.bind (Option.bind (snap_validation_progress s) current_step) inventory_activity_phase
                    \<noteq> Some (act_phase a))
                  ''job inventory activity is inconsistent with validation progress''
            | CargoOutput \<Rightarrow>
                (case snap_validation_progress s of
                   None \<Rightarrow> Err ''job inventory Cargo activity requires validation progress''
                 | Some p \<Rightarrow>
                     if current_step p = None \<or> ctx_validation_steps (snap_context s) = []
                       then Err ''job inventory Cargo activity requires an active validation step''
                     else if some_invalid (\<lambda>m. cargo_step_at m (completed p)) (ctx_validation (snap_context s))
                       then Err ''job inventory Cargo activity is inconsistent with validation metadata''
                     else Ok ())))"

definition status_invalid :: "shell_job_snapshot \<Rightarrow> string" where
  "status_invalid s = ''job inventory status '' @ quoted (snap_status s) @ '' is invalid''"

definition validate_snapshot ::
    "compact_codec \<Rightarrow> string \<Rightarrow> runner_project_summary list \<Rightarrow> bool \<Rightarrow> shell_job_snapshot \<Rightarrow> (bool, string) result" where
  "validate_snapshot cc cid projects membership s =
     and_then (validate_id (snap_job_id s) ''job_id'') (\<lambda>_.
     and_then (validate_id (snap_request_id s) ''request_id'') (\<lambda>_.
     and_then (guard_err (update_seq s = 0) ''job inventory update_seq must be greater than zero'') (\<lambda>_.
     and_then (map_err (\<lambda>_. status_invalid s) (from_wire (snap_status s))) (\<lambda>l.
     and_then (guard_err (\<not> is_runner_active l \<and> \<not> is_terminal l) (status_invalid s)) (\<lambda>_.
     and_then (validate_snapshot_result s l) (\<lambda>_.
     and_then (validate_build_artifact_report (execution_source_of s) (snap_status s) (snap_exit_code s)
         (snap_command_execution_state s) (snap_build_artifacts s)) (\<lambda>_.
     and_then (validate_mutation_report (execution_source_of s) (snap_status s) (snap_exit_code s)
         (snap_command_execution_state s) (snap_format_mutation s) (snap_error s)) (\<lambda>_.
     and_then (validate_context cc cid projects membership s) (\<lambda>_.
     and_then (validate_stream_snapshot (snap_stdout s) ''stdout'') (\<lambda>_.
     and_then (validate_stream_snapshot (snap_stderr s) ''stderr'') (\<lambda>_.
     and_then (guard_err (some_invalid (\<lambda>ev. snapshot_counts_tests s \<and> is_terminal l \<and> evidence_is_valid ev)
         (snap_test_count_evidence s)) ''job inventory test_count_evidence is inconsistent'') (\<lambda>_.
     and_then (validate_snapshot_progress s l) (\<lambda>_.
     and_then (validate_snapshot_activity s l) (\<lambda>_.
       Ok (is_runner_active l)))))))))))))))"

section \<open>The inventory\<close>

definition JOB_INVENTORY_MAX_ACTIVE_JOBS :: nat where
  "JOB_INVENTORY_MAX_ACTIVE_JOBS = 64"

definition JOB_INVENTORY_MAX_JOBS :: nat where
  "JOB_INVENTORY_MAX_JOBS = JOB_INVENTORY_MAX_ACTIVE_JOBS + JOB_INVENTORY_MAX_TERMINAL_JOBS"

definition JOB_INVENTORY_MAX_SERIALIZED_BYTES :: nat where
  "JOB_INVENTORY_MAX_SERIALIZED_BYTES = 1024 * 1024"

text \<open>The loop over the snapshots: the identifiers seen, the two counters and whether a terminal Job was seen.\<close>

record inventory_scan =
  scan_ids :: "string list"
  scan_request_ids :: "string list"
  active_count :: nat
  terminal_count :: nat
  saw_terminal :: bool

fun scan_snapshots ::
    "(shell_job_snapshot \<Rightarrow> (bool, string) result) \<Rightarrow> shell_job_snapshot list \<Rightarrow> inventory_scan \<Rightarrow> (inventory_scan, string) result" where
  "scan_snapshots check [] sc = Ok sc"
| "scan_snapshots check (s # ss) sc =
     (if List.member (scan_ids sc) (snap_job_id s)
        then Err (''job inventory contains duplicate job_id '' @ snap_job_id s)
      else if List.member (scan_request_ids sc) (snap_request_id s)
        then Err (''job inventory contains duplicate request_id '' @ snap_request_id s)
      else and_then (check s) (\<lambda>active.
        let sc = sc\<lparr>scan_ids := snap_job_id s # scan_ids sc, scan_request_ids := snap_request_id s # scan_request_ids sc\<rparr> in
        if active then
          (if saw_terminal sc then Err ''job inventory must order all active jobs before terminal history''
           else scan_snapshots check ss (sc\<lparr>active_count := active_count sc + 1\<rparr>))
        else scan_snapshots check ss (sc\<lparr>saw_terminal := True, terminal_count := terminal_count sc + 1\<rparr>)))"

definition validate_job_inventory_inner ::
    "compact_codec \<Rightarrow> (shell_job_inventory \<Rightarrow> (string, string) result) \<Rightarrow> string \<Rightarrow> runner_project_summary list \<Rightarrow> bool
     \<Rightarrow> shell_job_inventory \<Rightarrow> (unit, string) result" where
  "validate_job_inventory_inner cc to_json cid projects membership inventory =
     (if \<not> active_complete inventory then Err ''job_state_reconciliation requires active_complete job inventory''
      else if JOB_INVENTORY_MAX_JOBS < length (inv_jobs inventory)
        then Err (''job inventory exceeds '' @ show_nat JOB_INVENTORY_MAX_JOBS @ '' records'')
      else and_then (map_err (\<lambda>e. ''could not serialize job inventory: '' @ e) (to_json inventory)) (\<lambda>serialized.
        if JOB_INVENTORY_MAX_SERIALIZED_BYTES < length serialized
          then Err (''job inventory exceeds '' @ show_nat JOB_INVENTORY_MAX_SERIALIZED_BYTES @ '' serialized bytes'')
        else and_then (scan_snapshots (validate_snapshot cc cid projects membership) (inv_jobs inventory)
            \<lparr>scan_ids = [], scan_request_ids = [], active_count = 0, terminal_count = 0, saw_terminal = False\<rparr>) (\<lambda>sc.
          if JOB_INVENTORY_MAX_ACTIVE_JOBS < active_count sc
            then Err (''job inventory exceeds '' @ show_nat JOB_INVENTORY_MAX_ACTIVE_JOBS @ '' active records'')
          else if JOB_INVENTORY_MAX_TERMINAL_JOBS < terminal_count sc
            then Err (''job inventory exceeds '' @ show_nat JOB_INVENTORY_MAX_TERMINAL_JOBS @ '' terminal records'')
          else Ok ())))"

definition validate_job_inventory_without_project_membership ::
    "compact_codec \<Rightarrow> (shell_job_inventory \<Rightarrow> (string, string) result) \<Rightarrow> string \<Rightarrow> shell_job_inventory \<Rightarrow> (unit, string) result" where
  "validate_job_inventory_without_project_membership cc to_json cid inventory =
     validate_job_inventory_inner cc to_json cid [] False inventory"

section \<open>What an accepted inventory is\<close>

definition valid_snapshot :: "shell_job_snapshot \<Rightarrow> runner_job_lifecycle \<Rightarrow> bool" where
  "valid_snapshot s l \<longleftrightarrow>
     from_wire (snap_status s) = Ok l \<and> (is_runner_active l \<or> is_terminal l) \<and> 0 < update_seq s
     \<and> validate_snapshot_result s l = Ok () \<and> validate_snapshot_progress s l = Ok ()
     \<and> validation_steps_are_valid (snap_context s)"

lemma validate_context_steps: "validate_context cc cid ps m s = Ok () \<Longrightarrow> validation_steps_are_valid (snap_context s)"
  by (simp add: validate_context_def Let_def split: if_splits)

lemma map_err_Ok [rust_ok]: "map_err f r = Inr a \<longleftrightarrow> r = Inr a"
  by (cases r) (simp_all add: map_err_def)

lemma validated_snapshot:
  assumes "validate_snapshot cc cid ps m s = Ok a"
  shows "\<exists>l. valid_snapshot s l \<and> a = is_runner_active l"
  using assms validate_context_steps
  by (auto simp: validate_snapshot_def valid_snapshot_def and_then_Ok_iff guard_err_Ok_iff map_err_Ok)

lemma scan_snapshots_Ok:
  assumes "scan_snapshots check ss sc = Ok sc'"
  shows "distinct (map snap_job_id ss) \<and> set (map snap_job_id ss) \<inter> set (scan_ids sc) = {}
    \<and> distinct (map snap_request_id ss) \<and> set (map snap_request_id ss) \<inter> set (scan_request_ids sc) = {}
    \<and> (\<exists>as ts. ss = as @ ts \<and> list_all (\<lambda>s. check s = Ok True) as \<and> list_all (\<lambda>s. check s = Ok False) ts
        \<and> (saw_terminal sc \<longrightarrow> as = [])
        \<and> active_count sc' = active_count sc + length as \<and> terminal_count sc' = terminal_count sc + length ts)"
  using assms
proof (induction ss arbitrary: sc)
  case (Cons s ss)
  let ?sc = "sc\<lparr>scan_ids := snap_job_id s # scan_ids sc, scan_request_ids := snap_request_id s # scan_request_ids sc\<rparr>"
  from Cons.prems obtain active where c: "check s = Ok active"
      and new: "snap_job_id s \<notin> set (scan_ids sc)" "snap_request_id s \<notin> set (scan_request_ids sc)"
    by (auto simp: and_then_Ok_iff split: if_splits)
  show ?case
  proof (cases active)
    case True
    then have r: "scan_snapshots check ss (?sc\<lparr>active_count := active_count ?sc + 1\<rparr>) = Ok sc'" "\<not> saw_terminal sc"
      using Cons.prems c by (auto simp: Let_def split: if_splits)
    from Cons.IH [OF r(1)] obtain as ts where "ss = as @ ts" "list_all (\<lambda>s. check s = Ok True) (s # as)"
        "list_all (\<lambda>s. check s = Ok False) ts" "active_count sc' = active_count sc + length (s # as)"
        "terminal_count sc' = terminal_count sc + length ts"
      using c True by auto
    then have "\<exists>as ts. s # ss = as @ ts \<and> list_all (\<lambda>s. check s = Ok True) as \<and> list_all (\<lambda>s. check s = Ok False) ts
        \<and> (saw_terminal sc \<longrightarrow> as = [])
        \<and> active_count sc' = active_count sc + length as \<and> terminal_count sc' = terminal_count sc + length ts"
      using r(2) by (intro exI [of _ "s # as"] exI [of _ ts]) simp
    then show ?thesis using Cons.IH [OF r(1)] new by auto
  next
    case False
    then have r: "scan_snapshots check ss (?sc\<lparr>saw_terminal := True, terminal_count := terminal_count ?sc + 1\<rparr>) = Ok sc'"
      using Cons.prems c by (auto simp: Let_def split: if_splits)
    from Cons.IH [OF r] obtain ts where "ss = ts" "list_all (\<lambda>s. check s = Ok False) (s # ts)"
        "active_count sc' = active_count sc" "terminal_count sc' = terminal_count sc + length (s # ts)"
      using c False by auto
    then have "\<exists>as ts. s # ss = as @ ts \<and> list_all (\<lambda>s. check s = Ok True) as \<and> list_all (\<lambda>s. check s = Ok False) ts
        \<and> (saw_terminal sc \<longrightarrow> as = [])
        \<and> active_count sc' = active_count sc + length as \<and> terminal_count sc' = terminal_count sc + length ts"
      by (intro exI [of _ "[]"] exI [of _ "s # ss"]) simp
    then show ?thesis using Cons.IH [OF r] new by auto
  qed
qed auto

lemma accepted_inventory:
  assumes "validate_job_inventory_inner cc to_json cid ps m inventory = Ok ()"
  shows "distinct (map snap_job_id (inv_jobs inventory)) \<and> distinct (map snap_request_id (inv_jobs inventory))
    \<and> (\<exists>as ts. inv_jobs inventory = as @ ts \<and> length as \<le> JOB_INVENTORY_MAX_ACTIVE_JOBS
        \<and> length ts \<le> JOB_INVENTORY_MAX_TERMINAL_JOBS
        \<and> list_all (\<lambda>s. \<exists>l. valid_snapshot s l \<and> is_runner_active l) as
        \<and> list_all (\<lambda>s. \<exists>l. valid_snapshot s l \<and> is_terminal l) ts)"
proof -
  let ?check = "validate_snapshot cc cid ps m"
  from assms obtain sc where sc: "scan_snapshots ?check (inv_jobs inventory)
        \<lparr>scan_ids = [], scan_request_ids = [], active_count = 0, terminal_count = 0, saw_terminal = False\<rparr> = Ok sc"
      "active_count sc \<le> JOB_INVENTORY_MAX_ACTIVE_JOBS" "terminal_count sc \<le> JOB_INVENTORY_MAX_TERMINAL_JOBS"
    by (auto simp: validate_job_inventory_inner_def and_then_Ok_iff split: if_splits)
  from scan_snapshots_Ok [OF sc(1)] obtain as ts where a: "inv_jobs inventory = as @ ts"
      "list_all (\<lambda>s. ?check s = Ok True) as" "list_all (\<lambda>s. ?check s = Ok False) ts"
      "active_count sc = length as" "terminal_count sc = length ts"
    by auto
  have "list_all (\<lambda>s. \<exists>l. valid_snapshot s l \<and> is_runner_active l) as"
    using a(2) validated_snapshot by (fastforce simp: list_all_iff)
  moreover have "list_all (\<lambda>s. \<exists>l. valid_snapshot s l \<and> is_terminal l) ts"
    using a(3) validated_snapshot by (fastforce simp: list_all_iff valid_snapshot_def)
  ultimately show ?thesis using a sc scan_snapshots_Ok [OF sc(1)] by auto
qed

lemma accepted_snapshot:
  assumes "validate_job_inventory_inner cc to_json cid ps m inventory = Ok ()" "s \<in> set (inv_jobs inventory)"
  shows "\<exists>l. valid_snapshot s l"
proof -
  obtain as ts where "inv_jobs inventory = as @ ts"
      "list_all (\<lambda>s. \<exists>l. valid_snapshot s l \<and> is_runner_active l) as"
      "list_all (\<lambda>s. \<exists>l. valid_snapshot s l \<and> is_terminal l) ts"
    using accepted_inventory [OF assms(1)] by blast
  then show ?thesis using assms(2) unfolding list_all_iff by fastforce
qed


section \<open>Completed validations\<close>

text \<open>A completed Job with a validation plan exited with zero and has run every step of it.\<close>

definition validation_proven :: "shell_job_record \<Rightarrow> bool" where
  "validation_proven job \<longleftrightarrow> (lifecycle job = Completed \<and> validation_steps job \<noteq> [] \<longrightarrow>
     exit_code job = Some 0
     \<and> (case validation_progress job of None \<Rightarrow> False
        | Some p \<Rightarrow> completed p = length (validation_steps job) \<and> current_step p = None \<and> failed_step p = None))"

definition validations_proven :: "registry_inner \<Rightarrow> bool" where
  "validations_proven st \<longleftrightarrow> (\<forall>jid job. jobs st jid = Some job \<longrightarrow> validation_proven job)"

lemma validation_proven_cong:
  "lifecycle j' = lifecycle j \<Longrightarrow> exit_code j' = exit_code j \<Longrightarrow> validation_progress j' = validation_progress j \<Longrightarrow>
     validation_steps j' = validation_steps j \<Longrightarrow> validation_proven j' = validation_proven j"
  by (simp add: validation_proven_def cong: option.case_cong)

text \<open>Losing Jobs leaves a record as it was or ends it as lost.\<close>

definition same_or_lost :: "registry_inner \<Rightarrow> registry_inner \<Rightarrow> bool" where
  "same_or_lost st st' \<longleftrightarrow> (\<forall>jid job. jobs st' jid = Some job \<longrightarrow>
     (\<exists>i. jobs st jid = Some i \<and> (job = i \<or> lifecycle job = Lost)))"

lemma mark_job_lost_same_or_lost:
  "fst (mark_job_lost now why message i) = i \<or> lifecycle (fst (mark_job_lost now why message i)) = Lost"
  using mark_job_lost_fields(2) [of now why message i] mark_job_lost_terminal [of i now why message]
  by (cases "is_terminal (lifecycle i)") auto

lemma same_or_lost_trans: "same_or_lost a b \<Longrightarrow> same_or_lost b c \<Longrightarrow> same_or_lost a c"
  unfolding same_or_lost_def by metis

lemma same_or_lost_expire:
  assumes "keyed st"
  shows "same_or_lost st (fst (expire_recovering_jobs_locked filt now grace cap st))"
  unfolding same_or_lost_def jobs_expire(1) [OF assms]
  using mark_job_lost_same_or_lost
  by (auto simp: lose_if_recovering_def split: if_splits option.splits)

lemma same_or_lost_missing: "same_or_lost st (lose_missing_jobs cid now gone st)"
  unfolding same_or_lost_def jobs_lose_missing
  using mark_job_lost_same_or_lost by (auto split: if_splits)

lemma lost_proven: "lifecycle job = Lost \<Longrightarrow> validation_proven job"
  by (simp add: validation_proven_def)

lemma same_or_lost_proven: "same_or_lost st st' \<Longrightarrow> validations_proven st \<Longrightarrow> validations_proven st'"
  unfolding same_or_lost_def validations_proven_def using lost_proven by blast

lemma valid_completed:
  assumes "valid_snapshot s Completed"
  shows "snap_exit_code s = Some 0 \<and> (ctx_validation_steps (snap_context s) \<noteq> [] \<longrightarrow>
    (\<exists>p. snap_validation_progress s = Some p \<and> completed p = length (ctx_validation_steps (snap_context s))
       \<and> current_step p = None \<and> failed_step p = None))"
  using assms
  by (auto simp: valid_snapshot_def validate_snapshot_result_def validate_snapshot_progress_def progress_matches_status_def
      Let_def split: if_splits option.splits)

text \<open>The plan of a Job that a snapshot may change is the plan the snapshot reports.\<close>

definition plan_agrees :: "registry_inner \<Rightarrow> shell_job_snapshot \<Rightarrow> bool" where
  "plan_agrees st s \<longleftrightarrow> (\<forall>j. jobs st (snap_job_id s) = Some j \<and> \<not> is_terminal (lifecycle j)
     \<longrightarrow> validation_steps j = ctx_validation_steps (snap_context s))"

lemma apply_snapshot_proven:
  assumes "valid_snapshot s l" "validation_steps job = ctx_validation_steps (snap_context s)"
  shows "validation_proven (fst (apply_snapshot s now why l job))"
proof -
  have f: "lifecycle (fst (apply_snapshot s now why l job)) = l" "exit_code (fst (apply_snapshot s now why l job)) = snap_exit_code s"
    "validation_progress (fst (apply_snapshot s now why l job)) = snap_validation_progress s"
    "validation_steps (fst (apply_snapshot s now why l job)) = validation_steps job"
    by (simp_all add: job_step_defs)
  show ?thesis using valid_completed [of s] assms unfolding validation_proven_def f by auto
qed

lemma reconstruct_job_proven:
  assumes "valid_snapshot s l" "reconstruct_job src st s now = Ok (job, es)"
  shows "validation_proven job"
proof -
  obtain j es' where j: "record_from_snapshot (src_client_id src) (src_runner_instance_id src) (src_auth_group src)
      (src_observation_epoch src) (src_receipt_candidates src) (src_terminal_event_candidates src) s now = Ok (j, es')"
    using assms(2) by (auto simp: reconstruct_job_def rust_ok)
  have "lifecycle j = l \<and> exit_code j = snap_exit_code s \<and> validation_progress j = snap_validation_progress s
      \<and> validation_steps j = ctx_validation_steps (snap_context s)"
    using j assms(1) by (auto simp: record_from_snapshot_def expected_lifecycle_Ok valid_snapshot_def Let_def and_then_Ok_iff
        observe_job_terminal_def split: if_splits)
  then have "lifecycle job = l \<and> exit_code job = snap_exit_code s \<and> validation_progress job = snap_validation_progress s
      \<and> validation_steps job = ctx_validation_steps (snap_context s)"
    using assms(2) by (auto simp: reconstruct_job_def j notify_job_update_def notify_job_observation_def Let_def)
  then show ?thesis using valid_completed [of s] assms(1) unfolding validation_proven_def by auto
qed

lemma reconcile_snapshot_proven:
  assumes "reconcile_snapshot src now s (st, sm) = Ok (st', sm')" "valid_snapshot s l" "plan_agrees st s" "validations_proven st"
  shows "validations_proven st'"
  unfolding validations_proven_def
proof (intro allI impI)
  fix jid job
  assume job: "jobs st' jid = Some job"
  show "validation_proven job"
  proof (cases "jid = snap_job_id s")
    case False
    then show ?thesis
      using job reconcile_snapshot_frame(2) [OF assms(1) False] assms(4) by (auto simp: validations_proven_def)
  next
    case True
    show ?thesis
    proof (cases "jobs st (snap_job_id s)")
      case None
      then show ?thesis
        using assms(1,4) job True reconstruct_job_proven [OF assms(2)]
        by (auto simp: reconcile_snapshot_def rust_ok Let_def jobs_def jobs_frame insert_job_def get_job_def
            update_conv' validations_proven_def split: if_splits)
    next
      case (Some j)
      then obtain chg settles where r: "reconcile_existing src s now j = Ok (chg, settles)"
        using assms(1) by (auto simp: reconcile_snapshot_def jobs_def rust_ok)
      have pj: "validation_proven j" using assms(4) Some by (auto simp: validations_proven_def)
      show ?thesis
      proof (cases chg)
        case None
        then show ?thesis using assms(1) Some r True job pj by (auto simp: reconcile_snapshot_def jobs_def)
      next
        case step: (Some step)
        have "job = fst (step j)"
          using assms(1) Some r True job step
          by (auto simp: reconcile_snapshot_def jobs_def jobs_frame Let_def get_step_job split: if_splits)
        moreover have "reconcile_existing src s now j = Ok (Some step, settles)" using r step by simp
        then have "validation_proven (fst (step j))"
        proof (cases rule: reconcile_existing_cases)
          case enrich
          have "validation_proven (fst (enrich_terminal s j)) = validation_proven j"
            by (rule validation_proven_cong) (simp_all add: job_step_defs)
          then show ?thesis using pj enrich by simp
        next
          case (replace l' transfer)
          then have "l' = l" using assms(2) by (simp add: valid_snapshot_def)
          then show ?thesis
            using replace(1,6) assms(2,3) Some apply_snapshot_proven [OF assms(2)] by (simp add: plan_agrees_def)
        qed
        ultimately show ?thesis by simp
      qed
    qed
  qed
qed

lemma reconcile_snapshots_proven:
  assumes "reconcile_snapshots src now ss (st, sm) = Ok (st', sm')" "distinct (map snap_job_id ss)"
    "\<forall>s \<in> set ss. (\<exists>l. valid_snapshot s l) \<and> plan_agrees st s" "validations_proven st"
  shows "validations_proven st'"
  using assms
proof (induction ss arbitrary: st sm)
  case (Cons x ss)
  then obtain st1 sm1 where 1: "reconcile_snapshot src now x (st, sm) = Ok (st1, sm1)"
      "reconcile_snapshots src now ss (st1, sm1) = Ok (st', sm')"
    by (auto simp: rust_ok)
  have "plan_agrees st1 s" if "s \<in> set ss" for s
  proof -
    have "snap_job_id s \<noteq> snap_job_id x" using Cons.prems(2) that by (simp add: image_iff) metis
    then show ?thesis using Cons.prems(3) that reconcile_snapshot_frame(2) [OF 1(1)] by (auto simp: plan_agrees_def)
  qed
  moreover have "validations_proven st1"
    using reconcile_snapshot_proven [OF 1(1)] Cons.prems(3,4) by auto
  ultimately show ?case using Cons.IH [OF 1(2)] Cons.prems(2,3) by auto
qed simp

lemma preflight_plan:
  assumes "preflight_inventory_locked st cid iid inventory = Ok ()" "s \<in> set (inv_jobs inventory)"
  shows "plan_agrees st s"
proof -
  have "preflight_snapshot st cid iid s = Ok ()"
    using preflight_snapshots_Ok [OF assms(1) [unfolded preflight_inventory_locked_def] assms(2)] .
  then show ?thesis
    by (auto simp: preflight_snapshot_def plan_agrees_def jobs_def same_context_def Let_def split: if_splits option.splits)
qed

lemma reconcile_proven:
  assumes "keyed st" "validate_job_inventory_inner cc to_json cid ps m inventory = Ok ()"
    "preflight_inventory_locked st (src_client_id src) (src_runner_instance_id src) inventory = Ok ()"
    "reconcile_inventory_locked src grace now inventory st = Ok (st', sm)" "validations_proven st"
  shows "validations_proven st'"
proof -
  define st1 where "st1 = prune_projected_structured_terminal_suppressions_locked now st"
  define st2 where
    "st2 = fst (expire_recovering_jobs_locked (Some (src_client_id src)) now grace RECOVERY_SWEEP_PASS_CAP st1)"
  define st3 where "st3 = lose_missing_jobs (src_client_id src) now
      (missing_jobs (src_client_id src) (src_runner_instance_id src) inventory st2) st2"
  have k1: "keyed st1" "jobs st1 = jobs st" using assms(1) by (simp_all add: keyed_def jobs_def st1_def jobs_frame)
  have "same_or_lost st1 st3"
    unfolding st3_def st2_def by (rule same_or_lost_trans [OF same_or_lost_expire [OF k1(1)] same_or_lost_missing])
  then have sl: "same_or_lost st st3" by (simp add: same_or_lost_def k1(2))
  have k3: "keyed st3" unfolding st3_def st2_def by (rule keyed_lose_missing) (rule keyed_expire [OF k1(1)])
  obtain st4 sm3 where 4: "reconcile_snapshots src now (inv_jobs inventory) (st3, sm3) = Ok (st4, sm)"
      "st' = remove_cleanup_terminal_jobs_locked st4"
    using assms(4)
    by (auto simp: reconcile_inventory_locked_def Let_def rust_ok st1_def [symmetric] st2_def [symmetric]
        st3_def [symmetric])
  have "plan_agrees st3 s" if "s \<in> set (inv_jobs inventory)" for s
    using preflight_plan [OF assms(3) that] sl by (fastforce simp: plan_agrees_def same_or_lost_def)
  then have "validations_proven st4"
    using reconcile_snapshots_proven [OF 4(1)] accepted_inventory [OF assms(2)] accepted_snapshot [OF assms(2)]
      same_or_lost_proven [OF sl assms(5)] by blast
  moreover have "keyed st4" using reconcile_snapshots_frame(1) [OF 4(1) k3] .
  ultimately show ?thesis
    unfolding 4(2) validations_proven_def using jobs_cleanup(2) by (auto split: option.splits if_splits)
qed

text \<open>The result of a validation in a record, and what the parts of an update do to it.\<close>

definition plan_report :: "shell_job_record \<Rightarrow> int option \<times> validation_progress_state option \<times> string list" where
  "plan_report job = (exit_code job, validation_progress job, validation_steps job)"

lemma plan_report_parts:
  "plan_report (update_logs u job) = plan_report job" "plan_report (update_start now u l job) = plan_report job"
  "plan_report (update_reports u job)
     = (exit_code job, or_else (up_validation_progress u) (validation_progress job), validation_steps job)"
  "plan_report (fst (update_terminal now u l w job)) = (up_exit_code u, validation_progress job, validation_steps job)"
  "plan_report (fst (notify_if_changed sg job)) = plan_report job"
  by (simp_all add: plan_report_def update_logs_def update_start_def update_reports_def update_terminal_def
      notify_if_changed_def notify_job_heartbeat_def notify_job_update_def notify_job_observation_def observe_job_terminal_def
      Let_def split: option.splits)

lemma plan_report_updates:
  "plan_report (job\<lparr>lifecycle := a\<rparr>) = plan_report job" "plan_report (job\<lparr>recovery := b\<rparr>) = plan_report job"
  "plan_report (job\<lparr>last_update_seq := c\<rparr>) = plan_report job"
  by (simp_all add: plan_report_def)

lemma accept_update_stores:
  assumes "is_terminal l" "\<not> is_terminal (lifecycle job)"
  shows "plan_report (fst (accept_update now u l job))
    = (up_exit_code u, or_else (up_validation_progress u) (validation_progress job), validation_steps job)"
proof -
  define j where "j = update_start now u l (update_reports u (update_logs u job))"
  have j: "plan_report j = (exit_code job, or_else (up_validation_progress u) (validation_progress job), validation_steps job)"
    unfolding j_def plan_report_parts using plan_report_parts(1) [of u job] by (simp add: plan_report_def)
  have lj: "\<not> is_terminal (lifecycle j)" using assms(2) by (simp add: j_def update_parts_fields)
  have lq: "l \<noteq> Queued" using assms(1) by auto
  let ?t = "\<lambda>w. fst (update_terminal now u l w (j\<lparr>lifecycle := l\<rparr>))"
  have "fst (accept_update now u l job) = ?t (recovery_active job)
      \<or> (\<exists>r. fst (accept_update now u l job) = (?t (recovery_active job))\<lparr>recovery := r\<rparr>)"
    using assms(1) lj lq
    by (cases "recovery_active job")
      (auto simp: accept_update_def Let_def j_def [symmetric] split_beta update_ends_fields)
  moreover have "plan_report (?t w) = (up_exit_code u, or_else (up_validation_progress u) (validation_progress job), validation_steps job)" for w
    unfolding plan_report_parts using j by (simp add: plan_report_def)
  ultimately show ?thesis by (auto simp: plan_report_updates)
qed

lemma plan_kept_parts:
  "validation_steps (update_logs u job) = validation_steps job" "validation_steps (update_start now u l job) = validation_steps job"
  "validation_steps (update_reports u job) = validation_steps job"
  "validation_steps (fst (update_terminal now u l w job)) = validation_steps job"
  "validation_steps (fst (finish_untyped now job)) = validation_steps job"
  "validation_steps (fst (protocol_violation now u code job)) = validation_steps job"
  "validation_steps (fst (notify_if_changed sg job)) = validation_steps job"
  by (simp_all add: update_logs_def update_start_def update_reports_def update_terminal_def finish_untyped_def protocol_violation_def
      notify_if_changed_def notify_job_heartbeat_def notify_job_update_def notify_job_observation_def observe_job_terminal_def
      Let_def split: option.splits)

lemma update_step_plan: "validation_steps (fst (update_step now u l n job)) = validation_steps job"
  by (simp add: update_step_def then_step_def accept_update_def Let_def split_beta plan_kept_parts split: sum.splits option.splits)

lemma update_step_proven:
  assumes "\<not> is_terminal (lifecycle job)"
  shows "validation_proven (fst (update_step now u l n job))"
proof (cases "lifecycle (fst (update_step now u l n job)) = Completed \<and> validation_steps job \<noteq> []")
  case True
  from completed_report [OF assms(1)] True
  obtain p where c: "validate_report job u l = Ok ()" "l = Completed" "up_exit_code u = Some 0"
      "up_validation_progress u = Some p" "completed p = length (validation_steps job)" "current_step p = None" "failed_step p = None"
    by blast
  have "plan_report (fst (update_step now u l n job)) = (Some 0, Some p, validation_steps job)"
    using accept_update_stores [of l job now u] assms(1) c
    by (simp add: update_step_def then_step_def split_beta plan_report_parts plan_report_updates or_else_def split: option.splits)
  then show ?thesis using c by (simp add: validation_proven_def plan_report_def)
qed (auto simp: validation_proven_def update_step_plan)

lemma update_proven:
  assumes "update_job_checked hash enc now u conn inner = (inner', r)" "validations_proven inner"
  shows "validations_proven inner'"
  using assms(1)
proof (cases rule: update_job_cases)
  case same
  then show ?thesis using assms(2) by (simp add: validations_proven_def jobs_def)
next
  case (applied j l n)
  then show ?thesis
    using assms(2) update_step_proven [OF applied(2), of now u l n] unfolding applied(10) validations_proven_def
    by (auto simp: jobs_settle_update jobs_step_job split: if_splits)
qed

lemma step_job_proven:
  assumes "validations_proven inner" "\<And>j. validation_proven j \<Longrightarrow> validation_proven (fst (f j))"
  shows "validations_proven (step_job jid f inner)"
  using assms by (auto simp: validations_proven_def jobs_step_job)

lemma lost_step_proven: "validation_proven j \<Longrightarrow> validation_proven (fst (mark_job_lost now why message j))"
  using mark_job_lost_same_or_lost [of now why message j] lost_proven by metis

lemma recovery_step_proven: "validation_proven j \<Longrightarrow> validation_proven (fst (begin_job_recovery now why j))"
proof -
  have "validation_proven (fst (begin_job_recovery now why j)) = validation_proven j"
    by (rule validation_proven_cong) (simp_all add: begin_job_recovery_def notify_job_update_def notify_job_observation_def Let_def)
  then show "validation_proven j \<Longrightarrow> validation_proven (fst (begin_job_recovery now why j))" by simp
qed

lemma refresh_proven: "validations_proven inner \<Longrightarrow> validations_proven (refresh_job_status_locked now grace jid inner)"
  by (auto simp: refresh_job_status_locked_def intro!: step_job_proven lost_step_proven recovery_step_proven split: option.splits)

lemma proven_frame: "jobs_by_id st' = jobs_by_id st \<Longrightarrow> validations_proven st' = validations_proven st"
  by (simp add: validations_proven_def jobs_def)

lemma stopped_proven: "validation_proven (fst (stop_queued now j))" "validation_proven (fst (request_stop j))"
  by (simp_all add: validation_proven_def stop_queued_def request_stop_def notify_job_update_def notify_job_observation_def
      observe_job_terminal_def Let_def)

lemma keyed_refresh: "keyed inner \<Longrightarrow> keyed (refresh_job_status_locked now grace jid inner)"
  by (simp add: refresh_job_status_locked_def split: option.splits)

lemma stop_proven:
  assumes "stop_job_for_auth hash enc now grace auth jid rid built decoded inner = (inner', r)"
    "keyed inner" "validations_proven inner"
  shows "keyed inner' \<and> validations_proven inner'"
proof -
  let ?st = "refresh_job_status_locked now grace jid inner" and ?P = "\<lambda>st. keyed st \<and> validations_proven st"
  have st: "?P ?st" using keyed_refresh refresh_proven assms(2,3) by blast
  have frame: "?P mid" if "jobs_by_id mid = jobs_by_id ?st" for mid
    using st proven_frame [OF that] jobs_cong [OF that] by simp
  have step: "?P (step_job jid f mid)" if "jobs_by_id mid = jobs_by_id ?st" "\<And>j. validation_proven (fst (f j))" for f mid
    using frame [OF that(1)] step_job_proven that(2) by simp
  have mid: "jobs_by_id mid = jobs_by_id ?st"
    if "enqueue_pending_request_with_fence_locked now c rid d decoded Unfenced (Some jid) ?st = Ok mid" for mid c d
    using that by (auto elim: enqueue_Ok)
  have ret: "?P (step_job jid (stop_queued now) (retire_job_request_locked c q ?st))" for c q
    by (rule step) (simp_all add: jobs_frame stopped_proven)
  have direct: "?P (step_job jid (stop_queued now) ?st)" by (rule step) (simp_all add: stopped_proven)
  have requested: "?P (step_job jid request_stop mid)"
    if "enqueue_pending_request_with_fence_locked now c rid d decoded Unfenced (Some jid) ?st = Ok mid" for mid c d
    by (rule step [OF mid [OF that]]) (simp add: stopped_proven)
  show ?thesis
    using assms st ret direct
    by (auto simp: stop_job_for_auth_def Let_def dest: requested split: sum.splits option.splits if_splits)
qed

lemma keyed_update:
  assumes "update_job_checked hash enc now u conn inner = (inner', r)" "keyed inner"
  shows "keyed inner'"
  using assms(1)
proof (cases rule: update_job_cases)
  case same
  then show ?thesis using assms(2) by (simp add: keyed_def)
next
  case (applied j l n)
  have "keyed (step_job (up_job_id u) (update_step now u l n) (refresh_liveness now (up_client_id u) conn inner))"
    using assms(2) by (intro keyed_step_job) (simp add: keyed_def)
  then show ?thesis
    unfolding applied(10) by (auto simp: settle_update_def keyed_def remove_job_def distinct_delete Let_def split: option.splits)
qed

lemma terminate_jobs_proven:
  assumes "keyed st" "validations_proven st"
  shows "keyed (terminate_instance_jobs_locked cid iid replacement now st)
    \<and> validations_proven (terminate_instance_jobs_locked cid iid replacement now st)"
proof -
  define st1 where "st1 = remove_job_control_requests cid (map fst (replaced_jobs cid iid replacement st))
    (fold (lose_job cid now RunnerInstanceReplaced ''runner instance was replaced before the job completed or reconciled'')
      (replaced_jobs cid iid replacement st) st)"
  have t: "terminate_instance_jobs_locked cid iid replacement now st = remove_cleanup_terminal_jobs_locked st1"
    by (simp add: terminate_instance_jobs_locked_def Let_def st1_def)
  have k: "keyed st1" using keyed_lose_jobs [OF assms(1)] by (simp add: st1_def keyed_def jobs_frame)
  have "jobs st1 jid = Some job \<Longrightarrow> validation_proven job" for jid job
    using assms(2) lost_step_proven jobs_lose_jobs
    by (auto simp: st1_def jobs_def jobs_frame validations_proven_def jobs_lose_jobs [unfolded jobs_def] split: if_splits)
  then show ?thesis using jobs_cleanup [OF k] unfolding t by (auto simp: validations_proven_def split: option.splits if_splits)
qed

text \<open>
  The life of the Registry's Jobs: admission of new Jobs, updates of Runners, accepted inventories, stops of clients,
  refreshes, replaced instances, recovery deadlines, and operations that do not touch a Job.
\<close>

inductive job_history :: "registry_inner \<Rightarrow> bool" where
  start: "records (jobs_by_id st) = [] \<Longrightarrow> job_history st"
| admit: "job_history st \<Longrightarrow> jobs st jid = None \<Longrightarrow> \<not> is_terminal (lifecycle job) \<Longrightarrow>
     job_history (st\<lparr>jobs_by_id := insert_job jid job (jobs_by_id st)\<rparr>)"
| update: "job_history st \<Longrightarrow> update_job_checked hash enc now u conn st = (st', r) \<Longrightarrow> job_history st'"
| reconcile: "job_history st \<Longrightarrow>
     validate_job_inventory_without_project_membership cc to_json (src_client_id src) inventory = Ok () \<Longrightarrow>
     preflight_inventory_locked st (src_client_id src) (src_runner_instance_id src) inventory = Ok () \<Longrightarrow>
     reconcile_inventory_locked src grace now inventory st = Ok (st', sm) \<Longrightarrow> job_history st'"
| stop: "job_history st \<Longrightarrow> stop_job_for_auth hash enc now grace auth jid rid built decoded st = (st', res) \<Longrightarrow> job_history st'"
| refresh: "job_history st \<Longrightarrow> job_history (refresh_job_status_locked now grace jid st)"
| replaced: "job_history st \<Longrightarrow> job_history (terminate_instance_jobs_locked cid iid replacement now st)"
| deadline: "job_history st \<Longrightarrow> job_history (fst (expire_recovering_jobs_locked (Some cid) now grace cap st))"
| other: "job_history st \<Longrightarrow> jobs_by_id st' = jobs_by_id st \<Longrightarrow> job_history st'"

lemma job_history_inv: "job_history st \<Longrightarrow> keyed st \<and> validations_proven st"
proof (induction rule: job_history.induct)
  case (start st)
  then show ?case by (simp add: keyed_def validations_proven_def jobs_def get_job_def)
next
  case (admit st jid job)
  have "validation_proven job" using admit(3) by (auto simp: validation_proven_def)
  then show ?case
    using admit by (auto simp: keyed_def validations_proven_def jobs_def get_job_def insert_job_def update_conv' distinct_update)
next
  case (update st hash enc now u conn st' r)
  then show ?case using keyed_update [OF update(2)] update_proven [OF update(2)] by blast
next
  case (reconcile st cc to_json src inventory grace now st' sm)
  have "evolution.owned src (snap_job_id ` set (inv_jobs inventory)) st"
    using preflight_owned [OF reconcile(3)] by (auto simp: evolution.owned_def)
  then have "keyed st'" using evolution.kept_keyed [OF evolution.kept_reconcile [OF _ reconcile(4)]] reconcile(5) by blast
  then show ?case
    using reconcile_proven [OF _ reconcile(2) [unfolded validate_job_inventory_without_project_membership_def] reconcile(3,4)]
      reconcile(5) by blast
next
  case (stop st hash enc now grace auth jid rid built decoded st' res)
  then show ?case using stop_proven [OF stop(2)] by blast
next
  case (refresh st now grace jid)
  then show ?case using keyed_refresh refresh_proven by blast
next
  case (replaced st cid iid replacement now)
  then show ?case using terminate_jobs_proven by blast
next
  case (deadline st cid now grace cap)
  have "keyed (fst (expire_recovering_jobs_locked (Some cid) now grace cap st))"
    using deadline keyed_expire [where src = "undefined\<lparr>src_client_id := cid\<rparr>"] by simp
  then show ?case using deadline same_or_lost_proven [OF same_or_lost_expire] by blast
next
  case (other st st')
  then show ?case using proven_frame jobs_cong by blast
qed


section \<open>A lint step and the inventory\<close>

text \<open>
  The activity a Runner reports while it runs a lint step is accepted in an update and refused in an inventory: the phase of
  a lint step is missing from the inventory's table. The inventory of a Runner in the middle of a lint step is
  refused, and with it the registration of that Runner.
\<close>

definition lint_activity :: shell_job_activity where
  "lint_activity = \<lparr>act_state = Working, act_phase = ValidationCheck, act_source = ValidationPlan\<rparr>"

lemma lint_activity_refused_by_inventory:
  assumes "current_step p = Some ''lint''" "up_activity u = Some lint_activity" "up_validation_progress u = Some p"
    "snap_activity s = Some lint_activity" "snap_validation_progress s = Some p"
  shows "validate_job_activity job u Running = Ok ()
    \<and> validate_snapshot_activity s Running = Err ''job inventory activity is inconsistent with validation progress''"
proof -
  have "activity_is_canonical lint_activity" by code_simp
  then show ?thesis
    using assms by (simp add: validate_job_activity_def validate_snapshot_activity_def validation_activity_phase_def
        inventory_activity_phase_def lint_activity_def)
qed

section \<open>A sample history\<close>

definition sample_compact :: compact_codec where
  "sample_compact = \<lparr>cc_encode = (\<lambda>b. b), cc_decode = Some\<rparr>"

lemma sample_inventory_accepted:
  "validate_job_inventory_without_project_membership sample_compact (\<lambda>_. Ok []) (src_client_id sample_source) sample_inventory = Ok ()"
proof -
  have "is_ok (validate_job_inventory_without_project_membership sample_compact (\<lambda>_. Ok []) (src_client_id sample_source) sample_inventory)"
    by code_simp
  then show ?thesis by (simp add: is_ok_iff)
qed


lemma sample_history: "job_history sample_registry_state"
proof -
  let ?s0 = "empty_inner\<lparr>runners := [(''c1'', sample_reconciler)]\<rparr>"
  let ?add = "\<lambda>jid job st. st\<lparr>jobs_by_id := insert_job jid job (jobs_by_id st)\<rparr> :: registry_inner"
  have run: "\<not> is_terminal (lifecycle (sample_job j c i Running))" for j c i by (simp add: sample_job_def)
  have "job_history ?s0" by (rule job_history.start) (simp add: empty_inner_def empty_records_def)
  then have "job_history (?add ''c'' (sample_job ''c'' ''c2'' ''i2'' Running) ?s0)"
    by (rule job_history.admit) (simp_all add: run jobs_def get_job_def empty_inner_def empty_records_def)
  then have "job_history (?add ''v'' sample_validation_job (?add ''c'' (sample_job ''c'' ''c2'' ''i2'' Running) ?s0))"
    by (rule job_history.admit)
      (simp_all add: run sample_validation_job_def jobs_def get_job_def insert_job_def empty_inner_def empty_records_def)
  then have "job_history (?add ''a'' (sample_job ''a'' ''c1'' ''i1'' Running)
      (?add ''v'' sample_validation_job (?add ''c'' (sample_job ''c'' ''c2'' ''i2'' Running) ?s0)))"
    by (rule job_history.admit)
      (simp_all add: run jobs_def get_job_def insert_job_def empty_inner_def empty_records_def)
  then show ?thesis by (simp add: sample_registry_state_def empty_inner_def)
qed


end
