(* ===== verification/Coding_Agent.thy ===== *)
theory Coding_Agent
  imports Registry_State
begin

text \<open>
  The protocol of coding-agent runs a Runner owns (\<^verbatim>\<open>webcodex-core/src/coding_agent.rs\<close>): run states, the checks of snapshots,
  requests and responses, and the merge of a newer observation into the retained one. Counters and sequences are 64-bit and
  only compared here, so they are natural numbers; the JSON length of a configuration value is a parameter.
\<close>

section \<open>Vocabulary\<close>

datatype coding_agent_run_state =
  RunStarting | RunRunning | RunWaitingPermission | RunCompleted | RunFailed | RunCancelled | RunLost

fun run_state_as_str :: "coding_agent_run_state \<Rightarrow> string" where
  "run_state_as_str RunStarting = ''starting''"
| "run_state_as_str RunRunning = ''running''"
| "run_state_as_str RunWaitingPermission = ''waiting_permission''"
| "run_state_as_str RunCompleted = ''completed''"
| "run_state_as_str RunFailed = ''failed''"
| "run_state_as_str RunCancelled = ''cancelled''"
| "run_state_as_str RunLost = ''lost''"

definition run_state_from_wire :: "string \<Rightarrow> coding_agent_run_state option" where
  "run_state_from_wire v =
     List.find (\<lambda>s. run_state_as_str s = v)
       [RunStarting, RunRunning, RunWaitingPermission, RunCompleted, RunFailed, RunCancelled, RunLost]"

definition run_terminal :: "coding_agent_run_state \<Rightarrow> bool" where
  "run_terminal s \<longleftrightarrow> s = RunCompleted \<or> s = RunFailed \<or> s = RunCancelled \<or> s = RunLost"

datatype coding_agent_execution_state = ExecNotStarted | ExecStarted | ExecOutcomeUnknown | ExecCompleted

fun execution_state_as_str :: "coding_agent_execution_state \<Rightarrow> string" where
  "execution_state_as_str ExecNotStarted = ''not_started''"
| "execution_state_as_str ExecStarted = ''started''"
| "execution_state_as_str ExecOutcomeUnknown = ''outcome_unknown''"
| "execution_state_as_str ExecCompleted = ''completed''"

definition execution_state_from_wire :: "string \<Rightarrow> coding_agent_execution_state option" where
  "execution_state_from_wire v =
     List.find (\<lambda>s. execution_state_as_str s = v) [ExecNotStarted, ExecStarted, ExecOutcomeUnknown, ExecCompleted]"

definition CODING_AGENT_MAX_PROVIDERS :: nat where "CODING_AGENT_MAX_PROVIDERS = 8"
definition CODING_AGENT_MAX_PROVIDER_ID_BYTES :: nat where "CODING_AGENT_MAX_PROVIDER_ID_BYTES = 64"
definition CODING_AGENT_MAX_PROVIDER_NAME_BYTES :: nat where "CODING_AGENT_MAX_PROVIDER_NAME_BYTES = 128"
definition CODING_AGENT_MAX_ENV_MAPPINGS :: nat where "CODING_AGENT_MAX_ENV_MAPPINGS = 64"
definition CODING_AGENT_MAX_RUN_ID_BYTES :: nat where "CODING_AGENT_MAX_RUN_ID_BYTES = 96"
definition CODING_AGENT_MAX_INTENT_FINGERPRINT_BYTES :: nat where "CODING_AGENT_MAX_INTENT_FINGERPRINT_BYTES = 96"
definition CODING_AGENT_MAX_PROJECT_ID_BYTES :: nat where "CODING_AGENT_MAX_PROJECT_ID_BYTES = 512"
definition CODING_AGENT_MAX_PROJECT_ROOT_BYTES :: nat where "CODING_AGENT_MAX_PROJECT_ROOT_BYTES = 4096"
definition CODING_AGENT_MAX_INSTRUCTION_BYTES :: nat where "CODING_AGENT_MAX_INSTRUCTION_BYTES = 64 * 1024"
definition CODING_AGENT_MAX_CONFIG_OPTIONS :: nat where "CODING_AGENT_MAX_CONFIG_OPTIONS = 32"
definition CODING_AGENT_MAX_CONFIG_KEY_BYTES :: nat where "CODING_AGENT_MAX_CONFIG_KEY_BYTES = 128"
definition CODING_AGENT_MAX_CONFIG_VALUE_BYTES :: nat where "CODING_AGENT_MAX_CONFIG_VALUE_BYTES = 4096"
definition CODING_AGENT_MAX_CONFIG_SELECT_CHOICES :: nat where "CODING_AGENT_MAX_CONFIG_SELECT_CHOICES = 64"
definition CODING_AGENT_MAX_CONFIG_LABEL_BYTES :: nat where "CODING_AGENT_MAX_CONFIG_LABEL_BYTES = 256"
definition CODING_AGENT_MAX_EVENT_TEXT_BYTES :: nat where "CODING_AGENT_MAX_EVENT_TEXT_BYTES = 16 * 1024"
definition CODING_AGENT_MAX_ERROR_KIND_BYTES :: nat where "CODING_AGENT_MAX_ERROR_KIND_BYTES = 64"
definition CODING_AGENT_MAX_ERROR_MESSAGE_BYTES :: nat where "CODING_AGENT_MAX_ERROR_MESSAGE_BYTES = 16 * 1024"
definition CODING_AGENT_MAX_EVENT_METADATA_BYTES :: nat where "CODING_AGENT_MAX_EVENT_METADATA_BYTES = 1024"
definition CODING_AGENT_MAX_TERMINAL_METADATA_BYTES :: nat where "CODING_AGENT_MAX_TERMINAL_METADATA_BYTES = 1024"
definition CODING_AGENT_MAX_EVENTS_PER_RESPONSE :: nat where "CODING_AGENT_MAX_EVENTS_PER_RESPONSE = 64"
definition CODING_AGENT_MAX_INVENTORY_RUNS :: nat where "CODING_AGENT_MAX_INVENTORY_RUNS = 128"
definition CODING_AGENT_TIMEOUT_MIN_SECS :: nat where "CODING_AGENT_TIMEOUT_MIN_SECS = 1"
definition CODING_AGENT_TIMEOUT_MAX_SECS :: nat where "CODING_AGENT_TIMEOUT_MAX_SECS = 3600"
definition CODING_AGENT_OBSERVE_WAIT_MAX_SECS :: nat where "CODING_AGENT_OBSERVE_WAIT_MAX_SECS = 60"

section \<open>Data\<close>

datatype coding_agent_config_value = ConfigString string | ConfigBool bool | ConfigInteger int

record coding_agent_usage =
  used_tokens :: "nat option"
  context_window_tokens :: "nat option"
  cost_amount :: "string option"
  cost_currency :: "string option"

datatype coding_agent_event_kind =
  AgentMessage | Reasoning | Plan | ToolActivity | FileChange | TerminalActivity | Usage | PermissionRequest | TerminalEvent

record coding_agent_event =
  ev_sequence :: nat
  ev_kind :: coding_agent_event_kind
  ev_text :: "string option"
  ev_label :: "string option"
  ev_status :: "string option"
  ev_usage :: "coding_agent_usage option"

record coding_agent_terminal =
  stop_reason :: "string option"
  error_code :: "string option"
  tm_message :: "string option"
  completed_at :: int

record coding_agent_run_snapshot =
  run_id :: string
  intent_fingerprint :: string
  authority_fingerprint :: string
  run_project_id :: string
  run_provider_id :: string
  run_provider_instance_id :: string
  run_state :: coding_agent_run_state
  execution_state :: coding_agent_execution_state
  observation_revision :: nat
  run_created_at :: int
  run_updated_at :: int
  run_terminal_info :: "coding_agent_terminal option"

datatype coding_agent_observation_merge = Stale | ExactReplay | Advance

section \<open>Identifiers\<close>

definition validate_identifier :: "string \<Rightarrow> string \<Rightarrow> nat \<Rightarrow> bool \<Rightarrow> (unit, string) result" where
  "validate_identifier v field max_bytes lowercase_only =
     (if v = [] \<or> max_bytes < length v then Err (field @ '' must contain 1..='' @ show_nat max_bytes @ '' bytes'')
      else if \<not> list_all (\<lambda>c. (if lowercase_only then is_ascii_lowercase c else is_ascii_alphanumeric c) \<or> is_ascii_digit c
          \<or> c = CHR ''_'' \<or> c = CHR ''-'' \<or> c = CHR ''.'') v
        then Err (field @ '' contains unsupported characters'')
      else Ok ())"

definition validate_provider_id :: "string \<Rightarrow> (unit, string) result" where
  "validate_provider_id v = validate_identifier v ''provider_id'' CODING_AGENT_MAX_PROVIDER_ID_BYTES True"

definition validate_provider_instance_id :: "string \<Rightarrow> (unit, string) result" where
  "validate_provider_instance_id v = validate_identifier v ''provider_instance_id'' CODING_AGENT_MAX_PROVIDER_ID_BYTES False"

definition validate_run_id :: "string \<Rightarrow> (unit, string) result" where
  "validate_run_id v =
     (if \<not> starts_with v ''wc_agent_run_'' then Err ''run_id must use the wc_agent_run_ namespace''
      else validate_identifier v ''run_id'' CODING_AGENT_MAX_RUN_ID_BYTES False)"

definition validate_intent_fingerprint :: "string \<Rightarrow> (unit, string) result" where
  "validate_intent_fingerprint v =
     validate_identifier v ''intent_fingerprint'' CODING_AGENT_MAX_INTENT_FINGERPRINT_BYTES False"

definition validate_authority_fingerprint :: "string \<Rightarrow> (unit, string) result" where
  "validate_authority_fingerprint v =
     (if \<not> starts_with v ''auth_'' then Err ''authority_fingerprint must use the auth_ namespace''
      else validate_identifier v ''authority_fingerprint'' 80 False)"

definition validate_low_cardinality_kind :: "string \<Rightarrow> string \<Rightarrow> nat \<Rightarrow> (unit, string) result" where
  "validate_low_cardinality_kind v field max_bytes =
     guard_err (v = [] \<or> max_bytes < length v
         \<or> \<not> list_all (\<lambda>c. is_ascii_lowercase c \<or> is_ascii_digit c \<or> c = CHR ''_'') v)
       (field @ '' is invalid'')"

section \<open>Snapshots\<close>

definition exceeds :: "nat \<Rightarrow> string option \<Rightarrow> bool" where
  "exceeds limit v = (case v of None \<Rightarrow> False | Some s \<Rightarrow> limit < length s)"

definition terminal_for_state ::
    "coding_agent_run_snapshot \<Rightarrow> coding_agent_execution_state \<Rightarrow> (coding_agent_terminal, string) result" where
  "terminal_for_state run e =
     (if execution_state run \<noteq> e then Err ''terminal CodingAgentRun execution_state is inconsistent''
      else (case run_terminal_info run of
          None \<Rightarrow> Err ''terminal CodingAgentRun snapshot lacks terminal metadata''
        | Some t \<Rightarrow> Ok t))"

definition validate_terminal_metadata :: "coding_agent_terminal option \<Rightarrow> (unit, string) result" where
  "validate_terminal_metadata info =
     (case info of
        None \<Rightarrow> Ok ()
      | Some t \<Rightarrow>
          and_then (guard_err (exceeds CODING_AGENT_MAX_TERMINAL_METADATA_BYTES (stop_reason t)
              \<or> exceeds CODING_AGENT_MAX_TERMINAL_METADATA_BYTES (error_code t)
              \<or> exceeds CODING_AGENT_MAX_ERROR_MESSAGE_BYTES (tm_message t))
            ''CodingAgentRun snapshot terminal metadata is too large'') (\<lambda>_.
          (case error_code t of None \<Rightarrow> Ok ()
           | Some code \<Rightarrow> validate_low_cardinality_kind code ''CodingAgentRun terminal error code''
               CODING_AGENT_MAX_TERMINAL_METADATA_BYTES)))"

definition FAILURE_STOP_REASONS :: "string list" where
  "FAILURE_STOP_REASONS = [''max_tokens'', ''max_turn_requests'', ''refusal'']"

definition validate_cancelled :: "coding_agent_execution_state \<Rightarrow> coding_agent_terminal \<Rightarrow> (unit, string) result" where
  "validate_cancelled e t =
     (case e of
        ExecNotStarted \<Rightarrow> guard_err (stop_reason t \<noteq> None \<or> error_code t \<noteq> None \<or> tm_message t = None \<or> tm_message t = Some [])
          ''pre-prompt cancelled CodingAgentRun snapshot claims ACP terminal truth''
      | ExecCompleted \<Rightarrow> guard_err (stop_reason t \<noteq> Some ''cancelled'' \<or> error_code t \<noteq> None)
          ''post-prompt cancelled CodingAgentRun snapshot lacks cancelled truth''
      | _ \<Rightarrow> Err ''cancelled CodingAgentRun snapshot has inconsistent execution state'')"

definition validate_failed :: "coding_agent_execution_state \<Rightarrow> coding_agent_terminal \<Rightarrow> (unit, string) result" where
  "validate_failed e t =
     (case stop_reason t of
        None \<Rightarrow> guard_err (\<not> (e = ExecNotStarted \<or> e = ExecCompleted) \<or> error_code t = None)
          ''failed CodingAgentRun internal terminal truth is inconsistent''
      | Some why \<Rightarrow>
          if List.member FAILURE_STOP_REASONS why
          then guard_err (e \<noteq> ExecCompleted \<or> error_code t \<noteq> Some why) ''failed CodingAgentRun ACP terminal truth is inconsistent''
          else Err ''CodingAgentRun snapshot has unknown or contradictory stop_reason'')"

definition validate_run_state :: "coding_agent_run_snapshot \<Rightarrow> (unit, string) result" where
  "validate_run_state run =
     (let e = execution_state run; info = run_terminal_info run in
      case run_state run of
        RunStarting \<Rightarrow> guard_err (e \<noteq> ExecNotStarted \<or> info \<noteq> None) ''starting CodingAgentRun snapshot is semantically inconsistent''
      | RunRunning \<Rightarrow> guard_err (\<not> (e = ExecOutcomeUnknown \<or> e = ExecStarted) \<or> info \<noteq> None)
          ''running CodingAgentRun snapshot is semantically inconsistent''
      | RunWaitingPermission \<Rightarrow> guard_err (e \<noteq> ExecStarted \<or> info \<noteq> None)
          ''waiting_permission CodingAgentRun snapshot is semantically inconsistent''
      | RunCompleted \<Rightarrow> and_then (terminal_for_state run ExecCompleted) (\<lambda>t.
          guard_err (stop_reason t \<noteq> Some ''end_turn'' \<or> error_code t \<noteq> None) ''completed CodingAgentRun snapshot lacks end_turn truth'')
      | RunCancelled \<Rightarrow> (case info of None \<Rightarrow> Err ''cancelled CodingAgentRun snapshot lacks terminal metadata''
          | Some t \<Rightarrow> validate_cancelled e t)
      | RunFailed \<Rightarrow> (case info of None \<Rightarrow> Err ''failed CodingAgentRun snapshot lacks terminal metadata''
          | Some t \<Rightarrow> validate_failed e t)
      | RunLost \<Rightarrow> and_then (terminal_for_state run ExecOutcomeUnknown) (\<lambda>t.
          guard_err (stop_reason t \<noteq> None \<or> error_code t = None) ''lost CodingAgentRun snapshot claims definite terminal truth''))"

definition validate_coding_agent_run_snapshot :: "coding_agent_run_snapshot \<Rightarrow> (unit, string) result" where
  "validate_coding_agent_run_snapshot run =
     and_then (validate_run_id (run_id run)) (\<lambda>_.
     and_then (validate_intent_fingerprint (intent_fingerprint run)) (\<lambda>_.
     and_then (validate_authority_fingerprint (authority_fingerprint run)) (\<lambda>_.
     and_then (validate_provider_id (run_provider_id run)) (\<lambda>_.
     and_then (validate_provider_instance_id (run_provider_instance_id run)) (\<lambda>_.
     and_then (guard_err (is_blank (run_project_id run) \<or> CODING_AGENT_MAX_PROJECT_ID_BYTES < length (run_project_id run))
       ''CodingAgentRun snapshot project id is invalid'') (\<lambda>_.
     and_then (validate_terminal_metadata (run_terminal_info run)) (\<lambda>_.
       validate_run_state run)))))))"

section \<open>Merging observations\<close>

definition validate_coding_agent_run_identity_transition ::
    "coding_agent_run_snapshot \<Rightarrow> coding_agent_run_snapshot \<Rightarrow> (unit, string) result" where
  "validate_coding_agent_run_identity_transition stored incoming =
     guard_err (run_id stored \<noteq> run_id incoming \<or> intent_fingerprint stored \<noteq> intent_fingerprint incoming
         \<or> authority_fingerprint stored \<noteq> authority_fingerprint incoming \<or> run_project_id stored \<noteq> run_project_id incoming
         \<or> run_provider_id stored \<noteq> run_provider_id incoming
         \<or> run_provider_instance_id stored \<noteq> run_provider_instance_id incoming
         \<or> run_created_at stored \<noteq> run_created_at incoming)
       ''CodingAgentRun observation identity changed across revisions''"

definition execution_transition_valid :: "coding_agent_run_snapshot \<Rightarrow> coding_agent_run_snapshot \<Rightarrow> bool" where
  "execution_transition_valid stored incoming =
     (let e = execution_state incoming; s = run_state incoming in
      case execution_state stored of
        ExecNotStarted \<Rightarrow> True
      | ExecOutcomeUnknown \<Rightarrow> e = ExecOutcomeUnknown \<or> e = ExecStarted \<or> e = ExecCompleted
          \<or> e = ExecNotStarted \<and> (s = RunFailed \<or> s = RunCancelled)
      | ExecStarted \<Rightarrow> e = ExecStarted \<or> e = ExecCompleted \<or> e = ExecOutcomeUnknown \<and> s = RunLost
      | ExecCompleted \<Rightarrow> False)"

definition validate_coding_agent_run_transition ::
    "coding_agent_run_snapshot \<Rightarrow> coding_agent_run_snapshot \<Rightarrow> (unit, string) result" where
  "validate_coding_agent_run_transition stored incoming =
     and_then (guard_err (observation_revision incoming \<le> observation_revision stored)
       ''CodingAgentRun transition does not advance observation revision'') (\<lambda>_.
     and_then (guard_err (run_state stored = RunCompleted \<or> run_state stored = RunFailed \<or> run_state stored = RunCancelled)
       ''definitive terminal CodingAgentRun observation cannot advance to new truth'') (\<lambda>_.
     and_then (guard_err (run_state stored = RunLost \<and> \<not> run_terminal (run_state incoming))
       ''lost CodingAgentRun may only reconcile to newer lost or definitive terminal truth'') (\<lambda>_.
     and_then (guard_err (run_state stored \<noteq> RunStarting \<and> run_state incoming = RunStarting)
       ''CodingAgentRun state cannot regress to starting'') (\<lambda>_.
       guard_err (\<not> execution_transition_valid stored incoming)
         ''CodingAgentRun execution state regressed across observations''))))"

definition merge_coding_agent_run_snapshot ::
    "coding_agent_run_snapshot \<Rightarrow> coding_agent_run_snapshot \<Rightarrow> (coding_agent_observation_merge, string) result" where
  "merge_coding_agent_run_snapshot stored incoming =
     and_then (validate_coding_agent_run_snapshot stored) (\<lambda>_.
     and_then (validate_coding_agent_run_snapshot incoming) (\<lambda>_.
     and_then (validate_coding_agent_run_identity_transition stored incoming) (\<lambda>_.
       if observation_revision incoming < observation_revision stored then Ok Stale
       else if observation_revision incoming = observation_revision stored
       then (if incoming = stored then Ok ExactReplay
             else Err ''CodingAgentRun observation revision has conflicting authoritative snapshots'')
       else and_then (validate_coding_agent_run_transition stored incoming) (\<lambda>_. Ok Advance))))"

section \<open>Requests\<close>

record coding_agent_start_request =
  st_run_id :: string
  st_intent_fingerprint :: string
  st_authority_fingerprint :: string
  st_project_id :: string
  st_project_root :: string
  st_provider_id :: string
  st_provider_instance_id :: string
  st_instruction :: string
  st_config :: "(string \<times> coding_agent_config_value) list"
  st_timeout_secs :: nat

record coding_agent_observe_request =
  ob_run_id :: string
  after_sequence :: "nat option"
  ob_limit :: nat
  ob_wait_secs :: nat

record coding_agent_diagnose_request =
  dg_run_id :: string
  dg_project_id :: string
  dg_project_root :: string
  dg_provider_id :: string
  dg_provider_instance_id :: string
  include_live_acp :: bool

datatype coding_agent_request =
    CaStart coding_agent_start_request
  | CaObserve coding_agent_observe_request
  | CaCancel string
  | CaDiagnose coding_agent_diagnose_request

fun request_run_id :: "coding_agent_request \<Rightarrow> string" where
  "request_run_id (CaStart r) = st_run_id r"
| "request_run_id (CaObserve r) = ob_run_id r"
| "request_run_id (CaCancel rid) = rid"
| "request_run_id (CaDiagnose r) = dg_run_id r"

fun provider_binding :: "coding_agent_request \<Rightarrow> (string \<times> string) option" where
  "provider_binding (CaStart r) = Some (st_provider_id r, st_provider_instance_id r)"
| "provider_binding (CaDiagnose r) = Some (dg_provider_id r, dg_provider_instance_id r)"
| "provider_binding (CaObserve _) = None"
| "provider_binding (CaCancel _) = None"

definition has_line_break_or_nul :: "string \<Rightarrow> bool" where
  "has_line_break_or_nul s \<longleftrightarrow> list_ex (\<lambda>c. c = CHR 0x00 \<or> c = CR \<or> c = LF) s"

definition validate_start_request ::
    "(coding_agent_config_value \<Rightarrow> nat) \<Rightarrow> coding_agent_start_request \<Rightarrow> (unit, string) result" where
  "validate_start_request serialized_len r =
     and_then (validate_intent_fingerprint (st_intent_fingerprint r)) (\<lambda>_.
     and_then (validate_authority_fingerprint (st_authority_fingerprint r)) (\<lambda>_.
     and_then (guard_err (is_blank (st_project_id r) \<or> CODING_AGENT_MAX_PROJECT_ID_BYTES < length (st_project_id r))
       ''runtime_project_id is invalid'') (\<lambda>_.
     and_then (guard_err (st_project_root r = [] \<or> CODING_AGENT_MAX_PROJECT_ROOT_BYTES < length (st_project_root r)
         \<or> has_nul (st_project_root r)) ''project_root is invalid'') (\<lambda>_.
     and_then (validate_provider_id (st_provider_id r)) (\<lambda>_.
     and_then (validate_provider_instance_id (st_provider_instance_id r)) (\<lambda>_.
     and_then (guard_err (st_instruction r = [] \<or> CODING_AGENT_MAX_INSTRUCTION_BYTES < length (st_instruction r)
         \<or> has_nul (st_instruction r)) ''instruction is invalid'') (\<lambda>_.
     and_then (guard_err (CODING_AGENT_MAX_CONFIG_OPTIONS < length (st_config r)) ''too many config overrides'') (\<lambda>_.
     and_then (guard_err (list_ex (\<lambda>(k, v). k = [] \<or> CODING_AGENT_MAX_CONFIG_KEY_BYTES < length k \<or> has_line_break_or_nul k
         \<or> CODING_AGENT_MAX_CONFIG_VALUE_BYTES < serialized_len v) (st_config r)) ''config override is invalid'') (\<lambda>_.
       guard_err (\<not> (CODING_AGENT_TIMEOUT_MIN_SECS \<le> st_timeout_secs r \<and> st_timeout_secs r \<le> CODING_AGENT_TIMEOUT_MAX_SECS))
         ''timeout_secs is outside the supported range'')))))))))"

definition validate_request ::
    "(coding_agent_config_value \<Rightarrow> nat) \<Rightarrow> coding_agent_request \<Rightarrow> (unit, string) result" where
  "validate_request serialized_len request =
     and_then (validate_run_id (request_run_id request)) (\<lambda>_.
     (case request of
        CaStart r \<Rightarrow> validate_start_request serialized_len r
      | CaObserve r \<Rightarrow>
          and_then (guard_err (ob_limit r = 0 \<or> CODING_AGENT_MAX_EVENTS_PER_RESPONSE < ob_limit r)
            ''observe limit is outside the supported range'') (\<lambda>_.
          guard_err (CODING_AGENT_OBSERVE_WAIT_MAX_SECS < ob_wait_secs r) ''observe wait_secs is outside the supported range'')
      | CaCancel _ \<Rightarrow> Ok ()
      | CaDiagnose r \<Rightarrow>
          and_then (validate_provider_id (dg_provider_id r)) (\<lambda>_.
          and_then (validate_provider_instance_id (dg_provider_instance_id r)) (\<lambda>_.
          and_then (guard_err (is_blank (dg_project_id r) \<or> CODING_AGENT_MAX_PROJECT_ID_BYTES < length (dg_project_id r))
            ''diagnostic runtime_project_id is invalid'') (\<lambda>_.
          guard_err (dg_project_root r = [] \<or> CODING_AGENT_MAX_PROJECT_ROOT_BYTES < length (dg_project_root r)
            \<or> has_nul (dg_project_root r)) ''diagnostic project_root is invalid'')))))"

section \<open>Responses\<close>

datatype coding_agent_diagnose_phase = PhEnvironment | PhSpawn | PhInitialize | PhSessionNew | PhProjection

datatype coding_agent_diagnose_outcome =
  DoOk | DoEnvUnavailable | DoSpawnFailed | DoProcessExited | DoTransportFailed | DoRejected | DoProtocolUnsupported
  | DoInvalidResponse | DoTimeout | DoBusy | DoInterrupted

record coding_agent_live_config_choice =
  ch_value :: string
  ch_label :: "string option"

record coding_agent_live_config_option =
  op_id :: string
  op_label :: "string option"
  op_kind :: string
  op_current :: "string option"
  op_choices :: "coding_agent_live_config_choice list"
  choices_truncated :: bool

record coding_agent_live_acp_diagnostic =
  lv_outcome :: coding_agent_diagnose_outcome
  lv_phase :: coding_agent_diagnose_phase
  lv_protocol_version :: "nat option"
  lv_options :: "coding_agent_live_config_option list"
  options_truncated :: bool

record coding_agent_observe_result =
  or_run :: coding_agent_run_snapshot
  or_events :: "coding_agent_event list"
  first_retained_sequence :: nat
  next_sequence :: nat
  has_more :: bool
  history_lost :: bool

datatype coding_agent_response_payload =
    PayStart coding_agent_run_snapshot
  | PayObserve coding_agent_observe_result
  | PayCancel coding_agent_run_snapshot
  | PayDiagnose string string "(string \<times> bool) list" "coding_agent_live_acp_diagnostic option"

record coding_agent_error =
  er_code :: string
  er_message :: string
  failure_kind :: "string option"
  recovery_kind :: "string option"

datatype coding_agent_dispatch_state = DispatchNotStarted | DispatchOutcomeUnknown | DispatchCompleted

record coding_agent_response =
  dispatch_state :: coding_agent_dispatch_state
  payload :: "coding_agent_response_payload option"
  resp_error :: "coding_agent_error option"

definition validate_coding_agent_error :: "coding_agent_error \<Rightarrow> (unit, string) result" where
  "validate_coding_agent_error e =
     and_then (validate_low_cardinality_kind (er_code e) ''CodingAgentRun error code'' CODING_AGENT_MAX_ERROR_KIND_BYTES) (\<lambda>_.
     and_then (guard_err (CODING_AGENT_MAX_ERROR_MESSAGE_BYTES < length (er_message e)) ''CodingAgentRun error message is too large'') (\<lambda>_.
     and_then (case failure_kind e of None \<Rightarrow> Ok ()
         | Some k \<Rightarrow> validate_low_cardinality_kind k ''CodingAgentRun failure kind'' CODING_AGENT_MAX_ERROR_KIND_BYTES) (\<lambda>_.
     (case recovery_kind e of None \<Rightarrow> Ok ()
      | Some k \<Rightarrow> guard_err (\<not> List.member
            [''fix_input'', ''retry_same'', ''reobserve'', ''reconcile'', ''wait'', ''user_action'', ''none''] k)
          ''CodingAgentRun recovery kind is invalid''))))"

definition diagnostic_identity_key_is_bounded :: "string \<Rightarrow> bool" where
  "diagnostic_identity_key_is_bounded k \<longleftrightarrow>
     k \<noteq> [] \<and> length k \<le> CODING_AGENT_MAX_CONFIG_KEY_BYTES \<and> \<not> has_line_break_or_nul k"

definition label_suffix :: string where
  "label_suffix = [CHR 0xE2, CHR 0x80, CHR 0xA6]"

fun boundary_before :: "string \<Rightarrow> nat \<Rightarrow> nat" where
  "boundary_before v 0 = 0"
| "boundary_before v (Suc n) = (if is_char_boundary v (Suc n) then Suc n else boundary_before v n)"

definition bounded_diagnostic_label :: "string \<Rightarrow> string" where
  "bounded_diagnostic_label v =
     (if length v \<le> CODING_AGENT_MAX_CONFIG_LABEL_BYTES then v
      else take (boundary_before v (CODING_AGENT_MAX_CONFIG_LABEL_BYTES - length label_suffix)) v @ label_suffix)"

definition diagnostic_label_is_bounded :: "string \<Rightarrow> bool" where
  "diagnostic_label_is_bounded l \<longleftrightarrow> length l \<le> CODING_AGENT_MAX_CONFIG_LABEL_BYTES \<and> \<not> has_line_break_or_nul l"

definition bad_label :: "string option \<Rightarrow> bool" where
  "bad_label l = (case l of None \<Rightarrow> False | Some s \<Rightarrow> \<not> diagnostic_label_is_bounded s)"

definition validate_live_option :: "coding_agent_live_config_option \<Rightarrow> (unit, string) result" where
  "validate_live_option op =
     and_then (guard_err (\<not> diagnostic_identity_key_is_bounded (op_id op) \<or> bad_label (op_label op)
         \<or> op_kind op \<noteq> ''select'' \<and> op_kind op \<noteq> ''boolean''
         \<or> CODING_AGENT_MAX_CONFIG_SELECT_CHOICES < length (op_choices op)) ''ACP live diagnostic option identity is invalid'') (\<lambda>_.
     if op_kind op = ''select'' then
       and_then (guard_err (case op_current op of None \<Rightarrow> False | Some v \<Rightarrow> \<not> diagnostic_identity_key_is_bounded v)
         ''ACP live diagnostic select state is invalid'') (\<lambda>_.
       guard_err (list_ex (\<lambda>c. \<not> diagnostic_identity_key_is_bounded (ch_value c) \<or> bad_label (ch_label c)) (op_choices op))
         ''ACP live diagnostic select choice is invalid'')
     else guard_err (op_choices op \<noteq> [] \<or> (case op_current op of None \<Rightarrow> False | Some v \<Rightarrow> v \<noteq> ''true'' \<and> v \<noteq> ''false''))
       ''ACP live diagnostic boolean state is invalid'')"

definition validate_live_acp_diagnostic :: "coding_agent_live_acp_diagnostic \<Rightarrow> (unit, string) result" where
  "validate_live_acp_diagnostic live =
     and_then (guard_err (lv_protocol_version live \<noteq> None \<and> lv_protocol_version live \<noteq> Some 1)
       ''ACP live diagnostic protocol version is invalid'') (\<lambda>_.
     if lv_outcome live \<noteq> DoOk
     then guard_err (lv_options live \<noteq> [] \<or> options_truncated live) ''failed ACP live diagnostic must not carry options''
     else and_then (guard_err (lv_phase live \<noteq> PhProjection \<or> lv_protocol_version live \<noteq> Some 1
            \<or> CODING_AGENT_MAX_CONFIG_OPTIONS < length (lv_options live)) ''ACP live diagnostic outcome/phase/size is invalid'') (\<lambda>_.
       foldr (\<lambda>op rest. and_then (validate_live_option op) (\<lambda>_. rest)) (lv_options live) (Ok ())))"

definition validate_diagnosis ::
    "coding_agent_diagnose_request \<Rightarrow> string \<Rightarrow> string \<Rightarrow> (string \<times> bool) list \<Rightarrow> coding_agent_live_acp_diagnostic option
     \<Rightarrow> (unit, string) result" where
  "validate_diagnosis r provider inst env_presence live_acp =
     and_then (guard_err (provider \<noteq> dg_provider_id r \<or> inst \<noteq> dg_provider_instance_id r
         \<or> CODING_AGENT_MAX_CONFIG_OPTIONS < length env_presence) ''ACP diagnostic provider identity or size is invalid'') (\<lambda>_.
     and_then (guard_err (list_ex (\<lambda>(k, _). \<not> diagnostic_identity_key_is_bounded k) env_presence)
       ''ACP diagnostic destination key is invalid'') (\<lambda>_.
     (case live_acp of
        None \<Rightarrow> guard_err (include_live_acp r) ''authorized ACP live diagnostic is missing''
      | Some live \<Rightarrow>
          and_then (guard_err (\<not> include_live_acp r) ''unrequested ACP live diagnostic is not allowed'') (\<lambda>_.
          validate_live_acp_diagnostic live))))"

fun validate_events :: "nat option \<Rightarrow> coding_agent_event list \<Rightarrow> (unit, string) result" where
  "validate_events previous [] = Ok ()"
| "validate_events previous (e # es) =
     and_then (guard_err (exceeds CODING_AGENT_MAX_EVENT_TEXT_BYTES (ev_text e)
         \<or> (case previous of None \<Rightarrow> False | Some n \<Rightarrow> ev_sequence e \<le> n))
       ''CodingAgentRun response event bounds/order are invalid'') (\<lambda>_.
     and_then (guard_err (exceeds CODING_AGENT_MAX_EVENT_METADATA_BYTES (ev_label e)
         \<or> exceeds CODING_AGENT_MAX_EVENT_METADATA_BYTES (ev_status e)
         \<or> (case ev_usage e of None \<Rightarrow> False
            | Some u \<Rightarrow> exceeds CODING_AGENT_MAX_EVENT_METADATA_BYTES (cost_amount u)
                \<or> exceeds CODING_AGENT_MAX_EVENT_METADATA_BYTES (cost_currency u)))
       ''CodingAgentRun response event metadata is too large'') (\<lambda>_.
     validate_events (Some (ev_sequence e)) es))"

definition validate_observation :: "coding_agent_observe_result \<Rightarrow> (unit, string) result" where
  "validate_observation ob =
     and_then (guard_err (CODING_AGENT_MAX_EVENTS_PER_RESPONSE < length (or_events ob))
       ''CodingAgentRun response contains too many events'') (\<lambda>_.
     and_then (validate_events None (or_events ob)) (\<lambda>_.
     guard_err (first_retained_sequence ob = 0 \<or> sat_add (next_sequence ob) 1 < first_retained_sequence ob)
       ''CodingAgentRun response retention metadata is invalid''))"

text \<open>The run a payload carries for the request it answers.\<close>

definition answered_run ::
    "coding_agent_request \<Rightarrow> coding_agent_response_payload \<Rightarrow> (coding_agent_run_snapshot, string) result" where
  "answered_run request p =
     (case (request, p) of
        (CaStart _, PayStart run) \<Rightarrow> Ok run
      | (CaObserve _, PayObserve ob) \<Rightarrow> and_then (validate_observation ob) (\<lambda>_. Ok (or_run ob))
      | (CaCancel _, PayCancel run) \<Rightarrow> Ok run
      | _ \<Rightarrow> Err ''CodingAgentRun response kind does not match request operation'')"

definition validate_payload ::
    "coding_agent_request \<Rightarrow> coding_agent_response_payload \<Rightarrow> (unit, string) result" where
  "validate_payload request p =
     (case (request, p) of
        (CaDiagnose r, PayDiagnose provider inst env_presence live_acp) \<Rightarrow> validate_diagnosis r provider inst env_presence live_acp
      | _ \<Rightarrow>
          and_then (answered_run request p) (\<lambda>run.
          and_then (guard_err (run_id run \<noteq> request_run_id request) ''CodingAgentRun response run_id does not match request'') (\<lambda>_.
          validate_coding_agent_run_snapshot run)))"

definition validate_response_for_request :: "coding_agent_request \<Rightarrow> coding_agent_response \<Rightarrow> (unit, string) result" where
  "validate_response_for_request request response =
     (case (payload response, resp_error response) of
        (Some p, None) \<Rightarrow> validate_payload request p
      | (None, Some e) \<Rightarrow> validate_coding_agent_error e
      | _ \<Rightarrow> Err ''CodingAgentRun response must contain exactly one payload or error'')"

section \<open>Inventories of a registration\<close>

fun scan_providers :: "string list \<Rightarrow> string list \<Rightarrow> provider_identity list \<Rightarrow> (unit, string) result" where
  "scan_providers ids instances [] = Ok ()"
| "scan_providers ids instances (p # ps) =
     and_then (map_err (\<lambda>e. ''invalid coding-agent provider id: '' @ e) (validate_provider_id (pv_provider_id p))) (\<lambda>_.
     and_then (map_err (\<lambda>e. ''invalid coding-agent provider instance: '' @ e)
       (validate_provider_instance_id (pv_provider_instance_id p))) (\<lambda>_.
     and_then (guard_err (is_blank (pv_name p) \<or> CODING_AGENT_MAX_PROVIDER_NAME_BYTES < length (pv_name p) \<or> has_control (pv_name p))
       ''invalid coding-agent provider name'') (\<lambda>_.
     and_then (guard_err (List.member ids (pv_provider_id p) \<or> List.member instances (pv_provider_instance_id p))
       ''duplicate coding-agent provider identity'') (\<lambda>_.
     scan_providers (pv_provider_id p # ids) (pv_provider_instance_id p # instances) ps))))"

fun scan_runs :: "string \<Rightarrow> provider_identity list \<Rightarrow> string list \<Rightarrow> coding_agent_run_snapshot list \<Rightarrow> (unit, string) result" where
  "scan_runs prefix providers ids [] = Ok ()"
| "scan_runs prefix providers ids (run # runs) =
     and_then (map_err (\<lambda>e. ''invalid coding-agent Run snapshot: '' @ e) (validate_coding_agent_run_snapshot run)) (\<lambda>_.
     and_then (guard_err (List.member ids (run_id run)) ''duplicate coding-agent Run id in inventory'') (\<lambda>_.
     and_then (guard_err (\<not> starts_with (run_project_id run) prefix)
       ''coding-agent Run inventory references another Runner project namespace'') (\<lambda>_.
     and_then (guard_err (\<not> run_terminal (run_state run) \<and> \<not> list_ex (\<lambda>p. pv_provider_id p = run_provider_id run
         \<and> pv_provider_instance_id p = run_provider_instance_id run) providers)
       ''active coding-agent Run references a stale provider instance'') (\<lambda>_.
     scan_runs prefix providers (run_id run # ids) runs))))"

definition validate_coding_agent_registration ::
    "string \<Rightarrow> bool \<Rightarrow> provider_identity list option \<Rightarrow> coding_agent_run_snapshot list option \<Rightarrow> (unit, string) result" where
  "validate_coding_agent_registration cid capability providers inventory =
     (if \<not> capability then
        (if inventory = None \<and> (providers = None \<or> providers = Some []) then Ok ()
         else Err ''coding-agent provider/inventory metadata requires coding_agent_runs capability'')
      else (case (providers, inventory) of
          (Some (p # ps), Some runs) \<Rightarrow>
            and_then (guard_err (CODING_AGENT_MAX_PROVIDERS < length (p # ps))
              ''coding-agent provider inventory exceeds bounded limit'') (\<lambda>_.
            and_then (guard_err (CODING_AGENT_MAX_INVENTORY_RUNS < length runs)
              ''coding-agent Run inventory exceeds bounded limit'') (\<lambda>_.
            and_then (scan_providers [] [] (p # ps)) (\<lambda>_.
            scan_runs (''agent:'' @ cid @ '':'') (p # ps) [] runs)))
        | _ \<Rightarrow> Err ''coding_agent_runs capability requires non-empty provider inventory and Run inventory''))"

end
