(* ===== verification/Runner_Lease.thy ===== *)
theory Runner_Lease
  imports Project_Inventory Inventory_Validation Coding_Agent
begin

text \<open>
  The lease a Runner process holds on its client identity (\<^verbatim>\<open>webcodex-runner-registry/src/runners.rs\<close>, \<^verbatim>\<open>capabilities.rs\<close>,
  \<^verbatim>\<open>protocol.rs\<close>, the queue drain of \<^verbatim>\<open>requests.rs\<close>): registration with the replacement of an older process and the
  reconciliation of its Jobs, keepalives and metadata under the lease, disconnection, and the expiry of offline
  shared-key Runners.

  Capabilities are the list of wire names that are set. Reported tool providers are opaque and come normalised; the names, host
  context and build of a Runner are checked but, being displayed only, not kept in the modelled record.
\<close>

section \<open>What a registration must look like\<close>

definition RUNNER_JOB_CONCURRENCY_MIN :: nat where
  "RUNNER_JOB_CONCURRENCY_MIN = 1"

definition RUNNER_JOB_CONCURRENCY_MAX :: nat where
  "RUNNER_JOB_CONCURRENCY_MAX = 64"

definition MAX_RETIRED_INSTANCES_PER_RUNNER :: nat where
  "MAX_RETIRED_INSTANCES_PER_RUNNER = 16"

definition MAX_RUNNER_FIELD_LEN :: nat where
  "MAX_RUNNER_FIELD_LEN = 200"

definition RUNNER_PROTOCOL_GENERATION_V2 :: nat where
  "RUNNER_PROTOCOL_GENERATION_V2 = 2"

record shared_key_registration_limits =
  per_group :: nat
  global_limit :: nat
  offline_ttl_secs :: int

definition default_shared_key_limits :: shared_key_registration_limits where
  "default_shared_key_limits = \<lparr>per_group = 16, global_limit = 1024, offline_ttl_secs = 24 * 60 * 60\<rparr>"

definition validate_optional_runner_field :: "string option \<Rightarrow> string \<Rightarrow> (unit, string) result" where
  "validate_optional_runner_field v field =
     (case v of
        None \<Rightarrow> Ok ()
      | Some s \<Rightarrow>
          if MAX_RUNNER_FIELD_LEN < length (chars s)
            then Err (field @ '' is too long; maximum is '' @ show_nat MAX_RUNNER_FIELD_LEN @ '' characters'')
          else if has_nul s then Err (field @ '' cannot contain NUL bytes'')
          else Ok ())"

definition trim_string :: "string option \<Rightarrow> string option" where
  "trim_string v = (case v of None \<Rightarrow> None | Some s \<Rightarrow> if trim s = [] then None else Some (trim s))"

definition valid_computer_control_epoch :: "string \<Rightarrow> bool" where
  "valid_computer_control_epoch v \<longleftrightarrow>
     length v = 36
     \<and> list_all (\<lambda>(i, c). if List.member [8, 13, 18, 23] i then c = CHR ''-'' else is_ascii_hexdigit c)
         (enumerate 0 v)"

definition V2_BASELINE_CAPABILITY_NAMES :: "string list" where
  "V2_BASELINE_CAPABILITY_NAMES =
     [''file_read'', ''file_write'', ''artifact_export_chunk_read'', ''artifact_export_streaming_metadata'',
      ''structured_file_delete'', ''apply_text_edit_occurrence'', ''jobs'', ''async_jobs'', ''async_shell_jobs'',
      ''structured_validation_argv'', ''structured_cargo_test_count_assertion'', ''structured_go_test_json'',
      ''structured_go_test_tool'', ''structured_go_test_packages'', ''structured_process_argv'',
      ''structured_script_payload'', ''internal_posix_script'', ''structured_execution_jobs'',
      ''lsp_read_only_navigation'', ''lsp_call_hierarchy'', ''project_lifecycle'', ''project_path_registration'']"

definition try_features_from_registration :: "string list \<Rightarrow> (unit, string) result" where
  "try_features_from_registration capabilities =
     (case List.find (\<lambda>f. \<not> List.member capabilities f) V2_BASELINE_CAPABILITY_NAMES of
        Some f \<Rightarrow> Err (''runner generation baseline capability mismatch: '' @ f)
      | None \<Rightarrow> Ok ())"

record runner_host_context =
  hc_role :: "string option"
  hc_runtime :: "string option"
  hc_service :: "string option"
  hc_network :: "string option"
  hc_architecture :: "string option"

definition RUNNER_HOST_CONTEXT_ROLE_MAX_BYTES :: nat where "RUNNER_HOST_CONTEXT_ROLE_MAX_BYTES = 64"
definition RUNNER_HOST_CONTEXT_TEXT_MAX_BYTES :: nat where "RUNNER_HOST_CONTEXT_TEXT_MAX_BYTES = 512"
definition RUNNER_HOST_CONTEXT_TOTAL_MAX_BYTES :: nat where "RUNNER_HOST_CONTEXT_TOTAL_MAX_BYTES = 1536"

definition normalize_host_role :: "string option \<Rightarrow> (string option, string) result" where
  "normalize_host_role v =
     (case v of
        None \<Rightarrow> Ok None
      | Some s \<Rightarrow>
          let s = trim s in
          if s = [] \<or> RUNNER_HOST_CONTEXT_ROLE_MAX_BYTES < length s
            then Err (''host_context.role must be 1..='' @ show_nat RUNNER_HOST_CONTEXT_ROLE_MAX_BYTES @ '' UTF-8 bytes'')
          else if \<not> list_all (\<lambda>c. is_ascii_lowercase c \<or> is_ascii_digit c \<or> c = CHR ''_'' \<or> c = CHR ''-'') s
            then Err (''host_context.role may only contain lowercase ASCII letters, digits, '' @ quoted ''_'' @ '' and '' @ quoted ''-'')
          else Ok (Some s))"

definition normalize_host_context_text :: "string \<Rightarrow> string option \<Rightarrow> (string option, string) result" where
  "normalize_host_context_text field v =
     (case v of
        None \<Rightarrow> Ok None
      | Some s \<Rightarrow>
          let s = trim s in
          if s = [] \<or> RUNNER_HOST_CONTEXT_TEXT_MAX_BYTES < length s
            then Err (''host_context.'' @ field @ '' must be 1..='' @ show_nat RUNNER_HOST_CONTEXT_TEXT_MAX_BYTES @ '' UTF-8 bytes'')
          else if has_control s then Err (''host_context.'' @ field @ '' must not contain control characters'')
          else Ok (Some s))"

definition host_context_normalized :: "runner_host_context \<Rightarrow> (runner_host_context, string) result" where
  "host_context_normalized h =
     and_then (normalize_host_role (hc_role h)) (\<lambda>role.
     and_then (normalize_host_context_text ''runtime'' (hc_runtime h)) (\<lambda>runtime.
     and_then (normalize_host_context_text ''service'' (hc_service h)) (\<lambda>service.
     and_then (normalize_host_context_text ''network'' (hc_network h)) (\<lambda>network.
     and_then (normalize_host_context_text ''architecture'' (hc_architecture h)) (\<lambda>architecture.
     let fields = [role, runtime, service, network, architecture] in
     and_then (guard_err (list_all (\<lambda>v. v = None) fields) ''host_context must contain at least one field'') (\<lambda>_.
     and_then (guard_err (RUNNER_HOST_CONTEXT_TOTAL_MAX_BYTES < sum_list (map (\<lambda>v. case v of None \<Rightarrow> 0 | Some s \<Rightarrow> length s) fields))
       (''host_context content must be at most '' @ show_nat RUNNER_HOST_CONTEXT_TOTAL_MAX_BYTES @ '' UTF-8 bytes total'')) (\<lambda>_.
     Ok \<lparr>hc_role = role, hc_runtime = runtime, hc_service = service, hc_network = network, hc_architecture = architecture\<rparr>)))))))"

text \<open>The providers of the MCP gateway.\<close>

definition MCP_GATEWAY_MAX_PROVIDERS :: nat where "MCP_GATEWAY_MAX_PROVIDERS = 8"
definition MCP_GATEWAY_MAX_PROVIDER_ID_BYTES :: nat where "MCP_GATEWAY_MAX_PROVIDER_ID_BYTES = 64"
definition MCP_GATEWAY_MAX_PROVIDER_NAME_BYTES :: nat where "MCP_GATEWAY_MAX_PROVIDER_NAME_BYTES = 128"

definition gateway_validate_identifier :: "string \<Rightarrow> string \<Rightarrow> nat \<Rightarrow> bool \<Rightarrow> (unit, string) result" where
  "gateway_validate_identifier v field max_bytes lowercase_only =
     (if v = [] \<or> max_bytes < length v then Err (field @ '' must contain 1..='' @ show_nat max_bytes @ '' bytes'')
      else if \<not> list_all (\<lambda>c. (if lowercase_only then is_ascii_lowercase c else is_ascii_alphanumeric c) \<or> is_ascii_digit c
          \<or> c = CHR ''_'' \<or> c = CHR ''-'' \<or> c = CHR ''.'') v
        then Err (field @ '' may contain only '' @ (if lowercase_only then ''lowercase ASCII letters'' else ''ASCII letters'')
          @ '', digits, '' @ quoted ''_'' @ '', '' @ quoted ''-'' @ '', and '' @ quoted ''.'')
      else Ok ())"

definition validate_provider_name :: "string \<Rightarrow> (unit, string) result" where
  "validate_provider_name v =
     (if is_blank v \<or> MCP_GATEWAY_MAX_PROVIDER_NAME_BYTES < length v
        then Err (''provider name must contain 1..='' @ show_nat MCP_GATEWAY_MAX_PROVIDER_NAME_BYTES @ '' bytes'')
      else if has_control v then Err ''provider name contains unsupported control characters''
      else Ok ())"

fun scan_gateway_providers :: "string list \<Rightarrow> string list \<Rightarrow> provider_identity list \<Rightarrow> (unit, string) result" where
  "scan_gateway_providers ids instances [] = Ok ()"
| "scan_gateway_providers ids instances (p # ps) =
     and_then (gateway_validate_identifier (pv_provider_id p) ''provider_id'' MCP_GATEWAY_MAX_PROVIDER_ID_BYTES True) (\<lambda>_.
     and_then (gateway_validate_identifier (pv_provider_instance_id p) ''provider_instance_id'' MCP_GATEWAY_MAX_PROVIDER_ID_BYTES False) (\<lambda>_.
     and_then (validate_provider_name (pv_name p)) (\<lambda>_.
     and_then (guard_err (List.member ids (pv_provider_id p)) ''duplicate bridge provider id'') (\<lambda>_.
     and_then (guard_err (List.member instances (pv_provider_instance_id p)) ''duplicate bridge provider instance identity'') (\<lambda>_.
     scan_gateway_providers (pv_provider_id p # ids) (pv_provider_instance_id p # instances) ps)))))"

definition validate_providers :: "provider_identity list \<Rightarrow> (unit, string) result" where
  "validate_providers ps =
     and_then (guard_err (MCP_GATEWAY_MAX_PROVIDERS < length ps) (''provider count exceeds maximum '' @ show_nat MCP_GATEWAY_MAX_PROVIDERS))
       (\<lambda>_. scan_gateway_providers [] [] ps)"

definition validate_gateway_inventory :: "provider_identity list option \<Rightarrow> (unit, string) result" where
  "validate_gateway_inventory gateways =
     (case gateways of None \<Rightarrow> Ok ()
      | Some ps \<Rightarrow> map_err (\<lambda>e. ''invalid MCP gateway provider inventory: '' @ e) (validate_providers ps))"

record runner_register_request =
  reg_client_id :: string
  reg_runner_instance_id :: string
  reg_display_name :: "string option"
  reg_owner :: "string option"
  reg_hostname :: "string option"
  reg_protocol_generation :: nat
  reg_capabilities :: "string list"
  reg_policy :: "runner_policy_summary option"
  reg_capacity_generation :: nat
  reg_job_concurrency_limit :: "nat option"
  reg_job_inventory :: "shell_job_inventory option"
  reg_coding_agent_providers :: "provider_identity list option"
  reg_coding_agent_inventory :: "coding_agent_run_snapshot list option"
  reg_host_context :: "runner_host_context option"
  reg_computer_session_availability :: "bool option"
  reg_computer_control_epoch :: "string option"

text \<open>The checks before the Registry lock is taken. The capacity generation is that of the reported configuration, or zero.\<close>

definition check_job_inventory ::
    "compact_codec \<Rightarrow> (shell_job_inventory \<Rightarrow> (string, string) result) \<Rightarrow> runner_register_request \<Rightarrow> (unit, string) result" where
  "check_job_inventory cc to_json body =
     (case (List.member (reg_capabilities body) ''job_state_reconciliation'', reg_job_inventory body) of
        (True, Some inventory) \<Rightarrow>
          validate_job_inventory_without_project_membership cc to_json (trim (reg_client_id body)) inventory
      | (True, None) \<Rightarrow> Err ''job_state_reconciliation capability requires job_inventory''
      | (False, Some _) \<Rightarrow> Err ''job_inventory requires job_state_reconciliation capability''
      | (False, None) \<Rightarrow> Ok ())"

definition check_registration ::
    "compact_codec \<Rightarrow> (shell_job_inventory \<Rightarrow> (string, string) result) \<Rightarrow> runner_register_request
     \<Rightarrow> (unit, string) result" where
  "check_registration cc to_json body =
     (let caps = reg_capabilities body in
      and_then (guard_err (some_invalid valid_computer_control_epoch (reg_computer_control_epoch body))
        ''invalid Computer control epoch'') (\<lambda>_.
      and_then (guard_err (reg_computer_control_epoch body \<noteq> None \<and> \<not> List.member caps ''computer_local_control'')
        ''Computer control epoch requires computer_local_control support'') (\<lambda>_.
      and_then (validate_id (reg_client_id body) ''client_id'') (\<lambda>_.
      and_then (validate_runner_instance_id (reg_runner_instance_id body)) (\<lambda>_.
      and_then (validate_optional_runner_field (reg_display_name body) ''display_name'') (\<lambda>_.
      and_then (validate_optional_runner_field (reg_owner body) ''owner'') (\<lambda>_.
      and_then (validate_optional_runner_field (reg_hostname body) ''hostname'') (\<lambda>_.
      and_then (guard_err (some_invalid (\<lambda>n. RUNNER_JOB_CONCURRENCY_MIN \<le> n \<and> n \<le> RUNNER_JOB_CONCURRENCY_MAX)
          (reg_job_concurrency_limit body))
        (''job_concurrency_limit must be between '' @ show_nat RUNNER_JOB_CONCURRENCY_MIN @ '' and ''
         @ show_nat RUNNER_JOB_CONCURRENCY_MAX)) (\<lambda>_.
      and_then (guard_err (reg_protocol_generation body \<noteq> RUNNER_PROTOCOL_GENERATION_V2)
        ''agent_protocol_generation is unsupported'') (\<lambda>_.
      and_then (try_features_from_registration caps) (\<lambda>_.
      and_then (guard_err (List.member caps ''apply_patch_match_metadata'' \<and> \<not> List.member caps ''apply_patch'')
        ''apply_patch_match_metadata capability requires apply_patch capability'') (\<lambda>_.
      and_then (guard_err (List.member caps ''apply_patch_matching_mode'' \<and> \<not> List.member caps ''apply_patch_match_metadata'')
        ''apply_patch_matching_mode capability requires apply_patch_match_metadata capability'') (\<lambda>_.
      and_then (validate_coding_agent_registration (trim (reg_client_id body)) (List.member caps ''coding_agent_runs'')
        (reg_coding_agent_providers body) (reg_coding_agent_inventory body)) (\<lambda>_.
      and_then (case reg_host_context body of None \<Rightarrow> Ok ()
          | Some h \<Rightarrow> and_then (host_context_normalized h) (\<lambda>_. Ok ())) (\<lambda>_.
      and_then (validate_gateway_inventory (Option.bind (reg_policy body) pol_mcp_gateway_providers)) (\<lambda>_.
        check_job_inventory cc to_json body))))))))))))))))"

section \<open>Requests of a Runner that goes away\<close>

definition remove_pending_request_locked :: "string \<Rightarrow> registry_inner \<Rightarrow> registry_inner" where
  "remove_pending_request_locked rid st =
     (case map_of (pending_by_id st) rid of
        Some p \<Rightarrow> remove_request_from_runner_queue_locked (pr_client_id p) rid (take_pending_request_locked rid st)
      | None \<Rightarrow> st\<lparr>queues_by_runner := map (\<lambda>(k, q). (k, filter (\<lambda>x. x \<noteq> rid) q)) (queues_by_runner st)\<rparr>)"

definition drain_request :: "string \<Rightarrow> registry_inner \<Rightarrow> registry_inner" where
  "drain_request rid st =
     (let st = remove_pending_request_locked rid st in st\<lparr>persistent_waiters := removeAll rid (persistent_waiters st)\<rparr>)"

definition resolve_disconnected_sync_requests_locked :: "string \<Rightarrow> registry_inner \<Rightarrow> registry_inner" where
  "resolve_disconnected_sync_requests_locked cid st =
     fold drain_request
       (map fst (filter (\<lambda>(_, p). pr_job_id p = None \<and> pr_client_id p = cid) (pending_by_id st))) st"

section \<open>Shared-key Runners\<close>

definition is_shared_key :: "runner_record \<Rightarrow> bool" where
  "is_shared_key r = (case rr_auth_group r of Some (SharedKey _) \<Rightarrow> True | _ \<Rightarrow> False)"

definition shared_key_expired :: "int \<Rightarrow> int \<Rightarrow> registry_inner \<Rightarrow> string \<times> runner_record \<Rightarrow> bool" where
  "shared_key_expired ttl now st e =
     (case e of (cid, r) \<Rightarrow>
        is_shared_key r
        \<and> \<not> (map_of (notifiers st) cid \<noteq> None \<or> sat_sub_i64 now (last_seen r) \<le> RUNNER_ONLINE_WINDOW_SECS)
        \<and> ttl < sat_sub_i64 now (case rr_disconnected_at r of None \<Rightarrow> last_seen r | Some t \<Rightarrow> t))"

text \<open>\<open>intents\<close> are the registry's cleanup intents by Job.\<close>

definition prune_expired_shared_key_runners_locked ::
    "shared_key_registration_limits \<Rightarrow> int \<Rightarrow> registry_inner \<Rightarrow> (string \<times> 'i) list \<Rightarrow> registry_inner \<times> (string \<times> 'i) list" where
  "prune_expired_shared_key_runners_locked limits now st intents =
     (let expired = map fst (filter (shared_key_expired (offline_ttl_secs limits) now st) (runners st)) in
      if expired = [] then (st, intents)
      else
        let rids = map fst (filter (\<lambda>(_, p). List.member expired (pr_client_id p)) (pending_by_id st));
            jids = map fst (filter (\<lambda>(_, job). List.member expired (client_id job)) (records (jobs_by_id st)));
            st = fold resolve_disconnected_sync_requests_locked expired st;
            st = fold (\<lambda>jid. step_job jid (mark_job_lost now SharedKeyRunnerExpired
                   ''shared-key runner registration expired after being offline'')) jids st
        in (st\<lparr>pending_by_id := filter (\<lambda>(rid, _). \<not> List.member rids rid) (pending_by_id st),
               persistent_waiters := filter (\<lambda>rid. \<not> List.member rids rid) (persistent_waiters st),
               request_to_job := filter (\<lambda>(rid, jid). \<not> List.member rids rid \<and> \<not> List.member jids jid) (request_to_job st),
               runners := filter (\<lambda>(cid, _). \<not> List.member expired cid) (runners st),
               queues_by_runner := filter (\<lambda>(cid, _). \<not> List.member expired cid) (queues_by_runner st),
               notifiers := filter (\<lambda>(cid, _). \<not> List.member expired cid) (notifiers st),
               retired_instances := filter (\<lambda>(cid, _). \<not> List.member expired cid) (retired_instances st),
               unregistering_projects := filter (\<lambda>(p, _).
                 \<not> list_ex (\<lambda>cid. starts_with p (''agent:'' @ cid @ '':'')) expired) (unregistering_projects st)\<rparr>,
            filter (\<lambda>(jid, _). \<not> List.member jids jid) intents))"

definition in_group :: "string \<Rightarrow> string \<times> runner_record \<Rightarrow> bool" where
  "in_group g e \<longleftrightarrow> rr_auth_group (snd e) = Some (SharedKey g)"

definition check_shared_key_limits ::
    "shared_key_registration_limits \<Rightarrow> string \<Rightarrow> runner_access_group option \<Rightarrow> registry_inner \<Rightarrow> (unit, string) result" where
  "check_shared_key_limits limits cid grp st =
     (case grp of
        Some (SharedKey g) \<Rightarrow>
          if map_of (runners st) cid \<noteq> None then Ok ()
          else if per_group limits \<le> length (filter (in_group g) (runners st))
            then Err (''shared-key runner group limit reached (maximum '' @ show_nat (per_group limits) @ '' runners)'')
          else if global_limit limits \<le> length (filter (\<lambda>(_, r). is_shared_key r) (runners st))
            then Err (''shared-key runner global limit reached (maximum '' @ show_nat (global_limit limits) @ '' runners)'')
          else Ok ()
      | _ \<Rightarrow> Ok ())"

section \<open>Registration\<close>

definition retired_of :: "registry_inner \<Rightarrow> string \<Rightarrow> string list" where
  "retired_of st cid = (case map_of (retired_instances st) cid of None \<Rightarrow> [] | Some q \<Rightarrow> q)"

definition reject_same_instance_feature_downgrade ::
    "runner_record option \<Rightarrow> string \<Rightarrow> string list \<Rightarrow> string \<Rightarrow> (unit, string) result" where
  "reject_same_instance_feature_downgrade existing iid incoming feature =
     guard_err (case existing of None \<Rightarrow> False
         | Some r \<Rightarrow> rr_runner_instance_id r = iid \<and> List.member (rr_features r) feature \<and> \<not> List.member incoming feature)
       (''same runner instance cannot downgrade '' @ feature @ '' capability'')"

definition DOWNGRADE_FENCED_FEATURES :: "string list" where
  "DOWNGRADE_FENCED_FEATURES =
     [''job_state_reconciliation'', ''coding_agent_runs'', ''structured_cargo_test_execution_policy'', ''structured_cargo_test_lib'',
      ''structured_script_javascript'', ''structured_script_typescript'', ''native_tool_plugins'']"

definition stale_capacity :: "runner_record option \<Rightarrow> string \<Rightarrow> nat \<Rightarrow> nat option \<Rightarrow> bool" where
  "stale_capacity existing iid gen limit =
     (case existing of None \<Rightarrow> False
      | Some r \<Rightarrow> rr_runner_instance_id r = iid
          \<and> (gen < rr_job_capacity_generation r
             \<or> gen = rr_job_capacity_generation r \<and> limit \<noteq> rr_job_concurrency_limit r))"

text \<open>What is fixed for a registration besides the request: clock, grace period, limits, and the registry's sinks.\<close>

record registration_env =
  env_now :: int
  env_grace :: int
  env_limits :: shared_key_registration_limits
  env_observation_epoch :: string
  env_receipt_candidates :: bool
  env_terminal_event_candidates :: bool

definition new_runner_record ::
    "int \<Rightarrow> runner_register_request \<Rightarrow> runner_access option \<Rightarrow> (string \<times> runner_transport) option \<Rightarrow> runner_record" where
  "new_runner_record now body auth streaming =
     \<lparr>rr_client_id = trim (reg_client_id body), rr_runner_instance_id = trim (reg_runner_instance_id body),
      rr_owner = trim_string (reg_owner body), rr_features = reg_capabilities body, last_seen = now,
      rr_auth_group = Option.bind auth access_group, rr_connection_id = map_option fst streaming, rr_projects = [],
      rr_inventory = pending_inventory_state 0,
      rr_transport = (case streaming of None \<Rightarrow> TransportPolling | Some (_, t) \<Rightarrow> t),
      rr_policy = reg_policy body, rr_registered_at = now, rr_disconnected_at = None,
      rr_computer_session_availability = reg_computer_session_availability body,
      rr_computer_control_epoch = reg_computer_control_epoch body,
      rr_job_concurrency_limit = reg_job_concurrency_limit body,
      rr_job_capacity_generation = reg_capacity_generation body,
      rr_coding_agent_providers = (case reg_coding_agent_providers body of None \<Rightarrow> [] | Some ps \<Rightarrow> ps),
      suppressions = []\<rparr>"

text \<open>Every check that needs the lock; none of them changes the state.\<close>

definition admit_registration ::
    "registration_env \<Rightarrow> runner_register_request \<Rightarrow> runner_record \<Rightarrow> registry_inner \<Rightarrow> (unit, string) result" where
  "admit_registration env body r st =
     (let cid = rr_client_id r; iid = rr_runner_instance_id r; existing = map_of (runners st) cid in
      and_then (guard_err (some_invalid (\<lambda>e. rr_auth_group e = rr_auth_group r) existing) ''runner identity is unavailable'') (\<lambda>_.
      and_then (check_shared_key_limits (env_limits env) cid (rr_auth_group r) st) (\<lambda>_.
      and_then (guard_err (List.member (retired_of st cid) iid)
        (''runner '' @ cid @ '' instance was replaced and cannot reclaim the lease'')) (\<lambda>_.
      and_then (guard_err (stale_capacity existing iid (rr_job_capacity_generation r) (rr_job_concurrency_limit r))
        ''stale or conflicting Runner capacity generation'') (\<lambda>_.
      and_then (foldr (\<lambda>f rest. and_then (reject_same_instance_feature_downgrade existing iid (rr_features r) f) (\<lambda>_. rest))
        DOWNGRADE_FENCED_FEATURES (Ok ())) (\<lambda>_.
      and_then (guard_err (some_invalid (\<lambda>e. rr_runner_instance_id e = iid \<longrightarrow>
          rr_coding_agent_providers e = rr_coding_agent_providers r) existing)
        ''same runner instance cannot change ACP coding-agent provider inventory'') (\<lambda>_.
        (case reg_job_inventory body of None \<Rightarrow> Ok ()
         | Some inventory \<Rightarrow> preflight_inventory_locked st cid iid inventory))))))))"

definition push_retired :: "string \<Rightarrow> string list \<Rightarrow> string list" where
  "push_retired iid retired =
     (if List.member retired iid then retired else pop_front_to MAX_RETIRED_INSTANCES_PER_RUNNER (retired @ [iid]))"

definition replace_instance ::
    "int \<Rightarrow> string \<Rightarrow> string \<Rightarrow> shell_job_inventory option \<Rightarrow> registry_inner \<Rightarrow> registry_inner" where
  "replace_instance now cid old inventory st =
     (let st = terminate_instance_jobs_locked cid old inventory now st;
          st = resolve_disconnected_sync_requests_locked cid st
      in st\<lparr>retired_instances := AList.update cid (push_retired old (retired_of st cid)) (retired_instances st)\<rparr>)"

definition carry_over :: "int \<Rightarrow> runner_record option \<Rightarrow> runner_record \<Rightarrow> runner_record" where
  "carry_over now existing r =
     (case existing of
        None \<Rightarrow> r
      | Some e \<Rightarrow>
          if rr_runner_instance_id e = rr_runner_instance_id r
          then (prune_suppressions now (r\<lparr>rr_registered_at := rr_registered_at e, suppressions := suppressions e\<rparr>))
                 \<lparr>rr_projects := rr_projects e,
                  rr_inventory := preserve_authoritative_pending (rr_inventory e) (length (rr_projects e))\<rparr>
          else r)"

definition install_lease :: "runner_record \<Rightarrow> registry_inner \<Rightarrow> registry_inner" where
  "install_lease r st =
     (let cid = rr_client_id r in
      st\<lparr>runners := AList.update cid r (runners st),
         notifiers := (case rr_connection_id r of
             None \<Rightarrow> AList.delete cid (notifiers st)
           | Some conn \<Rightarrow> AList.update cid \<lparr>ne_runner_instance_id = rr_runner_instance_id r, ne_connection_id = Some conn\<rparr>
               (AList.delete cid (notifiers st)))\<rparr>)"

definition registration_source :: "registration_env \<Rightarrow> runner_record \<Rightarrow> inventory_source" where
  "registration_source env r =
     \<lparr>src_client_id = rr_client_id r, src_runner_instance_id = rr_runner_instance_id r, src_auth_group = rr_auth_group r,
      src_observation_epoch = env_observation_epoch env, src_receipt_candidates = env_receipt_candidates env,
      src_terminal_event_candidates = env_terminal_event_candidates env\<rparr>"

definition commit_registration ::
    "registration_env \<Rightarrow> runner_register_request \<Rightarrow> runner_record \<Rightarrow> registry_inner \<Rightarrow> (registry_inner, string) result" where
  "commit_registration env body r st =
     (let cid = rr_client_id r; now = env_now env;
          st = (case map_of (runners st) cid of
              None \<Rightarrow> st
            | Some e \<Rightarrow>
                if rr_runner_instance_id e = rr_runner_instance_id r then st
                else replace_instance now cid (rr_runner_instance_id e) (reg_job_inventory body) st);
          st = install_lease (carry_over now (map_of (runners st) cid) r) st
      in (case reg_job_inventory body of
            None \<Rightarrow> Ok st
          | Some inventory \<Rightarrow>
              and_then (reconcile_inventory_locked (registration_source env r) (env_grace env) now inventory st)
                (\<lambda>(st, _). Ok st)))"

definition register_locked ::
    "registration_env \<Rightarrow> runner_register_request \<Rightarrow> runner_record \<Rightarrow> registry_inner \<Rightarrow> (registry_inner, string) result" where
  "register_locked env body r st = and_then (admit_registration env body r st) (\<lambda>_. commit_registration env body r st)"

definition register_session ::
    "compact_codec \<Rightarrow> (shell_job_inventory \<Rightarrow> (string, string) result) \<Rightarrow> registration_env
     \<Rightarrow> runner_access option \<Rightarrow> (string \<times> runner_transport) option \<Rightarrow> runner_register_request
     \<Rightarrow> registry_inner \<Rightarrow> (string \<times> 'i) list \<Rightarrow> registry_inner \<times> (string \<times> 'i) list \<times> (unit, string) result" where
  "register_session cc to_json env auth streaming body st intents =
     (case check_registration cc to_json body of
        Inl e \<Rightarrow> (st, intents, Err e)
      | Inr _ \<Rightarrow>
          (case prune_expired_shared_key_runners_locked (env_limits env) (env_now env) st intents of (st, intents) \<Rightarrow>
             (case register_locked env body (new_runner_record (env_now env) body auth streaming) st of
                Inl e \<Rightarrow> (st, intents, Err e)
              | Inr st' \<Rightarrow> (st', intents, Ok ()))))"

definition register_streaming_session ::
    "compact_codec \<Rightarrow> (shell_job_inventory \<Rightarrow> (string, string) result) \<Rightarrow> registration_env
     \<Rightarrow> runner_access option \<Rightarrow> string \<Rightarrow> runner_transport \<Rightarrow> runner_register_request
     \<Rightarrow> registry_inner \<Rightarrow> (string \<times> 'i) list \<Rightarrow> registry_inner \<times> (string \<times> 'i) list \<times> (unit, string) result" where
  "register_streaming_session cc to_json env auth conn transport body st intents =
     (case validate_id conn ''connection_id'' of
        Inl e \<Rightarrow> (st, intents, Err e)
      | Inr _ \<Rightarrow>
          if transport = TransportPolling then (st, intents, Err ''streaming Runner transport is unsupported'')
          else register_session cc to_json env auth (Some (conn, transport)) body st intents)"

section \<open>Under the lease\<close>

definition with_lease ::
    "string \<Rightarrow> string \<Rightarrow> string option \<Rightarrow> registry_inner \<Rightarrow> (runner_record \<Rightarrow> runner_record) \<Rightarrow> registry_inner \<times> (unit, string) result" where
  "with_lease cid iid expected st f =
     (case map_of (runners st) cid of
        None \<Rightarrow> (st, Err (''unknown shell client: '' @ cid))
      | Some r \<Rightarrow>
          if rr_runner_instance_id r \<noteq> iid then (st, Err (stale_instance cid))
          else if expected \<noteq> None \<and> rr_connection_id r \<noteq> expected
            then (st, Err (''runner '' @ cid @ '' transport connection is no longer active''))
          else (st\<lparr>runners := AList.update cid (f r) (runners st)\<rparr>, Ok ()))"

definition touch_runner_for_connection ::
    "int \<Rightarrow> string \<Rightarrow> string \<Rightarrow> string \<Rightarrow> registry_inner \<Rightarrow> registry_inner \<times> (unit, string) result" where
  "touch_runner_for_connection now cid iid conn st =
     (case validate_runner_instance_id iid of
        Inl e \<Rightarrow> (st, Err e)
      | Inr _ \<Rightarrow> with_lease cid iid (Some conn) st (\<lambda>r. r\<lparr>last_seen := now\<rparr>))"

definition update_runtime_metadata_checked ::
    "int \<Rightarrow> string \<Rightarrow> string \<Rightarrow> string option \<Rightarrow> string option \<Rightarrow> provider_identity list option \<Rightarrow> registry_inner \<Rightarrow> registry_inner \<times> (unit, string) result" where
  "update_runtime_metadata_checked now cid iid expected tools gateways st =
     (case validate_gateway_inventory gateways of
        Inl e \<Rightarrow> (st, Err e)
      | Inr _ \<Rightarrow>
          if tools = None \<and> gateways = None then (st, Ok ())
          else (case validate_runner_instance_id iid of
              Inl e \<Rightarrow> (st, Err e)
            | Inr _ \<Rightarrow> with_lease cid iid expected st (\<lambda>r.
                r\<lparr>rr_policy := map_option (\<lambda>p. p\<lparr>pol_tool_providers := or_else tools (pol_tool_providers p),
                    pol_mcp_gateway_providers := or_else gateways (pol_mcp_gateway_providers p)\<rparr>) (rr_policy r),
                  last_seen := now\<rparr>)))"

definition update_job_capacity ::
    "string \<Rightarrow> string \<Rightarrow> string option \<Rightarrow> (nat \<times> nat) option \<Rightarrow> registry_inner \<Rightarrow> registry_inner \<times> (unit, string) result" where
  "update_job_capacity cid iid conn capacity st =
     (case capacity of
        None \<Rightarrow> (st, Ok ())
      | Some (gen, limit) \<Rightarrow>
          if gen = 0 \<or> \<not> (RUNNER_JOB_CONCURRENCY_MIN \<le> limit \<and> limit \<le> RUNNER_JOB_CONCURRENCY_MAX)
            then (st, Err ''invalid Runner capacity'')
          else (case map_of (runners st) cid of
              None \<Rightarrow> (st, Err ''unknown Runner'')
            | Some r \<Rightarrow>
                if rr_runner_instance_id r \<noteq> iid \<or> rr_disconnected_at r \<noteq> None
                   \<or> (case conn of Some c \<Rightarrow> rr_connection_id r \<noteq> Some c | None \<Rightarrow> rr_transport r \<noteq> TransportPolling)
                  then (st, Err ''stale Runner capacity lease'')
                else if gen < rr_job_capacity_generation r
                   \<or> gen = rr_job_capacity_generation r \<and> some_invalid (\<lambda>l. l = limit) (rr_job_concurrency_limit r)
                  then (st, Err ''stale or conflicting Runner capacity generation'')
                else (st\<lparr>runners := AList.update cid
                        (r\<lparr>rr_job_concurrency_limit := Some limit, rr_job_capacity_generation := gen\<rparr>) (runners st)\<rparr>, Ok ())))"

definition update_computer_session_availability ::
    "int \<Rightarrow> string \<Rightarrow> string \<Rightarrow> string option \<Rightarrow> bool option \<Rightarrow> registry_inner \<Rightarrow> registry_inner \<times> (unit, string) result" where
  "update_computer_session_availability now cid iid conn availability st =
     (case availability of
        None \<Rightarrow> (st, Ok ())
      | Some a \<Rightarrow>
          (case validate_runner_instance_id iid of
             Inl e \<Rightarrow> (st, Err e)
           | Inr _ \<Rightarrow>
               (case map_of (runners st) cid of
                  None \<Rightarrow> (st, Err (''unknown shell client: '' @ cid))
                | Some r \<Rightarrow>
                    if rr_runner_instance_id r \<noteq> iid \<or> conn \<noteq> None \<and> rr_connection_id r \<noteq> conn
                      then (st, Err ''computer session availability has a stale Runner lease'')
                    else if rr_computer_session_availability r = None
                      then (st, Err ''computer session availability requires registration opt-in'')
                    else (st\<lparr>runners := AList.update cid
                            (r\<lparr>rr_computer_session_availability := Some a, last_seen := now\<rparr>) (runners st)\<rparr>, Ok ()))))"

definition update_computer_control_epoch ::
    "string \<Rightarrow> string \<Rightarrow> string option \<Rightarrow> string option \<Rightarrow> registry_inner \<Rightarrow> registry_inner \<times> (unit, string) result" where
  "update_computer_control_epoch cid iid conn reported st =
     (case reported of
        None \<Rightarrow> (st, Ok ())
      | Some e \<Rightarrow>
          if \<not> valid_computer_control_epoch e then (st, Err ''invalid Computer control epoch'')
          else (case map_of (runners st) cid of
              None \<Rightarrow> (st, Err ''unknown Runner'')
            | Some r \<Rightarrow>
                if rr_runner_instance_id r \<noteq> iid \<or> rr_connection_id r \<noteq> conn
                   \<or> \<not> List.member (rr_features r) ''computer_local_control''
                  then (st, Err ''Computer control epoch requires the active opted-in Runner lease'')
                else (st\<lparr>runners := AList.update cid (r\<lparr>rr_computer_control_epoch := Some e\<rparr>) (runners st)\<rparr>, Ok ())))"

section \<open>Disconnection\<close>

definition disconnect_step :: "int \<Rightarrow> bool \<Rightarrow> job_step" where
  "disconnect_step now recoverable job =
     (if recoverable \<and> lifecycle job \<noteq> Queued then begin_job_recovery now RunnerTransportDisconnected job
      else if lifecycle job = Queued then
        mark_job_lost now RunnerRequestNotDispatched
          ''Runner transport disconnected before the queued request was dispatched'' job
      else
        mark_job_lost now RunnerDisconnectedWithoutReconciliation
          ''Runner transport disconnected without reconciliation support'' job)"

definition disconnect_job :: "string \<Rightarrow> int \<Rightarrow> bool \<Rightarrow> string \<Rightarrow> registry_inner \<Rightarrow> registry_inner" where
  "disconnect_job cid now recoverable jid st =
     (let rid = Option.bind (get_job (jobs_by_id st) jid) request_id;
          st = step_job jid (disconnect_step now recoverable) st
      in (case rid of None \<Rightarrow> st | Some r \<Rightarrow> retire_job_request_locked cid r st))"

definition disconnect_affects :: "string \<Rightarrow> shell_job_record \<Rightarrow> bool" where
  "disconnect_affects cid job \<longleftrightarrow>
     client_id job = cid \<and> \<not> is_terminal (lifecycle job) \<and> (lifecycle job = Queued \<or> is_runner_active (lifecycle job))"

definition release_notifier :: "string \<Rightarrow> string \<Rightarrow> string option \<Rightarrow> registry_inner \<Rightarrow> registry_inner" where
  "release_notifier cid iid conn st =
     (case map_of (notifiers st) cid of
        None \<Rightarrow> st
      | Some n \<Rightarrow>
          if ne_runner_instance_id n = iid \<and> (conn = None \<or> ne_connection_id n = conn)
          then st\<lparr>notifiers := AList.delete cid (notifiers st)\<rparr> else st)"

definition retire_job_backed :: "string \<Rightarrow> registry_inner \<Rightarrow> registry_inner" where
  "retire_job_backed cid st =
     fold (retire_job_request_locked cid)
       (map fst (filter (\<lambda>(_, p). pr_client_id p = cid \<and> pr_job_id p \<noteq> None) (pending_by_id st))) st"

definition reconcile_disconnect_checked ::
    "int \<Rightarrow> string \<Rightarrow> string \<Rightarrow> string option \<Rightarrow> runner_transport option \<Rightarrow> registry_inner \<Rightarrow> registry_inner \<times> bool" where
  "reconcile_disconnect_checked now cid iid conn transport st =
     (case map_of (runners st) cid of
        None \<Rightarrow> (st, False)
      | Some r \<Rightarrow>
          if rr_runner_instance_id r \<noteq> iid \<or> conn \<noteq> None \<and> rr_connection_id r \<noteq> conn
             \<or> transport \<noteq> None \<and> Some (rr_transport r) \<noteq> transport
            then (st, False)
          else
            let st = release_notifier cid iid conn st;
                recoverable = List.member (rr_features r) ''job_state_reconciliation'';
                st = st\<lparr>runners := AList.update cid
                       (r\<lparr>last_seen := offline_last_seen now, rr_disconnected_at := Some now\<rparr>) (runners st)\<rparr>;
                affected = map fst (filter (\<lambda>(_, job). disconnect_affects cid job) (records (jobs_by_id st)));
                st = fold (disconnect_job cid now recoverable) affected st;
                st = retire_job_backed cid st
            in (resolve_disconnected_sync_requests_locked cid st, True))"

definition reconcile_polling_disconnect ::
    "int \<Rightarrow> string \<Rightarrow> string \<Rightarrow> registry_inner \<Rightarrow> registry_inner \<times> (bool, string) result" where
  "reconcile_polling_disconnect now cid iid st =
     (case and_then (validate_id cid ''client_id'') (\<lambda>_. validate_runner_instance_id iid) of
        Inl e \<Rightarrow> (st, Err e)
      | Inr _ \<Rightarrow> (case reconcile_disconnect_checked now cid iid None (Some TransportPolling) st of (st, b) \<Rightarrow> (st, Ok b)))"

section \<open>Entry points\<close>

definition register_with_auth ::
    "compact_codec \<Rightarrow> (shell_job_inventory \<Rightarrow> (string, string) result) \<Rightarrow> registration_env \<Rightarrow> runner_access option
     \<Rightarrow> runner_register_request \<Rightarrow> registry_inner \<Rightarrow> (string \<times> 'i) list \<Rightarrow> registry_inner \<times> (string \<times> 'i) list \<times> (unit, string) result" where
  "register_with_auth cc to_json env auth = register_session cc to_json env auth None"

definition update_runtime_metadata ::
    "int \<Rightarrow> string \<Rightarrow> string \<Rightarrow> string option \<Rightarrow> provider_identity list option \<Rightarrow> registry_inner \<Rightarrow> registry_inner \<times> (unit, string) result" where
  "update_runtime_metadata now cid iid = update_runtime_metadata_checked now cid iid None"

definition update_runtime_metadata_for_connection ::
    "int \<Rightarrow> string \<Rightarrow> string \<Rightarrow> string \<Rightarrow> string option \<Rightarrow> provider_identity list option \<Rightarrow> registry_inner
     \<Rightarrow> registry_inner \<times> (unit, string) result" where
  "update_runtime_metadata_for_connection now cid iid conn = update_runtime_metadata_checked now cid iid (Some conn)"

definition update_tool_providers ::
    "int \<Rightarrow> string \<Rightarrow> string \<Rightarrow> string option \<Rightarrow> registry_inner \<Rightarrow> registry_inner \<times> (unit, string) result" where
  "update_tool_providers now cid iid status = update_runtime_metadata now cid iid status None"

definition update_tool_providers_for_connection ::
    "int \<Rightarrow> string \<Rightarrow> string \<Rightarrow> string \<Rightarrow> string option \<Rightarrow> registry_inner \<Rightarrow> registry_inner \<times> (unit, string) result" where
  "update_tool_providers_for_connection now cid iid conn status = update_runtime_metadata_for_connection now cid iid conn status None"

definition reconcile_disconnect_for_connection :: "int \<Rightarrow> string \<Rightarrow> string \<Rightarrow> string \<Rightarrow> registry_inner \<Rightarrow> registry_inner" where
  "reconcile_disconnect_for_connection now cid iid conn st = fst (reconcile_disconnect_checked now cid iid (Some conn) None st)"

definition prune_expired_shared_key_runners ::
    "shared_key_registration_limits \<Rightarrow> int \<Rightarrow> registry_inner \<Rightarrow> (string \<times> 'i) list \<Rightarrow> registry_inner \<times> (string \<times> 'i) list" where
  "prune_expired_shared_key_runners limits now = prune_expired_shared_key_runners_locked limits now"

section \<open>What leaves the Runner records alone\<close>

text \<open>
  A view of the state that does not look at Jobs, requests, queues and notifiers is unchanged by every operation that only
  touches those. The Runner records themselves are such a view, and so are the leases they hold.
\<close>

named_theorems runner_frame

locale runner_view =
  fixes view :: "registry_inner \<Rightarrow> 'a"
  assumes fields: "view (st\<lparr>jobs_by_id := a\<rparr>) = view st" "view (st\<lparr>candidate_sinks := b\<rparr>) = view st"
    "view (st\<lparr>pending_by_id := c\<rparr>) = view st" "view (st\<lparr>persistent_waiters := d\<rparr>) = view st"
    "view (st\<lparr>queues_by_runner := e\<rparr>) = view st" "view (st\<lparr>request_to_job := f\<rparr>) = view st"
    "view (st\<lparr>notifiers := g\<rparr>) = view st" "view (st\<lparr>unregistering_projects := h\<rparr>) = view st"
begin

lemmas view_fields [runner_frame] = fields

lemma view_fold [runner_frame]: "(\<And>x st. view (f x st) = view st) \<Longrightarrow> view (fold f xs st) = view st"
  by (induction xs arbitrary: st) simp_all

lemma view_requests [runner_frame]:
  "view (remove_request_from_runner_queue_locked cid rid st) = view st"
  "view (take_pending_request_locked rid st) = view st"
  "view (retire_job_request_locked cid rid st) = view st"
  "view (remove_job_request_mapping cid r st) = view st"
  "view (settle_snapshot cid snapshot st) = view st"
  "view (remove_pending_request_locked rid st) = view st"
  "view (drain_request rid st) = view st"
  by (simp_all add: remove_request_from_runner_queue_locked_def take_pending_request_locked_def retire_job_request_locked_def
      remove_job_request_mapping_def settle_snapshot_def remove_pending_request_locked_def drain_request_def Let_def fields
      split: option.splits)

lemma view_job_steps [runner_frame]:
  "view (step_job jid f st) = view st"
  "view (remove_job_control_requests cid ids st) = view st"
  "view (remove_cleanup_terminal_jobs_locked st) = view st"
  "view (resolve_disconnected_sync_requests_locked cid st) = view st"
  "view (retire_job_backed cid st) = view st"
  "view (lose_job cid now why message e st) = view st"
  by (simp_all add: step_job_def remove_job_control_requests_def remove_cleanup_terminal_jobs_locked_def
      resolve_disconnected_sync_requests_locked_def retire_job_backed_def lose_job_def Let_def view_requests view_fold fields
      split: option.splits prod.splits)

lemma view_reconcile_steps [runner_frame]:
  "view (lose_missing_jobs cid now gone st) = view st"
  "view (terminate_instance_jobs_locked cid iid replacement now st) = view st"
  "view (fst (expire_recovering_jobs_locked cf now grace cap st)) = view st"
  "view (disconnect_job cid now b jid st) = view st"
  "view (release_notifier cid iid conn st) = view st"
  by (simp_all add: lose_missing_jobs_def terminate_instance_jobs_locked_def expire_recovering_jobs_locked_def
      disconnect_job_def release_notifier_def Let_def view_requests view_job_steps view_fold fields
      split_beta split: option.splits)

lemma view_reconcile_snapshot:
  "reconcile_snapshot src now s (st, sm) = Ok (st', sm') \<Longrightarrow> view st' = view st"
  by (auto simp: reconcile_snapshot_def rust_ok Let_def view_requests view_job_steps fields split: option.splits if_splits)

lemma view_reconcile_snapshots:
  "reconcile_snapshots src now ss (st, sm) = Ok (st', sm') \<Longrightarrow> view st' = view st"
  by (induction ss arbitrary: st sm) (auto simp: rust_ok view_reconcile_snapshot)

lemma view_reconcile:
  "reconcile_inventory_locked src grace now inventory st = Ok (st', sm) \<Longrightarrow>
     view st' = view (prune_projected_structured_terminal_suppressions_locked now st)"
  by (auto simp: reconcile_inventory_locked_def Let_def rust_ok view_job_steps view_reconcile_steps dest!: view_reconcile_snapshots)

end

interpretation runner_records: runner_view runners
  by unfold_locales simp_all

text \<open>
  The leases of a state: for every Runner record its client, process and group, and the instances that were replaced.
\<close>

definition lease_of :: "runner_record \<Rightarrow> string \<times> string \<times> runner_access_group option" where
  "lease_of r = (rr_client_id r, rr_runner_instance_id r, rr_auth_group r)"

definition lease_table :: "registry_inner \<Rightarrow> (string \<times> string \<times> string \<times> runner_access_group option) list" where
  "lease_table st = map (\<lambda>(cid, r). (cid, lease_of r)) (runners st)"

definition leases :: "registry_inner \<Rightarrow> (string \<times> string \<times> string \<times> runner_access_group option) list \<times> (string \<times> string list) list" where
  "leases st = (lease_table st, retired_instances st)"

interpretation lease_view: runner_view leases
  by unfold_locales (simp_all add: leases_def lease_table_def)

lemma leases_runners: "runners st' = runners st \<Longrightarrow> retired_instances st' = retired_instances st \<Longrightarrow> leases st' = leases st"
  by (simp add: leases_def lease_table_def)

lemma leases_map [runner_frame]:
  "(\<And>r. lease_of (f r) = lease_of r) \<Longrightarrow> leases (st\<lparr>runners := map (\<lambda>(k, r). (k, f r)) (runners st)\<rparr>) = leases st"
  by (simp add: leases_def lease_table_def split_beta)

lemma table_update:
  "map_of rs cid = Some r \<Longrightarrow> lease_of r' = lease_of r \<Longrightarrow>
     map (\<lambda>(k, r). (k, lease_of r)) (AList.update cid r' rs) = map (\<lambda>(k, r). (k, lease_of r)) rs"
  by (induction rs) auto

lemma leases_update:
  "map_of (runners st) cid = Some r \<Longrightarrow> lease_of r' = lease_of r \<Longrightarrow>
     leases (st\<lparr>runners := AList.update cid r' (runners st)\<rparr>) = leases st"
  by (simp add: leases_def lease_table_def table_update)

lemma lease_of_suppressions [simp]: "lease_of (prune_suppressions now r) = lease_of r"
  by (simp add: lease_of_def prune_suppressions_def)

lemma leases_suppressions [runner_frame]:
  "leases (prune_projected_structured_terminal_suppressions_locked now st) = leases st"
  by (simp add: prune_projected_structured_terminal_suppressions_locked_def leases_map)

lemma leases_reconcile: "reconcile_inventory_locked src grace now inventory st = Ok (st', sm) \<Longrightarrow> leases st' = leases st"
  using lease_view.view_reconcile leases_suppressions by metis

lemma with_lease_leases [runner_frame]:
  "(\<And>r. lease_of (f r) = lease_of r) \<Longrightarrow> leases (fst (with_lease cid iid conn st f)) = leases st"
  by (simp add: with_lease_def leases_update split: option.splits)

lemma leases_lease_calls [runner_frame]:
  "leases (fst (touch_runner_for_connection now cid iid c st)) = leases st"
  "leases (fst (update_runtime_metadata_checked now cid iid conn tools gateways st)) = leases st"
  "leases (fst (update_job_capacity cid iid conn capacity st)) = leases st"
  "leases (fst (update_computer_session_availability now cid iid conn availability st)) = leases st"
  "leases (fst (update_computer_control_epoch cid iid conn ep st)) = leases st"
  by (simp_all add: touch_runner_for_connection_def update_runtime_metadata_checked_def update_job_capacity_def
      update_computer_session_availability_def update_computer_control_epoch_def runner_frame leases_update lease_of_def
      split: option.splits sum.splits)

lemma leases_disconnect [runner_frame]:
  "leases (fst (reconcile_disconnect_checked now cid iid conn transport st)) = leases st"
proof (cases "map_of (runners st) cid")
  case (Some r)
  let ?st = "release_notifier cid iid conn st"
  have "map_of (runners ?st) cid = Some r" using Some by (simp add: release_notifier_def split: option.splits)
  then have "leases (?st\<lparr>runners := AList.update cid (r\<lparr>last_seen := offline_last_seen now, rr_disconnected_at := Some now\<rparr>) (runners ?st)\<rparr>)
      = leases st"
    by (subst leases_update) (simp_all add: runner_frame lease_of_def)
  then show ?thesis using Some by (simp add: reconcile_disconnect_checked_def Let_def runner_frame)
qed (simp add: reconcile_disconnect_checked_def)

lemma lease_of_updates [simp]:
  "lease_of (r\<lparr>rr_projects := ps\<rparr>) = lease_of r" "lease_of (r\<lparr>rr_inventory := iv\<rparr>) = lease_of r"
  "lease_of (r\<lparr>last_seen := t\<rparr>) = lease_of r"
  by (simp_all add: lease_of_def)

lemma lease_of_staging [simp]:
  "lease_of (clear_staging code now r) = lease_of r" "lease_of (expire_staging now r) = lease_of r"
  "lease_of (fail_current_staging c now r) = lease_of r" "lease_of (note_nonfatal_error c r) = lease_of r"
  "lease_of (reconcile_dynamic_projection now r) = lease_of r" "lease_of (store_page now page b d s r) = lease_of r"
  by (simp_all add: clear_staging_def expire_staging_def fail_current_staging_def note_nonfatal_error_def
      reconcile_dynamic_projection_def store_page_def Let_def)

lemma lease_of_receive [simp]: "lease_of (receive_page codec now conc page r) = lease_of r"
proof -
  have s: "lease_of (stage_page now page b d r) = lease_of r" for b d r
    by (simp add: stage_page_def extend_staging_def Let_def split: option.split)
  show ?thesis by (simp add: receive_page_def apply_page_def apply_valid_page_def s Let_def split: sum.split prod.split)
qed

lemma leases_projects [runner_frame]:
  "leases (fst (apply_project_inventory_page_checked codec now cid iid conn page st)) = leases st"
  "leases (fst (upsert_runner_project_for_instance codec now cid iid project st)) = leases st"
  "leases (fst (remove_runner_project_for_instance now cid iid pid st)) = leases st"
proof -
  have e: "leases (st\<lparr>runners := map (\<lambda>(k, r). (k, expire_staging now r)) (runners st)\<rparr>) = leases st" by (simp add: leases_map)
  have "leases (st\<lparr>runners := AList.update cid r' (map (\<lambda>(k, r). (k, expire_staging now r)) (runners st))\<rparr>) = leases st"
    if "map_of (map (\<lambda>(k, r). (k, expire_staging now r)) (runners st)) cid = Some r" "lease_of r' = lease_of r" for r r'
    using leases_update [of "st\<lparr>runners := map (\<lambda>(k, r). (k, expire_staging now r)) (runners st)\<rparr>" cid r r'] that e by simp
  with e show "leases (fst (apply_project_inventory_page_checked codec now cid iid conn page st)) = leases st"
    by (simp add: apply_project_inventory_page_checked_def Let_def split: sum.split option.split)
  show "leases (fst (upsert_runner_project_for_instance codec now cid iid project st)) = leases st"
    "leases (fst (remove_runner_project_for_instance now cid iid pid st)) = leases st"
    by (simp_all add: upsert_runner_project_for_instance_def remove_runner_project_for_instance_def Let_def
        with_instance_def leases_update split: sum.split option.split)
qed

lemma leases_update_job [runner_frame]: "leases (fst (update_job_checked hash enc now u conn st)) = leases st"
proof -
  have l: "leases (refresh_liveness now cid conn st) = leases st" for cid
    by (simp add: refresh_liveness_def leases_update split: option.split)
  have s: "leases (settle_update jid job st) = leases st" for jid job st
    by (simp add: settle_update_def Let_def runner_frame split: option.split)
  show ?thesis by (simp add: update_job_checked_def Let_def l s runner_frame split: sum.split option.split)
qed

section \<open>One lease per Runner\<close>

text \<open>
  Every record is stored under its own client, no active process is among the replaced ones, and the replaced ones
  are distinct and bounded in number.
\<close>

definition lease_inv :: "registry_inner \<Rightarrow> bool" where
  "lease_inv st \<longleftrightarrow> distinct (map fst (runners st))
     \<and> (\<forall>cid r. (cid, r) \<in> set (runners st) \<longrightarrow> rr_client_id r = cid \<and> rr_runner_instance_id r \<notin> set (retired_of st cid))
     \<and> (\<forall>cid. distinct (retired_of st cid) \<and> length (retired_of st cid) \<le> MAX_RETIRED_INSTANCES_PER_RUNNER)"

text \<open>The groups of the registered Runners, and the limits on them.\<close>

definition groups :: "registry_inner \<Rightarrow> runner_access_group option list" where
  "groups st = map (\<lambda>(_, r). rr_auth_group r) (runners st)"

definition shared_group :: "runner_access_group option \<Rightarrow> bool" where
  "shared_group g = (case g of Some (SharedKey _) \<Rightarrow> True | _ \<Rightarrow> False)"

definition within_limits :: "shared_key_registration_limits \<Rightarrow> registry_inner \<Rightarrow> bool" where
  "within_limits limits st \<longleftrightarrow> length (filter shared_group (groups st)) \<le> global_limit limits
     \<and> (\<forall>g. length (filter ((=) (Some (SharedKey g))) (groups st)) \<le> per_group limits)"

lemma lease_inv_table:
  "lease_inv st \<longleftrightarrow> distinct (map fst (lease_table st))
     \<and> (\<forall>cid c i g. (cid, c, i, g) \<in> set (lease_table st) \<longrightarrow> c = cid \<and> i \<notin> set (retired_of st cid))
     \<and> (\<forall>cid. distinct (retired_of st cid) \<and> length (retired_of st cid) \<le> MAX_RETIRED_INSTANCES_PER_RUNNER)"
proof -
  have "(cid, c, i, g) \<in> set (lease_table st) \<longleftrightarrow> (\<exists>r. (cid, r) \<in> set (runners st) \<and> lease_of r = (c, i, g))" for cid c i g
    by (force simp: lease_table_def image_iff)
  moreover have "map fst (lease_table st) = map fst (runners st)" by (simp add: lease_table_def split_beta comp_def)
  ultimately show ?thesis by (simp add: lease_inv_def lease_of_def) blast
qed

lemma groups_table: "groups st = map (\<lambda>(_, _, _, g). g) (lease_table st)"
  by (simp add: groups_def lease_table_def lease_of_def split_beta comp_def)

lemma lease_cong:
  assumes "leases st' = leases st"
  shows "lease_inv st' = lease_inv st" "within_limits limits st' = within_limits limits st" "retired_of st' = retired_of st"
proof -
  show r: "retired_of st' = retired_of st" using assms by (simp add: leases_def retired_of_def fun_eq_iff)
  show "lease_inv st' = lease_inv st" using assms by (simp add: lease_inv_table leases_def r)
  show "within_limits limits st' = within_limits limits st" using assms by (simp add: within_limits_def groups_table leases_def)
qed

lemma push_retired_inv:
  "distinct q \<Longrightarrow> length q \<le> MAX_RETIRED_INSTANCES_PER_RUNNER \<Longrightarrow>
     distinct (push_retired i q) \<and> length (push_retired i q) \<le> MAX_RETIRED_INSTANCES_PER_RUNNER
     \<and> set (push_retired i q) \<subseteq> insert i (set q) \<and> i \<in> set (push_retired i q)"
  by (auto simp: push_retired_def pop_front_to_def MAX_RETIRED_INSTANCES_PER_RUNNER_def dest: in_set_dropD)

lemma retired_update:
  "retired_of (st\<lparr>retired_instances := AList.update cid q (retired_instances st)\<rparr>) k = (if k = cid then q else retired_of st k)"
  by (simp add: retired_of_def update_conv')

lemma lease_table_install: "lease_table (install_lease r st) = AList.update (rr_client_id r) (lease_of r) (lease_table st)"
proof -
  have "map (\<lambda>(k, r). (k, lease_of r)) (AList.update c r rs) = AList.update c (lease_of r) (map (\<lambda>(k, r). (k, lease_of r)) rs)" for c rs
    by (induction rs) auto
  then show ?thesis by (simp add: install_lease_def lease_table_def Let_def split: option.split)
qed

lemma retired_install [simp]: "retired_of (install_lease r st) = retired_of st"
  by (simp add: install_lease_def retired_of_def Let_def fun_eq_iff split: option.split)

lemma lease_of_carry_over [simp]: "lease_of (carry_over now e r) = lease_of r"
  by (simp add: carry_over_def prune_suppressions_def lease_of_def split: option.split)

text \<open>What a committed registration does to the leases.\<close>

lemma commit_leases:
  assumes "commit_registration env body r st = Ok st'"
  shows "lease_table st' = AList.update (rr_client_id r) (lease_of r) (lease_table st)"
    "retired_of st' k = (if k = rr_client_id r \<and> (\<exists>e. map_of (runners st) k = Some e \<and> rr_runner_instance_id e \<noteq> rr_runner_instance_id r)
       then push_retired (rr_runner_instance_id (the (map_of (runners st) k))) (retired_of st k) else retired_of st k)"
proof -
  let ?cid = "rr_client_id r" and ?now = "env_now env"
  define st1 where "st1 = (case map_of (runners st) ?cid of None \<Rightarrow> st
      | Some e \<Rightarrow> if rr_runner_instance_id e = rr_runner_instance_id r then st
          else replace_instance ?now ?cid (rr_runner_instance_id e) (reg_job_inventory body) st)"
  define st2 where "st2 = install_lease (carry_over ?now (map_of (runners st1) ?cid) r) st1"
  have l: "leases st' = leases st2"
    using assms unfolding commit_registration_def Let_def st1_def [symmetric] st2_def [symmetric]
    by (auto simp: rust_ok dest!: leases_reconcile split: option.splits)
  have ci: "rr_client_id (carry_over ?now (map_of (runners st1) ?cid) r) = ?cid"
    using lease_of_carry_over by (simp add: lease_of_def)
  have rep: "leases (replace_instance ?now ?cid i inv st) = (lease_table st, AList.update ?cid (push_retired i (retired_of st ?cid)) (retired_instances st))"
    for i inv
  proof -
    have l: "leases (resolve_disconnected_sync_requests_locked ?cid (terminate_instance_jobs_locked ?cid i inv ?now st)) = leases st"
      by (simp add: runner_frame)
    show ?thesis using l lease_cong(3) [OF l]
      by (auto simp: replace_instance_def Let_def leases_def lease_table_def)
  qed
  have t1: "lease_table st1 = lease_table st"
    using rep by (auto simp: st1_def leases_def split: option.split)
  show "lease_table st' = AList.update ?cid (lease_of r) (lease_table st)"
    using l lease_table_install [of "carry_over ?now (map_of (runners st1) ?cid) r" st1] t1
    by (simp add: leases_def st2_def ci)
  have "retired_of st1 k = (if k = ?cid \<and> (\<exists>e. map_of (runners st) k = Some e \<and> rr_runner_instance_id e \<noteq> rr_runner_instance_id r)
       then push_retired (rr_runner_instance_id (the (map_of (runners st) k))) (retired_of st k) else retired_of st k)"
    using rep by (auto simp: st1_def leases_def retired_of_def update_conv' split: option.split)
  then show "retired_of st' k = (if k = ?cid \<and> (\<exists>e. map_of (runners st) k = Some e \<and> rr_runner_instance_id e \<noteq> rr_runner_instance_id r)
       then push_retired (rr_runner_instance_id (the (map_of (runners st) k))) (retired_of st k) else retired_of st k)"
    using lease_cong(3) [OF l] by (simp add: st2_def)
qed

lemma admitted_fresh:
  "admit_registration env body r st = Ok () \<Longrightarrow> rr_runner_instance_id r \<notin> set (retired_of st (rr_client_id r))"
  by (simp add: admit_registration_def Let_def rust_ok)

lemma set_update_distinct:
  "distinct (map fst xs) \<Longrightarrow> set (AList.update k v xs) = insert (k, v) {p \<in> set xs. fst p \<noteq> k}"
  by (induction xs) (auto simp: image_iff)

lemma register_lease_inv:
  assumes "register_locked env body r st = Ok st'" "lease_inv st"
  shows "lease_inv st'"
proof -
  let ?cid = "rr_client_id r" and ?iid = "rr_runner_instance_id r"
  have a: "admit_registration env body r st = Ok ()" and c: "commit_registration env body r st = Ok st'"
    using assms(1) by (auto simp: register_locked_def rust_ok)
  note t = assms(2) [unfolded lease_inv_table] and ct = commit_leases(1) [OF c] and cr = commit_leases(2) [OF c]
  have q: "distinct (retired_of st' k) \<and> length (retired_of st' k) \<le> MAX_RETIRED_INSTANCES_PER_RUNNER" for k
    using t push_retired_inv unfolding cr by auto
  have fresh: "?iid \<notin> set (retired_of st' ?cid)"
    using admitted_fresh [OF a] t push_retired_inv [of "retired_of st ?cid" "rr_runner_instance_id (the (map_of (runners st) ?cid))"]
    unfolding cr by auto
  have other: "retired_of st' k = retired_of st k" if "k \<noteq> ?cid" for k using that cr by simp
  have old: "c = k \<and> i \<notin> set (retired_of st k)" if "(k, c, i, g) \<in> set (lease_table st)" for k c i g
    using t that by blast
  have "c = k \<and> i \<notin> set (retired_of st' k)" if m: "(k, c, i, g) \<in> set (AList.update ?cid (lease_of r) (lease_table st))" for k c i g
  proof (cases "k = ?cid")
    case True
    then show ?thesis using m t fresh by (auto simp: set_update_distinct lease_of_def)
  next
    case False
    then show ?thesis using m t old [of k c i g] other [OF False] by (simp add: set_update_distinct)
  qed
  then show ?thesis unfolding lease_inv_table ct using q t by (auto simp: distinct_update)
qed

lemma prune_leases:
  fixes intents :: "(string \<times> 'i) list"
  defines "expired \<equiv> \<lambda>limits now st. map fst (filter (shared_key_expired (offline_ttl_secs limits) now st) (runners st))"
  shows "lease_table (fst (prune_expired_shared_key_runners_locked limits now st intents))
       = filter (\<lambda>(cid, _). cid \<notin> set (expired limits now st)) (lease_table st)"
    "retired_of (fst (prune_expired_shared_key_runners_locked limits now st intents)) k
       = (if k \<in> set (expired limits now st) then [] else retired_of st k)"
proof -
  let ?p = "fst (prune_expired_shared_key_runners_locked limits now st intents)" and ?e = "expired limits now st"
  have "lease_table ?p = filter (\<lambda>(cid, _). cid \<notin> set ?e) (lease_table st)
      \<and> retired_of ?p k = (if k \<in> set ?e then [] else retired_of st k)"
  proof (cases "?e = []")
    case True
    then show ?thesis by (simp add: prune_expired_shared_key_runners_locked_def expired_def Let_def)
  next
    case False
    define st1 where "st1 = fold (\<lambda>jid. step_job jid (mark_job_lost now SharedKeyRunnerExpired
        ''shared-key runner registration expired after being offline''))
      (map fst (filter (\<lambda>(_, job). List.member ?e (client_id job)) (records (jobs_by_id st))))
      (fold resolve_disconnected_sync_requests_locked ?e st)"
    have l: "leases st1 = leases st" by (simp add: st1_def runner_frame)
    have r: "runners ?p = filter (\<lambda>(cid, _). cid \<notin> set ?e) (runners st1)"
      "retired_instances ?p = filter (\<lambda>(cid, _). cid \<notin> set ?e) (retired_instances st1)"
      using False by (simp_all add: prune_expired_shared_key_runners_locked_def expired_def Let_def st1_def)
    have m: "map_of (filter (\<lambda>(cid, _). cid \<notin> set ?e) xs) k = (if k \<in> set ?e then None else map_of xs k)" for xs :: "(string \<times> 'c) list"
      by (induction xs) auto
    have "lease_table ?p = filter (\<lambda>(cid, _). cid \<notin> set ?e) (lease_table st1)"
      by (simp add: lease_table_def r filter_map comp_def case_prod_unfold)
    moreover have "retired_of ?p k = (if k \<in> set ?e then [] else retired_of st1 k)"
      using m [of "retired_instances st1"] by (simp add: retired_of_def r)
    ultimately show ?thesis using l lease_cong(3) [OF l] by (simp add: leases_def)
  qed
  then show "lease_table ?p = filter (\<lambda>(cid, _). cid \<notin> set ?e) (lease_table st)"
    "retired_of ?p k = (if k \<in> set ?e then [] else retired_of st k)" by blast+
qed

lemma prune_lease_inv: "lease_inv st \<Longrightarrow> lease_inv (fst (prune_expired_shared_key_runners_locked limits now st intents))"
  unfolding lease_inv_table prune_leases
  by (auto simp: distinct_map_filter)

lemma prune_within: "within_limits limits st \<Longrightarrow> within_limits limits (fst (prune_expired_shared_key_runners_locked lims now st intents))"
proof -
  have le: "length (filter Q (map f (filter P xs))) \<le> length (filter Q (map f xs))" for Q P and f :: "_ \<Rightarrow> 'b" and xs
    by (induction xs) auto
  assume "within_limits limits st"
  then show ?thesis
    unfolding within_limits_def groups_table prune_leases using le order_trans by blast
qed

lemma update_new: "map_of xs k = None \<Longrightarrow> AList.update k v xs = xs @ [(k, v)]"
  by (induction xs) (auto split: if_splits)

lemma groups_update:
  "map_of xs k = Some (c, i, g) \<Longrightarrow> map (\<lambda>(_, _, _, g). g) (AList.update k (c', i', g) xs) = map (\<lambda>(_, _, _, g). g) xs"
  by (induction xs) (auto split: if_splits)

lemma map_of_lease_table: "map_of (lease_table st) cid = map_option lease_of (map_of (runners st) cid)"
  by (simp add: lease_table_def map_of_map)

lemma count_groups:
  "length (filter (in_group g) (runners st)) = length (filter ((=) (Some (SharedKey g))) (groups st))"
  "length (filter (\<lambda>(_, r). is_shared_key r) (runners st)) = length (filter shared_group (groups st))"
proof -
  have e: "(=) (Some (SharedKey g)) \<circ> (\<lambda>(_, r). rr_auth_group r) = in_group g"
    "shared_group \<circ> (\<lambda>(_, r). rr_auth_group r) = (\<lambda>(_, r). is_shared_key r)"
    by (auto simp: in_group_def shared_group_def is_shared_key_def fun_eq_iff)
  show "length (filter (in_group g) (runners st)) = length (filter ((=) (Some (SharedKey g))) (groups st))"
    "length (filter (\<lambda>(_, r). is_shared_key r) (runners st)) = length (filter shared_group (groups st))"
    unfolding groups_def filter_map e by simp_all
qed

lemma register_within:
  assumes "register_locked env body r st = Ok st'" "within_limits (env_limits env) st"
  shows "within_limits (env_limits env) st'"
proof -
  let ?cid = "rr_client_id r" and ?g = "rr_auth_group r"
  have a: "admit_registration env body r st = Ok ()" and c: "commit_registration env body r st = Ok st'"
    using assms(1) by (auto simp: register_locked_def rust_ok)
  show ?thesis
  proof (cases "map_of (runners st) ?cid")
    case (Some e)
    then have g: "rr_auth_group e = ?g" using a by (simp add: admit_registration_def Let_def rust_ok some_invalid_def)
    have m: "map_of (lease_table st) ?cid = Some (rr_client_id e, rr_runner_instance_id e, ?g)"
      using Some g by (simp add: map_of_lease_table lease_of_def)
    have "groups st' = groups st"
      unfolding groups_table commit_leases(1) [OF c] lease_of_def using groups_update [OF m] by simp
    then show ?thesis using assms(2) by (simp add: within_limits_def)
  next
    case None
    have "groups st' = groups st @ [?g]"
      using None unfolding groups_table commit_leases(1) [OF c] by (simp add: update_new map_of_lease_table lease_of_def)
    moreover have "check_shared_key_limits (env_limits env) ?cid ?g st = Ok ()"
      using a by (simp add: admit_registration_def Let_def rust_ok)
    ultimately show ?thesis
      using assms(2) None
      by (auto simp: within_limits_def check_shared_key_limits_def count_groups shared_group_def split: option.splits
          runner_access_group.splits if_splits)
  qed
qed

lemma new_record_ids [simp]:
  "rr_client_id (new_runner_record now body auth streaming) = trim (reg_client_id body)"
  "rr_runner_instance_id (new_runner_record now body auth streaming) = trim (reg_runner_instance_id body)"
  by (simp_all add: new_runner_record_def)

lemma register_session_cases:
  assumes "register_session cc to_json env auth streaming body st intents = (st', intents', res)"
  obtains (refused) e where "st' = st" "res = Err e" "check_registration cc to_json body = Err e"
  | (rejected) e where "st' = fst (prune_expired_shared_key_runners_locked (env_limits env) (env_now env) st intents)" "res = Err e"
      "check_registration cc to_json body = Ok ()"
      "register_locked env body (new_runner_record (env_now env) body auth streaming) st' = Err e"
  | (committed) mid where "mid = fst (prune_expired_shared_key_runners_locked (env_limits env) (env_now env) st intents)" "res = Ok ()"
      "check_registration cc to_json body = Ok ()"
      "register_locked env body (new_runner_record (env_now env) body auth streaming) mid = Ok st'"
proof (cases "check_registration cc to_json body")
  case (Inl e)
  then have "st' = st" "res = Err e" using assms by (auto simp: register_session_def)
  then show ?thesis using refused Inl by blast
next
  case (Inr u)
  then show ?thesis using rejected committed assms by (auto simp: register_session_def split: sum.splits prod.splits)
qed

text \<open>
  The life of the Runner records: registrations, expiry of shared-key Runners, calls under a lease, disconnections, the
  synchronisation of projects, Job updates, and operations that touch no Runner record.
\<close>

inductive runner_history :: "shared_key_registration_limits \<Rightarrow> registry_inner \<Rightarrow> bool" for limits where
  boot: "runners st = [] \<Longrightarrow> retired_instances st = [] \<Longrightarrow> runner_history limits st"
| registered: "runner_history limits st \<Longrightarrow> env_limits env = limits \<Longrightarrow>
     register_session cc to_json env auth streaming body st (intents :: (string \<times> runner_access option) list) = (st', intents', res) \<Longrightarrow>
     runner_history limits st'"
| pruned: "runner_history limits st \<Longrightarrow>
     runner_history limits (fst (prune_expired_shared_key_runners_locked limits now st (intents :: (string \<times> runner_access option) list)))"
| touched: "runner_history limits st \<Longrightarrow> runner_history limits (fst (touch_runner_for_connection now cid iid c st))"
| metadata: "runner_history limits st \<Longrightarrow>
     runner_history limits (fst (update_runtime_metadata_checked now cid iid conn tools gateways st))"
| capacity: "runner_history limits st \<Longrightarrow> runner_history limits (fst (update_job_capacity cid iid conn cap st))"
| availability: "runner_history limits st \<Longrightarrow>
     runner_history limits (fst (update_computer_session_availability now cid iid conn a st))"
| control: "runner_history limits st \<Longrightarrow> runner_history limits (fst (update_computer_control_epoch cid iid conn ep st))"
| disconnected: "runner_history limits st \<Longrightarrow>
     runner_history limits (fst (reconcile_disconnect_checked now cid iid conn transport st))"
| paged: "runner_history limits st \<Longrightarrow>
     runner_history limits (fst (apply_project_inventory_page_checked codec now cid iid conn page st))"
| upserted: "runner_history limits st \<Longrightarrow>
     runner_history limits (fst (upsert_runner_project_for_instance codec now cid iid project st))"
| removed: "runner_history limits st \<Longrightarrow>
     runner_history limits (fst (remove_runner_project_for_instance now cid iid pid st))"
| job_updated: "runner_history limits st \<Longrightarrow> runner_history limits (fst (update_job_checked hash enc now u conn st))"
| elsewhere: "runner_history limits st \<Longrightarrow> runners st' = runners st \<Longrightarrow> retired_instances st' = retired_instances st \<Longrightarrow>
     runner_history limits st'"

lemma runner_history_inv: "runner_history limits st \<Longrightarrow> lease_inv st \<and> within_limits limits st"
proof (induction rule: runner_history.induct)
  case (boot st)
  then show ?case by (simp add: lease_inv_def within_limits_def groups_def retired_of_def)
next
  case (registered st env cc to_json auth streaming body intents st' intents' res)
  note prune = prune_lease_inv [of st "env_limits env" "env_now env" intents] prune_within [of limits st "env_limits env" "env_now env" intents]
  from registered(3) show ?case
  proof (cases rule: register_session_cases)
    case refused
    then show ?thesis using registered(4) by simp
  next
    case rejected
    then show ?thesis using registered(4) prune by simp
  next
    case (committed mid)
    then show ?thesis using registered(2,4) prune register_lease_inv [OF committed(4)] register_within [OF committed(4)] by simp
  qed
next
  case (pruned st now intents)
  then show ?case using prune_lease_inv prune_within by blast
next
  case (elsewhere st st')
  then show ?case using leases_runners lease_cong by blast
qed (simp_all add: runner_frame lease_cong(1,2) [OF leases_lease_calls(1)] lease_cong(1,2) [OF leases_lease_calls(2)]
    lease_cong(1,2) [OF leases_lease_calls(3)] lease_cong(1,2) [OF leases_lease_calls(4)] lease_cong(1,2) [OF leases_lease_calls(5)]
    lease_cong(1,2) [OF leases_disconnect] lease_cong(1,2) [OF leases_projects(1)] lease_cong(1,2) [OF leases_projects(2)]
    lease_cong(1,2) [OF leases_projects(3)] lease_cong(1,2) [OF leases_update_job])


lemma retired_not_active:
  assumes "lease_inv st" "iid \<in> set (retired_of st cid)" "map_of (runners st) cid = Some r"
  shows "rr_runner_instance_id r \<noteq> iid"
  using assms map_of_SomeD [OF assms(3)] by (auto simp: lease_inv_def)

lemma with_lease_retired:
  "lease_inv st \<Longrightarrow> iid \<in> set (retired_of st cid) \<Longrightarrow> \<exists>e. with_lease cid iid conn st f = (st, Err e)"
  by (auto simp: with_lease_def split: option.split dest: retired_not_active)

lemma with_instance_retired:
  "lease_inv st \<Longrightarrow> iid \<in> set (retired_of st cid) \<Longrightarrow> \<exists>e. with_instance cid iid st f = (st, Err e)"
  by (auto simp: with_instance_def split: option.split dest: retired_not_active)

lemma assert_active_retired:
  assumes "lease_inv st" "iid \<in> set (retired_of st cid)"
  shows "\<exists>e. assert_active_instance_locked st cid iid = Err e"
  using retired_not_active [OF assms] by (auto simp: assert_active_instance_locked_def split: option.split)

lemma update_job_retired:
  assumes "lease_inv st" "up_runner_instance_id u \<in> set (retired_of st (up_client_id u))"
  shows "\<exists>e. update_job_checked hash enc now u conn st = (st, Err e)"
  using assert_active_retired [OF assms]
  by (cases "validate_update_request u") (auto simp: update_job_checked_def Let_def)

lemma instance_of_expire [simp]: "rr_runner_instance_id (expire_staging now r) = rr_runner_instance_id r"
  using lease_of_staging(2) [of now r] by (simp add: lease_of_def)

lemma retired_calls:
  assumes inv: "lease_inv st" and retired: "iid \<in> set (retired_of st cid)"
  shows "\<exists>e. touch_runner_for_connection now cid iid c st = (st, Err e)"
    and "fst (update_runtime_metadata_checked now cid iid conn tools gateways st) = st"
    and "fst (update_job_capacity cid iid conn capacity st) = st"
    and "fst (update_computer_session_availability now cid iid conn available st) = st"
    and "fst (update_computer_control_epoch cid iid conn control_epoch st) = st"
    and "reconcile_disconnect_checked now cid iid conn transport st = (st, False)"
    and "\<exists>e. upsert_runner_project_for_instance codec now cid iid project st = (st, Err e)"
    and "\<exists>e. remove_runner_project_for_instance now cid iid pid st = (st, Err e)"
    and "\<exists>e. snd (apply_project_inventory_page_checked codec now cid iid conn page st) = Err e"
proof -
  note out = retired_not_active [OF inv retired] and lease = with_lease_retired [OF inv retired]
    and inst = with_instance_retired [OF inv retired]
  show "\<exists>e. touch_runner_for_connection now cid iid c st = (st, Err e)"
    using lease by (auto simp: touch_runner_for_connection_def split: sum.split)
  have "fst (with_lease cid iid conn st f) = st" for f using lease [of conn f] by (metis fst_conv)
  then show "fst (update_runtime_metadata_checked now cid iid conn tools gateways st) = st"
    by (simp add: update_runtime_metadata_checked_def split: sum.split)
  show "fst (update_job_capacity cid iid conn capacity st) = st"
    "fst (update_computer_session_availability now cid iid conn available st) = st"
    "fst (update_computer_control_epoch cid iid conn control_epoch st) = st"
    "reconcile_disconnect_checked now cid iid conn transport st = (st, False)"
    using out by (auto simp: update_job_capacity_def update_computer_session_availability_def
        update_computer_control_epoch_def reconcile_disconnect_checked_def split: option.split sum.split)
  show "\<exists>e. upsert_runner_project_for_instance codec now cid iid project st = (st, Err e)"
    "\<exists>e. remove_runner_project_for_instance now cid iid pid st = (st, Err e)"
    using inst by (auto simp: upsert_runner_project_for_instance_def remove_runner_project_for_instance_def split: sum.split)
  show "\<exists>e. snd (apply_project_inventory_page_checked codec now cid iid conn page st) = Err e"
    using out by (auto simp: apply_project_inventory_page_checked_def Let_def map_of_map split: sum.split option.split)
qed

lemma retired_registration:
  assumes "rr_runner_instance_id r \<in> set (retired_of st (rr_client_id r))"
  shows "\<exists>e. register_locked env body r st = Err e"
  using admitted_fresh [of env body r st] assms
  by (cases "admit_registration env body r st") (auto simp: register_locked_def)


section \<open>What a disconnection leaves behind\<close>

lemma pending_retire [simp]:
  "pending_by_id (retire_job_request_locked cid rid st) = AList.delete rid (pending_by_id st)"
  by (simp add: retire_job_request_locked_def take_pending_request_locked_def remove_request_from_runner_queue_locked_def Let_def
      split: option.split)

lemma pending_drain [simp]: "pending_by_id (drain_request rid st) = AList.delete rid (pending_by_id st)"
  by (auto simp: drain_request_def remove_pending_request_locked_def take_pending_request_locked_def
      remove_request_from_runner_queue_locked_def Let_def map_of_eq_None_iff delete_id split: option.split)

lemma pending_fold:
  "(\<And>x st. pending_by_id (f x st) = AList.delete x (pending_by_id st)) \<Longrightarrow>
     set (pending_by_id (fold f xs st)) = {e \<in> set (pending_by_id st). fst e \<notin> set xs}"
  by (induction xs arbitrary: st) (auto simp: AList.delete_eq)

lemma pending_resolve:
  "set (pending_by_id (resolve_disconnected_sync_requests_locked cid st))
     \<subseteq> {e \<in> set (pending_by_id st). \<not> (pr_job_id (snd e) = None \<and> pr_client_id (snd e) = cid)}"
  unfolding resolve_disconnected_sync_requests_locked_def pending_fold [of drain_request, OF pending_drain] by force

lemma pending_job_backed:
  "set (pending_by_id (retire_job_backed cid st))
     \<subseteq> {e \<in> set (pending_by_id st). \<not> (pr_client_id (snd e) = cid \<and> pr_job_id (snd e) \<noteq> None)}"
  unfolding retire_job_backed_def pending_fold [of "retire_job_request_locked cid", OF pending_retire] by force

lemma jobs_by_id_lease_steps [jobs_frame]:
  "jobs_by_id (drain_request rid st) = jobs_by_id st"
  "jobs_by_id (resolve_disconnected_sync_requests_locked cid st) = jobs_by_id st"
  "jobs_by_id (retire_job_backed cid st) = jobs_by_id st"
  "jobs_by_id (release_notifier cid iid conn st) = jobs_by_id st"
proof -
  show d: "jobs_by_id (drain_request rid st) = jobs_by_id st" for rid st
    by (simp add: drain_request_def remove_pending_request_locked_def jobs_frame Let_def split: option.split)
  show "jobs_by_id (resolve_disconnected_sync_requests_locked cid st) = jobs_by_id st"
    "jobs_by_id (retire_job_backed cid st) = jobs_by_id st" "jobs_by_id (release_notifier cid iid conn st) = jobs_by_id st"
    by (simp_all add: resolve_disconnected_sync_requests_locked_def retire_job_backed_def release_notifier_def d jobs_frame
        split: option.split)
qed

lemma jobs_fold_distinct:
  assumes "\<And>x st. jobs (g x st) = (jobs st)(x := map_option (fst \<circ> f) (jobs st x))" "distinct xs"
  shows "jobs (fold g xs st) jid = (if jid \<in> set xs then map_option (fst \<circ> f) (jobs st jid) else jobs st jid)"
  using assms(2) by (induction xs arbitrary: st) (auto simp: assms(1))

lemma jobs_disconnect_job:
  "jobs (disconnect_job cid now b jid st) = (jobs st)(jid := map_option (fst \<circ> disconnect_step now b) (jobs st jid))"
  using jobs_step_job [of jid "disconnect_step now b" st]
  by (simp add: disconnect_job_def Let_def jobs_def jobs_frame split: option.split)

lemma disconnect_step_lifecycle:
  assumes "disconnect_affects cid job"
  shows "lifecycle (fst (disconnect_step now b job)) = Lost
    \<or> b \<and> lifecycle job \<noteq> Queued \<and> lifecycle (fst (disconnect_step now b job)) = lifecycle job \<and> recovering (recovery (fst (disconnect_step now b job)))"
proof -
  have "lifecycle (fst (mark_job_lost now why message job)) = Lost" for why message
    using assms by (simp add: disconnect_affects_def mark_job_lost_def then_step_def notify_job_update_def
        notify_job_observation_def observe_job_terminal_def split_beta Let_def)
  moreover have "lifecycle (fst (begin_job_recovery now why job)) = lifecycle job" for why
    by (simp add: begin_job_recovery_def notify_job_update_def notify_job_observation_def Let_def)
  moreover have "lifecycle job \<noteq> Queued \<Longrightarrow> recovering (recovery (fst (begin_job_recovery now why job)))" for why
    using assms begin_job_recovery_recovering [of job now why] by (auto simp: disconnect_affects_def)
  ultimately show ?thesis by (auto simp: disconnect_step_def)
qed

text \<open>The state a disconnection computes, when the caller holds the lease.\<close>

lemma disconnect_parts:
  assumes "reconcile_disconnect_checked now cid iid conn transport st = (st', True)"
  obtains r mid affected where "map_of (runners st) cid = Some r" "rr_runner_instance_id r = iid"
    "runners mid = AList.update cid (r\<lparr>last_seen := offline_last_seen now, rr_disconnected_at := Some now\<rparr>) (runners st)"
    "jobs_by_id mid = jobs_by_id st"
    "affected = map fst (filter (\<lambda>(_, job). disconnect_affects cid job) (records (jobs_by_id st)))"
    "st' = resolve_disconnected_sync_requests_locked cid (retire_job_backed cid
       (fold (disconnect_job cid now (List.member (rr_features r) ''job_state_reconciliation'')) affected mid))"
proof (cases "map_of (runners st) cid")
  case (Some r)
  let ?mid = "(release_notifier cid iid conn st)\<lparr>runners := AList.update cid
      (r\<lparr>last_seen := offline_last_seen now, rr_disconnected_at := Some now\<rparr>) (runners st)\<rparr>"
  show ?thesis
    using assms Some that [of r ?mid] by (auto simp: reconcile_disconnect_checked_def Let_def jobs_frame runner_records.view_reconcile_steps split: if_splits)
qed (use assms in \<open>simp add: reconcile_disconnect_checked_def\<close>)

lemma offline_from:
  assumes "i64_min + 61 \<le> now" "now \<le> t" "t \<le> i64_max"
  shows "RUNNER_ONLINE_WINDOW_SECS < sat_sub_i64 t (offline_last_seen now)"
  using assms by (simp add: offline_last_seen_def sat_sub_i64_def sat_add_i64_def RUNNER_ONLINE_WINDOW_SECS_def i64_min_def i64_max_def)


section \<open>What a registration establishes\<close>

text \<open>Reconciliation only ever withdraws pending requests.\<close>

definition withdraws :: "registry_inner \<Rightarrow> registry_inner \<Rightarrow> bool" where
  "withdraws st st' \<longleftrightarrow> set (pending_by_id st') \<subseteq> set (pending_by_id st)"

lemma withdraws_trans: "withdraws a b \<Longrightarrow> withdraws b c \<Longrightarrow> withdraws a c"
  by (auto simp: withdraws_def)

lemma withdraws_pending: "pending_by_id st' = pending_by_id st \<Longrightarrow> withdraws st st'"
  by (simp add: withdraws_def)

lemma withdraws_fold: "(\<And>x st. withdraws st (f x st)) \<Longrightarrow> withdraws st (fold f xs st)"
  by (induction xs arbitrary: st) (auto intro: withdraws_trans simp: withdraws_def [of st st for st])

lemma withdraws_requests:
  "withdraws st (remove_job_request_mapping cid rid st)"
  "withdraws st (remove_job_control_requests cid ids st)"
  "withdraws st (settle_snapshot cid s st)"
  "withdraws st (lose_job cid now why message e st)"
  "withdraws st (remove_cleanup_terminal_jobs_locked st)"
proof -
  show m: "withdraws st (remove_job_request_mapping cid rid st)" for cid rid st
    by (simp add: withdraws_def remove_job_request_mapping_def Let_def set_AList_delete split: option.split)
  show "withdraws st (remove_job_control_requests cid ids st)"
    unfolding remove_job_control_requests_def Let_def by (rule withdraws_fold) (rule m)
  show "withdraws st (settle_snapshot cid s st)" using m by (simp add: settle_snapshot_def withdraws_def)
  show "withdraws st (lose_job cid now why message e st)"
    using m [of "step_job (fst e) (mark_job_lost now why message) st" cid "snd e"]
    by (simp add: lose_job_def step_job_frame split_beta withdraws_def)
  show "withdraws st (remove_cleanup_terminal_jobs_locked st)"
    by (simp add: remove_cleanup_terminal_jobs_locked_def withdraws_def)
qed

lemma withdraws_expire: "withdraws st (fst (expire_recovering_jobs_locked cf now grace cap st))"
proof -
  have s: "withdraws st (step_job jid f st)" for jid f st
    by (simp add: withdraws_pending step_job_frame)
  show ?thesis
    unfolding expire_recovering_jobs_locked_def Let_def
    by (auto intro!: withdraws_trans [OF _ withdraws_requests(5)] withdraws_trans [OF withdraws_fold withdraws_trans [OF withdraws_fold withdraws_fold]]
        withdraws_requests s simp: split_beta withdraws_pending)
qed

lemma withdraws_lose_missing: "withdraws st (lose_missing_jobs cid now gone st)"
  unfolding lose_missing_jobs_def Let_def
  by (rule withdraws_trans [OF withdraws_fold withdraws_requests(2)]) (rule withdraws_requests)

lemma withdraws_terminate: "withdraws st (terminate_instance_jobs_locked cid iid replacement now st)"
  unfolding terminate_instance_jobs_locked_def Let_def
  by (rule withdraws_trans [OF withdraws_trans [OF withdraws_fold withdraws_requests(2)] withdraws_requests(5)]) (rule withdraws_requests)

lemma withdraws_reconcile_snapshot:
  assumes "reconcile_snapshot src now s (st, sm) = Ok (st', sm')"
  shows "withdraws st st'"
proof -
  have "withdraws st (settle_snapshot cid s (step_job jid f st))" for cid jid f
    using withdraws_requests(3) [of "step_job jid f st" cid s] by (simp add: withdraws_def step_job_frame)
  moreover have "withdraws st (settle_snapshot cid s (st\<lparr>jobs_by_id := a, candidate_sinks := b\<rparr>))" for cid a b
    using withdraws_requests(3) [of "st\<lparr>jobs_by_id := a, candidate_sinks := b\<rparr>" cid s] by (simp add: withdraws_def)
  ultimately show ?thesis
    using assms by (auto simp: reconcile_snapshot_def rust_ok Let_def step_job_frame withdraws_pending split: option.splits if_splits)
qed

lemma withdraws_reconcile_snapshots:
  "reconcile_snapshots src now ss (st, sm) = Ok (st', sm') \<Longrightarrow> withdraws st st'"
  by (induction ss arbitrary: st sm)
    (auto simp: rust_ok withdraws_pending dest!: withdraws_reconcile_snapshot intro: withdraws_trans)

lemma withdraws_reconcile:
  assumes "reconcile_inventory_locked src grace now inventory st = Ok (st', sm)"
  shows "withdraws st st'"
proof -
  define st1 where "st1 = prune_projected_structured_terminal_suppressions_locked now st"
  define st2 where "st2 = fst (expire_recovering_jobs_locked (Some (src_client_id src)) now grace RECOVERY_SWEEP_PASS_CAP st1)"
  define st3 where "st3 = lose_missing_jobs (src_client_id src) now
      (missing_jobs (src_client_id src) (src_runner_instance_id src) inventory st2) st2"
  obtain st4 sm3 where 4: "reconcile_snapshots src now (inv_jobs inventory) (st3, sm3) = Ok (st4, sm)"
      "st' = remove_cleanup_terminal_jobs_locked st4"
    using assms
    by (auto simp: reconcile_inventory_locked_def Let_def rust_ok st1_def [symmetric] st2_def [symmetric] st3_def [symmetric])
  have "withdraws st st1"
    by (simp add: st1_def prune_projected_structured_terminal_suppressions_locked_def withdraws_pending)
  then show ?thesis
    using withdraws_trans withdraws_expire withdraws_lose_missing withdraws_reconcile_snapshots [OF 4(1)] withdraws_requests(5)
    unfolding st2_def st3_def 4(2) by metis
qed

lemma checked_inventory:
  assumes "check_registration cc to_json body = Ok ()" "reg_job_inventory body = Some inventory"
  shows "list_all (\<lambda>s. is_ok (from_wire (snap_status s))) (inv_jobs inventory)"
proof -
  have "check_job_inventory cc to_json body = Ok ()" using assms(1) by (simp add: check_registration_def Let_def rust_ok)
  then have "validate_job_inventory_without_project_membership cc to_json (trim (reg_client_id body)) inventory = Ok ()"
    using assms(2) by (simp add: check_job_inventory_def split: bool.splits)
  from accepted_snapshot [OF this [unfolded validate_job_inventory_without_project_membership_def]]
  show ?thesis by (fastforce simp: list_all_iff valid_snapshot_def is_ok_iff)
qed

lemma reconcile_total:
  assumes "list_all (\<lambda>s. is_ok (from_wire (snap_status s))) (inv_jobs inventory)"
  shows "\<exists>st' sm. reconcile_inventory_locked src grace now inventory st = Ok (st', sm)"
  using reconcile_snapshots_total [OF assms]
  by (auto simp: reconcile_inventory_locked_def Let_def rust_ok split_beta) (metis surj_pair)

text \<open>The two states a committed registration passes through: the old process replaced, and the new lease installed.\<close>

definition replaced_state :: "registration_env \<Rightarrow> runner_register_request \<Rightarrow> runner_record \<Rightarrow> registry_inner \<Rightarrow> registry_inner" where
  "replaced_state env body r st =
     (case map_of (runners st) (rr_client_id r) of None \<Rightarrow> st
      | Some e \<Rightarrow> if rr_runner_instance_id e = rr_runner_instance_id r then st
          else replace_instance (env_now env) (rr_client_id r) (rr_runner_instance_id e) (reg_job_inventory body) st)"

definition leased_record :: "registration_env \<Rightarrow> runner_register_request \<Rightarrow> runner_record \<Rightarrow> registry_inner \<Rightarrow> runner_record" where
  "leased_record env body r st =
     carry_over (env_now env) (map_of (runners (replaced_state env body r st)) (rr_client_id r)) r"

lemma commit_cases:
  assumes "commit_registration env body r st = Ok st'"
  shows "st' = install_lease (leased_record env body r st) (replaced_state env body r st) \<and> reg_job_inventory body = None
    \<or> (\<exists>inventory sm. reg_job_inventory body = Some inventory \<and> reconcile_inventory_locked (registration_source env r) (env_grace env)
        (env_now env) inventory (install_lease (leased_record env body r st) (replaced_state env body r st)) = Ok (st', sm))"
  using assms
  by (auto simp: commit_registration_def leased_record_def replaced_state_def Let_def rust_ok split: option.splits)

lemma commit_total:
  assumes "check_registration cc to_json body = Ok ()"
  shows "\<exists>st'. commit_registration env body r st = Ok st'"
proof (cases "reg_job_inventory body")
  case None
  then show ?thesis by (simp add: commit_registration_def Let_def)
next
  case (Some inventory)
  then show ?thesis
    using reconcile_total [OF checked_inventory [OF assms Some]]
    by (auto simp: commit_registration_def Let_def rust_ok)
qed

lemma install_lease_runners:
  "map_of (runners (install_lease r st)) (rr_client_id r) = Some r"
  "pending_by_id (install_lease r st) = pending_by_id st" "jobs_by_id (install_lease r st) = jobs_by_id st"
  by (simp_all add: install_lease_def Let_def update_conv' split: option.split)

lemma carry_over_fields:
  "rr_client_id (carry_over now e r) = rr_client_id r" "rr_runner_instance_id (carry_over now e r) = rr_runner_instance_id r"
  "rr_connection_id (carry_over now e r) = rr_connection_id r" "last_seen (carry_over now e r) = last_seen r"
  "rr_disconnected_at (carry_over now e r) = rr_disconnected_at r" "rr_auth_group (carry_over now e r) = rr_auth_group r"
  by (simp_all add: carry_over_def prune_suppressions_def split: option.split)

lemma commit_record:
  assumes "commit_registration env body r st = Ok st'"
  shows "\<exists>r'. map_of (runners st') (rr_client_id r) = Some r'
    \<and> (r' = leased_record env body r st \<or> r' = prune_suppressions (env_now env) (leased_record env body r st))"
proof -
  let ?r = "leased_record env body r st"
  have c: "rr_client_id ?r = rr_client_id r" by (simp add: leased_record_def carry_over_fields)
  show ?thesis
    using commit_cases [OF assms] install_lease_runners(1) [of ?r "replaced_state env body r st"]
    by (auto simp: c prune_projected_structured_terminal_suppressions_locked_def map_of_map dest!: runner_records.view_reconcile)
qed

lemma commit_withdraws:
  assumes "commit_registration env body r st = Ok st'"
  shows "withdraws (replaced_state env body r st) st'"
proof -
  have "withdraws (replaced_state env body r st) (install_lease r' (replaced_state env body r st))" for r'
    by (simp add: withdraws_pending install_lease_runners)
  then show ?thesis using commit_cases [OF assms] withdraws_reconcile withdraws_trans by blast
qed

lemma replaced_pending:
  assumes "map_of (runners st) (rr_client_id r) = Some e" "rr_runner_instance_id e \<noteq> rr_runner_instance_id r"
    "p \<in> set (pending_by_id (replaced_state env body r st))" "pr_client_id (snd p) = rr_client_id r"
  shows "pr_job_id (snd p) \<noteq> None"
proof -
  have "p \<in> set (pending_by_id (resolve_disconnected_sync_requests_locked (rr_client_id r)
      (terminate_instance_jobs_locked (rr_client_id r) (rr_runner_instance_id e) (reg_job_inventory body) (env_now env) st)))"
    using assms(1-3) by (simp add: replaced_state_def replace_instance_def Let_def)
  then show ?thesis using pending_resolve assms(4) by fastforce
qed

lemma commit_isolated:
  assumes "admit_registration env body r st = Ok ()" "commit_registration env body r st = Ok st'"
  shows "isolation.kept (registration_source env r) st st'"
proof (cases "keyed st")
  case True
  let ?src = "registration_source env r"
  let ?st1 = "replaced_state env body r st"
  let ?st2 = "install_lease (leased_record env body r st) ?st1"
  have cid: "src_client_id ?src = rr_client_id r" by (simp add: registration_source_def)
  have k1: "isolation.kept ?src st ?st1"
  proof -
    have "isolation.kept ?src st (replace_instance (env_now env) (rr_client_id r) i inv st)" for i inv
      by (rule isolation.kept_trans [OF isolation.kept_terminate [of ?src st i inv "env_now env"] isolation.kept_cong])
        (simp add: replace_instance_def Let_def jobs_frame cid)
    then show ?thesis by (auto simp: replaced_state_def isolation.kept_refl split: option.split)
  qed
  have k2: "isolation.kept ?src st ?st2"
    by (rule isolation.kept_trans [OF k1 isolation.kept_cong]) (simp add: install_lease_runners)
  from commit_cases [OF assms(2)] show ?thesis
  proof
    assume "\<exists>inventory sm. reg_job_inventory body = Some inventory
      \<and> reconcile_inventory_locked ?src (env_grace env) (env_now env) inventory ?st2 = Ok (st', sm)"
    then obtain inventory sm where i: "reg_job_inventory body = Some inventory"
        "reconcile_inventory_locked ?src (env_grace env) (env_now env) inventory ?st2 = Ok (st', sm)" by blast
    have "preflight_inventory_locked st (src_client_id ?src) (rr_runner_instance_id r) inventory = Ok ()"
      using assms(1) i(1) by (simp add: admit_registration_def Let_def rust_ok cid)
    then have "isolation.owned ?src (snap_job_id ` set (inv_jobs inventory)) st"
      using preflight_owned [of st ?src] by (auto simp: isolation.owned_def)
    from isolation.kept_reconcile [OF isolation.kept_owned [OF k2 True this] i(2)] show ?thesis
      by (rule isolation.kept_trans [OF k2])
  qed (use k2 in simp)
qed (simp add: isolation.kept_def)

lemma commit_foreign_jobs:
  assumes "admit_registration env body r st = Ok ()" "commit_registration env body r st = Ok st'" "keyed st"
    "client_id job \<noteq> rr_client_id r" "visibility job \<noteq> CleanupPending"
  shows "jobs st' jid = Some job \<longleftrightarrow> jobs st jid = Some job"
proof -
  have cid: "src_client_id (registration_source env r) = rr_client_id r" by (simp add: registration_source_def)
  note k = commit_isolated [OF assms(1,2), unfolded isolation.kept_def, rule_format, OF assms(3), unfolded cid]
  show ?thesis
  proof
    assume "jobs st' jid = Some job"
    then obtain j where "jobs st jid = Some j" "foreign_unchanged (rr_client_id r) j job" using k assms(4) by blast
    then show "jobs st jid = Some job" using assms(4) by (simp add: foreign_unchanged_def)
  next
    assume "jobs st jid = Some job"
    then obtain j' where "jobs st' jid = Some j'" "foreign_unchanged (rr_client_id r) job j'" using k assms(5) by blast
    then show "jobs st' jid = Some job" using assms(4) by (simp add: foreign_unchanged_def)
  qed
qed


section \<open>A sample takeover\<close>

text \<open>Two processes register for the client \<open>c1\<close>; the second replaces the first.\<close>

definition sample_registration :: "string \<Rightarrow> runner_register_request" where
  "sample_registration iid =
     \<lparr>reg_client_id = ''c1'', reg_runner_instance_id = iid, reg_display_name = None, reg_owner = Some ''ada'', reg_hostname = None,
      reg_protocol_generation = 2, reg_capabilities = V2_BASELINE_CAPABILITY_NAMES @ [''job_state_reconciliation''],
      reg_policy = None, reg_capacity_generation = 0, reg_job_concurrency_limit = Some 4,
      reg_job_inventory = Some \<lparr>active_complete = True, inv_jobs = []\<rparr>,
      reg_coding_agent_providers = None, reg_coding_agent_inventory = None, reg_host_context = None, reg_computer_session_availability = None, reg_computer_control_epoch = None\<rparr>"

definition sample_registration_env :: registration_env where
  "sample_registration_env = \<lparr>env_now = 100, env_grace = 120, env_limits = default_shared_key_limits, env_observation_epoch = ''e'',
     env_receipt_candidates = False, env_terminal_event_candidates = False\<rparr>"

definition sample_register :: "string \<Rightarrow> registry_inner \<Rightarrow> registry_inner \<times> (string \<times> runner_access option) list \<times> (unit, string) result" where
  "sample_register iid st =
     register_session sample_compact (\<lambda>_. Ok []) sample_registration_env None (Some (''k'', TransportWebSocket))
       (sample_registration iid) st []"

definition sample_first :: registry_inner where
  "sample_first = fst (sample_register ''i1'' (empty_inner\<lparr>jobs_by_id := insert_job ''c'' (sample_job ''c'' ''c2'' ''i2'' Running) empty_records\<rparr>))"

definition sample_second :: registry_inner where
  "sample_second = fst (sample_register ''i2'' sample_first)"

lemma sample_register_history:
  assumes "runner_history default_shared_key_limits st"
  shows "runner_history default_shared_key_limits (fst (sample_register iid st))"
proof -
  obtain st' intents' res where "sample_register iid st = (st', intents', res)" using prod_cases3 by blast
  moreover have "env_limits sample_registration_env = default_shared_key_limits" by (simp add: sample_registration_env_def)
  ultimately show ?thesis
    using runner_history.registered [OF assms] unfolding sample_register_def by (metis fst_conv)
qed

lemma sample_first_history: "runner_history default_shared_key_limits sample_first"
  unfolding sample_first_def by (rule sample_register_history, rule runner_history.boot) (simp_all add: empty_inner_def)

lemma sample_second_history: "runner_history default_shared_key_limits sample_second"
  unfolding sample_second_def by (rule sample_register_history [OF sample_first_history])

lemma sample_second_lease:
  "map_option rr_runner_instance_id (map_of (runners sample_second) ''c1'') = Some ''i2''"
  "retired_of sample_second ''c1'' = [''i1'']"
  by code_simp+



lemma sample_first_keyed: "keyed sample_first"
  unfolding keyed_def by code_simp


definition sample_online :: registry_inner where
  "sample_online = sample_registry_state
     \<lparr>pending_by_id := [(''req-1'', \<lparr>pr_client_id = ''c1'', pr_job_id = None, pr_operation = OpJob (JobStop ''a''), pr_fence = Unfenced,
        dispatched = True\<rparr>)]\<rparr>"


end
