(* ===== verification/Coding_Runs.thy ===== *)
theory Coding_Runs
  imports Coding_Agent "HOL-Library.Word"
begin

unbundle bit_operations_syntax

text \<open>
  The server's view of coding-agent runs (\<^verbatim>\<open>src/tool_runtime/coding_agent.rs\<close>): the table of run bindings with its merge,
  retention, loss and recording operations, and the authenticated tokens that name a position in a run's events. The hash
  map is an association list in iteration order; every operation holds the lock, so operations are sequential. SHA-256 and
  base64 are parameters.
\<close>

section \<open>The table of runs\<close>

definition SERVER_TERMINAL_RETENTION_SECS :: int where "SERVER_TERMINAL_RETENTION_SECS = 15 * 60"
definition SERVER_MAX_TERMINAL_RUNS :: nat where "SERVER_MAX_TERMINAL_RUNS = CODING_AGENT_MAX_INVENTORY_RUNS"

record server_run_binding =
  sb_authority_fingerprint :: string
  sb_client_id :: string
  sb_runner_instance_id :: string
  sb_project_id :: string
  sb_provider_id :: string
  sb_provider_instance_id :: string
  recording_session_id :: "string option"
  recorded_lifecycle_mask :: "8 word"
  sb_snapshot :: coding_agent_run_snapshot

type_synonym server_runs = "(string \<times> server_run_binding) list"

definition binding_terminal :: "server_run_binding \<Rightarrow> bool" where
  "binding_terminal b \<longleftrightarrow> run_terminal (run_state (sb_snapshot b))"

definition drop_expired_runs :: "int \<Rightarrow> server_runs \<Rightarrow> server_runs" where
  "drop_expired_runs now runs =
     (let cutoff = sat_sub_i64 now SERVER_TERMINAL_RETENTION_SECS in
      filter (\<lambda>(_, b). \<not> binding_terminal b \<or> cutoff \<le> run_updated_at (sb_snapshot b)) runs)"

definition prune_server_runs_locked :: "int \<Rightarrow> server_runs \<Rightarrow> server_runs" where
  "prune_server_runs_locked now runs =
     (let runs = drop_expired_runs now runs;
          terminals = map (\<lambda>(rid, b). (rid, run_updated_at (sb_snapshot b))) (filter (\<lambda>(_, b). binding_terminal b) runs)
      in if length terminals \<le> SERVER_MAX_TERMINAL_RUNS then runs
         else fold (\<lambda>(rid, _). AList.delete rid)
                (take (length terminals - SERVER_MAX_TERMINAL_RUNS) (sort_key snd terminals)) runs)"

definition run_matches_binding_identity :: "server_run_binding \<Rightarrow> coding_agent_run_snapshot \<Rightarrow> bool" where
  "run_matches_binding_identity b run \<longleftrightarrow>
     run_id run = run_id (sb_snapshot b) \<and> authority_fingerprint run = sb_authority_fingerprint b
     \<and> intent_fingerprint run = intent_fingerprint (sb_snapshot b) \<and> run_project_id run = sb_project_id b
     \<and> run_provider_id run = sb_provider_id b \<and> run_provider_instance_id run = sb_provider_instance_id b"

definition merge_server_run_binding_locked ::
    "server_run_binding \<Rightarrow> server_runs \<Rightarrow> server_runs \<times> (server_run_binding, string) result" where
  "merge_server_run_binding_locked incoming runs =
     (let rid = run_id (sb_snapshot incoming) in
      case map_of runs rid of
        None \<Rightarrow>
          (case validate_coding_agent_run_snapshot (sb_snapshot incoming) of
             Inl e \<Rightarrow> (runs, Err e)
           | Inr _ \<Rightarrow> (AList.update rid incoming runs, Ok incoming))
      | Some existing \<Rightarrow>
          (case merge_coding_agent_run_snapshot (sb_snapshot existing) (sb_snapshot incoming) of
             Inl e \<Rightarrow> (runs, Err e)
           | Inr Advance \<Rightarrow>
               let b = incoming\<lparr>recording_session_id := or_else (recording_session_id existing) (recording_session_id incoming),
                         recorded_lifecycle_mask := recorded_lifecycle_mask existing\<rparr>
               in (AList.update rid b runs, Ok b)
           | Inr _ \<Rightarrow>
               let b = existing\<lparr>recording_session_id := or_else (recording_session_id existing) (recording_session_id incoming)\<rparr>
               in (AList.update rid b runs, Ok b)))"

definition active_runs_for_maintenance :: "string option \<Rightarrow> server_runs \<Rightarrow> nat" where
  "active_runs_for_maintenance cid runs =
     length (filter (\<lambda>(_, b). (cid = None \<or> cid = Some (sb_client_id b)) \<and> \<not> binding_terminal b) runs)"

definition bind_run ::
    "int \<Rightarrow> string \<Rightarrow> string \<Rightarrow> coding_agent_run_snapshot \<Rightarrow> string option \<Rightarrow> server_runs
     \<Rightarrow> server_runs \<times> (server_run_binding, string) result" where
  "bind_run now cid iid run session runs =
     merge_server_run_binding_locked
       \<lparr>sb_authority_fingerprint = authority_fingerprint run, sb_client_id = cid, sb_runner_instance_id = iid,
        sb_project_id = run_project_id run, sb_provider_id = run_provider_id run,
        sb_provider_instance_id = run_provider_instance_id run, recording_session_id = session, recorded_lifecycle_mask = 0,
        sb_snapshot = run\<rparr>
       (prune_server_runs_locked now runs)"

definition lost_message :: string where
  "lost_message = ''owning Runner/provider instance was replaced while prompt outcome was uncertain; do not redispatch''"

definition mark_server_binding_lost :: "int \<Rightarrow> string \<Rightarrow> server_run_binding \<Rightarrow> (server_run_binding, string) result" where
  "mark_server_binding_lost now code b =
     (if binding_terminal b then Ok b
      else if u64_max \<le> observation_revision (sb_snapshot b) then Err ''CodingAgentRun observation revision is exhausted''
      else Ok (b\<lparr>sb_snapshot := (sb_snapshot b)
             \<lparr>run_state := RunLost, execution_state := ExecOutcomeUnknown, run_updated_at := now,
              observation_revision := observation_revision (sb_snapshot b) + 1,
              run_terminal_info := Some \<lparr>stop_reason = None, error_code = Some code, tm_message = Some lost_message,
                completed_at = now\<rparr>\<rparr>\<rparr>))"

definition mark_lost ::
    "int \<Rightarrow> int \<Rightarrow> string \<Rightarrow> string \<Rightarrow> server_runs \<Rightarrow> server_runs \<times> (server_run_binding option, string) result" where
  "mark_lost now later rid code runs =
     (let runs = prune_server_runs_locked now runs in
      case map_of runs rid of
        None \<Rightarrow> (runs, Ok None)
      | Some current \<Rightarrow>
          if binding_terminal current then (runs, Ok (Some current))
          else (case mark_server_binding_lost later code current of
              Inl e \<Rightarrow> (runs, Err e)
            | Inr lost \<Rightarrow> (case merge_server_run_binding_locked lost runs of (runs, r) \<Rightarrow> (runs, and_then r (\<lambda>b. Ok (Some b))))))"

definition merge_bound_snapshot ::
    "int \<Rightarrow> server_run_binding \<Rightarrow> coding_agent_run_snapshot \<Rightarrow> server_runs
     \<Rightarrow> server_runs \<times> (server_run_binding, string) result" where
  "merge_bound_snapshot now b run runs =
     merge_server_run_binding_locked (b\<lparr>sb_snapshot := run\<rparr>) (prune_server_runs_locked now runs)"

definition attach_recorder :: "int \<Rightarrow> string \<Rightarrow> string option \<Rightarrow> server_runs \<Rightarrow> server_runs" where
  "attach_recorder now rid session runs =
     (case session of
        None \<Rightarrow> runs
      | Some s \<Rightarrow>
          let runs = prune_server_runs_locked now runs in
          (case map_of runs rid of
             None \<Rightarrow> runs
           | Some b \<Rightarrow>
               if recording_session_id b = None then AList.update rid (b\<lparr>recording_session_id := Some s\<rparr>) runs else runs))"

fun lifecycle_evidence :: "coding_agent_run_state \<Rightarrow> 8 word \<times> string" where
  "lifecycle_evidence RunStarting = (1, ''coding_agent_started'')"
| "lifecycle_evidence RunRunning = (1, ''coding_agent_started'')"
| "lifecycle_evidence RunWaitingPermission = (2, ''coding_agent_waiting_permission'')"
| "lifecycle_evidence _ = (4, ''coding_agent_terminal'')"

definition take_lifecycle_evidence ::
    "int \<Rightarrow> string \<Rightarrow> server_runs \<Rightarrow> server_runs \<times> (string \<times> coding_agent_run_snapshot \<times> string) option" where
  "take_lifecycle_evidence now rid runs =
     (let runs = prune_server_runs_locked now runs in
      case map_of runs rid of
        None \<Rightarrow> (runs, None)
      | Some b \<Rightarrow>
          (case recording_session_id b of
             None \<Rightarrow> (runs, None)
           | Some session \<Rightarrow>
               (case lifecycle_evidence (run_state (sb_snapshot b)) of (bit', evidence) \<Rightarrow>
                  if recorded_lifecycle_mask b AND bit' \<noteq> 0 then (runs, None)
                  else (AList.update rid (b\<lparr>recorded_lifecycle_mask := recorded_lifecycle_mask b OR bit'\<rparr>) runs,
                        Some (session, sb_snapshot b, evidence)))))"

definition get_run :: "int \<Rightarrow> string \<Rightarrow> server_runs \<Rightarrow> server_runs \<times> server_run_binding option" where
  "get_run now rid runs = (let runs = prune_server_runs_locked now runs in (runs, map_of runs rid))"

section \<open>Observation tokens\<close>

definition PUBLIC_TOKEN_PREFIX :: string where "PUBLIC_TOKEN_PREFIX = ''wcar3_''"
definition PUBLIC_TOKEN_MAX_BYTES :: nat where "PUBLIC_TOKEN_MAX_BYTES = 54"
definition PUBLIC_TOKEN_EPOCH_BYTES :: nat where "PUBLIC_TOKEN_EPOCH_BYTES = 12"
definition PUBLIC_TOKEN_SEQUENCE_BYTES :: nat where "PUBLIC_TOKEN_SEQUENCE_BYTES = 8"
definition PUBLIC_TOKEN_TAG_BYTES :: nat where "PUBLIC_TOKEN_TAG_BYTES = 16"

definition PUBLIC_TOKEN_PAYLOAD_BYTES :: nat where
  "PUBLIC_TOKEN_PAYLOAD_BYTES = PUBLIC_TOKEN_EPOCH_BYTES + PUBLIC_TOKEN_SEQUENCE_BYTES + PUBLIC_TOKEN_TAG_BYTES"

type_synonym byte = "8 word"

datatype run_token_error = TokenInvalid | TokenStaleEpoch

definition str_bytes :: "string \<Rightarrow> byte list" where
  "str_bytes s = map of_char s"

text \<open>The big-endian bytes of an unsigned integer and back.\<close>

fun uint_be_bytes :: "nat \<Rightarrow> nat \<Rightarrow> byte list" where
  "uint_be_bytes 0 n = []"
| "uint_be_bytes (Suc k) n = uint_be_bytes k (n div 256) @ [of_nat n]"

definition from_be_bytes :: "byte list \<Rightarrow> nat" where
  "from_be_bytes bs = foldl (\<lambda>a b. a * 256 + unat b) 0 bs"

definition xor_bytes :: "byte list \<Rightarrow> byte list \<Rightarrow> byte list" where
  "xor_bytes xs ys = map (\<lambda>(x, y). x XOR y) (zip xs ys)"

definition hmac_pad :: "byte \<Rightarrow> byte list \<Rightarrow> byte list" where
  "hmac_pad p key = map (\<lambda>b. p XOR b) key @ replicate (64 - length key) p"

definition observation_token_hmac ::
    "(byte list \<Rightarrow> byte list) \<Rightarrow> byte list \<Rightarrow> byte list \<Rightarrow> byte list \<Rightarrow> string \<Rightarrow> byte list \<Rightarrow> byte list" where
  "observation_token_hmac sha256 key domain epoch_bytes rid extra =
     sha256 (hmac_pad 0x5C key @ sha256 (hmac_pad 0x36 key @ domain
       @ uint_be_bytes 8 (length epoch_bytes) @ epoch_bytes
       @ uint_be_bytes 8 (length rid) @ str_bytes rid
       @ uint_be_bytes 8 (length extra) @ extra))"

definition mask_domain :: "byte list" where
  "mask_domain = str_bytes (''webcodex.coding-agent.observation.sequence-mask.v3'' @ [CHR 0x00])"

definition tag_domain :: "byte list" where
  "tag_domain = str_bytes (''webcodex.coding-agent.observation.tag.v3'' @ [CHR 0x00])"

definition observation_token ::
    "(byte list \<Rightarrow> byte list) \<Rightarrow> (byte list \<Rightarrow> string) \<Rightarrow> byte list \<Rightarrow> byte list \<Rightarrow> string \<Rightarrow> nat \<Rightarrow> string" where
  "observation_token sha256 encode key epoch_bytes rid sequence =
     (let mask' = observation_token_hmac sha256 key mask_domain epoch_bytes rid [];
          masked = xor_bytes (uint_be_bytes PUBLIC_TOKEN_SEQUENCE_BYTES sequence) (take PUBLIC_TOKEN_SEQUENCE_BYTES mask');
          tag = observation_token_hmac sha256 key tag_domain epoch_bytes rid masked
      in PUBLIC_TOKEN_PREFIX @ encode (epoch_bytes @ masked @ take PUBLIC_TOKEN_TAG_BYTES tag))"

definition byte_or_zero :: "byte list \<Rightarrow> nat \<Rightarrow> byte" where
  "byte_or_zero bs i = (if i < length bs then bs ! i else 0)"

definition constant_time_eq :: "byte list \<Rightarrow> byte list \<Rightarrow> bool" where
  "constant_time_eq a b \<longleftrightarrow>
     fold (\<lambda>i diff. diff OR ucast (byte_or_zero a i XOR byte_or_zero b i)) [0..<max (length a) (length b)]
       ((of_nat (length a) :: 64 word) XOR of_nat (length b)) = 0"

definition parse_observation_token ::
    "(byte list \<Rightarrow> byte list) \<Rightarrow> (string \<Rightarrow> byte list option) \<Rightarrow> byte list \<Rightarrow> byte list \<Rightarrow> string \<Rightarrow> string
     \<Rightarrow> (nat, run_token_error) result" where
  "parse_observation_token sha256 decode key epoch_bytes rid tok =
     (if PUBLIC_TOKEN_MAX_BYTES < length tok then Err TokenInvalid
      else (case strip_prefix PUBLIC_TOKEN_PREFIX tok of
          None \<Rightarrow> Err TokenInvalid
        | Some encoded \<Rightarrow>
            if encoded = [] \<or> list_ex (\<lambda>c. 128 \<le> (of_char c :: nat)) encoded then Err TokenInvalid
            else (case decode encoded of
                None \<Rightarrow> Err TokenInvalid
              | Some bs \<Rightarrow>
                  if length bs \<noteq> PUBLIC_TOKEN_PAYLOAD_BYTES then Err TokenInvalid
                  else
                    let token_epoch = take PUBLIC_TOKEN_EPOCH_BYTES bs;
                        masked = take PUBLIC_TOKEN_SEQUENCE_BYTES (drop PUBLIC_TOKEN_EPOCH_BYTES bs);
                        tag = observation_token_hmac sha256 key tag_domain token_epoch rid masked
                    in if \<not> constant_time_eq (drop (PUBLIC_TOKEN_EPOCH_BYTES + PUBLIC_TOKEN_SEQUENCE_BYTES) bs)
                            (take PUBLIC_TOKEN_TAG_BYTES tag) then Err TokenInvalid
                       else if token_epoch \<noteq> epoch_bytes then Err TokenStaleEpoch
                       else Ok (from_be_bytes (xor_bytes masked (take PUBLIC_TOKEN_SEQUENCE_BYTES
                              (observation_token_hmac sha256 key mask_domain token_epoch rid []))))))
         )"

section \<open>The life of a run\<close>

text \<open>
  One retained observation of a run after another: the identity is fixed, the revision does not go back, a definitive end is
  final, a lost run stays terminal, and a run never starts again.
\<close>

definition definitive :: "coding_agent_run_snapshot \<Rightarrow> bool" where
  "definitive run \<longleftrightarrow> run_state run = RunCompleted \<or> run_state run = RunFailed \<or> run_state run = RunCancelled"

definition run_evolves :: "coding_agent_run_snapshot \<Rightarrow> coding_agent_run_snapshot \<Rightarrow> bool" where
  "run_evolves a b \<longleftrightarrow>
     run_id b = run_id a \<and> intent_fingerprint b = intent_fingerprint a \<and> authority_fingerprint b = authority_fingerprint a
     \<and> run_project_id b = run_project_id a \<and> run_provider_id b = run_provider_id a
     \<and> run_provider_instance_id b = run_provider_instance_id a \<and> run_created_at b = run_created_at a
     \<and> observation_revision a \<le> observation_revision b
     \<and> (observation_revision b = observation_revision a \<longrightarrow> b = a)
     \<and> (definitive a \<longrightarrow> b = a)
     \<and> (run_state a = RunLost \<longrightarrow> run_terminal (run_state b))
     \<and> (run_state a \<noteq> RunStarting \<longrightarrow> run_state b \<noteq> RunStarting)"

lemma run_evolves_refl: "run_evolves a a"
  by (simp add: run_evolves_def run_terminal_def)

lemma run_evolves_trans: "run_evolves a b \<Longrightarrow> run_evolves b c \<Longrightarrow> run_evolves a c"
  unfolding run_evolves_def definitive_def run_terminal_def by (smt (verit, best) le_antisym le_trans)

lemma merge_outcome:
  assumes "merge_coding_agent_run_snapshot stored incoming = Ok m"
  shows "validate_coding_agent_run_snapshot stored = Ok ()" "validate_coding_agent_run_snapshot incoming = Ok ()"
    "m = Advance \<Longrightarrow> run_evolves stored incoming \<and> observation_revision stored < observation_revision incoming"
    "m = ExactReplay \<Longrightarrow> incoming = stored"
proof -
  show "validate_coding_agent_run_snapshot stored = Ok ()" "validate_coding_agent_run_snapshot incoming = Ok ()"
    using assms by (auto simp: merge_coding_agent_run_snapshot_def rust_ok)
  show "m = ExactReplay \<Longrightarrow> incoming = stored"
    using assms by (auto simp: merge_coding_agent_run_snapshot_def rust_ok split: if_splits)
  show "run_evolves stored incoming \<and> observation_revision stored < observation_revision incoming" if "m = Advance"
    using assms that
    by (auto simp: merge_coding_agent_run_snapshot_def validate_coding_agent_run_identity_transition_def
        validate_coding_agent_run_transition_def run_evolves_def definitive_def rust_ok split: if_splits)
qed

text \<open>A binding keeps its recorder, and the set of lifecycle phases it has recorded only grows.\<close>

definition binding_evolves :: "server_run_binding \<Rightarrow> server_run_binding \<Rightarrow> bool" where
  "binding_evolves a b \<longleftrightarrow> run_evolves (sb_snapshot a) (sb_snapshot b)
     \<and> recorded_lifecycle_mask a AND recorded_lifecycle_mask b = recorded_lifecycle_mask a
     \<and> (\<forall>s. recording_session_id a = Some s \<longrightarrow> recording_session_id b = Some s)"

lemma binding_evolves_refl: "binding_evolves a a"
  by (simp add: binding_evolves_def run_evolves_refl)

lemma binding_evolves_trans: "binding_evolves a b \<Longrightarrow> binding_evolves b c \<Longrightarrow> binding_evolves a c"
  unfolding binding_evolves_def using run_evolves_trans by (metis and.assoc)

definition tracks :: "server_runs \<Rightarrow> server_runs \<Rightarrow> bool" where
  "tracks runs runs' \<longleftrightarrow> (\<forall>rid b. map_of runs rid = Some b \<longrightarrow> (\<exists>b'. map_of runs' rid = Some b' \<and> binding_evolves b b'))"

lemma tracks_refl: "tracks runs runs"
  by (simp add: tracks_def binding_evolves_refl)

lemma tracks_update:
  "(\<And>b. map_of runs rid = Some b \<Longrightarrow> binding_evolves b b') \<Longrightarrow> tracks runs (AList.update rid b' runs)"
  by (simp add: tracks_def update_conv' binding_evolves_refl)

lemma merge_tracks: "tracks runs (fst (merge_server_run_binding_locked incoming runs))"
proof (cases "map_of runs (run_id (sb_snapshot incoming))")
  case None
  then show ?thesis by (auto simp: merge_server_run_binding_locked_def Let_def tracks_refl intro: tracks_update split: sum.split)
next
  case (Some existing)
  show ?thesis
  proof (cases "merge_coding_agent_run_snapshot (sb_snapshot existing) (sb_snapshot incoming)")
    case (Inl e)
    then show ?thesis using Some by (simp add: merge_server_run_binding_locked_def tracks_refl)
  next
    case (Inr m)
    then show ?thesis
      using Some merge_outcome(3) [OF Inr]
      by (cases m) (auto simp: merge_server_run_binding_locked_def Let_def binding_evolves_def or_else_def run_evolves_refl
          intro!: tracks_update split: option.splits)
  qed
qed

text \<open>Every operation tracks the runs that its own retention pass leaves.\<close>

lemma operations_track:
  "tracks (prune_server_runs_locked now runs) (fst (bind_run now cid iid run session runs))"
  "tracks (prune_server_runs_locked now runs) (fst (mark_lost now later rid code runs))"
  "tracks (prune_server_runs_locked now runs) (fst (merge_bound_snapshot now b run runs))"
  "tracks (prune_server_runs_locked now runs) (fst (take_lifecycle_evidence now rid runs))"
  "tracks (prune_server_runs_locked now runs) (fst (get_run now rid runs))"
proof -
  let ?p = "prune_server_runs_locked now runs"
  show "tracks ?p (fst (bind_run now cid iid run session runs))" "tracks ?p (fst (merge_bound_snapshot now b run runs))"
    by (simp_all add: bind_run_def merge_bound_snapshot_def merge_tracks)
  show "tracks ?p (fst (mark_lost now later rid code runs))"
    using merge_tracks [of ?p] by (simp add: mark_lost_def Let_def tracks_refl split: option.split sum.split prod.split) (metis fst_conv)
  have "b AND (b OR c) = b" for b c :: "8 word" by (simp add: bit_eq_iff bit_simps)
  then show "tracks ?p (fst (take_lifecycle_evidence now rid runs))"
    by (auto simp: take_lifecycle_evidence_def Let_def tracks_refl binding_evolves_def run_evolves_refl intro!: tracks_update
        split: option.split prod.split)
  show "tracks ?p (fst (get_run now rid runs))" by (simp add: get_run_def Let_def tracks_refl)
qed

lemma attach_tracks: "session \<noteq> None \<Longrightarrow> tracks (prune_server_runs_locked now runs) (attach_recorder now rid session runs)"
  by (auto simp: attach_recorder_def Let_def tracks_refl binding_evolves_def run_evolves_refl intro!: tracks_update split: option.split)

text \<open>
  The life of one retained run: any sequence of operations on the table, as long as the retention pass each of them
  starts with still finds the run.
\<close>

definition retained :: "string \<Rightarrow> int \<Rightarrow> server_runs \<Rightarrow> bool" where
  "retained rid now runs \<longleftrightarrow> map_of (prune_server_runs_locked now runs) rid \<noteq> None"

inductive run_lifetime :: "string \<Rightarrow> server_run_binding \<Rightarrow> server_runs \<Rightarrow> bool" for rid b0 where
  born: "distinct (map fst runs) \<Longrightarrow> map_of runs rid = Some b0 \<Longrightarrow> run_lifetime rid b0 runs"
| bound: "run_lifetime rid b0 runs \<Longrightarrow> retained rid now runs \<Longrightarrow>
     run_lifetime rid b0 (fst (bind_run now cid iid run session runs))"
| marked: "run_lifetime rid b0 runs \<Longrightarrow> retained rid now runs \<Longrightarrow> run_lifetime rid b0 (fst (mark_lost now later other code runs))"
| merged: "run_lifetime rid b0 runs \<Longrightarrow> retained rid now runs \<Longrightarrow> run_lifetime rid b0 (fst (merge_bound_snapshot now b run runs))"
| attached: "run_lifetime rid b0 runs \<Longrightarrow> retained rid now runs \<Longrightarrow> run_lifetime rid b0 (attach_recorder now other session runs)"
| evidenced: "run_lifetime rid b0 runs \<Longrightarrow> retained rid now runs \<Longrightarrow>
     run_lifetime rid b0 (fst (take_lifecycle_evidence now other runs))"
| read: "run_lifetime rid b0 runs \<Longrightarrow> retained rid now runs \<Longrightarrow> run_lifetime rid b0 (fst (get_run now other runs))"

section \<open>Retention\<close>

lemma fold_delete: "fold (\<lambda>(k, _). AList.delete k) es xs = filter (\<lambda>(k, _). k \<notin> fst ` set es) xs"
  by (induction es arbitrary: xs) (auto simp: AList.delete_eq intro: filter_cong)

lemma prune_filter: "\<exists>P. prune_server_runs_locked now runs = filter P runs"
  by (auto simp: prune_server_runs_locked_def drop_expired_runs_def Let_def fold_delete)

lemma map_of_filter_distinct: "distinct (map fst xs) \<Longrightarrow> map_of (filter P xs) k = Some v \<Longrightarrow> map_of xs k = Some v"
  by (simp add: map_of_eq_Some_iff distinct_map_filter)

lemma prune_keyed: "distinct (map fst runs) \<Longrightarrow> distinct (map fst (prune_server_runs_locked now runs))"
  using prune_filter [of now runs] by (metis distinct_map_filter)

lemma prune_kept: "distinct (map fst runs) \<Longrightarrow> map_of (prune_server_runs_locked now runs) rid = Some b \<Longrightarrow> map_of runs rid = Some b"
  using prune_filter [of now runs] map_of_filter_distinct by metis

lemma operations_keyed:
  assumes "distinct (map fst runs)"
  shows "distinct (map fst (fst (bind_run now cid iid run session runs)))" "distinct (map fst (fst (mark_lost now later rid code runs)))"
    "distinct (map fst (fst (merge_bound_snapshot now b run runs)))" "distinct (map fst (attach_recorder now rid session runs))"
    "distinct (map fst (fst (take_lifecycle_evidence now rid runs)))" "distinct (map fst (fst (get_run now rid runs)))"
proof -
  have m: "distinct (map fst (fst (merge_server_run_binding_locked incoming rs)))" if "distinct (map fst rs)" for incoming rs
    using that by (auto simp: merge_server_run_binding_locked_def Let_def distinct_update split: option.split sum.split
        coding_agent_observation_merge.split)
  note p = prune_keyed [OF assms, of now]
  show "distinct (map fst (fst (bind_run now cid iid run session runs)))" "distinct (map fst (fst (merge_bound_snapshot now b run runs)))"
    using m [OF p] by (simp_all add: bind_run_def merge_bound_snapshot_def)
  show "distinct (map fst (fst (mark_lost now later rid code runs)))"
    using p m [OF p] by (simp add: mark_lost_def Let_def split: option.split sum.split prod.split) (metis fst_conv)
  show "distinct (map fst (attach_recorder now rid session runs))" "distinct (map fst (fst (take_lifecycle_evidence now rid runs)))"
    "distinct (map fst (fst (get_run now rid runs)))"
    using assms p by (simp_all add: attach_recorder_def take_lifecycle_evidence_def get_run_def Let_def distinct_update
        split: option.split prod.split)
qed

lemma tracked_once:
  assumes "distinct (map fst runs)" "retained rid now runs" "tracks (prune_server_runs_locked now runs) runs'" "map_of runs rid = Some b"
  shows "\<exists>b'. map_of runs' rid = Some b' \<and> binding_evolves b b'"
proof -
  obtain c where c: "map_of (prune_server_runs_locked now runs) rid = Some c" using assms(2) by (auto simp: retained_def)
  then have "c = b" using prune_kept [OF assms(1) c] assms(4) by simp
  then show ?thesis using assms(3) c by (auto simp: tracks_def)
qed

lemma run_lifetime_evolves:
  "run_lifetime rid b0 runs \<Longrightarrow> distinct (map fst runs) \<and> (\<exists>b. map_of runs rid = Some b \<and> binding_evolves b0 b)"
proof (induction rule: run_lifetime.induct)
  case (born runs)
  then show ?case using binding_evolves_refl by blast
next
  case (bound runs now cid iid run session)
  then show ?case using operations_keyed(1) tracked_once [OF _ _ operations_track(1)] binding_evolves_trans by meson
next
  case (marked runs now later other code)
  then show ?case using operations_keyed(2) tracked_once [OF _ _ operations_track(2)] binding_evolves_trans by meson
next
  case (merged runs now b run)
  then show ?case using operations_keyed(3) tracked_once [OF _ _ operations_track(3)] binding_evolves_trans by meson
next
  case (attached runs now other session)
  show ?case
  proof (cases session)
    case None
    then have "attach_recorder now other session runs = runs" by (simp add: attach_recorder_def)
    then show ?thesis using attached.IH by metis
  next
    case (Some s)
    have "session \<noteq> None" using Some by simp
    then show ?thesis using attached operations_keyed(4) tracked_once [OF _ _ attach_tracks] binding_evolves_trans by meson
  qed
next
  case (evidenced runs now other)
  then show ?case using operations_keyed(5) tracked_once [OF _ _ operations_track(4)] binding_evolves_trans by meson
next
  case (read runs now other)
  then show ?case using operations_keyed(6) tracked_once [OF _ _ operations_track(5)] binding_evolves_trans by meson
qed

text \<open>
  C23. Whatever the Runner reports and however the calls interleave, the server's record of a run only moves forward while it
  is retained: identity and creation time never change, the observation revision never goes back, a completed, failed or
  cancelled run is final, a lost run never becomes active again, no run returns to its start, and two different
  snapshots never share a revision.
\<close>

theorem coding_run_moves_forward:
  assumes "run_lifetime rid b0 runs"
  shows "\<exists>b. map_of runs rid = Some b \<and> run_evolves (sb_snapshot b0) (sb_snapshot b)"
  using run_lifetime_evolves [OF assms] by (auto simp: binding_evolves_def)

text \<open>
  C24. Each phase of a run (started, waiting for permission, ended) is recorded at most once: after evidence of a phase was taken, no
  later call, in the life of the run, yields evidence of that phase again, and evidence always goes to the recorder that
  was attached first.
\<close>

theorem lifecycle_evidence_once:
  assumes "distinct (map fst runs)" "take_lifecycle_evidence now rid runs = (runs1, Some (session, run, evidence))"
    "map_of runs1 rid = Some b1" "run_lifetime rid b1 runs2"
    "retained rid now' runs2" "take_lifecycle_evidence now' rid runs2 = (runs3, Some (session', run', evidence'))"
  shows "evidence' \<noteq> evidence \<and> session' = session"
proof -
  obtain b where b: "map_of (prune_server_runs_locked now runs) rid = Some b" "recording_session_id b = Some session"
      "evidence = snd (lifecycle_evidence (run_state (sb_snapshot b)))"
      "b1 = b\<lparr>recorded_lifecycle_mask := recorded_lifecycle_mask b OR fst (lifecycle_evidence (run_state (sb_snapshot b)))\<rparr>"
    using assms(2,3) by (auto simp: take_lifecycle_evidence_def Let_def update_conv' split: option.splits prod.splits if_splits)
  obtain b2 where b2: "map_of runs2 rid = Some b2" "binding_evolves b1 b2" "distinct (map fst runs2)"
    using run_lifetime_evolves [OF assms(4)] by blast
  obtain c where c: "map_of (prune_server_runs_locked now' runs2) rid = Some c" using assms(5) by (auto simp: retained_def)
  then have "c = b2" using prune_kept [OF b2(3) c] b2(1) by simp
  then have e: "recording_session_id b2 = Some session'" "evidence' = snd (lifecycle_evidence (run_state (sb_snapshot b2)))"
      "recorded_lifecycle_mask b2 AND fst (lifecycle_evidence (run_state (sb_snapshot b2))) = 0"
    using assms(6) c by (auto simp: take_lifecycle_evidence_def Let_def split: option.splits prod.splits if_splits)
  have s: "session' = session" using b2(2) b(2,4) e(1) by (simp add: binding_evolves_def)
  let ?bit = "\<lambda>b. fst (lifecycle_evidence (run_state (sb_snapshot b)))"
  have sub: "?bit b AND recorded_lifecycle_mask b2 = ?bit b"
  proof -
    have "recorded_lifecycle_mask b1 AND recorded_lifecycle_mask b2 = recorded_lifecycle_mask b1"
      using b2(2) by (simp add: binding_evolves_def)
    then show ?thesis unfolding b(4) by (simp add: bit_eq_iff bit_simps) blast
  qed
  have "?bit x \<noteq> 0" for x by (cases "run_state (sb_snapshot x)") simp_all
  moreover have "snd (lifecycle_evidence s1) = snd (lifecycle_evidence s2) \<Longrightarrow> fst (lifecycle_evidence s1) = fst (lifecycle_evidence s2)" for s1 s2
    by (cases s1; cases s2) simp_all
  ultimately have "evidence' \<noteq> evidence"
    using e(2,3) b(3) sub by (metis and.commute)
  with s show ?thesis by blast
qed

definition stamped :: "string \<times> server_run_binding \<Rightarrow> string \<times> int" where
  "stamped e = (fst e, run_updated_at (sb_snapshot (snd e)))"

definition terminals :: "server_runs \<Rightarrow> server_runs" where
  "terminals runs = filter (\<lambda>(_, b). binding_terminal b) runs"

lemma prune_cases:
  "prune_server_runs_locked now runs =
    (let kept = drop_expired_runs now runs; ts = map stamped (terminals kept);
         gone = take (length ts - SERVER_MAX_TERMINAL_RUNS) (sort_key snd ts)
     in filter (\<lambda>(rid, _). rid \<notin> fst ` set gone) kept)"
proof -
  have "(\<lambda>(rid, b). (rid, run_updated_at (sb_snapshot b))) = stamped" by (auto simp: stamped_def)
  then show ?thesis by (simp add: prune_server_runs_locked_def Let_def fold_delete terminals_def)
qed

lemma keyed_unique: "distinct (map fst xs) \<Longrightarrow> a \<in> set xs \<Longrightarrow> b \<in> set xs \<Longrightarrow> fst a = fst b \<Longrightarrow> a = b"
  by (simp add: distinct_map inj_on_def)

lemma sorted_split:
  assumes "distinct (map fst ts)" "gone = take n (sort_key snd ts)"
  shows "length (filter (\<lambda>e. fst e \<notin> fst ` set gone) ts) = length ts - n"
    and "e \<in> set gone \<Longrightarrow> k \<in> set ts \<Longrightarrow> fst k \<notin> fst ` set gone \<Longrightarrow> snd e \<le> (snd k :: int)"
proof -
  let ?s = "sort_key snd ts" and ?p = "\<lambda>e. fst e \<notin> fst ` set gone"
  have app: "?s = gone @ drop n ?s" using assms(2) by simp
  have "mset (map fst ?s) = mset (map fst ts)" by simp
  then have "distinct (map fst ?s)" using assms(1) by (metis mset_eq_imp_distinct_iff)
  then have "distinct (map fst (gone @ drop n ?s))" using app by simp
  then have d: "set (map fst gone) \<inter> set (map fst (drop n ?s)) = {}" by simp
  have "filter ?p ?s = drop n ?s"
  proof -
    have "filter ?p gone = []" by (auto simp: filter_empty_conv)
    moreover have "filter ?p (drop n ?s) = drop n ?s" using d by (auto simp: filter_id_conv)
    ultimately show ?thesis by (metis app append_Nil filter_append)
  qed
  moreover have "mset (filter ?p ?s) = mset (filter ?p ts)" by simp
  ultimately show "length (filter ?p ts) = length ts - n" by (metis length_drop length_sort size_mset)
  assume e: "e \<in> set gone" "k \<in> set ts" "?p k"
  have "k \<in> set (gone @ drop n ?s)" using e(2) app by (metis set_sort)
  then have k: "k \<in> set (drop n ?s)" using e(3) by auto
  have "sorted (map snd (gone @ drop n ?s))" using app sorted_sort_key by metis
  then show "snd e \<le> snd k" using e(1) k by (auto simp: sorted_append)
qed

text \<open>
  C25. The retention pass keeps every run that is still active, keeps no ended run beyond its retention time, and
  keeps at most the fixed number of ended runs, the most recently updated ones.
\<close>

theorem run_retention_bounded:
  assumes "distinct (map fst runs)"
  shows "length (terminals (prune_server_runs_locked now runs)) \<le> SERVER_MAX_TERMINAL_RUNS
    \<and> (\<forall>e \<in> set runs. \<not> binding_terminal (snd e) \<longrightarrow> e \<in> set (prune_server_runs_locked now runs))
    \<and> (\<forall>e \<in> set (terminals (prune_server_runs_locked now runs)).
         sat_sub_i64 now SERVER_TERMINAL_RETENTION_SECS \<le> run_updated_at (sb_snapshot (snd e))
         \<and> (\<forall>d \<in> set (drop_expired_runs now runs) - set (prune_server_runs_locked now runs).
              run_updated_at (sb_snapshot (snd d)) \<le> run_updated_at (sb_snapshot (snd e))))"
proof -
  define kept where "kept = drop_expired_runs now runs"
  define ts where "ts = map stamped (terminals kept)"
  define gone where "gone = take (length ts - SERVER_MAX_TERMINAL_RUNS) (sort_key snd ts)"
  have p: "prune_server_runs_locked now runs = filter (\<lambda>e. fst e \<notin> fst ` set gone) kept"
    unfolding prune_cases Let_def kept_def [symmetric] ts_def [symmetric] gone_def [symmetric] by (rule filter_cong [OF refl]) (simp only: split_beta)
  have k: "distinct (map fst kept)" using assms by (simp add: kept_def drop_expired_runs_def Let_def distinct_map_filter)
  have st: "map fst ts = map fst (terminals kept)" by (simp add: ts_def stamped_def)
  have d: "distinct (map fst ts)" unfolding st using k by (simp add: terminals_def distinct_map_filter)
  have "length (terminals (prune_server_runs_locked now runs)) = length (filter (\<lambda>e. fst e \<notin> fst ` set gone) ts)"
    by (simp add: p ts_def terminals_def filter_map comp_def stamped_def conj_commute split_beta)
  then have bound: "length (terminals (prune_server_runs_locked now runs)) \<le> SERVER_MAX_TERMINAL_RUNS"
    using sorted_split(1) [OF d gone_def] by simp
  have gs: "set gone \<subseteq> set ts" using set_take_subset [of _ "sort_key snd ts"] by (simp add: gone_def)
  have active: "e \<in> set (prune_server_runs_locked now runs)" if e: "e \<in> set runs" "\<not> binding_terminal (snd e)" for e
  proof -
    have ek: "e \<in> set kept" using e by (auto simp: kept_def drop_expired_runs_def Let_def)
    have "fst e \<notin> fst ` set gone"
    proof
      assume "fst e \<in> fst ` set gone"
      then obtain t where "t \<in> set (terminals kept)" "fst t = fst e" using gs by (force simp: ts_def stamped_def)
      then have "t = e" "binding_terminal (snd t)" using keyed_unique [OF k _ ek] by (auto simp: terminals_def)
      then show False using e(2) by simp
    qed
    then show ?thesis using ek by (simp add: p)
  qed
  have fresh: "sat_sub_i64 now SERVER_TERMINAL_RETENTION_SECS \<le> run_updated_at (sb_snapshot (snd e))
      \<and> (\<forall>d \<in> set kept - set (prune_server_runs_locked now runs).
            run_updated_at (sb_snapshot (snd d)) \<le> run_updated_at (sb_snapshot (snd e)))"
    if e: "e \<in> set (terminals (prune_server_runs_locked now runs))" for e
  proof (intro conjI ballI)
    have ek: "e \<in> set (terminals kept)" "fst e \<notin> fst ` set gone" using e by (auto simp: terminals_def p)
    then show "sat_sub_i64 now SERVER_TERMINAL_RETENTION_SECS \<le> run_updated_at (sb_snapshot (snd e))"
      by (auto simp: terminals_def kept_def drop_expired_runs_def Let_def)
    fix dd assume dd: "dd \<in> set kept - set (prune_server_runs_locked now runs)"
    then have "fst dd \<in> fst ` set gone" by (simp add: p)
    then obtain t where t: "t \<in> set (terminals kept)" "stamped t \<in> set gone" "fst t = fst dd" using gs by (force simp: ts_def stamped_def)
    then have "t = dd" using keyed_unique [OF k, of t dd] dd by (simp add: terminals_def)
    moreover have "snd (stamped t) \<le> snd (stamped e)"
      by (rule sorted_split(2) [OF d gone_def t(2)]) (use ek in \<open>simp_all add: ts_def stamped_def\<close>)
    ultimately show "run_updated_at (sb_snapshot (snd dd)) \<le> run_updated_at (sb_snapshot (snd e))" by (simp add: stamped_def)
  qed
  show ?thesis using bound active fresh unfolding kept_def [symmetric] by blast
qed

section \<open>Loss\<close>

lemma lost_snapshot_valid:
  assumes "validate_coding_agent_run_snapshot run = Ok ()"
    "validate_low_cardinality_kind code ''CodingAgentRun terminal error code'' CODING_AGENT_MAX_TERMINAL_METADATA_BYTES = Ok ()"
  shows "validate_coding_agent_run_snapshot (run\<lparr>run_state := RunLost, execution_state := ExecOutcomeUnknown, run_updated_at := now,
      observation_revision := n, run_terminal_info := Some \<lparr>stop_reason = None, error_code = Some code,
        tm_message = Some lost_message, completed_at = now\<rparr>\<rparr>) = Ok ()"
proof -
  have c: "\<not> exceeds CODING_AGENT_MAX_TERMINAL_METADATA_BYTES (Some code)"
    using assms(2) by (auto simp: validate_low_cardinality_kind_def rust_ok exceeds_def)
  have m: "\<not> exceeds CODING_AGENT_MAX_ERROR_MESSAGE_BYTES (Some lost_message)"
    by (simp add: exceeds_def lost_message_def CODING_AGENT_MAX_ERROR_MESSAGE_BYTES_def)
  have n: "\<not> exceeds CODING_AGENT_MAX_TERMINAL_METADATA_BYTES None" by (simp add: exceeds_def)
  show ?thesis
    using assms c m n by (auto simp: validate_coding_agent_run_snapshot_def rust_ok validate_terminal_metadata_def
        validate_run_state_def terminal_for_state_def Let_def)
qed

text \<open>
  A run whose owner is gone can always be marked lost: for a valid run that has not ended and whose revision counter is not
  exhausted, the call succeeds with a well-formed error code, and afterwards the run is lost with a newer revision, its
  recorder and recorded phases kept.
\<close>

theorem lost_run_recorded:
  assumes "map_of (prune_server_runs_locked now runs) rid = Some b" "run_id (sb_snapshot b) = rid" "\<not> binding_terminal b"
    "validate_coding_agent_run_snapshot (sb_snapshot b) = Ok ()" "observation_revision (sb_snapshot b) < u64_max"
    "validate_low_cardinality_kind code ''CodingAgentRun terminal error code'' CODING_AGENT_MAX_TERMINAL_METADATA_BYTES = Ok ()"
  shows "\<exists>runs' b'. mark_lost now later rid code runs = (runs', Ok (Some b')) \<and> map_of runs' rid = Some b'
    \<and> run_state (sb_snapshot b') = RunLost \<and> observation_revision (sb_snapshot b') = observation_revision (sb_snapshot b) + 1
    \<and> recording_session_id b' = recording_session_id b \<and> recorded_lifecycle_mask b' = recorded_lifecycle_mask b"
proof -
  let ?run = "sb_snapshot b" and ?runs = "prune_server_runs_locked now runs"
  define lost where "lost = ?run\<lparr>run_state := RunLost, execution_state := ExecOutcomeUnknown, run_updated_at := later,
      observation_revision := observation_revision ?run + 1, run_terminal_info := Some \<lparr>stop_reason = None, error_code = Some code,
        tm_message = Some lost_message, completed_at = later\<rparr>\<rparr>"
  have v: "validate_coding_agent_run_snapshot lost = Ok ()" unfolding lost_def by (rule lost_snapshot_valid [OF assms(4,6)])
  have ex: "execution_state ?run = ExecNotStarted \<or> execution_state ?run = ExecStarted \<or> execution_state ?run = ExecOutcomeUnknown"
    using assms(3,4) by (cases "run_state ?run")
      (auto simp: validate_coding_agent_run_snapshot_def rust_ok validate_run_state_def Let_def binding_terminal_def run_terminal_def)
  have "validate_coding_agent_run_transition ?run lost = Ok ()"
    using assms(3) ex by (auto simp: validate_coding_agent_run_transition_def rust_ok lost_def binding_terminal_def run_terminal_def
        execution_transition_valid_def)
  then have "merge_coding_agent_run_snapshot ?run lost = Ok Advance"
    using assms(4) v by (simp add: merge_coding_agent_run_snapshot_def rust_ok validate_coding_agent_run_identity_transition_def
        guard_err_def lost_def)
  moreover have "mark_server_binding_lost later code b = Ok (b\<lparr>sb_snapshot := lost\<rparr>)"
    using assms(3,5) by (simp add: mark_server_binding_lost_def lost_def)
  moreover define b' where "b' = b\<lparr>sb_snapshot := lost, recording_session_id := or_else (recording_session_id b) (recording_session_id b),
      recorded_lifecycle_mask := recorded_lifecycle_mask b\<rparr>"
  moreover have "run_id lost = rid" using assms(2) by (simp add: lost_def)
  ultimately have "mark_lost now later rid code runs = (AList.update rid b' ?runs, Ok (Some b'))"
    using assms(1,3) by (simp add: mark_lost_def Let_def merge_server_run_binding_locked_def)
  moreover have "recording_session_id b' = recording_session_id b" by (simp add: b'_def or_else_def split: option.split)
  ultimately show ?thesis by (simp add: update_conv' lost_def b'_def)
qed

section \<open>Tokens\<close>

lemma from_be_bytes_append: "from_be_bytes (bs @ [b]) = from_be_bytes bs * 256 + unat b"
  by (simp add: from_be_bytes_def)

lemma from_be_be_bytes: "from_be_bytes (uint_be_bytes k n) = n mod 256 ^ k"
proof (induction k arbitrary: n)
  case 0
  then show ?case by (simp add: from_be_bytes_def)
next
  case (Suc k)
  have "unat (of_nat n :: byte) = n mod 256" by (simp add: unat_of_nat take_bit_eq_mod)
  then show ?case
    using Suc [of "n div 256"] by (simp add: from_be_bytes_append mod_mult2_eq [of n 256 "256 ^ k"] algebra_simps)
qed

lemma length_be_bytes [simp]: "length (uint_be_bytes k n) = k"
  by (induction k arbitrary: n) simp_all

lemma xor_bytes_cancel: "length xs = length ys \<Longrightarrow> xor_bytes (xor_bytes xs ys) ys = xs"
  unfolding xor_bytes_def by (induction xs ys rule: list_induct2) (simp_all add: xor.assoc)

lemma length_xor_bytes [simp]: "length (xor_bytes xs ys) = min (length xs) (length ys)"
  by (simp add: xor_bytes_def)

lemma xor_zero_iff: "x XOR y = 0 \<longleftrightarrow> x = (y :: 'a :: len word)"
  by (auto simp: bit_eq_iff bit_simps)

lemma or_fold_zero:
  "fold (\<lambda>i d. d OR f i) is (d :: 'a :: len word) = 0 \<longleftrightarrow> d = 0 \<and> (\<forall>i \<in> set is. f i = 0)"
proof (induction "is" arbitrary: d)
  case (Cons i "is")
  have "d OR f i = 0 \<longleftrightarrow> d = 0 \<and> f i = 0" by (simp add: bit_eq_iff bit_simps) blast
  then show ?case using Cons by auto
qed simp

text \<open>The constant-time comparison decides equality.\<close>

lemma constant_time_eq_iff:
  assumes "length a < 2 ^ 64" "length b < 2 ^ 64"
  shows "constant_time_eq a b \<longleftrightarrow> a = b"
proof -
  have l: "(of_nat (length a) :: 64 word) XOR of_nat (length b) = 0 \<longleftrightarrow> length a = length b"
    using assms by (simp add: xor_zero_iff word_of_nat_eq_iff take_bit_nat_eq_self)
  have u: "(ucast (x XOR y) :: 64 word) = 0 \<longleftrightarrow> x = y" for x y :: byte
  proof -
    have "(ucast z :: 64 word) = 0 \<longleftrightarrow> z = 0" for z :: byte by transfer (simp add: take_bit_eq_mod)
    then show ?thesis by (simp add: xor_zero_iff)
  qed
  have "constant_time_eq a b \<longleftrightarrow> length a = length b \<and> (\<forall>i \<in> set [0..<max (length a) (length b)]. byte_or_zero a i = byte_or_zero b i)"
    unfolding constant_time_eq_def or_fold_zero l u ..
  also have "\<dots> \<longleftrightarrow> a = b"
  proof (cases "length a = length b")
    case True
    then have "(\<forall>i \<in> set [0..<max (length a) (length b)]. byte_or_zero a i = byte_or_zero b i) \<longleftrightarrow> (\<forall>i < length a. a ! i = b ! i)"
      by (auto simp: byte_or_zero_def)
    then show ?thesis unfolding list_eq_iff_nth_eq [of a b] using True by simp
  qed auto
  finally show ?thesis .
qed

text \<open>What the tokens rely on: SHA-256 gives 32 bytes, base64 decodes what it encoded, and 36 bytes encode to 48 ASCII characters.\<close>

definition token_codec :: "(byte list \<Rightarrow> byte list) \<Rightarrow> (byte list \<Rightarrow> string) \<Rightarrow> (string \<Rightarrow> byte list option) \<Rightarrow> bool" where
  "token_codec sha256 encode decode \<longleftrightarrow>
     (\<forall>bs. length (sha256 bs) = 32) \<and> (\<forall>bs. decode (encode bs) = Some bs)
     \<and> (\<forall>bs. length bs = PUBLIC_TOKEN_PAYLOAD_BYTES \<longrightarrow> length (encode bs) = 48)
     \<and> (\<forall>bs. list_all (\<lambda>c. (of_char c :: nat) < 128) (encode bs))"

lemma parse_encoded:
  assumes codec: "token_codec sha256 encode decode"
    and lens: "length epoch_bytes = PUBLIC_TOKEN_EPOCH_BYTES" "length masked = PUBLIC_TOKEN_SEQUENCE_BYTES" "length tag = PUBLIC_TOKEN_TAG_BYTES"
  shows "parse_observation_token sha256 decode key current rid (PUBLIC_TOKEN_PREFIX @ encode (epoch_bytes @ masked @ tag)) =
    (if tag \<noteq> take PUBLIC_TOKEN_TAG_BYTES (observation_token_hmac sha256 key tag_domain epoch_bytes rid masked) then Err TokenInvalid
     else if epoch_bytes \<noteq> current then Err TokenStaleEpoch
     else Ok (from_be_bytes (xor_bytes masked (take PUBLIC_TOKEN_SEQUENCE_BYTES
            (observation_token_hmac sha256 key mask_domain epoch_bytes rid [])))))"
proof -
  let ?bs = "epoch_bytes @ masked @ tag"
  have l: "length ?bs = PUBLIC_TOKEN_PAYLOAD_BYTES" using lens by (simp add: PUBLIC_TOKEN_PAYLOAD_BYTES_def)
  have "length (encode ?bs) = 48" using codec l by (simp add: token_codec_def)
  then have e: "encode ?bs \<noteq> []" "length (PUBLIC_TOKEN_PREFIX @ encode ?bs) = PUBLIC_TOKEN_MAX_BYTES"
    by (auto simp: PUBLIC_TOKEN_PREFIX_def PUBLIC_TOKEN_MAX_BYTES_def)
  have a: "\<not> list_ex (\<lambda>c. 128 \<le> (of_char c :: nat)) (encode ?bs)" using codec by (force simp: token_codec_def list_all_iff list_ex_iff)
  have s: "strip_prefix PUBLIC_TOKEN_PREFIX (PUBLIC_TOKEN_PREFIX @ encode ?bs) = Some (encode ?bs)" by (simp add: PUBLIC_TOKEN_PREFIX_def)
  have parts: "take PUBLIC_TOKEN_EPOCH_BYTES ?bs = epoch_bytes" "take PUBLIC_TOKEN_SEQUENCE_BYTES (drop PUBLIC_TOKEN_EPOCH_BYTES ?bs) = masked"
    "drop (PUBLIC_TOKEN_EPOCH_BYTES + PUBLIC_TOKEN_SEQUENCE_BYTES) ?bs = tag"
    using lens by simp_all
  have dec: "decode (encode ?bs) = Some ?bs" using codec by (simp add: token_codec_def)
  have t: "length (take PUBLIC_TOKEN_TAG_BYTES (observation_token_hmac sha256 key tag_domain epoch_bytes rid masked)) < 2 ^ 64"
    "length tag < 2 ^ 64"
    using lens by (simp_all add: PUBLIC_TOKEN_TAG_BYTES_def)
  show ?thesis
    unfolding parse_observation_token_def s Let_def option.case dec parts constant_time_eq_iff [OF t(2,1)]
    using e a l by simp
qed

text \<open>
  C26. The token of a position in a run's events reads back as that position for the same run, key and server epoch, and is
  refused as stale once the server runs under another epoch. A token that was altered, or that names a position in another run, is refused unless its tag
  is the one the key gives for it.
\<close>

theorem run_token_roundtrip:
  assumes "token_codec sha256 encode decode" "length epoch_bytes = PUBLIC_TOKEN_EPOCH_BYTES" "sequence < 2 ^ 64"
    "length masked = PUBLIC_TOKEN_SEQUENCE_BYTES" "length tag = PUBLIC_TOKEN_TAG_BYTES"
    "tag \<noteq> take PUBLIC_TOKEN_TAG_BYTES (observation_token_hmac sha256 key tag_domain epoch_bytes rid masked)"
  shows "parse_observation_token sha256 decode key current rid (observation_token sha256 encode key epoch_bytes rid sequence) =
      (if epoch_bytes = current then Ok sequence else Err TokenStaleEpoch)
    \<and> parse_observation_token sha256 decode key current rid (PUBLIC_TOKEN_PREFIX @ encode (epoch_bytes @ masked @ tag)) = Err TokenInvalid"
proof
  let ?mask = "take PUBLIC_TOKEN_SEQUENCE_BYTES (observation_token_hmac sha256 key mask_domain epoch_bytes rid [])"
  let ?seq = "uint_be_bytes PUBLIC_TOKEN_SEQUENCE_BYTES sequence"
  have sha: "length (observation_token_hmac sha256 key d e rid x) = 32" for d e x
    using assms(1) by (simp add: observation_token_hmac_def token_codec_def)
  have x: "xor_bytes (xor_bytes ?seq ?mask) ?mask = ?seq"
    by (rule xor_bytes_cancel) (simp add: sha PUBLIC_TOKEN_SEQUENCE_BYTES_def)
  have n: "from_be_bytes ?seq = sequence"
    using assms(3) by (simp add: from_be_be_bytes PUBLIC_TOKEN_SEQUENCE_BYTES_def)
  have l: "length (xor_bytes ?seq ?mask) = PUBLIC_TOKEN_SEQUENCE_BYTES" by (simp add: sha PUBLIC_TOKEN_SEQUENCE_BYTES_def)
  have t: "length (take PUBLIC_TOKEN_TAG_BYTES (observation_token_hmac sha256 key tag_domain epoch_bytes rid x)) = PUBLIC_TOKEN_TAG_BYTES" for x
    by (simp add: sha PUBLIC_TOKEN_TAG_BYTES_def)
  show "parse_observation_token sha256 decode key current rid (observation_token sha256 encode key epoch_bytes rid sequence) =
      (if epoch_bytes = current then Ok sequence else Err TokenStaleEpoch)"
    unfolding observation_token_def Let_def parse_encoded [OF assms(1,2) l t] x n by simp
  show "parse_observation_token sha256 decode key current rid (PUBLIC_TOKEN_PREFIX @ encode (epoch_bytes @ masked @ tag)) = Err TokenInvalid"
    unfolding parse_encoded [OF assms(1,2,4,5)] using assms(6) by simp
qed

section \<open>Observations about the code\<close>

text \<open>
  Diagnostic answers are bounded by the number of configuration options and the length of a configuration key, although a provider may declare
  twice as many environment mappings: the presence map of an admitted provider can be refused.
\<close>

lemma diagnose_env_bound_mismatch:
  assumes "CODING_AGENT_MAX_CONFIG_OPTIONS < length env_presence"
  shows "\<exists>e. validate_diagnosis r provider inst env_presence live_acp = Err e"
    and "CODING_AGENT_MAX_CONFIG_OPTIONS < CODING_AGENT_MAX_ENV_MAPPINGS"
  using assms by (simp_all add: validate_diagnosis_def guard_err_def CODING_AGENT_MAX_CONFIG_OPTIONS_def CODING_AGENT_MAX_ENV_MAPPINGS_def)

text \<open>The label the Runner projects keeps line breaks, which the check of the projection refuses.\<close>

lemma label_with_line_break_refused: "\<not> diagnostic_label_is_bounded (bounded_diagnostic_label [LF])"
  by code_simp

section \<open>A sample run\<close>

definition sample_run :: "coding_agent_run_state \<Rightarrow> coding_agent_execution_state \<Rightarrow> nat \<Rightarrow> coding_agent_terminal option \<Rightarrow> coding_agent_run_snapshot" where
  "sample_run s e n info =
     \<lparr>run_id = ''wc_agent_run_1'', intent_fingerprint = ''cafe'', authority_fingerprint = ''auth_1'', run_project_id = ''agent:c1:demo'',
      run_provider_id = ''codex'', run_provider_instance_id = ''acp_1'', run_state = s, execution_state = e, observation_revision = n,
      run_created_at = 10, run_updated_at = 1000, run_terminal_info = info\<rparr>"

definition sample_end :: "string option \<Rightarrow> string option \<Rightarrow> coding_agent_terminal" where
  "sample_end stop code = \<lparr>stop_reason = stop, error_code = code, tm_message = None, completed_at = 1000\<rparr>"

text \<open>
  Observations are compared pairwise: a run seen as started may be lost and then reported as never started, although the
  direct report is refused as a regression.
\<close>

lemma started_then_not_started:
  defines "started \<equiv> sample_run RunRunning ExecStarted 1 None"
    and "lost \<equiv> sample_run RunLost ExecOutcomeUnknown 2 (Some (sample_end None (Some ''runner_replaced'')))"
    and "never \<equiv> sample_run RunFailed ExecNotStarted 3 (Some (sample_end None (Some ''spawn_failed'')))"
  shows "merge_coding_agent_run_snapshot started lost = Ok Advance" "merge_coding_agent_run_snapshot lost never = Ok Advance"
    "\<not> is_ok (merge_coding_agent_run_snapshot started never)"
  unfolding started_def lost_def never_def by code_simp+

definition sample_bound :: server_runs where
  "sample_bound = fst (bind_run 1000 ''c1'' ''i1'' (sample_run RunRunning ExecStarted 1 None) (Some ''s1'') [])"

definition sample_ended :: server_runs where
  "sample_ended = fst (bind_run 1000 ''c1'' ''i1''
     (sample_run RunCompleted ExecCompleted 2 (Some (sample_end (Some ''end_turn'') None))) None sample_bound)"

lemma sample_bound_run:
  "map_option (\<lambda>b. run_state (sb_snapshot b)) (map_of sample_bound ''wc_agent_run_1'') = Some RunRunning"
  "distinct (map fst sample_bound)" "retained ''wc_agent_run_1'' 1000 sample_bound"
  unfolding retained_def by code_simp+

theorem coding_run_moves_forward_witness:
  "\<exists>b0 b. map_of sample_bound ''wc_agent_run_1'' = Some b0 \<and> map_of sample_ended ''wc_agent_run_1'' = Some b
     \<and> run_state (sb_snapshot b) = RunCompleted \<and> run_evolves (sb_snapshot b0) (sb_snapshot b)"
proof -
  obtain b0 where b0: "map_of sample_bound ''wc_agent_run_1'' = Some b0" using sample_bound_run(1) by blast
  have "run_lifetime ''wc_agent_run_1'' b0 sample_ended"
    unfolding sample_ended_def by (rule run_lifetime.bound [OF run_lifetime.born [OF sample_bound_run(2) b0] sample_bound_run(3)])
  from coding_run_moves_forward [OF this] obtain b where b: "map_of sample_ended ''wc_agent_run_1'' = Some b"
    "run_evolves (sb_snapshot b0) (sb_snapshot b)" by blast
  have "map_option (\<lambda>b. run_state (sb_snapshot b)) (map_of sample_ended ''wc_agent_run_1'') = Some RunCompleted" by code_simp
  then show ?thesis using b0 b by simp
qed

theorem lifecycle_evidence_once_witness:
  "\<exists>runs1 run session' run' runs3. take_lifecycle_evidence 1000 ''wc_agent_run_1'' sample_bound = (runs1, Some (''s1'', run, ''coding_agent_started''))
     \<and> take_lifecycle_evidence 1000 ''wc_agent_run_1''
          (fst (bind_run 1000 ''c1'' ''i1'' (sample_run RunCompleted ExecCompleted 2 (Some (sample_end (Some ''end_turn'') None))) (Some ''s2'') runs1))
        = (runs3, Some (session', run', ''coding_agent_terminal''))
     \<and> session' = ''s1''"
proof -
  define runs1 where "runs1 = fst (take_lifecycle_evidence 1000 ''wc_agent_run_1'' sample_bound)"
  define runs2 where "runs2 = fst (bind_run 1000 ''c1'' ''i1'' (sample_run RunCompleted ExecCompleted 2 (Some (sample_end (Some ''end_turn'') None))) (Some ''s2'') runs1)"
  have "map_option (\<lambda>(s, _, k). (s, k)) (snd (take_lifecycle_evidence 1000 ''wc_agent_run_1'' sample_bound)) = Some (''s1'', ''coding_agent_started'')"
    by code_simp
  then obtain run where t1: "take_lifecycle_evidence 1000 ''wc_agent_run_1'' sample_bound = (runs1, Some (''s1'', run, ''coding_agent_started''))"
    by (cases "take_lifecycle_evidence 1000 ''wc_agent_run_1'' sample_bound") (auto simp: runs1_def)
  have "map_of runs1 ''wc_agent_run_1'' \<noteq> None" unfolding runs1_def by code_simp
  then obtain b1 where b1: "map_of runs1 ''wc_agent_run_1'' = Some b1" by blast
  have "distinct (map fst runs1)" "retained ''wc_agent_run_1'' 1000 runs1" unfolding runs1_def retained_def by code_simp+
  then have life: "run_lifetime ''wc_agent_run_1'' b1 runs2" unfolding runs2_def by (intro run_lifetime.bound run_lifetime.born b1)
  have kept: "retained ''wc_agent_run_1'' 1000 runs2" unfolding runs2_def runs1_def retained_def by code_simp
  have "map_option (\<lambda>(s, _, k). k) (snd (take_lifecycle_evidence 1000 ''wc_agent_run_1'' runs2)) = Some ''coding_agent_terminal''"
    unfolding runs2_def runs1_def by code_simp
  then obtain session' run' runs3 where t2: "take_lifecycle_evidence 1000 ''wc_agent_run_1'' runs2 = (runs3, Some (session', run', ''coding_agent_terminal''))"
    by (cases "take_lifecycle_evidence 1000 ''wc_agent_run_1'' runs2") auto
  from lifecycle_evidence_once [OF sample_bound_run(2) t1 b1 life kept t2] have "session' = ''s1''" by blast
  then show ?thesis using t1 t2 unfolding runs2_def by blast
qed

theorem run_retention_bounded_witness:
  "length (terminals (prune_server_runs_locked 2000 sample_ended)) \<le> 128 \<and> prune_server_runs_locked 2000 sample_ended = []
   \<and> set sample_bound \<subseteq> set (prune_server_runs_locked 2000 sample_bound)"
proof -
  have d: "distinct (map fst sample_ended)" by code_simp
  have "prune_server_runs_locked 2000 sample_ended = []" by code_simp
  moreover have "list_all (\<lambda>(_, b). \<not> binding_terminal b) sample_bound" by code_simp
  then have "\<forall>e \<in> set sample_bound. \<not> binding_terminal (snd e)" unfolding list_all_iff by force
  then have "set sample_bound \<subseteq> set (prune_server_runs_locked 2000 sample_bound)"
    using run_retention_bounded [OF sample_bound_run(2), of 2000] by blast
  moreover have "length (terminals (prune_server_runs_locked 2000 sample_ended)) \<le> 128"
    using run_retention_bounded [OF d, of 2000] unfolding SERVER_MAX_TERMINAL_RUNS_def CODING_AGENT_MAX_INVENTORY_RUNS_def by blast
  ultimately show ?thesis by blast
qed

theorem lost_run_recorded_witness:
  "\<exists>runs' b'. mark_lost 1000 1001 ''wc_agent_run_1'' ''runner_replaced'' sample_bound = (runs', Ok (Some b'))
     \<and> run_state (sb_snapshot b') = RunLost \<and> observation_revision (sb_snapshot b') = 2"
proof -
  obtain b where b: "map_of (prune_server_runs_locked 1000 sample_bound) ''wc_agent_run_1'' = Some b"
    using sample_bound_run(3) by (auto simp: retained_def)
  have "map_option (\<lambda>b. (run_id (sb_snapshot b), binding_terminal b, validate_coding_agent_run_snapshot (sb_snapshot b), observation_revision (sb_snapshot b)))
      (map_of (prune_server_runs_locked 1000 sample_bound) ''wc_agent_run_1'') = Some (''wc_agent_run_1'', False, Ok (), 1)"
    by code_simp
  then have "run_id (sb_snapshot b) = ''wc_agent_run_1''" "\<not> binding_terminal b" "validate_coding_agent_run_snapshot (sb_snapshot b) = Ok ()"
    "observation_revision (sb_snapshot b) = 1" using b by simp_all
  moreover have "validate_low_cardinality_kind ''runner_replaced'' ''CodingAgentRun terminal error code'' CODING_AGENT_MAX_TERMINAL_METADATA_BYTES = Ok ()"
    by code_simp
  ultimately show ?thesis
    using lost_run_recorded [OF b, of "''runner_replaced''" 1001] by (auto simp: u64_max_def)
qed

text \<open>A codec for the sample: 36 bytes as 48 digits to base 64, anything else as marked pairs of digits to base 16.\<close>

fun digits :: "nat \<Rightarrow> nat \<Rightarrow> nat \<Rightarrow> string" where
  "digits b 0 n = []"
| "digits b (Suc k) n = digits b k (n div b) @ [char_of (n mod b)]"

definition undigits :: "nat \<Rightarrow> string \<Rightarrow> nat" where
  "undigits b s = foldl (\<lambda>a c. a * b + of_char c) 0 s"

lemma undigits_digits: "0 < b \<Longrightarrow> b \<le> 256 \<Longrightarrow> undigits b (digits b k n) = n mod b ^ k"
proof (induction k arbitrary: n)
  case 0
  then show ?case by (simp add: undigits_def)
next
  case (Suc k)
  have "n mod b < 256" using Suc.prems by (meson mod_less_divisor order_less_le_trans)
  then have "of_char (char_of (n mod b)) = n mod b" by simp
  then show ?case
    using Suc.IH [OF Suc.prems, of "n div b"] by (simp add: undigits_def mod_mult2_eq [of n b "b ^ k"] algebra_simps)
qed

lemma digits_length [simp]: "length (digits b k n) = k"
  by (induction k arbitrary: n) simp_all

lemma digits_ascii: "0 < b \<Longrightarrow> b \<le> 128 \<Longrightarrow> list_all (\<lambda>c. (of_char c :: nat) < 128) (digits b k n)"
proof (induction k arbitrary: n)
  case (Suc k)
  have "n mod b < 128" using Suc.prems by (meson mod_less_divisor order_less_le_trans)
  then have "(of_char (char_of (n mod b)) :: nat) < 128" by simp
  then show ?case using Suc by simp
qed simp

lemma from_be_bytes_less: "from_be_bytes bs < 256 ^ length bs"
proof (induction bs rule: rev_induct)
  case Nil
  then show ?case by (simp add: from_be_bytes_def)
next
  case (snoc b bs)
  have "unat b < 256" using unsigned_less [of b, where ?'a = nat] by simp
  then show ?case using snoc by (simp add: from_be_bytes_append)
qed

lemma be_from_be_bytes: "uint_be_bytes (length bs) (from_be_bytes bs) = bs"
proof (induction bs rule: rev_induct)
  case (snoc b bs)
  have u: "unat b < 256" using unsigned_less [of b, where ?'a = nat] by simp
  then have "(from_be_bytes bs * 256 + unat b) div 256 = from_be_bytes bs" by simp
  moreover have "(of_nat (from_be_bytes bs * 256 + unat b) :: byte) = b"
  proof -
    have "(256 :: byte) = 0" by code_simp
    then show ?thesis by (simp only: of_nat_add of_nat_mult of_nat_numeral unsigned_of_nat) simp
  qed
  ultimately show ?case using snoc by (simp add: from_be_bytes_append)
qed simp

definition sample_encode :: "byte list \<Rightarrow> string" where
  "sample_encode bs = (if length bs = 36 then digits 64 48 (from_be_bytes bs)
     else CHR ''#'' # digits 16 (2 * length bs) (from_be_bytes bs))"

definition sample_decode :: "string \<Rightarrow> byte list option" where
  "sample_decode s = Some (if length s = 48 then uint_be_bytes 36 (undigits 64 s) else uint_be_bytes ((length s - 1) div 2) (undigits 16 (tl s)))"

lemma sample_token_codec: "token_codec (\<lambda>_. replicate 32 0) sample_encode sample_decode"
proof -
  have p: "(16 :: nat) ^ (2 * k) = 256 ^ k" "(64 :: nat) ^ 48 = 256 ^ 36" for k by (simp_all add: power_mult)
  have "sample_decode (sample_encode bs) = Some bs" for bs
  proof (cases "length bs = 36")
    case True
    then have "undigits 64 (digits 64 48 (from_be_bytes bs)) = from_be_bytes bs"
      using from_be_bytes_less [of bs] by (simp add: undigits_digits)
    then show ?thesis using be_from_be_bytes [of bs] True by (simp add: sample_encode_def sample_decode_def)
  next
    case False
    have odd: "Suc (2 * length bs) \<noteq> 48" by presburger
    have "undigits 16 (digits 16 (2 * length bs) (from_be_bytes bs)) = from_be_bytes bs"
      using from_be_bytes_less [of bs] by (simp add: undigits_digits p)
    then show ?thesis using be_from_be_bytes [of bs] False odd by (simp add: sample_encode_def sample_decode_def)
  qed
  moreover have "list_all (\<lambda>c. (of_char c :: nat) < 128) (sample_encode bs)" for bs
    by (simp add: sample_encode_def digits_ascii)
  moreover have "length (sample_encode bs) = 48" if "length bs = 36" for bs using that by (simp add: sample_encode_def)
  ultimately show ?thesis
    by (simp add: token_codec_def PUBLIC_TOKEN_PAYLOAD_BYTES_def PUBLIC_TOKEN_EPOCH_BYTES_def PUBLIC_TOKEN_SEQUENCE_BYTES_def
        PUBLIC_TOKEN_TAG_BYTES_def)
qed

theorem run_token_roundtrip_witness:
  "parse_observation_token (\<lambda>_. replicate 32 0) sample_decode [7] (replicate 12 1) ''wc_agent_run_1''
      (observation_token (\<lambda>_. replicate 32 0) sample_encode [7] (replicate 12 1) ''wc_agent_run_1'' 41) = Ok 41
   \<and> parse_observation_token (\<lambda>_. replicate 32 0) sample_decode [7] (replicate 12 1) ''wc_agent_run_1''
      (PUBLIC_TOKEN_PREFIX @ sample_encode (replicate 12 1 @ replicate 8 0 @ replicate 16 9)) = Err TokenInvalid"
proof -
  have "length (replicate 12 (1 :: byte)) = PUBLIC_TOKEN_EPOCH_BYTES" "(41 :: nat) < 2 ^ 64"
    "length (replicate 8 (0 :: byte)) = PUBLIC_TOKEN_SEQUENCE_BYTES" "length (replicate 16 (9 :: byte)) = PUBLIC_TOKEN_TAG_BYTES"
    by (simp_all add: PUBLIC_TOKEN_EPOCH_BYTES_def PUBLIC_TOKEN_SEQUENCE_BYTES_def PUBLIC_TOKEN_TAG_BYTES_def)
  moreover have "replicate 16 (9 :: byte) \<noteq> take PUBLIC_TOKEN_TAG_BYTES
      (observation_token_hmac (\<lambda>_. replicate 32 0) [7] tag_domain (replicate 12 1) ''wc_agent_run_1'' (replicate 8 0))"
    by (simp add: observation_token_hmac_def PUBLIC_TOKEN_TAG_BYTES_def replicate_eq_replicate)
  ultimately have "parse_observation_token (\<lambda>_. replicate 32 0) sample_decode [7] (replicate 12 1) ''wc_agent_run_1''
      (observation_token (\<lambda>_. replicate 32 0) sample_encode [7] (replicate 12 1) ''wc_agent_run_1'' 41) =
        (if replicate 12 (1 :: byte) = replicate 12 1 then Ok 41 else Err TokenStaleEpoch)
    \<and> parse_observation_token (\<lambda>_. replicate 32 0) sample_decode [7] (replicate 12 1) ''wc_agent_run_1''
      (PUBLIC_TOKEN_PREFIX @ sample_encode (replicate 12 1 @ replicate 8 0 @ replicate 16 9)) = Err TokenInvalid"
    by (rule run_token_roundtrip [OF sample_token_codec])
  then show ?thesis unfolding if_P [OF refl] .
qed

end
