(* ===== verification/Spec2Isabelle.thy ===== *)
theory Spec2Isabelle
  imports Text_Edits Patch_Apply Maintenance Runner_Lease Coding_Runs
begin

text \<open>
  A verification development for \<^bold>\<open>WebCodex\<close>: the server through which a model edits files and runs commands on
  connected machines. A \<^emph>\<open>Runner\<close> process on such a machine registers with the server, polls it for requests, runs Jobs
  and reports their progress; the server keeps the state of Runners and Jobs in one in-memory \<^emph>\<open>Registry\<close> behind a mutex
  and answers its clients from it. Paths below are relative to \<^verbatim>\<open>src/crates/\<close>.

  \<^bold>\<open>Parts and theories.\<close>

  \<^item> \<^emph>\<open>Prelude\<close>: \<open>Wcx_Prelude\<close> has Rust's \<^verbatim>\<open>Result\<close> (\<open>Ok\<close>, \<open>Err\<close>, \<open>and_then\<close>), saturating 64-bit arithmetic, and the
    \<^verbatim>\<open>str\<close> operations the code uses, on UTF-8 byte strings.

  \<^item> \<^emph>\<open>Editing\<close> (\<^verbatim>\<open>webcodex-core/src/apply_edits_shared.rs\<close>, \<^verbatim>\<open>apply_patch_shared.rs\<close>): \<open>Text_Edits\<close> resolves line ranges
    and exact occurrences; \<open>Patch_Parse\<close> is the parser of the patch language; \<open>Patch_Apply\<close> positions the chunks of a
    patch tier by tier and derives the new text. The lemmas show: parsing inverts printing and accepts only well-formed patches; the
    search returns the first match of the strictest tier; the derived text is the in-order assembly of one disjoint edit
    per chunk; an exact edit resolves only to the one eligible occurrence, and every refusal is truthful.

  \<^item> \<^emph>\<open>What a Job may run\<close> (\<^verbatim>\<open>webcodex-core/src/runner_protocol/job.rs\<close>, \<^verbatim>\<open>project_validation.rs\<close>, \<^verbatim>\<open>project_build.rs\<close>,
    \<^verbatim>\<open>project_format.rs\<close>, \<^verbatim>\<open>project_operation.rs\<close>): \<open>Validation_Steps\<close>, \<open>Project_Plans\<close> and \<open>Validation_Metadata\<close> are the closed
    vocabularies of argument vectors and the metadata that must agree with them; \<open>Test_Count\<close>
    (\<^verbatim>\<open>cargo_test_count.rs\<close>) counts executed tests incrementally; \<open>Sensitive_Paths\<close> and \<open>Audit_Preview\<close> are the path
    policy and the redacted one-line summaries. The lemmas show: an argument that looks like an option is one of a closed list; the
    incremental count is that of the complete output for every chunking, in bounded memory; a secret component makes a
    path secret wherever it stands; every preview the program makes passes the check an inventory applies to it.

  \<^item> \<^emph>\<open>Jobs in the Registry\<close> (\<^verbatim>\<open>webcodex-runner-registry/src/\<close>): \<open>Job_Lifecycle\<close> (the states, \<^verbatim>\<open>runner_job_lifecycle.rs\<close> of the core),
    \<open>Job_Log\<close> (bounded streams, \<^verbatim>\<open>jobs.rs\<close>), \<open>Job_Record\<close> (\<^verbatim>\<open>state.rs\<close>), \<open>Job_Index\<close> (\<^verbatim>\<open>job_index.rs\<close>), \<open>Registry_State\<close>
    (the whole inner state, queues and admission), \<open>Access_Control\<close>, \<open>Reconciliation\<close> and
    \<open>Inventory_Validation\<close> (\<^verbatim>\<open>reconciliation.rs\<close>), \<open>Job_Update\<close> (\<^verbatim>\<open>update_job\<close> and \<^verbatim>\<open>stop_job\<close> of
    \<^verbatim>\<open>job_updates.rs\<close>). The lemmas show: a terminal Job never changes, sequences never move back, identities stay; no Runner can touch
    the Jobs of another; an accepted inventory is reconciled without a panic and completely; a Job with a validation
    plan completes only with evidence of every step; a stop takes effect; an orphaned Job is lost in time.

  \<^item> \<^emph>\<open>Observing Jobs\<close> (\<^verbatim>\<open>job_observation.rs\<close> of the core, \<^verbatim>\<open>job_updates.rs\<close>): \<open>Job_Observation\<close> (tokens and references),
    \<open>Log_Projection\<close> (bounded pages of a log), \<open>Job_View\<close> (the public view and the waiting log call). The lemmas show: tokens
    have one spelling and parse back; paging ends and reads every retained line once; a token resumes exactly
    behind the lines already received; a waiting call returns in time with a truthful answer.

  \<^item> \<^emph>\<open>Runners\<close>: \<open>Runner_Operation\<close> has the operations a request carries and the fence it is bound to
    (\<^verbatim>\<open>webcodex-core/src/runner_operation.rs\<close>, \<^verbatim>\<open>webcodex-runner-registry/src/dispatch_fence.rs\<close>); \<open>Runner_Lease\<close>
    (\<^verbatim>\<open>runners.rs\<close>) is the lease of a Runner process on its client: registration with every check, takeover from an older
    process, calls under the lease, disconnection and the expiry of shared-key Runners; \<open>Project_Summary\<close> and \<open>Project_Inventory\<close> (\<^verbatim>\<open>project_inventory.rs\<close>, \<^verbatim>\<open>projects.rs\<close>) synchronise a Runner's
    projects in pages; \<open>Maintenance\<close> (\<^verbatim>\<open>maintenance.rs\<close>) fences admission during an upgrade. The lemmas show: projects are
    published atomically, from one newer snapshot, and every announced snapshot gets through; at most eight are staged; nothing is
    running or admitted under a held maintenance lease, only its holder can change it and it survives a restart; a client has one lease, a replaced process is locked out, a
    registration that passes its checks is carried through, and a disconnection leaves no request and no active Job behind.

  \<^item> \<^emph>\<open>Coding agents\<close>: \<open>Coding_Agent\<close> (\<^verbatim>\<open>webcodex-core/src/coding_agent.rs\<close>) is the protocol of the runs a Runner owns, with the
    merge of observations; \<open>Coding_Runs\<close> (\<^verbatim>\<open>tool_runtime/coding_agent.rs\<close> of the server) is the server's table of runs and
    its authenticated tokens. The lemmas show: the record of a run only moves forward, ends are final, each phase is
    recorded once, ended runs are retained in bounded number, and tokens read back only for their run, key and epoch.

  \<^bold>\<open>How the code is represented.\<close> A struct is a record, an enum a datatype, a Rust \<^verbatim>\<open>str\<close> its UTF-8 bytes, a hash map an
  association list with distinct keys in iteration order, so that the theorems hold for every order. Every operation takes the state
  and returns it updated, with \<open>Err\<close> for each early return; one lock acquisition is one step. The clock
  and fresh identifiers are arguments. Counters whose width matters saturate or wrap as in the code (\<open>sat_add_i64\<close>,
  64-bit words for observation revisions); other times and sizes are \<open>int\<close> and \<open>nat\<close>. A panic (\<^verbatim>\<open>expect\<close>) is an error
  value, and its unreachability is part of the theorems. Loops are structural recursion or have a termination proof. The only function with
  fuel is \<open>read_pages\<close>, the client that pages through a log; one unit more than the retained lines is proved to be enough.

  \<^bold>\<open>Interfaces.\<close> The locale \<open>indexed_store\<close> (\<open>Job_Index\<close>) is a keyed store with a lazily repaired index of its live entries;
  \<open>job_preorder\<close> (\<open>Reconciliation\<close>) is a relation between old and new records that every step of
  reconciliation respects, interpreted once for \<^emph>\<open>history is kept\<close> and once for \<^emph>\<open>other Runners are left alone\<close>;
  \<open>runner_view\<close> (\<open>Runner_Lease\<close>) is a view of the state that Job and request operations leave alone, interpreted for the Runner records and
  for their leases.

  \<^bold>\<open>Parameters.\<close> Third-party code is an argument of the definitions that call it: \<^verbatim>\<open>serde_json\<close>, SHA-256, base64, UUID parsing,
  Unicode's alphanumeric table. Where a theorem relies on documented behaviour (base64 decodes what it encoded), this is a named
  hypothesis, and the witness instantiates it.

  \<^bold>\<open>Not modelled.\<close> The HTTP, MCP and OAuth servers, the SQLite stores, the Runner's process execution, browser, computer and language
  server control, the command line and desktop programs are I/O around the modelled state. The typed request
  constructors (\<^verbatim>\<open>requests.rs\<close>) and the decoding of Runner operations build wire values; they appear as the outcome of the
  decoding. Of the channels that wake waiting callers only the table of notifiers is modelled, since it decides whether a shared-key Runner
  may expire. The polling loop that hands requests to Runners and takes their answers (\<^verbatim>\<open>polling.rs\<close>) and the tool
  calls that drive coding-agent runs are not modelled.
\<close>

end
